(* ===== verification/Js_Prelude.thy ===== *)
theory Js_Prelude
  imports Complex_Main "HOL-Library.Word" "HOL-Library.Multiset"
begin

text \<open>
  The part of the JavaScript runtime that the dashboard's TypeScript relies on: the
  \<open>number\<close> type with its infinities and NaN, the \<open>Math\<close> functions, the
  32-bit integer operators, array and string primitives (\<open>slice\<close>,
  \<open>padStart\<close>, \<open>parseInt\<close>, \<open>toString\<close>), and the lemmas about them that
  the component theories share.

  Arithmetic on \<open>number\<close> is exact: rounding to 53 bits is not modelled and there is
  one zero. Everything else about the type (division by zero, NaN in comparisons and in
  \<open>Math.min\<close>, truthiness) is as in ECMAScript. Strings are lists of code units below
  256, which is what the modelled code handles (hex, decimal digits, identifiers and
  Latin-1 labels).
\<close>

named_theorems char_defs \<open>definitions of the character classes\<close>
named_theorems bigint_eval \<open>evaluation of BigInt on decimal literals\<close>

section \<open>The number type\<close>

datatype number = NaN | PosInf | NegInf | Fin real

instantiation number :: "{zero, one, plus, uminus, minus, times, inverse, ord}"
begin

definition zero_number :: number where
  "0 = Fin 0"

definition one_number :: number where
  "1 = Fin 1"

fun plus_number :: "number \<Rightarrow> number \<Rightarrow> number" where
  "Fin a + Fin b = Fin (a + b)"
| "NaN + b = NaN"
| "a + NaN = NaN"
| "PosInf + NegInf = NaN"
| "NegInf + PosInf = NaN"
| "PosInf + b = PosInf"
| "a + PosInf = PosInf"
| "NegInf + b = NegInf"
| "a + NegInf = NegInf"

fun uminus_number :: "number \<Rightarrow> number" where
  "- NaN = NaN"
| "- PosInf = NegInf"
| "- NegInf = PosInf"
| "- Fin a = Fin (- a)"

definition minus_number :: "number \<Rightarrow> number \<Rightarrow> number" where
  "(a::number) - b = a + (- b)"

fun times_number :: "number \<Rightarrow> number \<Rightarrow> number" where
  "Fin a * Fin b = Fin (a * b)"
| "NaN * b = NaN"
| "a * NaN = NaN"
| "PosInf * PosInf = PosInf"
| "PosInf * NegInf = NegInf"
| "NegInf * PosInf = NegInf"
| "NegInf * NegInf = PosInf"
| "PosInf * Fin b = (if b = 0 then NaN else if 0 < b then PosInf else NegInf)"
| "NegInf * Fin b = (if b = 0 then NaN else if 0 < b then NegInf else PosInf)"
| "Fin a * PosInf = (if a = 0 then NaN else if 0 < a then PosInf else NegInf)"
| "Fin a * NegInf = (if a = 0 then NaN else if 0 < a then NegInf else PosInf)"

fun divide_number :: "number \<Rightarrow> number \<Rightarrow> number" where
  "divide_number (Fin a) (Fin b) =
     (if b = 0 then (if a = 0 then NaN else if 0 < a then PosInf else NegInf)
      else Fin (a / b))"
| "divide_number NaN b = NaN"
| "divide_number a NaN = NaN"
| "divide_number (Fin a) PosInf = Fin 0"
| "divide_number (Fin a) NegInf = Fin 0"
| "divide_number PosInf (Fin b) = (if 0 \<le> b then PosInf else NegInf)"
| "divide_number NegInf (Fin b) = (if 0 \<le> b then NegInf else PosInf)"
| "divide_number a b = NaN"

definition inverse_number :: "number \<Rightarrow> number" where
  "inverse_number a = divide 1 a"

fun less_eq_number :: "number \<Rightarrow> number \<Rightarrow> bool" where
  "(Fin a \<le> Fin b) = (a \<le> b)"
| "(NaN \<le> b) = False"
| "(a \<le> NaN) = False"
| "(NegInf \<le> b) = True"
| "(a \<le> PosInf) = True"
| "(PosInf \<le> b) = False"
| "(a \<le> NegInf) = False"

fun less_number :: "number \<Rightarrow> number \<Rightarrow> bool" where
  "(Fin a < Fin b) = (a < b)"
| "(NaN < b) = False"
| "(a < NaN) = False"
| "(PosInf < b) = False"
| "(a < NegInf) = False"
| "(NegInf < b) = True"
| "(a < PosInf) = True"

instance ..

end

instance number :: semigroup_add
proof
  fix a b c :: number
  show "a + b + c = a + (b + c)"
    by (cases a; cases b; cases c) auto
qed

instance number :: numeral ..

lemma number_zero [simp]: "(0::number) = Fin 0"
  by (simp add: zero_number_def)

lemma number_one [simp]: "(1::number) = Fin 1"
  by (simp add: one_number_def)

lemma number_numeral [simp]: "(numeral k :: number) = Fin (numeral k)"
proof (induction k)
  case One
  show ?case by (simp add: numeral.numeral_One)
next
  case (Bit0 k)
  then show ?case by (simp only: numeral.numeral_Bit0 plus_number.simps(1))
next
  case (Bit1 k)
  then show ?case
    by (simp only: numeral.numeral_Bit1 plus_number.simps(1) number_one)
qed

lemma number_minus [simp]: "Fin a - Fin b = Fin (a - b)"
  by (simp add: minus_number_def)

lemma number_minus_NaN [simp]: "NaN - x = NaN" "x - NaN = NaN"
  by (cases x; simp add: minus_number_def)+

lemma number_plus_NaN_right [simp]: "x + NaN = NaN"
  by (cases x) auto

lemma number_times_NaN_right [simp]: "x * NaN = NaN"
  by (cases x) auto

lemma number_NaN_right [simp]: "\<not> x < NaN" "\<not> x \<le> (NaN :: number)"
  by (cases x; simp)+

lemma number_less_irrefl [simp]: "\<not> (x :: number) < x"
  by (cases x) auto

lemma number_divide [simp]: "b \<noteq> 0 \<Longrightarrow> Fin a / Fin b = Fin (a / b)"
  by simp

section \<open>Math and the number predicates\<close>

definition isFinite :: "number \<Rightarrow> bool" where
  "isFinite x = (case x of Fin _ \<Rightarrow> True | _ \<Rightarrow> False)"

text \<open>\<open>!x\<close> on a number: zero and NaN are falsy.\<close>

definition falsy :: "number \<Rightarrow> bool" where
  "falsy x = (x = NaN \<or> x = Fin 0)"

definition Math_max :: "number \<Rightarrow> number \<Rightarrow> number" where
  "Math_max x y = (if x = NaN \<or> y = NaN then NaN else if x < y then y else x)"

definition Math_min :: "number \<Rightarrow> number \<Rightarrow> number" where
  "Math_min x y = (if x = NaN \<or> y = NaN then NaN else if y < x then y else x)"

fun Math_floor :: "number \<Rightarrow> number" where
  "Math_floor (Fin a) = Fin (of_int \<lfloor>a\<rfloor>)"
| "Math_floor x = x"

fun Math_ceil :: "number \<Rightarrow> number" where
  "Math_ceil (Fin a) = Fin (of_int \<lceil>a\<rceil>)"
| "Math_ceil x = x"

text \<open>\<open>Math.round\<close> takes ties towards positive infinity.\<close>

fun Math_round :: "number \<Rightarrow> number" where
  "Math_round (Fin a) = Fin (of_int \<lfloor>a + 1 / 2\<rfloor>)"
| "Math_round x = x"

fun Math_abs :: "number \<Rightarrow> number" where
  "Math_abs (Fin a) = Fin \<bar>a\<bar>"
| "Math_abs NaN = NaN"
| "Math_abs x = PosInf"

fun Math_sqrt :: "number \<Rightarrow> number" where
  "Math_sqrt (Fin a) = (if a < 0 then NaN else Fin (sqrt a))"
| "Math_sqrt PosInf = PosInf"
| "Math_sqrt x = NaN"

fun Math_exp :: "number \<Rightarrow> number" where
  "Math_exp (Fin a) = Fin (exp a)"
| "Math_exp NegInf = Fin 0"
| "Math_exp x = x"

fun Math_log :: "number \<Rightarrow> number" where
  "Math_log (Fin a) = (if a < 0 then NaN else if a = 0 then NegInf else Fin (ln a))"
| "Math_log PosInf = PosInf"
| "Math_log x = NaN"

fun Math_cos :: "number \<Rightarrow> number" where
  "Math_cos (Fin a) = Fin (cos a)"
| "Math_cos x = NaN"

text \<open>\<open>Math.pow\<close> and \<open>**\<close>: a power with exponent 0 is 1, whatever the base.\<close>

definition pow_real :: "real \<Rightarrow> real \<Rightarrow> number" where
  "pow_real x y =
     (if y = 0 then Fin 1
      else if x = 0 then (if 0 < y then Fin 0 else PosInf)
      else if 0 < x then Fin (x powr y)
      else if y = of_int \<lfloor>y\<rfloor>
        then Fin (if even \<lfloor>y\<rfloor> then (- x) powr y else - ((- x) powr y))
      else NaN)"

fun Math_pow :: "number \<Rightarrow> number \<Rightarrow> number" where
  "Math_pow (Fin x) (Fin y) = pow_real x y"
| "Math_pow (Fin x) PosInf = (if \<bar>x\<bar> = 1 then NaN else if 1 < \<bar>x\<bar> then PosInf else Fin 0)"
| "Math_pow (Fin x) NegInf = (if \<bar>x\<bar> = 1 then NaN else if 1 < \<bar>x\<bar> then Fin 0 else PosInf)"
| "Math_pow NaN (Fin y) = (if y = 0 then Fin 1 else NaN)"
| "Math_pow PosInf (Fin y) = (if y = 0 then Fin 1 else if 0 < y then PosInf else Fin 0)"
| "Math_pow NegInf (Fin y) =
     (if y = 0 then Fin 1
      else if 0 < y then (if y = of_int \<lfloor>y\<rfloor> \<and> odd \<lfloor>y\<rfloor> then NegInf else PosInf)
      else Fin 0)"
| "Math_pow PosInf PosInf = PosInf"
| "Math_pow NegInf PosInf = PosInf"
| "Math_pow PosInf NegInf = Fin 0"
| "Math_pow NegInf NegInf = Fin 0"
| "Math_pow x y = NaN"

text \<open>\<open>a % b\<close> for finite operands and a nonzero divisor: the sign follows the dividend.\<close>

definition real_rem :: "real \<Rightarrow> real \<Rightarrow> real" where
  "real_rem a b = a - b * of_int (if 0 \<le> a / b then \<lfloor>a / b\<rfloor> else \<lceil>a / b\<rceil>)"

lemma isFinite_Fin [simp]: "isFinite (Fin a)"
  by (simp add: isFinite_def)

lemma isFinite_special [simp]: "\<not> isFinite NaN" "\<not> isFinite PosInf" "\<not> isFinite NegInf"
  by (simp_all add: isFinite_def)

lemma isFinite_iff: "isFinite x \<longleftrightarrow> (\<exists>a. x = Fin a)"
  by (cases x) auto

lemma falsy_Fin [simp]: "falsy (Fin a) \<longleftrightarrow> a = 0"
  by (simp add: falsy_def)

lemma Math_max_Fin [simp]: "Math_max (Fin a) (Fin b) = Fin (max a b)"
  by (auto simp: Math_max_def)

lemma Math_min_Fin [simp]: "Math_min (Fin a) (Fin b) = Fin (min a b)"
  by (auto simp: Math_min_def)

lemma Math_max_NaN [simp]: "Math_max NaN x = NaN" "Math_max x NaN = NaN"
  by (auto simp: Math_max_def)

lemma Math_min_NaN [simp]: "Math_min NaN x = NaN" "Math_min x NaN = NaN"
  by (auto simp: Math_min_def)

lemma Math_max_Inf [simp]:
  "Math_max (Fin a) NegInf = Fin a" "Math_max NegInf (Fin a) = Fin a"
  "Math_max (Fin a) PosInf = PosInf" "Math_max PosInf (Fin a) = PosInf"
  by (auto simp: Math_max_def)

lemma Math_min_Inf [simp]:
  "Math_min (Fin a) NegInf = NegInf" "Math_min NegInf (Fin a) = NegInf"
  "Math_min (Fin a) PosInf = Fin a" "Math_min PosInf (Fin a) = Fin a"
  by (auto simp: Math_min_def)

lemma round_bounds: "a - 1 / 2 < of_int \<lfloor>a + 1 / 2 :: real\<rfloor> \<and> of_int \<lfloor>a + 1 / 2\<rfloor> \<le> a + 1 / 2"
  by linarith

section \<open>Array and string primitives\<close>

text \<open>
  \<open>slice(start, end)\<close> with the relative indices of ECMAScript: a negative index counts
  from the end, and both are clamped to the array.
\<close>

definition rel_index :: "nat \<Rightarrow> int \<Rightarrow> nat" where
  "rel_index n i = (if i < 0 then nat (max 0 (int n + i)) else min (nat i) n)"

definition slice :: "int \<Rightarrow> int \<Rightarrow> 'a list \<Rightarrow> 'a list" where
  "slice s e xs =
     (let f = rel_index (length xs) s; t = rel_index (length xs) e
      in take (t - f) (drop f xs))"

definition padStart :: "nat \<Rightarrow> char \<Rightarrow> string \<Rightarrow> string" where
  "padStart n c s = replicate (n - length s) c @ s"

definition padEnd :: "nat \<Rightarrow> char \<Rightarrow> string \<Rightarrow> string" where
  "padEnd n c s = s @ replicate (n - length s) c"

definition repeat_str :: "nat \<Rightarrow> string \<Rightarrow> string" where
  "repeat_str n s = concat (replicate n s)"

definition startsWith :: "string \<Rightarrow> string \<Rightarrow> bool" where
  "startsWith s p = (take (length p) s = p)"

text \<open>\<open>xs[i]\<close>: out of range reads \<open>undefined\<close>.\<close>

definition index :: "'a list \<Rightarrow> nat \<Rightarrow> 'a option" where
  "index xs i = (if i < length xs then Some (xs ! i) else None)"

lemma rel_index_le: "rel_index n i \<le> n"
  by (auto simp: rel_index_def)

lemma slice_nat [simp]:
  "slice (int a) (int b) xs = take (b - a) (drop a xs)"
proof -
  have "take (min b (length xs) - min a (length xs)) (drop (min a (length xs)) xs)
      = take (b - a) (drop a xs)"
    by (cases "a \<le> length xs"; cases "b \<le> length xs") (auto simp: min_def)
  then show ?thesis by (simp add: slice_def rel_index_def)
qed

lemma slice_numeral [simp]:
  "slice 0 (numeral b) xs = take (numeral b) xs"
  "slice (numeral a) (numeral b) xs = take (numeral b - numeral a) (drop (numeral a) xs)"
  using slice_nat [of 0 "numeral b" xs] slice_nat [of "numeral a" "numeral b" xs]
  by simp_all

lemma slice_numeral_int [simp]:
  "slice (numeral a) (int b) xs = take (b - numeral a) (drop (numeral a) xs)"
  using slice_nat [of "numeral a" b xs] by simp

lemma length_slice_le: "length (slice s e xs) \<le> length xs"
  by (simp add: slice_def Let_def)

lemma set_slice_subset: "set (slice s e xs) \<subseteq> set xs"
  by (auto simp: slice_def Let_def dest: in_set_takeD in_set_dropD)

lemma length_padStart [simp]: "length (padStart n c s) = max n (length s)"
  by (simp add: padStart_def)

lemma length_padEnd [simp]: "length (padEnd n c s) = max n (length s)"
  by (simp add: padEnd_def)

lemma padStart_id [simp]: "n \<le> length s \<Longrightarrow> padStart n c s = s"
  by (simp add: padStart_def)

lemma padEnd_id [simp]: "n \<le> length s \<Longrightarrow> padEnd n c s = s"
  by (simp add: padEnd_def)

lemma length_repeat_str [simp]: "length (repeat_str n s) = n * length s"
  by (simp add: repeat_str_def length_concat sum_list_replicate)

section \<open>Array.prototype.sort\<close>

text \<open>
  \<open>xs.sort(cmp)\<close> is stable: an element goes after another only when the comparison of the
  two is positive, NaN counting as 0.
\<close>

primrec insert_cmp :: "('a \<Rightarrow> 'a \<Rightarrow> number) \<Rightarrow> 'a \<Rightarrow> 'a list \<Rightarrow> 'a list" where
  "insert_cmp cmp x [] = [x]"
| "insert_cmp cmp x (y # ys) = (if 0 < cmp x y then y # insert_cmp cmp x ys else x # y # ys)"

definition js_sort :: "('a \<Rightarrow> 'a \<Rightarrow> number) \<Rightarrow> 'a list \<Rightarrow> 'a list" where
  "js_sort cmp xs = foldr (insert_cmp cmp) xs []"

lemma set_insert_cmp [simp]: "set (insert_cmp cmp x xs) = insert x (set xs)"
  by (induction xs) auto

lemma mset_insert_cmp [simp]: "mset (insert_cmp cmp x xs) = add_mset x (mset xs)"
  by (induction xs) auto

lemma mset_js_sort [simp]: "mset (js_sort cmp xs) = mset xs"
  by (induction xs) (simp_all add: js_sort_def)

lemma set_js_sort [simp]: "set (js_sort cmp xs) = set xs"
  using mset_js_sort by (metis set_mset_mset)

lemma distinct_map_js_sort [simp]: "distinct (map f (js_sort cmp xs)) \<longleftrightarrow> distinct (map f xs)"
  by (rule mset_eq_imp_distinct_iff) simp

lemma length_js_sort [simp]: "length (js_sort cmp xs) = length xs"
  using mset_js_sort by (metis size_mset)

lemma js_sort_Nil [simp]: "js_sort cmp [] = []"
  by (simp add: js_sort_def)

lemma js_sort_Cons: "js_sort cmp (x # xs) = insert_cmp cmp x (js_sort cmp xs)"
  by (simp add: js_sort_def)

text \<open>A comparator that subtracts finite keys sorts by the key.\<close>

lemma insert_cmp_insort_key:
  assumes "\<And>a b. a \<in> insert x (set xs) \<Longrightarrow> b \<in> insert x (set xs) \<Longrightarrow> cmp a b = Fin (f a - f b)"
  shows "insert_cmp cmp x xs = insort_key f x xs"
  using assms by (induction xs) auto

lemma js_sort_sort_key:
  assumes "\<And>a b. a \<in> set xs \<Longrightarrow> b \<in> set xs \<Longrightarrow> cmp a b = Fin (f a - f b)"
  shows "js_sort cmp xs = sort_key f xs"
  using assms
proof (induction xs)
  case Nil
  show ?case by simp
next
  case (Cons x xs)
  then have "js_sort cmp xs = sort_key f xs" by simp
  moreover have "insert_cmp cmp x (sort_key f xs) = insort_key f x (sort_key f xs)"
    using Cons.prems by (intro insert_cmp_insort_key) simp
  ultimately show ?case by (simp add: js_sort_Cons)
qed

text \<open>Order of the result for comparators \<open>(a, b) => k(b) - k(a)\<close>.\<close>

lemma js_sort_desc:
  assumes "\<And>a b. a \<in> set xs \<Longrightarrow> b \<in> set xs \<Longrightarrow> cmp a b = Fin (f b - f a)"
  shows "sorted_wrt (\<lambda>a b. f b \<le> f a) (js_sort cmp xs)"
proof -
  have "js_sort cmp xs = sort_key (\<lambda>a. - f a) xs"
    using assms by (intro js_sort_sort_key) auto
  moreover have "sorted (map (\<lambda>a. - f a) (sort_key (\<lambda>a. - f a) xs))" by (rule sorted_sort_key)
  ultimately show ?thesis by (simp add: sorted_map)
qed

lemma js_sort_int_desc:
  "sorted_wrt (\<lambda>a b. f b \<le> f a) (js_sort (\<lambda>a b. Fin (of_int (f b - f a))) xs)"
  using js_sort_desc [of xs "\<lambda>a b. Fin (of_int (f b - f a))" "\<lambda>x. of_int (f x)"] by simp

lemma js_sort_int_asc:
  "sorted_wrt (\<lambda>a b. f a \<le> f b) (js_sort (\<lambda>a b. Fin (of_int (f a - f b))) xs)"
  using js_sort_desc [of xs "\<lambda>a b. Fin (of_int (f a - f b))" "\<lambda>x. - of_int (f x)"] by simp

text \<open>A comparator that decides a transitive relation sorts by it.\<close>

lemma insert_cmp_sorted_wrt:
  assumes "\<And>a b. a \<in> A \<Longrightarrow> b \<in> A \<Longrightarrow> if 0 < cmp a b then R b a else R a b"
    and "\<And>a b c. a \<in> A \<Longrightarrow> b \<in> A \<Longrightarrow> c \<in> A \<Longrightarrow> R a b \<Longrightarrow> R b c \<Longrightarrow> R a c"
    and "x \<in> A" "set xs \<subseteq> A" "sorted_wrt R xs"
  shows "sorted_wrt R (insert_cmp cmp x xs)"
  using assms(4,5)
proof (induction xs)
  case (Cons y ys)
  have y: "y \<in> A" "set ys \<subseteq> A" using Cons.prems by auto
  show ?case
  proof (cases "0 < cmp x y")
    case True
    then have "R y x" using assms(1) [OF assms(3) y(1)] by simp
    then show ?thesis using True Cons y by auto
  next
    case False
    then have xy: "R x y" using assms(1) [OF assms(3) y(1)] by simp
    moreover have "R x z" if "z \<in> set ys" for z
      using assms(2) [OF assms(3) y(1) _ xy] that y(2) Cons.prems by auto
    ultimately show ?thesis using False Cons.prems by auto
  qed
qed simp

lemma js_sort_sorted_wrt:
  assumes "\<And>a b. a \<in> set xs \<Longrightarrow> b \<in> set xs \<Longrightarrow> if 0 < cmp a b then R b a else R a b"
    and "\<And>a b c. a \<in> set xs \<Longrightarrow> b \<in> set xs \<Longrightarrow> c \<in> set xs \<Longrightarrow> R a b \<Longrightarrow> R b c \<Longrightarrow> R a c"
  shows "sorted_wrt R (js_sort cmp xs)"
proof -
  have "set ys \<subseteq> set xs \<Longrightarrow> sorted_wrt R (js_sort cmp ys)" for ys
  proof (induction ys)
    case (Cons y ys)
    show ?case
      unfolding js_sort_Cons
      by (rule insert_cmp_sorted_wrt [where A = "set xs", OF assms]) (use Cons in auto)
  qed simp
  then show ?thesis by simp
qed

text \<open>\<open>Set.prototype.add\<close> on the insertion-ordered members.\<close>

definition js_set_add :: "'a list \<Rightarrow> 'a \<Rightarrow> 'a list" where
  "js_set_add s x = (if x \<in> set s then s else s @ [x])"

lemma set_js_set_add [simp]: "set (js_set_add s x) = insert x (set s)"
  by (auto simp: js_set_add_def)

lemma distinct_js_set_add [simp]: "distinct (js_set_add s x) \<longleftrightarrow> distinct s"
  by (auto simp: js_set_add_def)

lemma foldl_js_set_add:
  "set (foldl (\<lambda>s x. js_set_add s (f x)) s xs) = set s \<union> f ` set xs
   \<and> (distinct (foldl (\<lambda>s x. js_set_add s (f x)) s xs) \<longleftrightarrow> distinct s)"
  by (induction xs arbitrary: s) auto

lemma length_foldl_js_set_add: "length (foldl (\<lambda>s x. js_set_add s (f x)) [] xs) = card (f ` set xs)"
  using foldl_js_set_add [of f "[]" xs] by (metis distinct.simps(1) distinct_card empty_set sup_bot_left)

text \<open>Sorting on a finite numeric key, upwards and downwards.\<close>

lemma js_sort_asc_finite:
  assumes "\<And>x. x \<in> set xs \<Longrightarrow> isFinite (f x)"
  shows "sorted_wrt (\<lambda>a b. f a \<le> f b) (js_sort (\<lambda>a b. f a - f b) xs)"
proof (rule js_sort_sorted_wrt)
  have fin: "\<exists>r. f x = Fin r" if "x \<in> set xs" for x using assms [OF that] by (simp add: isFinite_iff)
  fix a b assume a: "a \<in> set xs" and b: "b \<in> set xs"
  show "if 0 < f a - f b then f b \<le> f a else f a \<le> f b" using fin [OF a] fin [OF b] by auto
  fix c assume "c \<in> set xs" "f a \<le> f b" "f b \<le> f c"
  then show "f a \<le> f c" using fin [OF a] fin [OF b] fin [of c] by auto
qed

lemma js_sort_desc_finite:
  assumes "\<And>x. x \<in> set xs \<Longrightarrow> isFinite (f x)"
  shows "sorted_wrt (\<lambda>a b. f b \<le> f a) (js_sort (\<lambda>a b. f b - f a) xs)"
proof (rule js_sort_sorted_wrt)
  have fin: "\<exists>r. f x = Fin r" if "x \<in> set xs" for x using assms [OF that] by (simp add: isFinite_iff)
  fix a b assume a: "a \<in> set xs" and b: "b \<in> set xs"
  show "if 0 < f b - f a then f a \<le> f b else f b \<le> f a" using fin [OF a] fin [OF b] by auto
  fix c assume "c \<in> set xs" "f b \<le> f a" "f c \<le> f b"
  then show "f c \<le> f a" using fin [OF a] fin [OF b] fin [of c] by auto
qed

text \<open>\<open>Map.set\<close>: a Map iterates in insertion order, and an update keeps the position.\<close>

fun js_map_set :: "('k \<times> 'v) list \<Rightarrow> 'k \<Rightarrow> 'v \<Rightarrow> ('k \<times> 'v) list" where
  "js_map_set [] k v = [(k, v)]"
| "js_map_set ((k', v') # m) k v = (if k' = k then (k, v) # m else (k', v') # js_map_set m k v)"

lemma map_of_js_map_set [simp]: "map_of (js_map_set m k v) = (map_of m)(k \<mapsto> v)"
  by (induction m k v rule: js_map_set.induct) auto

lemma keys_js_map_set [simp]: "fst ` set (js_map_set m k v) = insert k (fst ` set m)"
  by (induction m k v rule: js_map_set.induct) auto

lemma distinct_js_map_set [simp]: "distinct (map fst (js_map_set m k v)) = distinct (map fst m)"
proof (induction m k v rule: js_map_set.induct)
  case (2 k' v' m k v)
  have "set (map fst (js_map_set m k v)) = insert k (set (map fst m))"
    using keys_js_map_set [of m k v] by simp
  with 2 show ?case by auto
qed simp

lemma foldl_plus_sum_list: "foldl (\<lambda>s x. s + f x) a xs = a + sum_list (map f xs)" for a :: "'a :: monoid_add"
  by (induction xs arbitrary: a) (simp_all add: add.assoc)

text \<open>\<open>xs.reduce((s, x) => s + f(x), 0)\<close>\<close>

definition sum_num :: "('a \<Rightarrow> number) \<Rightarrow> 'a list \<Rightarrow> number" where
  "sum_num f xs = foldl (\<lambda>s x. s + f x) 0 xs"

lemma foldl_Fin_plus:
  "(\<And>x. x \<in> set xs \<Longrightarrow> f x = Fin (g x)) \<Longrightarrow>
     foldl (\<lambda>s x. s + f x) (Fin a) xs = Fin (a + sum_list (map g xs))"
  by (induction xs arbitrary: a) (simp_all add: add.assoc)

lemma sum_num_Fin:
  "(\<And>x. x \<in> set xs \<Longrightarrow> f x = Fin (g x)) \<Longrightarrow> sum_num f xs = Fin (sum_list (map g xs))"
  using foldl_Fin_plus [of xs f g 0] by (simp add: sum_num_def)

lemma sum_num_map: "sum_num f (map h xs) = sum_num (\<lambda>x. f (h x)) xs"
  by (simp add: sum_num_def foldl_map)

section \<open>Digits, \<open>toString(radix)\<close> and \<open>parseInt\<close>\<close>

definition digit_char :: "nat \<Rightarrow> char" where
  "digit_char d = (if d < 10 then char_of (48 + d) else char_of (87 + d))"

definition digit_val :: "char \<Rightarrow> nat option" where
  "digit_val c =
     (let n = of_char c :: nat in
      if 48 \<le> n \<and> n \<le> 57 then Some (n - 48)
      else if 97 \<le> n \<and> n \<le> 122 then Some (n - 87)
      else if 65 \<le> n \<and> n \<le> 90 then Some (n - 55)
      else None)"

definition is_digit :: "nat \<Rightarrow> char \<Rightarrow> bool" where
  "is_digit r c = (case digit_val c of Some d \<Rightarrow> d < r | None \<Rightarrow> False)"

function to_radix :: "nat \<Rightarrow> nat \<Rightarrow> string" where
  "to_radix r n =
     (if n < r \<or> r < 2 then [digit_char n]
      else to_radix r (n div r) @ [digit_char (n mod r)])"
  by pat_completeness auto
termination
  by (relation "measure (\<lambda>(r, n). n)") (auto intro: div_less_dividend)

declare to_radix.simps [simp del]

definition digits_val :: "nat \<Rightarrow> string \<Rightarrow> nat" where
  "digits_val r s = foldl (\<lambda>a c. a * r + the (digit_val c)) 0 s"

definition js_space :: "char \<Rightarrow> bool" where
  "js_space c = (of_char c \<in> {9, 10, 11, 12, 13, 32, 160 :: nat})"

declare digit_val_def [char_defs] is_digit_def [char_defs] js_space_def [char_defs]

definition trim_start :: "string \<Rightarrow> string" where
  "trim_start s = dropWhile js_space s"

definition trim :: "string \<Rightarrow> string" where
  "trim s = rev (dropWhile js_space (rev (dropWhile js_space s)))"

text \<open>\<open>parseInt(s, r)\<close>; NaN is \<open>None\<close>.\<close>

definition parseInt :: "nat \<Rightarrow> string \<Rightarrow> int option" where
  "parseInt r s =
     (let s1 = trim_start s;
          neg = startsWith s1 ''-'';
          s2 = (if neg \<or> startsWith s1 ''+'' then tl s1 else s1);
          s3 = (if r = 16 \<and> (startsWith s2 ''0x'' \<or> startsWith s2 ''0X'') then drop 2 s2 else s2);
          ds = takeWhile (is_digit r) s3
      in if ds = [] then None
         else Some (if neg then - int (digits_val r ds) else int (digits_val r ds)))"

definition int_to_string :: "int \<Rightarrow> string" where
  "int_to_string i =
     (if i < 0 then CHR ''-'' # to_radix 10 (nat (- i)) else to_radix 10 (nat i))"


lemma digit_val_char [simp]: "d < 36 \<Longrightarrow> digit_val (digit_char d) = Some d"
  by (auto simp: digit_val_def digit_char_def Let_def)

lemma is_digit_char: "d < r \<Longrightarrow> r \<le> 36 \<Longrightarrow> is_digit r (digit_char d)"
  by (simp add: is_digit_def)

lemma digits_val_Nil [simp]: "digits_val r [] = 0"
  by (simp add: digits_val_def)

lemma digits_val_snoc [simp]: "digits_val r (s @ [c]) = digits_val r s * r + the (digit_val c)"
  by (simp add: digits_val_def)

lemma digits_val_append: "digits_val r (s @ t) = digits_val r s * r ^ length t + digits_val r t"
proof (induction t rule: rev_induct)
  case Nil
  show ?case by simp
next
  case (snoc c t)
  have "digits_val r (s @ t @ [c]) = digits_val r (s @ t) * r + the (digit_val c)"
    using digits_val_snoc [of r "s @ t" c] by simp
  with snoc show ?case by (simp add: algebra_simps)
qed

lemma digits_val_single [simp]: "digits_val r [c] = the (digit_val c)"
  using digits_val_snoc [of r "[]" c] by simp

lemma digits_val_Cons: "digits_val r (c # t) = the (digit_val c) * r ^ length t + digits_val r t"
  using digits_val_append [of r "[c]" t] by simp

lemma digit_val_zero [simp]: "digit_val CHR ''0'' = Some 0"
  by (simp add: digit_val_def)

lemma digits_val_zeros [simp]: "digits_val r (replicate n CHR ''0'') = 0"
  by (induction n) (simp_all add: digits_val_Cons)

lemma digits_val_leading_zeros [simp]: "digits_val r (replicate n CHR ''0'' @ s) = digits_val r s"
  by (simp add: digits_val_append)

lemma digits_val_padStart [simp]: "digits_val r (padStart n CHR ''0'' s) = digits_val r s"
  by (simp add: padStart_def)

lemma to_radix_nonempty [simp]: "to_radix r n \<noteq> []"
  by (subst to_radix.simps) simp

lemma digits_val_to_radix [simp]:
  "2 \<le> r \<Longrightarrow> r \<le> 36 \<Longrightarrow> digits_val r (to_radix r n) = n"
proof (induction r n rule: to_radix.induct)
  case (1 r n)
  show ?case
  proof (cases "n < r")
    case True
    with "1.prems" show ?thesis by (simp add: to_radix.simps [of r n])
  next
    case False
    with "1.prems" have "n mod r < 36"
      by (meson less_le_trans mod_less_divisor not_less zero_less_iff_neq_zero not_numeral_le_zero)
    with False "1.prems" "1.IH" show ?thesis
      by (simp add: to_radix.simps [of r n])
  qed
qed

lemma to_radix_digits: "2 \<le> r \<Longrightarrow> r \<le> 36 \<Longrightarrow> \<forall>c \<in> set (to_radix r n). is_digit r c"
proof (induction r n rule: to_radix.induct)
  case (1 r n)
  show ?case
  proof (cases "n < r")
    case True
    with "1.prems" show ?thesis by (simp add: to_radix.simps [of r n] is_digit_char)
  next
    case False
    with "1.prems" "1.IH" show ?thesis
      by (auto simp: to_radix.simps [of r n] intro!: is_digit_char)
  qed
qed

lemma int_to_string_nat [simp]: "int_to_string (int n) = to_radix 10 n"
  by (simp add: int_to_string_def)

lemma to_radix_inj: "to_radix 10 m = to_radix 10 n \<Longrightarrow> m = n"
proof -
  have "digits_val 10 (to_radix 10 k) = k" for k by (rule digits_val_to_radix) simp_all
  then show "to_radix 10 m = to_radix 10 n \<Longrightarrow> m = n" by metis
qed

lemma length_to_radix_le: "n < r ^ k \<Longrightarrow> 0 < k \<Longrightarrow> 2 \<le> r \<Longrightarrow> length (to_radix r n) \<le> k"
proof (induction k arbitrary: n)
  case 0
  then show ?case by simp
next
  case (Suc k)
  show ?case
  proof (cases "n < r")
    case True
    then show ?thesis by (simp add: to_radix.simps [of r n])
  next
    case False
    with Suc.prems have k: "0 < k" by (cases k) auto
    have "n div r < r ^ k"
      using Suc.prems(1) by (simp add: less_mult_imp_div_less mult.commute)
    with Suc k have "length (to_radix r (n div r)) \<le> k" by simp
    with False Suc.prems show ?thesis by (simp add: to_radix.simps [of r n])
  qed
qed

lemma digits_val_less:
  assumes "\<forall>c \<in> set s. is_digit r c"
  shows "digits_val r s < r ^ length s"
  using assms
proof (induction s)
  case Nil
  show ?case by simp
next
  case (Cons c s)
  then obtain d where d: "digit_val c = Some d" "d < r"
    by (auto simp: is_digit_def split: option.splits)
  have "d * r ^ length s + digits_val r s < d * r ^ length s + r ^ length s"
    using Cons by simp
  also have "\<dots> = Suc d * r ^ length s" by simp
  also have "\<dots> \<le> r * r ^ length s" using d(2) by (intro mult_le_mono) auto
  finally show ?case using d by (simp add: digits_val_Cons)
qed

lemma digits_val_drop:
  assumes "\<forall>c \<in> set s. is_digit r c" "k \<le> length s"
  shows "digits_val r (drop (length s - k) s) = digits_val r s mod r ^ k"
proof -
  let ?t = "take (length s - k) s" and ?d = "drop (length s - k) s"
  have len: "length ?d = k" using assms(2) by simp
  have "digits_val r ?d < r ^ k"
    using digits_val_less [of ?d r] assms(1) len by (auto dest: in_set_dropD)
  moreover have "digits_val r s = digits_val r ?t * r ^ k + digits_val r ?d"
    using digits_val_append [of r ?t ?d] len by simp
  ultimately show ?thesis by simp
qed

text \<open>Lower-case digit strings of one length are determined by their value.\<close>

definition canonical :: "nat \<Rightarrow> string \<Rightarrow> bool" where
  "canonical r s = (\<forall>c \<in> set s. \<exists>d < r. c = digit_char d)"

lemma canonical_append [simp]: "canonical r (s @ t) \<longleftrightarrow> canonical r s \<and> canonical r t"
  by (auto simp: canonical_def)

lemma digit_char_zero: "digit_char 0 = CHR ''0''"
proof -
  have "of_char CHR ''0'' = (48 :: nat)" by simp
  then have "char_of (48 :: nat) = CHR ''0''" by (metis char_of_char)
  then show ?thesis by (simp add: digit_char_def)
qed

lemma canonical_zeros: "0 < r \<Longrightarrow> canonical r (replicate n CHR ''0'')"
  by (auto simp: canonical_def digit_char_zero intro!: exI [of _ 0])

lemma canonical_to_radix: "2 \<le> r \<Longrightarrow> canonical r (to_radix r n)"
proof (induction r n rule: to_radix.induct)
  case (1 r n)
  show ?case
  proof (cases "n < r")
    case True
    then show ?thesis by (auto simp: to_radix.simps [of r n] canonical_def)
  next
    case False
    with "1.prems" have "canonical r [digit_char (n mod r)]"
      by (auto simp: canonical_def intro!: exI [of _ "n mod r"])
    with False "1" show ?thesis by (simp add: to_radix.simps [of r n])
  qed
qed

lemma canonical_drop: "canonical r s \<Longrightarrow> canonical r (drop k s)"
  by (auto simp: canonical_def dest: in_set_dropD)

lemma canonical_is_digit: "canonical r s \<Longrightarrow> r \<le> 36 \<Longrightarrow> \<forall>c \<in> set s. is_digit r c"
  by (auto simp: canonical_def is_digit_char)

lemma canonical_inj:
  assumes "length s = length t" "canonical r s" "canonical r t" "r \<le> 36"
    and "digits_val r s = digits_val r t"
  shows "s = t"
  using assms
proof (induction s t rule: list_induct2)
  case Nil
  show ?case by simp
next
  case (Cons c s d t)
  then obtain i j where ij: "c = digit_char i" "i < r" "d = digit_char j" "j < r"
    by (auto simp: canonical_def)
  have st: "canonical r s" "canonical r t" using Cons.prems by (auto simp: canonical_def)
  have lt: "digits_val r s < r ^ length s" "digits_val r t < r ^ length s"
    using digits_val_less [of s r] digits_val_less [of t r] st canonical_is_digit [of r] Cons
    by simp_all
  have eq: "i * r ^ length s + digits_val r s = j * r ^ length s + digits_val r t"
    using Cons ij by (simp add: digits_val_Cons)
  have quot: "x < p \<Longrightarrow> (k * p + x) div p = k" for k x p :: nat by simp
  have "i = j"
    using quot [OF lt(1), of i] quot [OF lt(2), of j] eq by simp
  with eq have "digits_val r s = digits_val r t" by simp
  with Cons.IH st Cons.prems(3) ij \<open>i = j\<close> show ?case by simp
qed

lemma is_digit_not_space: "is_digit r c \<Longrightarrow> \<not> js_space c"
  by (auto simp: char_defs Let_def split: if_splits)

lemma is_digit_not_sign: "is_digit r c \<Longrightarrow> c \<noteq> CHR ''-'' \<and> c \<noteq> CHR ''+''"
  by (auto simp: char_defs Let_def split: if_splits)

lemma is_digit_16_not_x: "is_digit 16 c \<Longrightarrow> c \<noteq> CHR ''x'' \<and> c \<noteq> CHR ''X''"
  by (auto simp: char_defs Let_def split: if_splits)

text \<open>On a string of digits \<open>parseInt\<close> is the value of the digits.\<close>

lemma parseInt_digits:
  assumes "s \<noteq> []" and dig: "\<forall>c \<in> set s. is_digit r c"
  shows "parseInt r s = Some (int (digits_val r s))"
proof -
  obtain c t where s: "s = c # t" using assms(1) by (cases s) auto
  have c: "\<not> js_space c" "c \<noteq> CHR ''-''" "c \<noteq> CHR ''+''"
    using dig s is_digit_not_space is_digit_not_sign by auto
  have x: "\<not> (r = 16 \<and> (startsWith s ''0x'' \<or> startsWith s ''0X''))"
    using dig s is_digit_16_not_x by (cases t) (auto simp: startsWith_def)
  have tw: "takeWhile (is_digit r) s = s"
    using dig by (simp add: takeWhile_eq_all_conv)
  have "trim_start s = s" using c s by (simp add: trim_start_def)
  moreover have "\<not> startsWith s ''-''" "\<not> startsWith s ''+''"
    using c s by (auto simp: startsWith_def)
  ultimately show ?thesis
    using x assms(1) by (auto simp: parseInt_def Let_def tw)
qed

text \<open>
  A number in a template literal. Only integral values are printed this way by the modelled
  code, so the digits of the integer are enough.
\<close>

fun integral_to_string :: "number \<Rightarrow> string" where
  "integral_to_string (Fin a) = int_to_string \<lfloor>a\<rfloor>"
| "integral_to_string NaN = ''NaN''"
| "integral_to_string PosInf = ''Infinity''"
| "integral_to_string NegInf = ''-Infinity''"

text \<open>
  \<open>toFixed(f)\<close>: the nearest multiple of \<open>10 ^ -f\<close>, ties upwards, the sign printed
  separately. From \<open>1e21\<close> on, and for the special values, it is the general
  number-to-string conversion, which depends on the rounding of doubles and is a parameter.
\<close>

definition fixed_digits :: "nat \<Rightarrow> real \<Rightarrow> string" where
  "fixed_digits f x =
     (let s = padStart (f + 1) CHR ''0'' (to_radix 10 (nat \<lfloor>x * 10 ^ f + 1 / 2\<rfloor>));
          k = length s - f
      in if f = 0 then s else take k s @ ''.'' @ drop k s)"

definition toFixed :: "(number \<Rightarrow> string) \<Rightarrow> nat \<Rightarrow> number \<Rightarrow> string" where
  "toFixed numToString f v =
     (case v of
        Fin x \<Rightarrow>
          if 10 ^ 21 \<le> \<bar>x\<bar> then numToString v
          else if x < 0 then CHR ''-'' # fixed_digits f (- x)
          else fixed_digits f x
      | _ \<Rightarrow> numToString v)"

definition num_of_parse :: "int option \<Rightarrow> number" where
  "num_of_parse v = (case v of Some n \<Rightarrow> Fin (of_int n) | None \<Rightarrow> NaN)"

text \<open>
  \<open>Number(s)\<close> of a string: the numeric literal grammar after trimming, the empty string being
  0 and anything else NaN.
\<close>

definition all_digits :: "string \<Rightarrow> bool" where
  "all_digits s = (s \<noteq> [] \<and> list_all (is_digit 10) s)"

definition split_at :: "(char \<Rightarrow> bool) \<Rightarrow> string \<Rightarrow> string \<times> string option" where
  "split_at P s =
     (let a = takeWhile (\<lambda>c. \<not> P c) s
      in (a, if length a < length s then Some (drop (length a + 1) s) else None))"

definition strip_sign :: "string \<Rightarrow> bool \<times> string" where
  "strip_sign s =
     (if startsWith s ''-'' then (True, tl s) else (False, if startsWith s ''+'' then tl s else s))"

definition mantissa_value :: "string \<Rightarrow> real option" where
  "mantissa_value s =
     (case split_at (\<lambda>c. c = CHR ''.'') s of (i, fr) \<Rightarrow>
        let f = (case fr of None \<Rightarrow> [] | Some x \<Rightarrow> x) in
        if all_digits (i @ f)
        then Some (real (digits_val 10 (i @ f)) / 10 ^ length f) else None)"

definition exponent_value :: "string option \<Rightarrow> int option" where
  "exponent_value e =
     (case e of
        None \<Rightarrow> Some 0
      | Some x \<Rightarrow> (case strip_sign x of (neg, d) \<Rightarrow>
          if all_digits d
          then Some (if neg then - int (digits_val 10 d) else int (digits_val 10 d)) else None))"

definition Number_str :: "string \<Rightarrow> number" where
  "Number_str s =
     (let t = trim s in
      if t = [] then Fin 0
      else if startsWith t ''0x'' \<or> startsWith t ''0X''
      then (let d = drop 2 t in
            if d \<noteq> [] \<and> list_all (is_digit 16) d then Fin (real (digits_val 16 d)) else NaN)
      else case strip_sign t of (neg, u) \<Rightarrow>
        if u = ''Infinity'' then (if neg then NegInf else PosInf)
        else case split_at (\<lambda>c. c = CHR ''e'' \<or> c = CHR ''E'') u of (mt, ex) \<Rightarrow>
          (case (mantissa_value mt, exponent_value ex) of
             (Some v, Some e) \<Rightarrow> Fin ((if neg then - v else v) * 10 powi e)
           | _ \<Rightarrow> NaN))"

section \<open>BigInt\<close>

text \<open>Division and remainder of bigints truncate towards zero (a zero divisor throws and is checked by the callers).\<close>

definition bigint_div :: "int \<Rightarrow> int \<Rightarrow> int" where
  "bigint_div a b = sgn a * sgn b * (\<bar>a\<bar> div \<bar>b\<bar>)"

definition bigint_mod :: "int \<Rightarrow> int \<Rightarrow> int" where
  "bigint_mod a b = a - b * bigint_div a b"

text \<open>\<open>BigInt(s)\<close>; a SyntaxError is \<open>None\<close>. A sign is only allowed before decimal digits.\<close>

definition radix_literal :: "nat \<Rightarrow> string \<Rightarrow> int option" where
  "radix_literal r d = (if d \<noteq> [] \<and> list_all (is_digit r) d then Some (int (digits_val r d)) else None)"

definition BigInt_str :: "string \<Rightarrow> int option" where
  "BigInt_str s =
     (let t = trim s in
      if t = [] then Some 0
      else if startsWith t ''0x'' \<or> startsWith t ''0X'' then radix_literal 16 (drop 2 t)
      else if startsWith t ''0o'' \<or> startsWith t ''0O'' then radix_literal 8 (drop 2 t)
      else if startsWith t ''0b'' \<or> startsWith t ''0B'' then radix_literal 2 (drop 2 t)
      else case strip_sign t of (neg, d) \<Rightarrow>
        map_option (\<lambda>n. if neg then - n else n) (radix_literal 10 d))"

lemma bigint_div_nonneg [simp]: "0 \<le> a \<Longrightarrow> 0 \<le> b \<Longrightarrow> bigint_div a b = a div b"
  by (cases "a = 0"; cases "b = 0") (auto simp: bigint_div_def)

lemma bigint_mod_nonneg [simp]: "0 \<le> a \<Longrightarrow> 0 \<le> b \<Longrightarrow> bigint_mod a b = a mod b"
  by (simp add: bigint_mod_def minus_mult_div_eq_mod)

lemma trim_digits:
  assumes "list_all (is_digit r) s"
  shows "trim s = s"
proof -
  have no: "\<forall>c \<in> set s. \<not> js_space c"
    using assms is_digit_not_space by (auto simp: list_all_iff)
  have drop: "dropWhile js_space t = t" if "\<forall>c \<in> set t. \<not> js_space c" for t
    using that by (cases t) auto
  show ?thesis using drop [of s] drop [of "rev s"] no by (simp add: trim_def)
qed

lemma digit_not_letter: "is_digit 10 c \<Longrightarrow> c \<notin> set ''xXoObB+-. ''"
  by (auto simp: char_defs Let_def split: if_splits)

lemma startsWith_digits:
  assumes "list_all (is_digit 10) s" "c \<in> set ''xXoObB''"
  shows "\<not> startsWith s [CHR ''0'', c]"
proof
  assume "startsWith s [CHR ''0'', c]"
  then have "take 2 s = [CHR ''0'', c]" by (simp add: startsWith_def numeral_2_eq_2)
  then have "c \<in> set s" by (metis in_set_takeD list.set_intros(1) list.set_intros(2))
  then show False using assms digit_not_letter by (auto simp: list_all_iff)
qed

lemma BigInt_str_digits:
  assumes "all_digits s"
  shows "BigInt_str s = Some (int (digits_val 10 s))"
proof -
  have dg: "list_all (is_digit 10) s" and ne: "s \<noteq> []" using assms by (simp_all add: all_digits_def)
  obtain c t where s: "s = c # t" using ne by (cases s) auto
  have "c \<noteq> CHR ''-'' \<and> c \<noteq> CHR ''+''" using dg s is_digit_not_sign [of 10 c] by simp
  then have "strip_sign s = (False, s)" using s by (simp add: strip_sign_def startsWith_def)
  then show ?thesis
    using dg ne startsWith_digits [OF dg]
    by (simp add: BigInt_str_def trim_digits [OF dg] radix_literal_def)
qed

lemma split_at_None:
  assumes "\<And>x. x \<in> set s \<Longrightarrow> \<not> P x"
  shows "split_at P s = (s, None)"
proof -
  have "takeWhile (\<lambda>c. \<not> P c) s = s" using assms by simp
  then show ?thesis by (simp add: split_at_def Let_def del: takeWhile_eq_all_conv)
qed

lemma Number_str_digits:
  assumes "all_digits s"
  shows "Number_str s = Fin (real (digits_val 10 s))"
proof -
  have dg: "list_all (is_digit 10) s" and ne: "s \<noteq> []" using assms by (simp_all add: all_digits_def)
  have no: "x \<noteq> c" if "x \<in> set s" "\<not> is_digit 10 c" for x c using dg that by (auto simp: list_all_iff)
  have hex: "\<not> startsWith s ''0x''" "\<not> startsWith s ''0X''"
    using startsWith_digits dg by auto
  have sg: "strip_sign s = (False, s)"
    using ne dg is_digit_not_sign [of 10 "hd s"] by (cases s) (auto simp: strip_sign_def startsWith_def)
  have inf: "s \<noteq> ''Infinity''" using dg by (auto simp: char_defs)
  have nd: "\<not> is_digit 10 CHR ''e''" "\<not> is_digit 10 CHR ''E''" "\<not> is_digit 10 CHR ''.''"
    by (simp_all add: char_defs)
  have e: "split_at (\<lambda>c. c = CHR ''e'' \<or> c = CHR ''E'') s = (s, None)"
    using no nd by (intro split_at_None) auto
  have d: "split_at (\<lambda>c. c = CHR ''.'') s = (s, None)"
    using no nd by (intro split_at_None) auto
  show ?thesis
    using ne assms hex sg inf e d trim_digits [of 10 s] dg
    by (simp add: Number_str_def Let_def mantissa_value_def exponent_value_def)
qed

declare BigInt_str_digits [bigint_eval] all_digits_def [bigint_eval] digit_val_def [bigint_eval] is_digit_def [bigint_eval]

section \<open>Bytes as hex\<close>

type_synonym byte = "8 word"
type_synonym bytes = "byte list"

text \<open>\<open>b.toString(16).padStart(2, '0')\<close> and its concatenation over an array of bytes.\<close>

definition byte_hex :: "byte \<Rightarrow> string" where
  "byte_hex b = padStart 2 CHR ''0'' (to_radix 16 (unat b))"

definition bytes_hex :: "bytes \<Rightarrow> string" where
  "bytes_hex bs = concat (map byte_hex bs)"

lemma unat_byte_less: "unat (b :: byte) < 256"
  using unsigned_less [of b, where ?'a = nat] by simp

lemma length_byte_hex [simp]: "length (byte_hex b) = 2"
proof -
  have "length (to_radix 16 (unat b)) \<le> 2"
    using length_to_radix_le [of "unat b" 16 2] unat_byte_less [of b] by simp
  then show ?thesis by (simp add: byte_hex_def)
qed

lemma digits_val_byte_hex [simp]: "digits_val 16 (byte_hex b) = unat b"
  by (simp add: byte_hex_def)

lemma is_digit_zero: "0 < r \<Longrightarrow> is_digit r CHR ''0''"
  by (simp add: is_digit_def)

lemma byte_hex_digits: "c \<in> set (byte_hex b) \<Longrightarrow> is_digit 16 c"
  using to_radix_digits [of 16 "unat b"]
  by (auto simp: byte_hex_def padStart_def is_digit_zero)

lemma byte_hexE:
  obtains c d where "byte_hex b = [c, d]" "is_digit 16 c" "is_digit 16 d"
proof -
  obtain c d where cd: "byte_hex b = [c, d]"
    using length_byte_hex [of b] by (metis (no_types) length_0_conv length_Suc_conv numeral_2_eq_2)
  moreover have "is_digit 16 c" "is_digit 16 d"
    using byte_hex_digits [of c b] byte_hex_digits [of d b] cd by simp_all
  ultimately show ?thesis using that by blast
qed

lemma parseInt_byte_hex [simp]: "parseInt 16 (byte_hex b) = Some (int (unat b))"
proof -
  have "byte_hex b \<noteq> []" using length_byte_hex [of b] by force
  then show ?thesis
    using parseInt_digits [of "byte_hex b" 16] byte_hex_digits by simp
qed

lemma bytes_hex_Nil [simp]: "bytes_hex [] = []"
  by (simp add: bytes_hex_def)

lemma bytes_hex_Cons [simp]: "bytes_hex (b # bs) = byte_hex b @ bytes_hex bs"
  by (simp add: bytes_hex_def)

lemma bytes_hex_append [simp]: "bytes_hex (as @ bs) = bytes_hex as @ bytes_hex bs"
  by (simp add: bytes_hex_def)

lemma length_bytes_hex [simp]: "length (bytes_hex bs) = 2 * length bs"
  by (induction bs) auto

lemma bytes_hex_eq_Nil [simp]: "bytes_hex bs = [] \<longleftrightarrow> bs = []"
  by (metis length_0_conv length_bytes_hex mult_is_0 zero_neq_numeral)

lemma bytes_hex_digits: "c \<in> set (bytes_hex bs) \<Longrightarrow> is_digit 16 c"
  by (induction bs) (auto dest: byte_hex_digits)

lemma digits_val_bytes_hex:
  "digits_val 16 (bytes_hex bs) = foldl (\<lambda>a b. a * 256 + unat b) 0 bs"
proof (induction bs rule: rev_induct)
  case Nil
  show ?case by simp
next
  case (snoc b bs)
  then show ?case by (simp add: digits_val_append power2_eq_square)
qed

lemma unat_byte_of_word:
  "unat (ucast (drop_bit k w) :: byte) = unat (w :: 'a::len word) div 2 ^ k mod 256"
  by (simp add: unsigned_ucast_eq take_bit_eq_mod unat_drop_bit_eq
        drop_bit_eq_div [where ?'a = nat])

lemma unat_word_of_int: "unat (word_of_int v :: 'a::len word) = nat (v mod 2 ^ LENGTH('a))"
  by (simp only: unat_eq_nat_uint uint_word_of_int)

lemma canonical_byte_hex: "canonical 16 (byte_hex b)"
  by (simp add: byte_hex_def padStart_def canonical_zeros canonical_to_radix)

lemma canonical_bytes_hex: "canonical 16 (bytes_hex bs)"
  by (induction bs) (simp_all add: canonical_byte_hex, simp add: canonical_def)

end
