(* ===== verification/Bitcoin_Utils.thy ===== *)
theory Bitcoin_Utils
  imports Js_Prelude
begin

text \<open>
  Model of \<open>web/lib/bitcoin-utils.ts\<close>: hex decoding, coinbase inspection
  (\<open>decodeCoinbaseAscii\<close>, \<open>parseCoinbaseHeight\<close>, \<open>inferExtranonceGap\<close>,
  \<open>parseCoinbase\<close>), header reconstruction and decomposition, and the compact target
  decoder. A \<open>number[]\<close> of parsed bytes is a list of \<open>int option\<close>, \<open>None\<close>
  being NaN, because \<open>parseInt\<close> of a malformed pair is NaN and the code does not
  reject it. The transaction parser and the address encoders of \<open>bitcoinjs-lib\<close> are
  parameters.
\<close>

unbundle bit_operations_syntax

section \<open>Hex decoding\<close>

fun hexToBytes :: "string \<Rightarrow> int option list" where
  "hexToBytes [] = []"
| "hexToBytes [c] = [parseInt 16 [c]]"
| "hexToBytes (c # d # s) = parseInt 16 [c, d] # hexToBytes s"

definition num_bytes :: "bytes \<Rightarrow> int option list" where
  "num_bytes bs = map (\<lambda>b. Some (int (unat b))) bs"

text \<open>\<open>hex.match(/.{2}/g)\<close>: \<open>.\<close> excludes the line terminators.\<close>

definition re_dot :: "char \<Rightarrow> bool" where
  "re_dot c = (of_char c \<notin> {10, 13 :: nat})"

fun match_pairs :: "string \<Rightarrow> string list" where
  "match_pairs (c # d # s) =
     (if re_dot c \<and> re_dot d then [c, d] # match_pairs s else match_pairs (d # s))"
| "match_pairs s = []"

definition reverseHex :: "string \<Rightarrow> string" where
  "reverseHex hex =
     (let bs = match_pairs hex in if bs = [] then hex else concat (rev bs))"

section \<open>Coinbase inspection\<close>

definition ascii_char :: "int option \<Rightarrow> char" where
  "ascii_char b =
     (case b of
        Some n \<Rightarrow> if 32 \<le> n \<and> n \<le> 126 then char_of (nat n) else CHR ''.''
      | None \<Rightarrow> CHR ''.'')"

definition decodeCoinbaseAscii :: "string \<Rightarrow> string" where
  "decodeCoinbaseAscii coinbase1Hex =
     (if coinbase1Hex = [] \<or> length coinbase1Hex < 84 then []
      else let bytes = hexToBytes coinbase1Hex in
      if length bytes < 42 then []
      else case bytes ! 41 of
        None \<Rightarrow> []
      | Some scriptLen \<Rightarrow>
          if scriptLen = 0 then []
          else let scriptStart = 42;
                   scriptEnd = min (scriptStart + scriptLen) (int (length bytes)) in
          case index bytes 42 of
            None \<Rightarrow> []
          | Some heightPushLen \<Rightarrow>
              let asciiStart = map_option (\<lambda>h. scriptStart + 1 + h) heightPushLen in
              if (case asciiStart of Some a \<Rightarrow> scriptEnd \<le> a | None \<Rightarrow> False) then []
              else let asciiBytes = slice (case asciiStart of Some a \<Rightarrow> a | None \<Rightarrow> 0) scriptEnd bytes;
                       result = map ascii_char asciiBytes in
                if length result > 80 then slice 0 80 result else result)"

definition computeFirstTransaction :: "string list \<Rightarrow> string" where
  "computeFirstTransaction merkleBranches =
     (case merkleBranches of
        [] \<Rightarrow> ''empty block''
      | branch0 # _ \<Rightarrow> if branch0 = [] \<or> length branch0 < 64 then ''invalid'' else branch0)"

text \<open>
  \<open>height |= (bytes[43 + i] ?? 0) << (8 * i)\<close>: a missing byte is 0 by the \<open>??\<close>,
  and a NaN byte is 0 by ToInt32; the accumulator is a signed 32-bit integer.
\<close>

definition byte_at32 :: "int option list \<Rightarrow> nat \<Rightarrow> 32 word" where
  "byte_at32 bytes i = (case index bytes i of Some (Some n) \<Rightarrow> word_of_int n | _ \<Rightarrow> 0)"

definition height_bits :: "int option list \<Rightarrow> nat \<Rightarrow> 32 word" where
  "height_bits bytes n =
     fold (\<lambda>i h. h OR push_bit (8 * i) (byte_at32 bytes (43 + i))) [0..<n] 0"

definition parseCoinbaseHeight :: "string \<Rightarrow> int option" where
  "parseCoinbaseHeight coinbase1Hex =
     (if coinbase1Hex = [] \<or> length coinbase1Hex < 88 then None
      else let bytes = hexToBytes coinbase1Hex in
      if length bytes < 44 then None
      else case bytes ! 42 of
        None \<Rightarrow> None
      | Some heightPushLen \<Rightarrow>
          if heightPushLen = 0 \<or> heightPushLen > 4 then None
          else Some (sint (height_bits bytes (nat heightPushLen))))"

definition inferExtranonceGap :: "string \<Rightarrow> int option" where
  "inferExtranonceGap coinbase1Hex =
     (if coinbase1Hex = [] then None
      else let bytes = hexToBytes coinbase1Hex in
      if length bytes < 42 then None
      else case bytes ! 41 of
        None \<Rightarrow> None
      | Some declared \<Rightarrow>
          let scriptSigBytesPresent = int (length bytes) - 42;
              gap = declared - scriptSigBytesPresent
          in if 0 \<le> gap then Some gap else None)"

definition reconstructCoinbaseHex :: "string \<Rightarrow> string \<Rightarrow> nat \<Rightarrow> string" where
  "reconstructCoinbaseHex coinbase1 coinbase2 fallbackLen =
     (let len = (case inferExtranonceGap coinbase1 of Some g \<Rightarrow> nat g | None \<Rightarrow> fallbackLen)
      in coinbase1 @ repeat_str len ''00'' @ coinbase2)"

section \<open>Header reconstruction and decomposition\<close>

definition u32_le_bytes :: "32 word \<Rightarrow> bytes" where
  "u32_le_bytes w = map (\<lambda>i. ucast (drop_bit (8 * i) w)) [0, 1, 2, 3]"

definition u32ToLeHex :: "int \<Rightarrow> string" where
  "u32ToLeHex val = bytes_hex (u32_le_bytes (word_of_int val))"

record header_share =
  hs_version :: int
  hs_prevBlockHash :: string
  hs_merkleRoot :: string
  hs_ntime :: int
  hs_nonce :: int

definition reconstructHeaderHex :: "header_share \<Rightarrow> int \<Rightarrow> string" where
  "reconstructHeaderHex share nbits =
     u32ToLeHex (hs_version share)
     @ padEnd 64 CHR ''0'' (hs_prevBlockHash share)
     @ padEnd 64 CHR ''0'' (hs_merkleRoot share)
     @ u32ToLeHex (hs_ntime share)
     @ u32ToLeHex nbits
     @ u32ToLeHex (hs_nonce share)"

datatype segment_source = Template | Miner

record HeaderSegment =
  startByte :: nat
  seg_length :: nat
  label :: string
  hex :: string
  source :: "segment_source option"
  description :: string

definition decomposeHeader :: "string \<Rightarrow> int \<Rightarrow> int \<Rightarrow> HeaderSegment list" where
  "decomposeHeader headerHex templateVersion shareVersion =
     (let versionModified = (templateVersion \<noteq> shareVersion);
          versionSource = (if versionModified then Miner else Template)
      in [\<lparr>startByte = 0, seg_length = 4, label = ''Version'', hex = slice 0 8 headerHex,
           source = Some versionSource,
           description = (if versionModified
             then ''Version with BIP320 rolled bits (miner-modified)''
             else ''Block version (from template)'')\<rparr>,
          \<lparr>startByte = 4, seg_length = 32, label = ''PrevHash'', hex = slice 8 72 headerHex,
           source = Some Template,
           description = ''Previous block hash (static from template)''\<rparr>,
          \<lparr>startByte = 36, seg_length = 32, label = ''MerkleRoot'', hex = slice 72 136 headerHex,
           source = Some Miner,
           description = ''Merkle root (unique per share - varies with extranonce)''\<rparr>,
          \<lparr>startByte = 68, seg_length = 4, label = ''nTime'', hex = slice 136 144 headerHex,
           source = Some Miner, description = ''Block timestamp (miner may adjust)''\<rparr>,
          \<lparr>startByte = 72, seg_length = 4, label = ''nBits'', hex = slice 144 152 headerHex,
           source = Some Template, description = ''Difficulty target (static from template)''\<rparr>,
          \<lparr>startByte = 76, seg_length = 4, label = ''Nonce'', hex = slice 152 160 headerHex,
           source = Some Miner, description = ''Nonce (unique per share)''\<rparr>])"

definition decomposeBlockHeader :: "string \<Rightarrow> HeaderSegment list" where
  "decomposeBlockHeader headerHex =
     [\<lparr>startByte = 0, seg_length = 4, label = ''Version'', hex = slice 0 8 headerHex,
       source = None, description = ''Block version (4B little-endian)''\<rparr>,
      \<lparr>startByte = 4, seg_length = 32, label = ''PrevHash'', hex = slice 8 72 headerHex,
       source = None, description = ''Previous block hash (32B internal byte order)''\<rparr>,
      \<lparr>startByte = 36, seg_length = 32, label = ''MerkleRoot'', hex = slice 72 136 headerHex,
       source = None, description = ''Merkle root of all transactions (32B)''\<rparr>,
      \<lparr>startByte = 68, seg_length = 4, label = ''nTime'', hex = slice 136 144 headerHex,
       source = None, description = ''Block timestamp (4B little-endian, unix seconds)''\<rparr>,
      \<lparr>startByte = 72, seg_length = 4, label = ''nBits'', hex = slice 144 152 headerHex,
       source = None, description = ''Difficulty target in compact form (4B little-endian)''\<rparr>,
      \<lparr>startByte = 76, seg_length = 4, label = ''Nonce'', hex = slice 152 160 headerHex,
       source = None, description = ''Nonce that produces valid PoW hash (4B little-endian)''\<rparr>]"

section \<open>Compact target\<close>

record decoded_nbits =
  targetHex :: string
  difficulty :: number

definition D1 :: nat where
  "D1 = 0x00000000ffff0000000000000000000000000000000000000000000000000000"

definition nbits_exponent :: "int \<Rightarrow> nat" where
  "nbits_exponent nbits = unat (drop_bit 24 (word_of_int nbits :: 32 word) AND 0xff)"

definition nbits_mantissa :: "int \<Rightarrow> nat" where
  "nbits_mantissa nbits = unat (word_of_int nbits AND 0xffffff :: 32 word)"

definition decodeNbits :: "int \<Rightarrow> decoded_nbits" where
  "decodeNbits nbits =
     (let exp = nbits_exponent nbits;
          mant = nbits_mantissa nbits;
          shift = int exp - 3;
          hex0 = padStart 6 CHR ''0'' (to_radix 16 mant);
          hex1 = (if 0 < shift then hex0 @ repeat_str (nat shift) ''00'' else hex0);
          hex2 = (if length hex1 > 64
                  then slice (int (length hex1) - 64) (int (length hex1)) hex1
                  else padStart 64 CHR ''0'' hex1);
          current = digits_val 16 hex2;
          scale = 1000000
      in \<lparr>targetHex = hex2,
          difficulty = (if 0 < current
            then Fin (of_nat ((D1 * scale) div current)) / Fin (of_nat scale)
            else 0)\<rparr>)"

section \<open>Colors\<close>

definition getMerkleColor :: "string \<Rightarrow> string" where
  "getMerkleColor branchHex =
     (if branchHex = [] \<or> length branchHex < 6 then ''hsl(0, 0%, 50%)''
      else let b0 = num_of_parse (parseInt 16 (slice 0 2 branchHex));
               b1 = num_of_parse (parseInt 16 (slice 2 4 branchHex));
               b2 = num_of_parse (parseInt 16 (slice 4 6 branchHex));
               hue = Math_round ((b0 / 255) * 360);
               sat = 50 + Math_round ((b1 / 255) * 30);
               lit = 35 + Math_round ((b2 / 255) * 20)
           in ''hsl('' @ integral_to_string hue @ '', '' @ integral_to_string sat @ ''%, ''
              @ integral_to_string lit @ ''%)'')"

definition miner_hue :: "nat \<Rightarrow> number" where
  "miner_hue i = Math_round (Fin (real_rem (of_nat i * 137.508) 360))"

definition generateMinerColors :: "nat \<Rightarrow> string list" where
  "generateMinerColors n =
     map (\<lambda>i. ''hsl('' @ integral_to_string (miner_hue i) @ '', 70%, 55%)'') [0..<n]"

section \<open>Lemmas: hex decoding\<close>

lemma length_num_bytes [simp]: "length (num_bytes bs) = length bs"
  by (simp add: num_bytes_def)

lemma nth_num_bytes [simp]: "i < length bs \<Longrightarrow> num_bytes bs ! i = Some (int (unat (bs ! i)))"
  by (simp add: num_bytes_def)

lemma hexToBytes_byte_hex: "hexToBytes (byte_hex b @ s) = Some (int (unat b)) # hexToBytes s"
proof -
  obtain c d where "byte_hex b = [c, d]" by (rule byte_hexE)
  then show ?thesis using parseInt_byte_hex [of b] by simp
qed

lemma hexToBytes_bytes_hex [simp]: "hexToBytes (bytes_hex bs) = num_bytes bs"
  by (induction bs) (simp_all add: hexToBytes_byte_hex num_bytes_def)

lemma length_hexToBytes: "length (hexToBytes s) = (length s + 1) div 2"
  by (induction s rule: hexToBytes.induct) auto

lemma re_dot_digit: "is_digit 16 c \<Longrightarrow> re_dot c"
  using is_digit_not_space [of 16 c] by (auto simp: re_dot_def js_space_def)

lemma match_pairs_bytes_hex [simp]: "match_pairs (bytes_hex bs) = map byte_hex bs"
proof (induction bs)
  case Nil
  show ?case by simp
next
  case (Cons b bs)
  obtain c d where "byte_hex b = [c, d]" "is_digit 16 c" "is_digit 16 d" by (rule byte_hexE)
  with Cons show ?case by (simp add: re_dot_digit)
qed

lemma concat_map_byte_hex: "concat (map byte_hex bs) = bytes_hex bs"
  by (simp add: bytes_hex_def)

lemma reverseHex_bytes_hex: "reverseHex (bytes_hex bs) = bytes_hex (rev bs)"
  by (auto simp: reverseHex_def Let_def rev_map concat_map_byte_hex)

section \<open>Lemmas: little-endian words and headers\<close>

lemma length_u32ToLeHex [simp]: "length (u32ToLeHex v) = 8"
  by (simp add: u32ToLeHex_def u32_le_bytes_def)

lemma nat_base256_digits:
  fixes n :: nat
  assumes "n < 2 ^ 32"
  shows "((n div 2 ^ 24 mod 256 * 256 + n div 2 ^ 16 mod 256) * 256 + n div 2 ^ 8 mod 256) * 256
          + n mod 256 = n"
proof -
  have step: "m div 256 * 256 + m mod 256 = m" for m :: nat by simp
  have d: "n div 2 ^ 8 = n div 256" "n div 2 ^ 16 = n div 256 div 256"
    "n div 2 ^ 24 = n div 256 div 256 div 256"
    by (simp_all add: div_mult2_eq [symmetric])
  have "n div 256 div 256 div 256 < 256"
    using assms by (simp add: div_mult2_eq [symmetric] less_mult_imp_div_less)
  then have top: "n div 256 div 256 div 256 mod 256 = n div 256 div 256 div 256" by simp
  show ?thesis
    by (simp only: d top step)
qed

lemma u32_le_bytes_value:
  "foldl (\<lambda>a b. a * 256 + unat b) 0 (rev (u32_le_bytes w)) = unat w"
proof -
  have lt: "unat w < 2 ^ 32" using unsigned_less [of w, where ?'a = nat] by simp
  have b: "unat (ucast (drop_bit k w) :: byte) = unat w div 2 ^ k mod 256" for k
    by (rule unat_byte_of_word)
  have top: "unat w div 16777216 mod 256 = unat w div 16777216"
    using lt by (simp add: less_mult_imp_div_less)
  show ?thesis
    using nat_base256_digits [OF lt] b [of 0]
    by (simp add: u32_le_bytes_def b top)
qed

lemma reverseHex_u32ToLeHex_value:
  "digits_val 16 (reverseHex (u32ToLeHex v)) = nat (v mod 2 ^ 32)"
  by (simp add: u32ToLeHex_def reverseHex_bytes_hex digits_val_bytes_hex u32_le_bytes_value
        unat_word_of_int)

lemma length_reconstructHeaderHex:
  assumes "length (hs_prevBlockHash sh) \<le> 64" "length (hs_merkleRoot sh) \<le> 64"
  shows "length (reconstructHeaderHex sh nbits) = 160"
  using assms by (simp add: reconstructHeaderHex_def)

lemma concat_decompose:
  "length h = 160 \<Longrightarrow> concat (map hex (decomposeHeader h tv sv)) = h"
proof -
  assume len: "length h = 160"
  have cut: "take n xs @ drop n xs = xs" for n and xs :: string by simp
  have dd: "drop n (drop m xs) = drop (n + m) xs" for n m and xs :: string by simp
  have last: "take 8 (drop 152 h) = drop 152 h" using len by simp
  show ?thesis
    using cut [of 8 h] cut [of 64 "drop 8 h"] cut [of 64 "drop 72 h"] cut [of 8 "drop 136 h"]
      cut [of 8 "drop 144 h"] last
    by (simp add: decomposeHeader_def Let_def dd)
qed

section \<open>Lemmas: compact targets\<close>

lemma unat_and_mask:
  "unat (w AND mask k :: 32 word) = unat w mod 2 ^ k"
proof -
  have "unat (take_bit k w) = take_bit k (unat w)"
    by (rule unsigned_take_bit_eq)
  then show ?thesis by (simp only: take_bit_eq_mask [symmetric] take_bit_eq_mod [where ?'a = nat])
qed

lemma nbits_exponent_eq: "nbits_exponent n = nat (n mod 2 ^ 32) div 2 ^ 24"
proof -
  have "(0xff :: 32 word) = mask 8" by (simp add: mask_numeral)
  then have "nbits_exponent n = unat (drop_bit 24 (word_of_int n :: 32 word)) mod 2 ^ 8"
    by (simp only: nbits_exponent_def unat_and_mask)
  also have "\<dots> = nat (n mod 2 ^ 32) div 2 ^ 24 mod 2 ^ 8"
    by (simp add: unat_drop_bit_eq unat_word_of_int drop_bit_eq_div [where ?'a = nat])
  also have "\<dots> = nat (n mod 2 ^ 32) div 2 ^ 24"
    by (rule mod_less) (simp add: less_mult_imp_div_less nat_less_iff)
  finally show ?thesis .
qed

lemma nbits_mantissa_eq: "nbits_mantissa n = nat (n mod 2 ^ 32) mod 2 ^ 24"
proof -
  have "(0xffffff :: 32 word) = mask 24" by (simp add: mask_numeral)
  then have "nbits_mantissa n = unat (word_of_int n :: 32 word) mod 2 ^ 24"
    by (simp only: nbits_mantissa_def unat_and_mask)
  then show ?thesis by (simp only: unat_word_of_int) simp
qed

lemma nbits_mantissa_less: "nbits_mantissa n < 16 ^ 6"
  by (simp add: nbits_mantissa_eq)

lemma nbits_exponent_less: "nbits_exponent n < 256"
  by (simp add: nbits_exponent_eq less_mult_imp_div_less nat_less_iff)

text \<open>The two intermediate hex strings of \<open>decodeNbits\<close>.\<close>

definition nbits_hex :: "int \<Rightarrow> string" where
  "nbits_hex n = padStart 6 CHR ''0'' (to_radix 16 (nbits_mantissa n))
     @ repeat_str (nbits_exponent n - 3) ''00''"

lemma length_nbits_mantissa_hex: "length (to_radix 16 (nbits_mantissa n)) \<le> 6"
  using length_to_radix_le [of "nbits_mantissa n" 16 6] nbits_mantissa_less [of n] by simp

lemma repeat_zero_zero: "repeat_str k ''00'' = replicate (2 * k) CHR ''0''"
  by (induction k) (simp_all add: repeat_str_def)

lemma length_nbits_hex: "length (nbits_hex n) = 6 + 2 * (nbits_exponent n - 3)"
  using length_nbits_mantissa_hex [of n] by (simp add: nbits_hex_def)

lemma nbits_hex_digits: "\<forall>c \<in> set (nbits_hex n). is_digit 16 c"
  using to_radix_digits [of 16 "nbits_mantissa n"]
  by (auto simp: nbits_hex_def padStart_def repeat_zero_zero is_digit_zero)

lemma digits_val_nbits_hex:
  "digits_val 16 (nbits_hex n) = nbits_mantissa n * 256 ^ (nbits_exponent n - 3)"
proof -
  have "(16 :: nat) ^ (2 * k) = 256 ^ k" for k by (simp add: power_mult)
  then show ?thesis by (simp add: nbits_hex_def digits_val_append repeat_zero_zero)
qed

lemma targetHex_eq:
  "targetHex (decodeNbits n) =
     (if length (nbits_hex n) > 64 then drop (length (nbits_hex n) - 64) (nbits_hex n)
      else padStart 64 CHR ''0'' (nbits_hex n))"
proof -
  let ?h0 = "padStart 6 CHR ''0'' (to_radix 16 (nbits_mantissa n))"
  have h1: "(if 0 < int (nbits_exponent n) - 3
        then ?h0 @ repeat_str (nat (int (nbits_exponent n) - 3)) ''00'' else ?h0) = nbits_hex n"
    by (auto simp: nbits_hex_def repeat_str_def nat_diff_distrib)
  have sl: "64 < length h \<Longrightarrow> slice (int (length h) - 64) (int (length h)) h = drop (length h - 64) h"
    for h :: string
    using slice_nat [of "length h - 64" "length h" h] by (simp add: of_nat_diff)
  show ?thesis by (simp only: decodeNbits_def Let_def h1 decoded_nbits.simps) (auto simp: sl)
qed

lemma length_targetHex: "length (targetHex (decodeNbits n)) = 64"
  by (simp add: targetHex_eq)

lemma targetHex_value:
  "digits_val 16 (targetHex (decodeNbits n))
     = nbits_mantissa n * 256 ^ (nbits_exponent n - 3) mod 2 ^ 256"
proof (cases "length (nbits_hex n) > 64")
  case True
  then have "digits_val 16 (targetHex (decodeNbits n)) = digits_val 16 (nbits_hex n) mod 16 ^ 64"
    using digits_val_drop [OF nbits_hex_digits, of 64 n] by (simp add: targetHex_eq)
  moreover have "(16 :: nat) ^ 64 = 2 ^ 256" by simp
  ultimately show ?thesis by (simp only: digits_val_nbits_hex)
next
  case False
  then have "digits_val 16 (nbits_hex n) < 16 ^ length (nbits_hex n)"
    using digits_val_less [OF nbits_hex_digits] by simp
  also have "\<dots> \<le> (16 :: nat) ^ 64" using False by (intro power_increasing) auto
  finally have "digits_val 16 (nbits_hex n) < 2 ^ 256" by simp
  with False show ?thesis by (simp add: targetHex_eq digits_val_nbits_hex)
qed

lemma scaled_quotient_bounds:
  fixes a t s :: nat
  assumes "0 < t" "0 < s"
  shows "real a / real t - 1 / real s < real (a * s div t) / real s
    \<and> real (a * s div t) / real s \<le> real a / real t"
proof -
  have "real (a * s div t) \<le> real (a * s) / real t" by (rule of_nat_div_le_of_nat)
  moreover have "real (a * s) / real t < real (a * s div t) + 1"
  proof -
    have "a * s < t + (a * s div t) * t" using assms(1) by (rule dividend_less_div_times)
    then have "real (a * s) < real (t + (a * s div t) * t)" by (simp only: of_nat_less_iff)
    then show ?thesis using assms(1) by (simp add: field_simps)
  qed
  moreover have "x - 1 / r < q / r \<and> q / r \<le> x" if "q \<le> x * r" "x * r < q + 1" "0 < r"
    for q x r :: real
  proof -
    have "(x * r - 1) / r < q / r" using that by (intro divide_strict_right_mono) auto
    moreover have "(x * r - 1) / r = x - 1 / r" using that(3) by (simp add: diff_divide_distrib)
    ultimately show ?thesis using that(1,3) by (simp add: divide_le_eq)
  qed
  ultimately show ?thesis using assms(2) by simp
qed

lemma difficulty_eq:
  "difficulty (decodeNbits n) =
     (let t = digits_val 16 (targetHex (decodeNbits n)) in
      if 0 < t then Fin (real (D1 * 1000000 div t) / 1000000) else Fin 0)"
  by (simp add: decodeNbits_def Let_def)

lemma ascii_char_printable: "of_char (ascii_char b) \<in> {32..126 :: nat}"
  by (auto simp: ascii_char_def split: option.splits)

section \<open>Properties\<close>

text \<open>
  C17: the header rebuilt from a share is the 80-byte header with every field in its
  place: for hashes of at most 64 hex digits the rebuilt string has 160 digits, cutting it
  with \<open>decomposeHeader\<close> gives back version, previous hash, merkle root, time, bits
  and nonce in that order, and the cut loses nothing.
\<close>

theorem header_decompose_reconstruct:
  assumes "length (hs_prevBlockHash sh) \<le> 64" "length (hs_merkleRoot sh) \<le> 64"
  shows "length (reconstructHeaderHex sh nbits) = 160
    \<and> map hex (decomposeHeader (reconstructHeaderHex sh nbits) tv sv) =
        [u32ToLeHex (hs_version sh), padEnd 64 CHR ''0'' (hs_prevBlockHash sh),
         padEnd 64 CHR ''0'' (hs_merkleRoot sh), u32ToLeHex (hs_ntime sh),
         u32ToLeHex nbits, u32ToLeHex (hs_nonce sh)]
    \<and> concat (map hex (decomposeHeader (reconstructHeaderHex sh nbits) tv sv))
        = reconstructHeaderHex sh nbits"
  using length_reconstructHeaderHex [OF assms, of nbits] concat_decompose assms
  by (simp add: decomposeHeader_def Let_def reconstructHeaderHex_def)

theorem header_decompose_reconstruct_witness:
  "length (reconstructHeaderHex \<lparr>hs_version = 0x20000000, hs_prevBlockHash = ''ab'',
      hs_merkleRoot = ''cd'', hs_ntime = 1700000000, hs_nonce = 7\<rparr> 0x1d00ffff) = 160"
  using header_decompose_reconstruct [of "\<lparr>hs_version = 0x20000000, hs_prevBlockHash = ''ab'',
      hs_merkleRoot = ''cd'', hs_ntime = 1700000000, hs_nonce = 7\<rparr>" "0x1d00ffff"]
  by simp

text \<open>
  the little-endian word encoder is inverted by the byte reversal used for display:
  reading the reversed digits as a number gives the argument modulo \<open>2 ^ 32\<close>.
\<close>

theorem u32ToLeHex_roundtrip:
  "length (u32ToLeHex v) = 8 \<and> digits_val 16 (reverseHex (u32ToLeHex v)) = nat (v mod 2 ^ 32)"
  by (simp add: reverseHex_u32ToLeHex_value)

text \<open>
  \<open>decodeNbits\<close> always yields a 64-digit target whose value is
  \<open>mantissa * 256 ^ (exponent - 3)\<close> modulo \<open>2 ^ 256\<close> for exponents of at
  least 3, and a difficulty that is the exact ratio to the difficulty-1 target rounded down
  to six decimals.
\<close>

theorem decodeNbits_target_and_difficulty:
  assumes "3 \<le> nbits_exponent n"
    and t: "t = nbits_mantissa n * 256 ^ (nbits_exponent n - 3) mod 2 ^ 256" "0 < t"
  shows "length (targetHex (decodeNbits n)) = 64
    \<and> digits_val 16 (targetHex (decodeNbits n)) = t
    \<and> (\<exists>d. difficulty (decodeNbits n) = Fin d
          \<and> real D1 / real t - 1 / 1000000 < d \<and> d \<le> real D1 / real t)"
proof (intro conjI exI)
  show "length (targetHex (decodeNbits n)) = 64" by (rule length_targetHex)
  show v: "digits_val 16 (targetHex (decodeNbits n)) = t" using t(1) by (simp only: targetHex_value)
  show "difficulty (decodeNbits n) = Fin (real (D1 * 1000000 div t) / real (1000000 :: nat))"
    using t(2) by (simp add: difficulty_eq v Let_def)
  show "real D1 / real t - 1 / 1000000 < real (D1 * 1000000 div t) / real (1000000 :: nat)"
    and "real (D1 * 1000000 div t) / real (1000000 :: nat) \<le> real D1 / real t"
    using scaled_quotient_bounds [of t 1000000 D1] t(2) by simp_all
qed

theorem decodeNbits_target_and_difficulty_witness:
  "digits_val 16 (targetHex (decodeNbits 0x1d00ffff)) = 0xffff * 256 ^ 26"
proof -
  have e: "nbits_exponent 0x1d00ffff = 29" and m: "nbits_mantissa 0x1d00ffff = 0xffff"
    by (simp_all add: nbits_exponent_eq nbits_mantissa_eq)
  show ?thesis
    using decodeNbits_target_and_difficulty [of "0x1d00ffff", OF _ refl] e m by simp
qed

text \<open>
  whatever the coinbase bytes are, malformed hex included, the decoded miner tag
  contains printable ASCII only and at most 80 characters.
\<close>

theorem decodeCoinbaseAscii_printable:
  "length (decodeCoinbaseAscii cb) \<le> 80
   \<and> list_all (\<lambda>c. 32 \<le> (of_char c :: nat) \<and> of_char c \<le> (126 :: nat)) (decodeCoinbaseAscii cb)"
proof -
  define ok where "ok s = (length s \<le> 80 \<and> (\<forall>c \<in> set s. 32 \<le> (of_char c :: nat) \<and> of_char c \<le> (126 :: nat)))"
    for s :: string
  have nil: "ok []" by (simp add: ok_def)
  have short: "ok (map ascii_char bs)" if "\<not> 80 < length bs" for bs
    using that ascii_char_printable by (auto simp: ok_def)
  have cut: "ok (slice 0 80 (map ascii_char bs))" for bs
    using ascii_char_printable by (auto simp: ok_def take_map)
  have "ok (decodeCoinbaseAscii cb)"
    by (auto simp: decodeCoinbaseAscii_def Let_def nil short cut simp del: slice_numeral
          split: option.split)
  then show ?thesis by (simp add: ok_def list_all_iff)
qed

end
