(* ===== verification/Js_Json.thy ===== *)
theory Js_Json
  imports Js_Prelude
begin

text \<open>
  JSON values as the dashboard reads them, and the property accesses it makes: \<open>obj.k\<close>
  and \<open>obj?.k\<close>, \<open>k in obj\<close>, \<open>String(x)\<close>, \<open>Number(x)\<close>. An object is the
  association list of its members, the last of two equal keys being the one JSON.parse
  keeps; \<open>JUndef\<close> is \<open>undefined\<close>, which a missing member reads as.
\<close>

datatype json =
    JUndef
  | JNull
  | JBool bool
  | JNum number
  | JStr string
  | JArr "json list"
  | JObj "(string \<times> json) list"

definition obj_get :: "(string \<times> json) list \<Rightarrow> string \<Rightarrow> json" where
  "obj_get fs k = (case map_of (rev fs) k of Some v \<Rightarrow> v | None \<Rightarrow> JUndef)"

text \<open>\<open>x?.k\<close> (and \<open>x.k\<close> where \<open>x\<close> is known to be an object): a member or \<open>undefined\<close>.\<close>

definition get :: "json \<Rightarrow> string \<Rightarrow> json" where
  "get x k = (case x of JObj fs \<Rightarrow> obj_get fs k | _ \<Rightarrow> JUndef)"

text \<open>
  \<open>k in x\<close>: a TypeError (\<open>None\<close>) on a primitive. The names asked for are not members of
  the prototypes.
\<close>

definition in_json :: "string \<Rightarrow> json \<Rightarrow> bool option" where
  "in_json k x =
     (case x of
        JObj fs \<Rightarrow> Some (k \<in> fst ` set fs)
      | JArr _ \<Rightarrow> Some False
      | _ \<Rightarrow> None)"

definition nullish :: "json \<Rightarrow> bool" where
  "nullish x = (x = JUndef \<or> x = JNull)"

text \<open>\<open>x ?? d\<close>\<close>

definition or_default :: "json \<Rightarrow> json \<Rightarrow> json" where
  "or_default x d = (if nullish x then d else x)"

definition truthy :: "json \<Rightarrow> bool" where
  "truthy x =
     (case x of
        JUndef \<Rightarrow> False | JNull \<Rightarrow> False | JBool b \<Rightarrow> b | JNum n \<Rightarrow> \<not> falsy n
      | JStr s \<Rightarrow> s \<noteq> [] | JArr _ \<Rightarrow> True | JObj _ \<Rightarrow> True)"

text \<open>
  ToNumber of a JSON value. Arrays and objects are not converted by the modelled code and are
  NaN here.
\<close>

definition to_num :: "json \<Rightarrow> number" where
  "to_num x =
     (case x of
        JNum n \<Rightarrow> n | JNull \<Rightarrow> Fin 0 | JBool b \<Rightarrow> Fin (of_bool b) | JStr s \<Rightarrow> Number_str s
      | _ \<Rightarrow> NaN)"

lemma to_num_simps [simp]:
  "to_num (JNum n) = n" "to_num JNull = Fin 0" "to_num JUndef = NaN" "to_num (JStr s) = Number_str s"
  by (simp_all add: to_num_def)

lemma get_simps [simp]:
  "get JUndef k = JUndef" "get JNull k = JUndef" "get (JStr s) k = JUndef"
  "get (JNum n) k = JUndef" "get (JBool b) k = JUndef" "get (JArr xs) k = JUndef"
  "get (JObj fs) k = obj_get fs k"
  by (simp_all add: get_def)

lemma obj_get_Nil [simp]: "obj_get [] k = JUndef"
  by (simp add: obj_get_def)

lemma nullish_simps [simp]:
  "nullish JUndef" "nullish JNull" "\<not> nullish (JStr s)" "\<not> nullish (JNum n)"
  "\<not> nullish (JBool b)" "\<not> nullish (JArr xs)" "\<not> nullish (JObj fs)"
  by (simp_all add: nullish_def)


text \<open>
  \<open>x.k\<close> where \<open>x\<close> may be null or undefined, which is a TypeError (\<open>None\<close>).
\<close>

definition member :: "json \<Rightarrow> string \<Rightarrow> json option" where
  "member x k = (if nullish x then None else Some (get x k))"

text \<open>\<open>s.includes(sub)\<close>\<close>

fun js_includes :: "string \<Rightarrow> string \<Rightarrow> bool" where
  "js_includes sub [] = (sub = [])"
| "js_includes sub (c # s) = (startsWith (c # s) sub \<or> js_includes sub s)"

text \<open>
  \<open>String(x)\<close>; the conversion of a number, which depends on the rounding of doubles, is the
  parameter \<open>numStr\<close>.
\<close>

fun join :: "string \<Rightarrow> string list \<Rightarrow> string" where
  "join sep [] = []"
| "join sep [x] = x"
| "join sep (x # y # xs) = x @ sep @ join sep (y # xs)"

fun js_string :: "(number \<Rightarrow> string) \<Rightarrow> json \<Rightarrow> string" where
  "js_string numStr JUndef = ''undefined''"
| "js_string numStr JNull = ''null''"
| "js_string numStr (JBool b) = (if b then ''true'' else ''false'')"
| "js_string numStr (JNum n) = numStr n"
| "js_string numStr (JStr s) = s"
| "js_string numStr (JArr xs) = join '','' (map (\<lambda>x. if nullish x then [] else js_string numStr x) xs)"
| "js_string numStr (JObj _) = ''[object Object]''"

text \<open>\<open>new Uint8Array(xs)\<close>: the elements truncated and reduced modulo 256, NaN and
  infinities as 0.\<close>

definition uint8_array :: "json list \<Rightarrow> nat list" where
  "uint8_array xs =
     map (\<lambda>x. case to_num x of
                Fin r \<Rightarrow> nat ((if 0 \<le> r then \<lfloor>r\<rfloor> else \<lceil>r\<rceil>) mod 256) | _ \<Rightarrow> 0) xs"

text \<open>
  \<open>BigInt(x)\<close>; \<open>None\<close> is the SyntaxError, RangeError or TypeError it throws. An array is
  converted through its text.
\<close>

fun BigInt_json :: "(number \<Rightarrow> string) \<Rightarrow> json \<Rightarrow> int option" where
  "BigInt_json numStr (JStr s) = BigInt_str s"
| "BigInt_json numStr (JNum (Fin x)) = (if x = of_int \<lfloor>x\<rfloor> then Some \<lfloor>x\<rfloor> else None)"
| "BigInt_json numStr (JBool b) = Some (of_bool b)"
| "BigInt_json numStr (JArr xs) = BigInt_str (js_string numStr (JArr xs))"
| "BigInt_json numStr _ = None"

lemma or_default_simps [simp]:
  "or_default JUndef d = d" "or_default JNull d = d" "or_default (JStr s) d = JStr s"
  "or_default (JNum n) d = JNum n"
  by (simp_all add: or_default_def)

lemma truthy_simps [simp]:
  "\<not> truthy JUndef" "\<not> truthy JNull" "truthy (JStr s) \<longleftrightarrow> s \<noteq> []" "truthy (JBool b) \<longleftrightarrow> b"
  "truthy (JArr xs)" "truthy (JObj fs)" "truthy (JNum n) \<longleftrightarrow> \<not> falsy n"
  by (simp_all add: truthy_def)

end
