(* ===== verification/Bitcoin_Template.thy ===== *)
theory Bitcoin_Template
  imports Bitcoin_Utils Js_Json "HOL-Library.Monad_Syntax"
begin

text \<open>
  Model of \<open>web/lib/bitcoin-template.ts\<close>: the coinbase halves a buyer's template is
  registered with, and the stratum merkle branches. WebCrypto's SHA-256 is a parameter
  \<open>sha256\<close> from byte strings to 256-bit words, so that a digest has 32 bytes by its
  type; nothing else is known about it. A \<open>RangeError\<close> of \<open>TypedArray.set\<close> is
  \<open>None\<close>. The interface of the pairing step is the locale \<open>pair_hash\<close>.
\<close>

section \<open>Bytes\<close>

definition digest_bytes :: "256 word \<Rightarrow> bytes" where
  "digest_bytes w = map (\<lambda>i. ucast (drop_bit (8 * (31 - i)) w)) [0..<32]"

definition sha256d :: "(bytes \<Rightarrow> 256 word) \<Rightarrow> bytes \<Rightarrow> bytes" where
  "sha256d sha256 data = digest_bytes (sha256 (digest_bytes (sha256 data)))"

text \<open>
  Storing into a \<open>Uint8Array\<close> reduces modulo 256 and turns NaN into 0; the array has
  \<open>length / 2\<close> elements rounded down, so an odd last digit is dropped.
\<close>

definition to_uint8 :: "int option \<Rightarrow> byte" where
  "to_uint8 v = (case v of Some n \<Rightarrow> word_of_int n | None \<Rightarrow> 0)"

definition hexToUint8Array :: "string \<Rightarrow> bytes" where
  "hexToUint8Array hx = map to_uint8 (take (length hx div 2) (hexToBytes hx))"

definition encodeVarInt :: "nat \<Rightarrow> bytes" where
  "encodeVarInt value =
     (let w = word_of_nat value :: 32 word in
      if value < 0xfd then [ucast w]
      else if value \<le> 0xffff then [0xfd, ucast w, ucast (drop_bit 8 w)]
      else [0xfe, ucast w, ucast (drop_bit 8 w), ucast (drop_bit 16 w), ucast (drop_bit 24 w)])"

section \<open>Coinbase construction\<close>

text \<open>\<open>while (h > 0) { heightBytes.push(h & 0xff); h >>>= 8; }\<close>\<close>

function height_le :: "nat \<Rightarrow> bytes" where
  "height_le h = (if h = 0 then [] else word_of_nat h # height_le (h mod 2 ^ 32 div 256))"
  by pat_completeness auto
termination
proof (relation "measure id")
  fix h :: nat
  assume "h \<noteq> 0"
  have "h mod 2 ^ 32 div 256 \<le> h div 256" by (intro div_le_mono mod_less_eq_dividend)
  also have "\<dots> < h" using \<open>h \<noteq> 0\<close> by (intro div_less_dividend) auto
  finally show "(h mod 2 ^ 32 div 256, h) \<in> measure id" by simp
qed simp

declare height_le.simps [simp del]

definition bip34_height :: "nat \<Rightarrow> bytes" where
  "bip34_height height =
     (let hb = height_le height;
          hb1 = (if length hb = 0 then hb @ [0] else hb)
      in if bit (last hb1) 7 then hb1 @ [0] else hb1)"

record coinbase_parts =
  cb1 :: bytes
  cb2 :: bytes

definition coinbase_value_le :: "int \<Rightarrow> bytes" where
  "coinbase_value_le v = map (\<lambda>i. word_of_int (v div 2 ^ (i * 8))) [0..<8]"

definition buildCoinbase :: "int \<Rightarrow> int \<Rightarrow> bytes \<Rightarrow> string option \<Rightarrow> coinbase_parts" where
  "buildCoinbase height coinbaseValue payoutScript witnessCommitmentHex =
     (let heightBytes = bip34_height (nat height);
          heightLen = length heightBytes;
          scriptLen = 1 + heightLen + 12;
          b1 = [0x01, 0x00, 0x00, 0x00] @ [0x01] @ replicate 32 0 @ [0xff, 0xff, 0xff, 0xff]
               @ [word_of_nat scriptLen] @ [word_of_nat heightLen] @ heightBytes;
          hasWitness = (case witnessCommitmentHex of Some w \<Rightarrow> length w > 0 | None \<Rightarrow> False);
          out1 = coinbase_value_le coinbaseValue @ encodeVarInt (length payoutScript) @ payoutScript;
          out2 = (if hasWitness
                  then let commitment = hexToUint8Array (the witnessCommitmentHex)
                       in replicate 8 0 @ encodeVarInt (length commitment) @ commitment
                  else []);
          b2 = [0xff, 0xff, 0xff, 0xff] @ [if hasWitness then 0x02 else 0x01]
               @ out1 @ out2 @ [0x00, 0x00, 0x00, 0x00]
      in \<lparr>cb1 = b1, cb2 = b2\<rparr>)"

section \<open>Merkle branches\<close>

definition typed_set :: "bytes \<Rightarrow> nat \<Rightarrow> bytes \<Rightarrow> bytes option" where
  "typed_set dst off src =
     (if off + length src \<le> length dst
      then Some (take off dst @ src @ drop (off + length src) dst) else None)"

definition hash_pair :: "(bytes \<Rightarrow> 256 word) \<Rightarrow> bytes \<Rightarrow> bytes \<Rightarrow> bytes option" where
  "hash_pair sha256 a b =
     do { c1 \<leftarrow> typed_set (replicate 64 0) 0 a;
          combined \<leftarrow> typed_set c1 32 b;
          Some (sha256d sha256 combined) }"

fun next_level :: "('h \<Rightarrow> 'h \<Rightarrow> 'h option) \<Rightarrow> 'h list \<Rightarrow> 'h list option" where
  "next_level pair [] = Some []"
| "next_level pair [a] = do { h \<leftarrow> pair a a; Some [h] }"
| "next_level pair (a # b # hashes) =
     do { h \<leftarrow> pair a b; hs \<leftarrow> next_level pair hashes; Some (h # hs) }"

lemma length_next_level:
  "next_level pair hashes = Some nl \<Longrightarrow> length nl = (length hashes + 1) div 2"
  by (induction pair hashes arbitrary: nl rule: next_level.induct)
    (auto split: bind_splits)

function merkle_loop :: "('h \<Rightarrow> 'h \<Rightarrow> 'h option) \<Rightarrow> 'h list \<Rightarrow> 'h list \<Rightarrow> 'h list option" where
  "merkle_loop pair hashes branches =
     (case hashes of
        [] \<Rightarrow> Some branches
      | h # rest \<Rightarrow>
          if rest = [] then Some (branches @ [h])
          else case next_level pair rest of
            None \<Rightarrow> None
          | Some nextLevel \<Rightarrow> merkle_loop pair nextLevel (branches @ [h]))"
  by pat_completeness auto
termination
  by (relation "measure (\<lambda>(pair, hashes, branches). length hashes)")
    (auto dest!: length_next_level)

declare merkle_loop.simps [simp del]

definition computeMerkleBranches :: "(bytes \<Rightarrow> 256 word) \<Rightarrow> string list \<Rightarrow> bytes list option" where
  "computeMerkleBranches sha256 txids =
     merkle_loop (hash_pair sha256) (map (\<lambda>txid. rev (hexToUint8Array txid)) txids) []"

section \<open>Script validation\<close>

datatype script_error = NotEvenHex | TooShort

definition to_lower :: "char \<Rightarrow> char" where
  "to_lower c = (if 65 \<le> (of_char c :: nat) \<and> of_char c \<le> (90 :: nat)
                 then char_of (of_char c + 32 :: nat) else c)"

definition is_lower_hex :: "char \<Rightarrow> bool" where
  "is_lower_hex c = (let n = of_char c :: nat in (48 \<le> n \<and> n \<le> 57) \<or> (97 \<le> n \<and> n \<le> 102))"

definition decodeScriptPubKey :: "string \<Rightarrow> script_error + bytes" where
  "decodeScriptPubKey hx =
     (let clean = map to_lower (trim hx) in
      if clean = [] \<or> \<not> list_all is_lower_hex clean \<or> length clean mod 2 \<noteq> 0 then Inl NotEvenHex
      else let bytes = hexToUint8Array clean in
        if length bytes < 4 then Inl TooShort else Inr bytes)"

section \<open>Template JSON\<close>

text \<open>\<open>JSON.parse\<close> is the parameter \<open>JSON_parse\<close>, \<open>None\<close> being its SyntaxError.\<close>

datatype template_error = InvalidJSON | MissingField string | NotAnObject

definition required_fields :: "string list" where
  "required_fields = [''version'', ''previousblockhash'', ''transactions'', ''coinbasevalue'',
                      ''curtime'', ''bits'', ''height'']"

fun check_required :: "json \<Rightarrow> string list \<Rightarrow> template_error option" where
  "check_required t [] = None"
| "check_required t (k # ks) =
     (case in_json k t of
        None \<Rightarrow> Some NotAnObject
      | Some False \<Rightarrow> Some (MissingField k)
      | Some True \<Rightarrow> check_required t ks)"

definition parseBlockTemplateJson :: "(string \<Rightarrow> json option) \<Rightarrow> string \<Rightarrow> template_error + json" where
  "parseBlockTemplateJson JSON_parse raw =
     (case JSON_parse raw of
        None \<Rightarrow> Inl InvalidJSON
      | Some t \<Rightarrow> (case check_required t required_fields of
                    Some e \<Rightarrow> Inl e
                  | None \<Rightarrow> Inr t))"

section \<open>The merkle tree as Bitcoin defines it\<close>

text \<open>
  One level of the tree pairs the hashes at positions \<open>2 i\<close> and \<open>2 i + 1\<close>, the last
  one with itself when their number is odd; the root is what is left after repeating this.
\<close>

definition tree_level :: "('h \<Rightarrow> 'h \<Rightarrow> 'h) \<Rightarrow> 'h list \<Rightarrow> 'h list" where
  "tree_level f hs =
     map (\<lambda>i. f (hs ! (2 * i)) (if 2 * i + 1 < length hs then hs ! (2 * i + 1) else hs ! (2 * i)))
       [0..<(length hs + 1) div 2]"

lemma length_tree_level [simp]: "length (tree_level f hs) = (length hs + 1) div 2"
  by (simp add: tree_level_def)

function merkle_root :: "('h \<Rightarrow> 'h \<Rightarrow> 'h) \<Rightarrow> 'h list \<Rightarrow> 'h" where
  "merkle_root f hs = (if length hs \<le> 1 then hd hs else merkle_root f (tree_level f hs))"
  by pat_completeness auto
termination
  by (relation "measure (\<lambda>(f, hs). length hs)") auto

declare merkle_root.simps [simp del]

definition climb :: "('h \<Rightarrow> 'h \<Rightarrow> 'h) \<Rightarrow> 'h \<Rightarrow> 'h list \<Rightarrow> 'h" where
  "climb f leaf branches = foldl f leaf branches"

lemma tree_level_Nil [simp]: "tree_level f [] = []"
  by (simp add: tree_level_def)

lemma tree_level_single [simp]: "tree_level f [a] = [f a a]"
  by (simp add: tree_level_def)

lemma tree_level_pair [simp]: "tree_level f (a # b # hs) = f a b # tree_level f hs"
proof -
  have "[0..<(length hs + 1) div 2 + 1] = 0 # map Suc [0..<(length hs + 1) div 2]"
    by (metis Suc_eq_plus1 map_Suc_upt upt_conv_Cons zero_less_Suc)
  then show ?thesis by (simp add: tree_level_def comp_def)
qed

text \<open>
  What the branch computation needs of the pairing step: it succeeds on well-formed hashes
  and yields a well-formed hash.
\<close>

locale pair_hash =
  fixes pair :: "'h \<Rightarrow> 'h \<Rightarrow> 'h option"
    and f :: "'h \<Rightarrow> 'h \<Rightarrow> 'h"
    and ok :: "'h \<Rightarrow> bool"
  assumes pair_ok: "ok a \<Longrightarrow> ok b \<Longrightarrow> pair a b = Some (f a b)"
    and f_ok: "ok a \<Longrightarrow> ok b \<Longrightarrow> ok (f a b)"
begin

lemma next_level_tree_level: "list_all ok hs \<Longrightarrow> next_level pair hs = Some (tree_level f hs)"
  by (induction hs rule: induct_list012) (auto simp: pair_ok)

lemma tree_level_ok: "list_all ok hs \<Longrightarrow> list_all ok (tree_level f hs)"
  by (induction hs rule: induct_list012) (auto simp: f_ok)

lemma branches_climb_to_root:
  assumes "list_all ok hs"
  shows "\<exists>bs. merkle_loop pair hs acc = Some (acc @ bs) \<and> climb f leaf bs = merkle_root f (leaf # hs)"
  using assms
proof (induction "length hs" arbitrary: hs acc leaf rule: less_induct)
  case less
  show ?case
  proof (cases hs)
    case Nil
    then show ?thesis by (simp add: merkle_loop.simps [of _ "[]"] merkle_root.simps climb_def)
  next
    case (Cons h rest)
    show ?thesis
    proof (cases "rest = []")
      case True
      with Cons have "merkle_loop pair hs acc = Some (acc @ [h])"
        by (simp add: merkle_loop.simps [of _ "[h]"])
      moreover have "merkle_root f [leaf, h] = f leaf h"
        by (simp add: merkle_root.simps [of f "[leaf, h]"] merkle_root.simps [of f "[f leaf h]"])
      ultimately show ?thesis using True Cons by (simp add: climb_def)
    next
      case False
      have rest: "list_all ok rest" using less.prems Cons by simp
      have "length (tree_level f rest) < length hs" using Cons False by (cases rest) auto
      from less.hyps [OF this tree_level_ok [OF rest], of "acc @ [h]" "f leaf h"]
      obtain bs where bs: "merkle_loop pair (tree_level f rest) (acc @ [h]) = Some ((acc @ [h]) @ bs)"
        "climb f (f leaf h) bs = merkle_root f (f leaf h # tree_level f rest)"
        by blast
      have "merkle_loop pair hs acc = Some (acc @ h # bs)"
        using bs(1) Cons False next_level_tree_level [OF rest]
        by (simp add: merkle_loop.simps [of _ "h # rest"])
      moreover have "merkle_root f (leaf # hs) = merkle_root f (f leaf h # tree_level f rest)"
        using Cons by (simp add: merkle_root.simps [of f "leaf # h # rest"])
      ultimately show ?thesis using bs(2) by (auto simp: climb_def)
    qed
  qed
qed

end

lemma length_digest_bytes [simp]: "length (digest_bytes w) = 32"
  by (simp add: digest_bytes_def)

lemma length_sha256d [simp]: "length (sha256d sha data) = 32"
  by (simp add: sha256d_def)

definition sha_pair :: "(bytes \<Rightarrow> 256 word) \<Rightarrow> bytes \<Rightarrow> bytes \<Rightarrow> bytes" where
  "sha_pair sha256 a b = sha256d sha256 (a @ b)"

lemma hash_pair_eq:
  "length a = 32 \<Longrightarrow> length b = 32 \<Longrightarrow> hash_pair sha a b = Some (sha_pair sha a b)"
  by (simp add: hash_pair_def typed_set_def sha_pair_def)

interpretation sha: pair_hash "hash_pair sha256" "sha_pair sha256" "\<lambda>b. length b = 32" for sha256
  by unfold_locales (simp_all add: hash_pair_eq sha_pair_def)

lemma length_hexToUint8Array: "length (hexToUint8Array hx) = length hx div 2"
  by (auto simp: hexToUint8Array_def length_hexToBytes min_def)

lemma hexToUint8Array_bytes_hex [simp]: "hexToUint8Array (bytes_hex bs) = bs"
  by (simp add: hexToUint8Array_def num_bytes_def to_uint8_def map_idI)

section \<open>The coinbase script\<close>

lemma height_le_0 [simp]: "height_le 0 = []"
  by (simp add: height_le.simps)

lemma height_le_nth:
  "h < 2 ^ 32 \<Longrightarrow> i < length (height_le h) \<Longrightarrow> height_le h ! i = word_of_nat (h div 256 ^ i)"
proof (induction i arbitrary: h)
  case 0
  then have "h \<noteq> 0" by (cases "h = 0") auto
  then show ?case by (simp add: height_le.simps [of h])
next
  case (Suc i)
  then have h: "h \<noteq> 0" by (cases "h = 0") auto
  with Suc.prems have "height_le h = word_of_nat h # height_le (h div 256)"
    by (simp add: height_le.simps [of h])
  moreover have "h div 256 < 2 ^ 32" using Suc.prems(1) by simp
  ultimately show ?case using Suc.IH [of "h div 256"] Suc.prems(2) by (simp add: div_mult2_eq)
qed

lemma length_height_le: "h < 256 ^ k \<Longrightarrow> k \<le> 4 \<Longrightarrow> length (height_le h) \<le> k"
proof (induction k arbitrary: h)
  case 0
  then show ?case by (simp add: height_le.simps)
next
  case (Suc k)
  have "h mod 2 ^ 32 div 256 \<le> h div 256" by (intro div_le_mono mod_less_eq_dividend)
  also have "h div 256 < 256 ^ k" using Suc.prems(1) by (simp add: less_mult_imp_div_less mult.commute)
  finally show ?case using Suc by (simp add: height_le.simps [of h])
qed

lemma length_height_le_4: "length (height_le h) \<le> 4"
proof -
  have "h mod 2 ^ 32 div 256 < 256 ^ 3" by (simp add: less_mult_imp_div_less)
  from length_height_le [OF this] have "length (height_le (h mod 2 ^ 32 div 256)) \<le> 3" by simp
  then show ?thesis by (simp add: height_le.simps [of h])
qed

lemma height_le_covers: "h < 2 ^ 32 \<Longrightarrow> h < 256 ^ length (height_le h)"
proof (induction h rule: height_le.induct)
  case (1 h)
  show ?case
  proof (cases "h = 0")
    case True
    then show ?thesis by simp
  next
    case False
    with 1 have "h div 256 < 256 ^ length (height_le (h div 256))" by simp
    then have "h < 256 * 256 ^ length (height_le (h div 256))" by linarith
    with False 1(2) show ?thesis by (simp add: height_le.simps [of h])
  qed
qed

lemma bip34_height_nonempty [simp]: "bip34_height h \<noteq> []"
  by (simp add: bip34_height_def Let_def)

lemma length_bip34_height_5: "length (bip34_height h) \<le> 5"
  using length_height_le_4 [of h] by (auto simp: bip34_height_def Let_def)

lemma bip34_height_nth:
  assumes h: "h < 2 ^ 32" and i: "i < length (bip34_height h)"
  shows "bip34_height h ! i = word_of_nat (h div 256 ^ i)"
proof -
  have pad: "height_le h ! i = word_of_nat (h div 256 ^ i)" if "i < length (height_le h)"
    using height_le_nth [OF h that] .
  have zero: "h div 256 ^ i = 0" if "length (height_le h) \<le> i"
  proof -
    have "h < 256 ^ length (height_le h)" using height_le_covers [OF h] .
    also have "\<dots> \<le> 256 ^ i" using that by (intro power_increasing) auto
    finally show ?thesis by simp
  qed
  show ?thesis
    using i pad zero height_le_covers [OF h]
    by (auto simp: bip34_height_def Let_def nth_append less_Suc_eq_le split: if_splits)
qed

lemma length_bip34_height_4:
  assumes "h < 2 ^ 31"
  shows "length (bip34_height h) \<le> 4"
proof (cases "length (height_le h) = 4")
  case True
  have "last (height_le h) = height_le h ! 3" using True by (subst last_conv_nth) auto
  also have "\<dots> = word_of_nat (h div 256 ^ 3)"
    using height_le_nth [of h 3] assms True by simp
  finally have last: "last (height_le h) = word_of_nat (h div 256 ^ 3)" .
  have "h div 256 ^ 3 < 128" using assms by (simp add: less_mult_imp_div_less)
  then have "\<not> bit (h div 256 ^ 3) 7" by (simp add: bit_iff_odd)
  then have "\<not> bit (word_of_nat (h div 256 ^ 3) :: byte) 7" by (simp add: bit_simps)
  with last True show ?thesis by (auto simp: bip34_height_def Let_def)
next
  case False
  with length_height_le_4 [of h] show ?thesis by (auto simp: bip34_height_def Let_def)
qed

lemma bip34_height_covers:
  assumes "h < 2 ^ 32"
  shows "h < 256 ^ length (bip34_height h)"
proof -
  note height_le_covers [OF assms]
  also have "256 ^ length (height_le h) \<le> (256 :: nat) ^ length (bip34_height h)"
    by (intro power_increasing) (auto simp: bip34_height_def Let_def)
  finally show ?thesis .
qed

text \<open>A little-endian accumulation by \<open>|=\<close> and \<open><<\<close>, bit by bit.\<close>

lemma bit_le_accumulate:
  "bit (fold (\<lambda>i h. h OR push_bit (8 * i) (g i)) [0..<n] (0 :: 'a::len word)) j
     \<longleftrightarrow> (\<exists>i < n. 8 * i \<le> j \<and> j < LENGTH('a) \<and> bit (g i) (j - 8 * i))"
  by (induction n) (auto simp: bit_or_iff bit_push_bit_iff less_Suc_eq dest: bit_imp_le_length)

lemma bit_div_256: "bit (h div 256 ^ i) k \<longleftrightarrow> bit (h :: nat) (8 * i + k)"
proof -
  have "(256 :: nat) ^ i = 2 ^ (8 * i)" by (simp add: power_mult)
  then show ?thesis by (simp add: bit_iff_odd div_mult2_eq [symmetric] power_add)
qed

lemma le_accumulate_word_of_nat:
  assumes "n \<le> 4" "h < 256 ^ n"
    and g: "\<And>i. i < n \<Longrightarrow> g i = (ucast (word_of_nat (h div 256 ^ i) :: byte) :: 32 word)"
  shows "fold (\<lambda>i h. h OR push_bit (8 * i) (g i)) [0..<n] 0 = (word_of_nat h :: 32 word)"
proof (rule bit_word_eqI)
  fix j
  assume "j < LENGTH(32)"
  have high: "\<not> bit h j" if "8 * n \<le> j"
  proof -
    have "h < 2 ^ (8 * n)" using assms(2) by (simp add: power_mult)
    also have "\<dots> \<le> 2 ^ j" using that by (intro power_increasing) auto
    finally show ?thesis by (simp add: bit_iff_odd)
  qed
  have "(\<exists>i < n. 8 * i \<le> j \<and> bit (g i) (j - 8 * i)) \<longleftrightarrow> bit h j"
  proof
    assume "\<exists>i < n. 8 * i \<le> j \<and> bit (g i) (j - 8 * i)"
    then show "bit h j"
      by (auto simp: g bit_simps bit_div_256)
  next
    assume "bit h j"
    with high have "j div 8 < n" by (metis less_mult_imp_div_less mult.commute not_less)
    moreover have "bit (g (j div 8)) (j - 8 * (j div 8))"
      using \<open>bit h j\<close> calculation \<open>j < LENGTH(32)\<close> minus_mult_div_eq_mod [of j 8]
      by (auto simp: g bit_simps bit_div_256)
    ultimately show "\<exists>i < n. 8 * i \<le> j \<and> bit (g i) (j - 8 * i)"
      by (intro exI [of _ "j div 8"]) auto
  qed
  then show "bit (fold (\<lambda>i h. h OR push_bit (8 * i) (g i)) [0..<n] 0 :: 32 word) j = bit (word_of_nat h :: 32 word) j"
    using \<open>j < LENGTH(32)\<close> by (simp add: bit_le_accumulate bit_simps)
qed

section \<open>Reading a built coinbase back\<close>

definition cb1_prefix :: bytes where
  "cb1_prefix = [0x01, 0x00, 0x00, 0x00] @ [0x01] @ replicate 32 0 @ [0xff, 0xff, 0xff, 0xff]"

lemma length_cb1_prefix [simp]: "length cb1_prefix = 41"
  by (simp add: cb1_prefix_def)

lemma cb1_buildCoinbase:
  "cb1 (buildCoinbase h v ps wc) =
     cb1_prefix @ word_of_nat (length (bip34_height (nat h)) + 13)
       # word_of_nat (length (bip34_height (nat h))) # bip34_height (nat h)"
  by (simp add: buildCoinbase_def Let_def cb1_prefix_def)

lemma cb1_layout:
  fixes h v ps wc
  defines "hb \<equiv> bip34_height (nat h)" and "b \<equiv> cb1 (buildCoinbase h v ps wc)"
  shows "length b = 43 + length hb" "unat (b ! 41) = length hb + 13" "unat (b ! 42) = length hb"
    "i < length hb \<Longrightarrow> b ! (43 + i) = hb ! i"
proof -
  have b: "b = cb1_prefix @ word_of_nat (length hb + 13) # word_of_nat (length hb) # hb"
    by (simp add: b_def hb_def cb1_buildCoinbase)
  have len: "length hb \<le> 5" unfolding hb_def by (rule length_bip34_height_5)
  show "length b = 43 + length hb" by (simp add: b)
  show "unat (b ! 41) = length hb + 13" using len
    by (simp add: b nth_append unat_of_nat del: of_nat_add)
  show "unat (b ! 42) = length hb" using len by (simp add: b nth_append unat_of_nat)
  show "i < length hb \<Longrightarrow> b ! (43 + i) = hb ! i" by (simp add: b nth_append)
qed

lemma word_of_int_unat: "word_of_int (int (unat (w :: byte))) = (ucast w :: 32 word)"
  by (simp add: unsigned_ucast_eq)

lemma byte_at32_num_bytes:
  "i < length bs \<Longrightarrow> byte_at32 (num_bytes bs) i = ucast (bs ! i)"
  by (simp add: byte_at32_def index_def word_of_int_unat)



lemma cb1_not_Nil [simp]: "cb1 (buildCoinbase h v ps wc) \<noteq> []"
  by (simp add: cb1_buildCoinbase)

lemma inferExtranonceGap_built:
  "inferExtranonceGap (bytes_hex (cb1 (buildCoinbase height amount script commitment))) = Some 12"
  using cb1_layout [where h = height and v = amount and ps = script and wc = commitment]
  by (simp add: inferExtranonceGap_def)

lemma reconstruct_built_coinbase:
  "reconstructCoinbaseHex (bytes_hex (cb1 (buildCoinbase height amount script commitment))) (bytes_hex c2) fallbackLen
     = bytes_hex (cb1 (buildCoinbase height amount script commitment) @ replicate 12 0 @ c2)"
proof -
  have "byte_hex 0 = ''00''"
    by (simp add: byte_hex_def padStart_def to_radix.simps [of 16 0] digit_char_zero)
  moreover have "bytes_hex (replicate 12 0) = repeat_str 12 (byte_hex 0)"
    by (simp add: bytes_hex_def repeat_str_def)
  ultimately show ?thesis by (simp add: reconstructCoinbaseHex_def inferExtranonceGap_built)
qed

text \<open>
  for every template, the script length declared in coinbase1 leaves exactly the twelve
  extranonce bytes: \<open>inferExtranonceGap\<close> finds 12, \<open>reconstructCoinbaseHex\<close> ignores its
  fallback and fills them with zeros, and \<open>decodeCoinbaseAscii\<close> sees no text, since nothing
  follows the height push.
\<close>

theorem buildCoinbase_extranonce_gap:
  "let c = buildCoinbase height amount script commitment;
       c1 = bytes_hex (cb1 c); c2 = bytes_hex (cb2 c)
   in inferExtranonceGap c1 = Some 12
      \<and> reconstructCoinbaseHex c1 c2 fallbackLen = bytes_hex (cb1 c @ replicate 12 0 @ cb2 c)
      \<and> decodeCoinbaseAscii c1 = []"
  using cb1_layout [where h = height and v = amount and ps = script and wc = commitment]
  by (simp add: Let_def inferExtranonceGap_built reconstruct_built_coinbase decodeCoinbaseAscii_def
        index_def del: bytes_hex_append)

section \<open>Consensus decoding of coinbase2\<close>

text \<open>
  The reference decoder: compact sizes and outputs as the Bitcoin transaction format defines
  them, read from the front of a byte string.
\<close>

fun le_val :: "bytes \<Rightarrow> nat" where
  "le_val [] = 0"
| "le_val (b # bs) = unat b + 256 * le_val bs"

definition read_le :: "nat \<Rightarrow> bytes \<Rightarrow> (nat \<times> bytes) option" where
  "read_le k bs = (if k \<le> length bs then Some (le_val (take k bs), drop k bs) else None)"

fun read_varint :: "bytes \<Rightarrow> (nat \<times> bytes) option" where
  "read_varint [] = None"
| "read_varint (b # bs) =
     (if unat b < 0xfd then Some (unat b, bs)
      else read_le (if b = 0xfd then 2 else if b = 0xfe then 4 else 8) bs)"

definition read_output :: "bytes \<Rightarrow> ((nat \<times> bytes) \<times> bytes) option" where
  "read_output bs =
     do { (amount, r) \<leftarrow> read_le 8 bs;
          (n, r2) \<leftarrow> read_varint r;
          if n \<le> length r2 then Some ((amount, take n r2), drop n r2) else None }"

fun read_outputs :: "nat \<Rightarrow> bytes \<Rightarrow> ((nat \<times> bytes) list \<times> bytes) option" where
  "read_outputs 0 bs = Some ([], bs)"
| "read_outputs (Suc n) bs =
     do { (x, r) \<leftarrow> read_output bs; (xs, r2) \<leftarrow> read_outputs n r; Some (x # xs, r2) }"

definition read_coinbase2 :: "bytes \<Rightarrow> (nat \<times> (nat \<times> bytes) list \<times> nat) option" where
  "read_coinbase2 bs =
     do { (sequence_no, r) \<leftarrow> read_le 4 bs;
          (n, r2) \<leftarrow> read_varint r;
          (outs, r3) \<leftarrow> read_outputs n r2;
          (locktime, r4) \<leftarrow> read_le 4 r3;
          if r4 = [] then Some (sequence_no, outs, locktime) else None }"

lemma le_val_append: "le_val (xs @ ys) = le_val xs + 256 ^ length xs * le_val ys"
  by (induction xs) (simp_all add: algebra_simps)

lemma le_val_digits:
  assumes "\<And>i. i < k \<Longrightarrow> unat (g i) = n div 256 ^ i mod 256"
  shows "le_val (map g [0..<k]) = n mod 256 ^ k"
  using assms
proof (induction k)
  case 0
  show ?case by simp
next
  case (Suc k)
  have "n mod (256 ^ k * 256) = 256 ^ k * (n div 256 ^ k mod 256) + n mod 256 ^ k"
    by (rule mod_mult2_eq)
  with Suc show ?case by (simp add: le_val_append mult.commute)
qed

lemma read_le_append: "length xs = k \<Longrightarrow> read_le k (xs @ ys) = Some (le_val xs, ys)"
  by (simp add: read_le_def)

lemma le_val_zeros [simp]: "le_val (replicate n 0) = 0"
  by (induction n) simp_all

lemma length_coinbase_value_le [simp]: "length (coinbase_value_le v) = 8"
  by (simp add: coinbase_value_le_def)

lemma le_val_coinbase_value: "le_val (coinbase_value_le v) = nat (v mod 2 ^ 64)"
proof -
  have "unat (word_of_int (v div 2 ^ (i * 8)) :: byte) = nat (v mod 2 ^ 64) div 256 ^ i mod 256"
    if "i < 8" for i
  proof -
    have "(v div 2 ^ (i * 8)) mod 2 ^ 8 = (v mod 2 ^ 64) div 2 ^ (i * 8) mod 2 ^ 8"
      using that by (simp only: take_bit_eq_mod [symmetric] drop_bit_eq_div [symmetric]
          drop_bit_take_bit take_bit_take_bit)
    moreover have "(256 :: nat) ^ i = 2 ^ (i * 8)" by (simp add: power_mult mult.commute [of i])
    ultimately show ?thesis
      by (simp add: unat_word_of_int nat_mod_distrib nat_div_distrib nat_power_eq
          pos_imp_zdiv_nonneg_iff)
  qed
  from le_val_digits [of 8, OF this] show ?thesis
    by (simp add: coinbase_value_le_def nat_less_iff)
qed

lemma read_varint_encodeVarInt:
  assumes "n < 2 ^ 32"
  shows "read_varint (encodeVarInt n @ r) = Some (n, r)"
proof -
  let ?w = "word_of_nat n :: 32 word"
  have w: "unat ?w = n" using assms by (simp add: unat_of_nat)
  have b: "unat (ucast (drop_bit (8 * i) ?w) :: byte) = n div 256 ^ i mod 256" for i
    using unat_byte_of_word [of "8 * i" ?w] by (simp add: w power_mult)
  have upt: "[0..<2] = [0, 1 :: nat]" "[0..<4] = [0, 1, 2, 3 :: nat]" by code_simp+
  have v2: "le_val [ucast ?w, ucast (drop_bit 8 ?w)] = n mod 256 ^ 2"
    using le_val_digits [of 2 "\<lambda>i. ucast (drop_bit (8 * i) ?w)" n] b by (simp add: upt)
  have v4: "le_val [ucast ?w, ucast (drop_bit 8 ?w), ucast (drop_bit 16 ?w), ucast (drop_bit 24 ?w)]
      = n mod 256 ^ 4"
    using le_val_digits [of 4 "\<lambda>i. ucast (drop_bit (8 * i) ?w)" n] b by (simp add: upt)
  consider "n < 0xfd" | "0xfd \<le> n" "n \<le> 0xffff" | "0xffff < n" by linarith
  then show ?thesis
  proof cases
    case 1
    then have "unat (ucast ?w :: byte) = n" using b [of 0] by simp
    with 1 show ?thesis by (simp add: encodeVarInt_def)
  next
    case 2
    then have "n mod 256 ^ 2 = n" by simp
    with 2 show ?thesis using v2 by (simp add: encodeVarInt_def read_le_def Let_def del: le_val.simps)
  next
    case 3
    moreover have "n mod 256 ^ 4 = n" using assms by simp
    ultimately show ?thesis using v4 by (simp add: encodeVarInt_def read_le_def Let_def del: le_val.simps)
  qed
qed

lemma read_output_encoded:
  assumes "length vb = 8" "length script < 2 ^ 32"
  shows "read_output (vb @ encodeVarInt (length script) @ script @ r) = Some ((le_val vb, script), r)"
  using assms by (simp add: read_output_def read_le_append read_varint_encodeVarInt)

definition commitment_outputs :: "string option \<Rightarrow> (nat \<times> bytes) list" where
  "commitment_outputs w =
     (case w of
        Some hx \<Rightarrow> if hx = [] then [] else [(0, hexToUint8Array hx)]
      | None \<Rightarrow> [])"

lemma cb2_buildCoinbase:
  "cb2 (buildCoinbase h v script w) =
     [0xff, 0xff, 0xff, 0xff] @ word_of_nat (1 + length (commitment_outputs w))
       # coinbase_value_le v @ encodeVarInt (length script) @ script
       @ concat (map (\<lambda>(a, s). replicate 8 0 @ encodeVarInt (length s) @ s) (commitment_outputs w))
       @ [0, 0, 0, 0]"
  by (cases w) (simp_all add: buildCoinbase_def Let_def commitment_outputs_def)

lemma buildCoinbase_outputs_read:
  assumes "0 \<le> amount" "amount < 2 ^ 64" "length script < 2 ^ 32"
    and "\<forall>hx. commitment = Some hx \<longrightarrow> length hx < 2 ^ 33"
  shows "read_coinbase2 (cb2 (buildCoinbase height amount script commitment))
           = Some (2 ^ 32 - 1, (nat amount, script) # commitment_outputs commitment, 0)"
proof -
  have v: "le_val (coinbase_value_le amount) = nat amount"
    using assms by (simp add: le_val_coinbase_value)
  have len: "\<forall>(a, s) \<in> set (commitment_outputs commitment). a = 0 \<and> length s < 2 ^ 32"
    using assms(4)
    by (cases commitment) (auto simp: commitment_outputs_def length_hexToUint8Array less_mult_imp_div_less)
  have outs: "length (commitment_outputs commitment) \<le> 1"
    by (simp add: commitment_outputs_def split: option.split)
  note rd = read_output_encoded [of "replicate 8 0"] read_output_encoded [of "coinbase_value_le amount"]
  have two: "read_outputs 2 bs =
      do { (x, r) \<leftarrow> read_output bs; (xs, r2) \<leftarrow> read_outputs 1 r; Some (x # xs, r2) }" for bs
    by (simp only: numeral_2_eq_2 One_nat_def read_outputs.simps(2))
  have start: "read_le 4 ([0xff, 0xff, 0xff, 0xff] @ r) = Some (2 ^ 32 - 1, r)" for r
    by (simp add: read_le_def)
  show ?thesis
  proof (cases "commitment_outputs commitment")
    case Nil
    then show ?thesis
      using v assms(3) rd(2) [of script]
      by (simp add: read_coinbase2_def cb2_buildCoinbase start [simplified]) (simp add: read_le_def)
  next
    case (Cons x xs)
    with outs len obtain s where s: "commitment_outputs commitment = [(0, s)]" "length s < 2 ^ 32"
      by (cases x) auto
    then show ?thesis
      using v assms(3) rd(1) [of s] rd(2) [of script]
      by (simp add: read_coinbase2_def cb2_buildCoinbase start [simplified] two)
        (simp add: read_le_def)
  qed
qed

text \<open>
  C11: coinbase2 is a well-formed end of a transaction. A decoder of the Bitcoin format reads
  from it sequence 0xffffffff, the reward output with exactly the given value and payout
  script, the witness commitment as a second output of value zero when one is given, and
  lock time zero, and nothing is left over.
\<close>

theorem buildCoinbase_outputs_decode:
  assumes "0 \<le> amount" "amount < 2 ^ 64" "length script < 2 ^ 32"
    and "\<forall>hx. commitment = Some hx \<longrightarrow> length hx < 2 ^ 33"
  shows "read_coinbase2 (cb2 (buildCoinbase height amount script commitment))
           = Some (2 ^ 32 - 1, (nat amount, script) # commitment_outputs commitment, 0)"
  using assms by (rule buildCoinbase_outputs_read)

theorem buildCoinbase_outputs_decode_witness:
  "read_coinbase2 (cb2 (buildCoinbase 840000 312500000 [0x51, 0x20] (Some ''6a24aa21'')))
     = Some (2 ^ 32 - 1, (312500000, [0x51, 0x20]) # commitment_outputs (Some ''6a24aa21''), 0)"
  using buildCoinbase_outputs_decode [of 312500000 "[0x51, 0x20]" "Some ''6a24aa21''" 840000]
  by simp

section \<open>Merkle branches\<close>

text \<open>
  C1: for transaction ids of 64 hex digits, \<open>computeMerkleBranches\<close> returns, and hashing any
  coinbase id up through the branches it returns gives the merkle root of the whole block: the
  tree over the coinbase id followed by the transaction ids in internal byte order, with the
  last hash of an odd level paired with itself.
\<close>

theorem computeMerkleBranches_root:
  assumes "\<forall>t \<in> set txids. length t = 64"
  shows "\<exists>branches. computeMerkleBranches sha256 txids = Some branches
           \<and> climb (sha_pair sha256) coinbaseId branches
               = merkle_root (sha_pair sha256) (coinbaseId # map (\<lambda>t. rev (hexToUint8Array t)) txids)"
proof -
  have "list_all (\<lambda>b. length b = 32) (map (\<lambda>t. rev (hexToUint8Array t)) txids)"
    using assms by (simp add: list_all_iff length_hexToUint8Array)
  from sha.branches_climb_to_root [OF this, of sha256 "[]" coinbaseId] show ?thesis
    by (simp add: computeMerkleBranches_def)
qed

theorem computeMerkleBranches_root_witness:
  "\<exists>branches. computeMerkleBranches (\<lambda>b. word_of_nat (le_val b)) [replicate 64 CHR ''a'', replicate 64 CHR ''b'']
       = Some branches
     \<and> climb (sha_pair (\<lambda>b. word_of_nat (le_val b))) (replicate 32 7) branches
         = merkle_root (sha_pair (\<lambda>b. word_of_nat (le_val b)))
             (replicate 32 7 # map (\<lambda>t. rev (hexToUint8Array t))
                [replicate 64 CHR ''a'', replicate 64 CHR ''b''])"
  by (rule computeMerkleBranches_root) simp

section \<open>Rejected inputs\<close>

lemma is_lower_hex_digit: "is_lower_hex c \<Longrightarrow> is_digit 16 c"
  by (auto simp: is_lower_hex_def char_defs Let_def)

lemma check_required_None:
  "check_required t ks = None \<longleftrightarrow> ks = [] \<or> (\<exists>fs. t = JObj fs \<and> set ks \<subseteq> fst ` set fs)"
  by (induction ks) (auto simp: in_json_def split: json.splits bool.splits)

end
