(* ===== verification/Coinbase_Parser.thy ===== *)
theory Coinbase_Parser
  imports Bitcoin_Template
begin

text \<open>
  Model of the coinbase transaction parser of \<open>web/lib/bitcoin-utils.ts\<close>
  (\<open>parseCoinbase\<close>, \<open>detectAddress\<close>, \<open>decodeOpReturn\<close>) and of the difficulty
  formatter beside it. The functions of \<open>bitcoinjs-lib\<close> are parameters:
  \<open>fromHex\<close> for \<open>Transaction.fromHex\<close>, \<open>toBech32\<close> and \<open>fromOutputScript\<close> for
  the address encoders, \<open>None\<close> standing for an exception of theirs. The last section
  connects the parser with the coinbase halves of \<open>Bitcoin_Template\<close>.
\<close>

section \<open>Difficulty units\<close>

definition difficulty_units :: "string list" where
  "difficulty_units = ['''', ''K'', ''M'', ''G'', ''T'', ''P'', ''E'', ''Z'']"

text \<open>\<open>while (v >= 1000 && i < units.length - 1) { v /= 1000; i++; }\<close>\<close>

function scale_units :: "real \<Rightarrow> nat \<Rightarrow> real \<times> nat" where
  "scale_units v i =
     (if 1000 \<le> v \<and> i < length difficulty_units - 1 then scale_units (v / 1000) (i + 1) else (v, i))"
  by pat_completeness auto
termination
  by (relation "measure (\<lambda>(v, i). length difficulty_units - i)") auto

declare scale_units.simps [simp del]

definition formatDifficultyUnits :: "(number \<Rightarrow> string) \<Rightarrow> number \<Rightarrow> string" where
  "formatDifficultyUnits numToString d =
     (case d of
        Fin x \<Rightarrow>
          if x \<le> 0 then ''0''
          else (case scale_units x 0 of (v, i) \<Rightarrow>
            toFixed numToString (if v < 10 then 3 else if v < 100 then 2 else 1) (Fin v)
            @ difficulty_units ! i)
      | _ \<Rightarrow> ''0'')"

section \<open>Transactions and parsed outputs\<close>

text \<open>What the parser reads of a \<open>bitcoinjs-lib\<close> transaction.\<close>

record tx_out =
  out_value :: nat
  out_script :: bytes

record tx_in =
  in_sequence :: nat
  in_witness :: "bytes list"

record btc_tx =
  tx_version :: int
  tx_locktime :: nat
  tx_ins :: "tx_in list"
  tx_outs :: "tx_out list"
  tx_hasWitnesses :: bool

datatype address_type = P2PKH | P2SH | P2WPKH | P2WSH | P2TR

record op_return =
  protocol :: string
  detail :: "string option"

datatype ParsedOutput =
    AddressOutput address_type string nat string
  | NullData nat string string "op_return option"
  | UnknownOutput nat string

fun valueSats :: "ParsedOutput \<Rightarrow> nat" where
  "valueSats (AddressOutput _ _ v _) = v"
| "valueSats (NullData v _ _ _) = v"
| "valueSats (UnknownOutput v _) = v"

fun outputHex :: "ParsedOutput \<Rightarrow> string" where
  "outputHex (AddressOutput _ _ _ h) = h"
| "outputHex (NullData _ _ h _) = h"
| "outputHex (UnknownOutput _ h) = h"

record ParsedCoinbase =
  txVersion :: int
  inputSequence :: "nat option"
  locktime :: nat
  witnessCommitmentNonce :: "string option"
  outputs :: "ParsedOutput list"
  totalOutputSats :: nat

section \<open>OP\_RETURN payloads\<close>

text \<open>
  \<open>Buffer.from(hex, 'hex')\<close> decodes pairs up to the first that is not one. A UTF-8 decoding
  starts with an ASCII text iff the bytes do, so the prefix test is made on the bytes.
\<close>

fun Buffer_from_hex :: "string \<Rightarrow> bytes" where
  "Buffer_from_hex (c # d # s) =
     (if is_digit 16 c \<and> is_digit 16 d then word_of_nat (digits_val 16 [c, d]) # Buffer_from_hex s
      else [])"
| "Buffer_from_hex s = []"

definition ascii_startsWith :: "bytes \<Rightarrow> string \<Rightarrow> bool" where
  "ascii_startsWith bs p = (take (length p) bs = map (\<lambda>c. of_char c) p)"

definition decodeOpReturn :: "string \<Rightarrow> op_return option" where
  "decodeOpReturn dataHex =
     (if dataHex = [] then None
      else if startsWith dataHex ''aa21a9ed'' \<and> length dataHex = 8 + 64
      then Some \<lparr>protocol = ''Segwit Commitment'', detail = Some (drop 8 dataHex)\<rparr>
      else let asAscii = Buffer_from_hex dataHex;
               found = (\<lambda>p. Some \<lparr>protocol = p, detail = None\<rparr>) in
      if ascii_startsWith asAscii ''RSKBLOCK:'' then found ''Rootstock''
      else if ascii_startsWith asAscii ''HATHOR'' then found ''Hathor''
      else if ascii_startsWith asAscii ''SYS_BLOCK'' then found ''Syscoin''
      else if ascii_startsWith asAscii ''EXSAT'' then found ''exSat''
      else if startsWith dataHex ''434f5245'' then found ''CoreDAO''
      else found ''Unknown'')"

text \<open>The payload of an OP\_RETURN script after its first push opcode.\<close>

definition opReturnData :: "bytes \<Rightarrow> string" where
  "opReturnData script =
     (case drop 1 script of
        [] \<Rightarrow> []
      | op # args \<Rightarrow>
          let rest = op # args in
          if 1 \<le> op \<and> op \<le> 75 then bytes_hex (take (unat op) (drop 1 rest))
          else if op = 0x4c \<and> 2 \<le> length rest
          then bytes_hex (take (unat (rest ! 1)) (drop 2 rest))
          else if op = 0x4d \<and> 3 \<le> length rest
          then bytes_hex (take (unat ((ucast (rest ! 1) :: 32 word)
                                      OR push_bit 8 (ucast (rest ! 2)))) (drop 3 rest))
          else bytes_hex rest)"

section \<open>Addresses\<close>

definition script_type :: "bytes \<Rightarrow> address_type option" where
  "script_type s =
     (if length s = 25 \<and> s ! 0 = 0x76 \<and> s ! 1 = 0xa9 \<and> s ! 2 = 0x14 \<and> s ! 23 = 0x88 \<and> s ! 24 = 0xac
      then Some P2PKH
      else if length s = 23 \<and> s ! 0 = 0xa9 \<and> s ! 1 = 0x14 \<and> s ! 22 = 0x87 then Some P2SH
      else if length s = 22 \<and> s ! 0 = 0x00 \<and> s ! 1 = 0x14 then Some P2WPKH
      else if length s = 34 \<and> s ! 0 = 0x00 \<and> s ! 1 = 0x20 then Some P2WSH
      else if length s = 34 \<and> s ! 0 = 0x51 \<and> s ! 1 = 0x20 then Some P2TR
      else None)"

definition detectAddress ::
  "(bytes \<Rightarrow> nat \<Rightarrow> string option) \<Rightarrow> (bytes \<Rightarrow> string option) \<Rightarrow> bytes \<Rightarrow> (address_type \<times> string) option"
where
  "detectAddress toBech32 fromOutputScript scriptBuf =
     (case script_type scriptBuf of
        None \<Rightarrow> None
      | Some ty \<Rightarrow>
          map_option (\<lambda>addr. (ty, addr))
            (if ty = P2WPKH \<or> ty = P2WSH then toBech32 (drop 2 scriptBuf) 0
             else if ty = P2TR then toBech32 (drop 2 scriptBuf) 1
             else fromOutputScript scriptBuf))"

section \<open>The parser\<close>

definition parseOutput ::
  "(bytes \<Rightarrow> nat \<Rightarrow> string option) \<Rightarrow> (bytes \<Rightarrow> string option) \<Rightarrow> tx_out \<Rightarrow> ParsedOutput"
where
  "parseOutput toBech32 fromOutputScript out =
     (let script = out_script out; scriptHex = bytes_hex script in
      if 0 < length script \<and> script ! 0 = 0x6a
      then NullData (out_value out) (opReturnData script) scriptHex (decodeOpReturn (opReturnData script))
      else case detectAddress toBech32 fromOutputScript script of
        Some (ty, addr) \<Rightarrow> AddressOutput ty addr (out_value out) scriptHex
      | None \<Rightarrow> UnknownOutput (out_value out) scriptHex)"

definition coinbase_nonce :: "btc_tx \<Rightarrow> string option" where
  "coinbase_nonce tx =
     (case tx_ins tx of
        [] \<Rightarrow> None
      | cbInput # _ \<Rightarrow>
          if \<not> tx_hasWitnesses tx then None
          else case in_witness cbInput of
            w0 # _ \<Rightarrow> if length w0 = 32 then Some (bytes_hex w0) else None
          | [] \<Rightarrow> None)"

definition parseCoinbase ::
  "(string \<Rightarrow> btc_tx option) \<Rightarrow> (bytes \<Rightarrow> nat \<Rightarrow> string option) \<Rightarrow> (bytes \<Rightarrow> string option)
     \<Rightarrow> string \<Rightarrow> ParsedCoinbase option"
where
  "parseCoinbase fromHex toBech32 fromOutputScript cbHex =
     (case fromHex cbHex of
        None \<Rightarrow> None
      | Some tx \<Rightarrow>
          let outs = map (parseOutput toBech32 fromOutputScript) (tx_outs tx) in
          Some \<lparr>txVersion = tx_version tx,
                inputSequence = (case tx_ins tx of [] \<Rightarrow> None | i # _ \<Rightarrow> Some (in_sequence i)),
                locktime = tx_locktime tx,
                witnessCommitmentNonce = coinbase_nonce tx,
                outputs = outs,
                totalOutputSats = foldl (\<lambda>s out. s + valueSats out) 0 outs\<rparr>)"

section \<open>What the parser promises\<close>

lemma scale_units_value: "scale_units v i = (w, j) \<Longrightarrow> i \<le> j \<and> w * 1000 ^ (j - i) = v"
proof (induction v i rule: scale_units.induct)
  case (1 v i)
  show ?case
  proof (cases "1000 \<le> v \<and> i < length difficulty_units - 1")
    case True
    with 1 have "i + 1 \<le> j \<and> w * 1000 ^ (j - (i + 1)) = v / 1000"
      by (simp add: scale_units.simps [of v i])
    moreover from this have "j - i = Suc (j - (i + 1))" by linarith
    ultimately show ?thesis by simp
  next
    case False
    with 1(2) show ?thesis by (auto simp: scale_units.simps [of v i])
  qed
qed

lemma scale_units_range:
  "scale_units v i = (w, j) \<Longrightarrow> i \<le> 7 \<Longrightarrow> j \<le> 7 \<and> (j < 7 \<longrightarrow> w < 1000) \<and> (i < j \<longrightarrow> 1 \<le> w)"
proof (induction v i rule: scale_units.induct)
  case (1 v i)
  show ?case
  proof (cases "1000 \<le> v \<and> i < 7")
    case True
    with 1 have ih: "j \<le> 7 \<and> (j < 7 \<longrightarrow> w < 1000) \<and> (i + 1 < j \<longrightarrow> 1 \<le> w)"
      by (simp add: scale_units.simps [of v i] difficulty_units_def)
    have "1 \<le> w" if "\<not> i + 1 < j"
    proof -
      have s: "scale_units (v / 1000) (i + 1) = (w, j)"
        using 1(2) True by (simp add: scale_units.simps [of v i] difficulty_units_def)
      from scale_units_value [OF s] that have "j = i + 1" "w = v / 1000" by auto
      then show ?thesis using True by simp
    qed
    with ih show ?thesis by blast
  next
    case False
    with 1(2,3) show ?thesis by (auto simp: scale_units.simps [of v i] difficulty_units_def)
  qed
qed

lemma script_type_not_op_return: "script_type s = Some ty \<Longrightarrow> 0 < length s \<and> s ! 0 \<noteq> 0x6a"
  by (auto simp: script_type_def split: if_splits)

lemma valueSats_parseOutput [simp]: "valueSats (parseOutput tb fs out) = out_value out"
  by (auto simp: parseOutput_def Let_def split: option.split)

lemma outputHex_parseOutput [simp]: "outputHex (parseOutput tb fs out) = bytes_hex (out_script out)"
  by (auto simp: parseOutput_def Let_def split: option.split)

text \<open>
  whenever the transaction decoder accepts the hex, \<open>parseCoinbase\<close> returns one parsed
  output per transaction output, in order, with its value and its whole script in hex, and
  their total is the sum of the output values; when the decoder throws, the result is null.
\<close>

theorem parseCoinbase_outputs:
  "case fromHex cbHex of
     None \<Rightarrow> parseCoinbase fromHex toBech32 fromOutputScript cbHex = None
   | Some tx \<Rightarrow> (\<exists>p. parseCoinbase fromHex toBech32 fromOutputScript cbHex = Some p
       \<and> map valueSats (outputs p) = map out_value (tx_outs tx)
       \<and> map outputHex (outputs p) = map (\<lambda>out. bytes_hex (out_script out)) (tx_outs tx)
       \<and> totalOutputSats p = sum_list (map out_value (tx_outs tx)))"
  by (simp add: parseCoinbase_def Let_def foldl_plus_sum_list comp_def split: option.split)

text \<open>
  the three kinds of parsed output are decided by the script alone. An output is nulldata
  exactly when its script starts with OP\_RETURN; it is an address exactly when the script has
  one of the five standard shapes and the encoder for that shape succeeds, with the type of the
  shape and the encoder's address; every other output is unknown.
\<close>

theorem parseOutput_classification:
  fixes out toBech32 fromOutputScript
  defines "s \<equiv> out_script out" and "p \<equiv> parseOutput toBech32 fromOutputScript out"
  shows "((\<exists>v d h r. p = NullData v d h r) \<longleftrightarrow> (\<exists>rest. s = 0x6a # rest))
    \<and> ((\<exists>v h. p = AddressOutput ty addr v h) \<longleftrightarrow>
         script_type s = Some ty
         \<and> (case ty of
              P2WPKH \<Rightarrow> toBech32 (drop 2 s) 0
            | P2WSH \<Rightarrow> toBech32 (drop 2 s) 0
            | P2TR \<Rightarrow> toBech32 (drop 2 s) 1
            | _ \<Rightarrow> fromOutputScript s) = Some addr)"
proof (cases "\<exists>rest. s = 0x6a # rest")
  case True
  then show ?thesis
    using script_type_not_op_return [of s ty] by (auto simp: p_def s_def parseOutput_def Let_def)
next
  case False
  then have "\<not> (0 < length s \<and> s ! 0 = 0x6a)" by (cases s) auto
  then have p: "p = (case detectAddress toBech32 fromOutputScript s of
      Some (ty, addr) \<Rightarrow> AddressOutput ty addr (out_value out) (bytes_hex s)
    | None \<Rightarrow> UnknownOutput (out_value out) (bytes_hex s))"
    by (auto simp: p_def parseOutput_def Let_def s_def [symmetric])
  show ?thesis
    using False by (cases ty) (auto simp: p detectAddress_def split: option.splits)
qed

text \<open>The minimal push of a payload, as Bitcoin's script format defines it.\<close>

definition op_return_script :: "bytes \<Rightarrow> bytes" where
  "op_return_script payload =
     (let n = length payload in
      0x6a # (if n \<le> 75 then [word_of_nat n]
              else if n < 256 then [0x4c, word_of_nat n]
              else [0x4d, word_of_nat n, word_of_nat (n div 256)]) @ payload)"

lemma or_push_8:
  assumes "n < 2 ^ 16"
  shows "(ucast (word_of_nat n :: byte) :: 32 word) OR push_bit 8 (ucast (word_of_nat (n div 256) :: byte))
           = word_of_nat n"
proof -
  have "(fold (\<lambda>i h. h OR push_bit (8 * i) (ucast (word_of_nat (n div 256 ^ i) :: byte))) [0..<2] 0 :: 32 word)
      = word_of_nat n"
    using assms by (intro le_accumulate_word_of_nat) auto
  moreover have "[0..<2] = [0, 1 :: nat]" by code_simp
  ultimately show ?thesis by simp
qed

text \<open>
  the payload of an OP\_RETURN output is recovered from the script that pushes it, for
  every length that a direct push, OP\_PUSHDATA1 or OP\_PUSHDATA2 encodes.
\<close>

theorem opReturnData_roundtrip:
  assumes "0 < length payload" "length payload < 2 ^ 16"
  shows "opReturnData (op_return_script payload) = bytes_hex payload"
proof -
  let ?n = "length payload"
  consider "?n \<le> 75" | "75 < ?n" "?n < 256" | "256 \<le> ?n" by linarith
  then show ?thesis
  proof cases
    case 1
    then have "(word_of_nat ?n :: byte) \<le> 75" "(1 :: byte) \<le> word_of_nat ?n" "unat (word_of_nat ?n :: byte) = ?n"
      using assms(1) by (simp_all add: word_le_nat_alt unat_of_nat Suc_le_eq)
    with 1 show ?thesis by (simp add: opReturnData_def op_return_script_def Let_def)
  next
    case 2
    then have "unat (word_of_nat ?n :: byte) = ?n" by (simp add: unat_of_nat)
    with 2 show ?thesis by (simp add: opReturnData_def op_return_script_def Let_def)
  next
    case 3
    have "unat (word_of_nat ?n :: 32 word) = ?n" using assms(2) by (simp add: unat_of_nat)
    with 3 show ?thesis
      using or_push_8 [OF assms(2)] by (simp add: opReturnData_def op_return_script_def Let_def)
  qed
qed

theorem opReturnData_roundtrip_witness:
  "opReturnData (op_return_script (replicate 300 0xab)) = bytes_hex (replicate 300 0xab)"
  by (rule opReturnData_roundtrip) simp_all

section \<open>From the template to the displayed coinbase\<close>

text \<open>
  The reference decoder for a whole transaction with one input and no witness data, on top of
  the decoder for the part after the script.
\<close>

definition read_bytes :: "nat \<Rightarrow> bytes \<Rightarrow> (bytes \<times> bytes) option" where
  "read_bytes k bs = (if k \<le> length bs then Some (take k bs, drop k bs) else None)"

definition decode_coinbase :: "bytes \<Rightarrow> btc_tx option" where
  "decode_coinbase bs =
     do { (version, r1) \<leftarrow> read_le 4 bs;
          (ins, r2) \<leftarrow> read_varint r1;
          (prevout, r3) \<leftarrow> read_bytes 36 r2;
          (scriptLen, r4) \<leftarrow> read_varint r3;
          (script, r5) \<leftarrow> read_bytes scriptLen r4;
          (sequence_no, outs, lock) \<leftarrow> read_coinbase2 r5;
          if ins = 1 \<and> version < 2 ^ 31
          then Some \<lparr>tx_version = int version, tx_locktime = lock,
                     tx_ins = [\<lparr>in_sequence = sequence_no, in_witness = []\<rparr>],
                     tx_outs = map (\<lambda>(v, s). \<lparr>out_value = v, out_script = s\<rparr>) outs,
                     tx_hasWitnesses = False\<rparr>
          else None }"

lemma read_bytes_append: "read_bytes (length xs) (xs @ ys) = Some (xs, ys)"
  by (simp add: read_bytes_def)

lemma decode_built_coinbase:
  assumes "read_coinbase2 rest = Some (sequence_no, outs, lock)"
  shows "decode_coinbase (cb1 (buildCoinbase height amount script commitment) @ replicate 12 0 @ rest)
    = Some \<lparr>tx_version = 1, tx_locktime = lock,
            tx_ins = [\<lparr>in_sequence = sequence_no, in_witness = []\<rparr>],
            tx_outs = map (\<lambda>(v, s). \<lparr>out_value = v, out_script = s\<rparr>) outs,
            tx_hasWitnesses = False\<rparr>"
proof -
  let ?hb = "bip34_height (nat height)"
  let ?script = "word_of_nat (length ?hb) # ?hb @ replicate 12 0"
  have len: "length ?hb \<le> 5" by (rule length_bip34_height_5)
  then have n: "unat (word_of_nat (length ?hb + 13) :: byte) = length ?script"
    by (simp add: unat_of_nat del: of_nat_add)
  have "cb1 (buildCoinbase height amount script commitment) @ replicate 12 0 @ rest
      = [1, 0, 0, 0] @ [1] @ (replicate 32 0 @ [0xff, 0xff, 0xff, 0xff])
        @ [word_of_nat (length ?hb + 13)] @ ?script @ rest"
    by (simp add: cb1_buildCoinbase cb1_prefix_def)
  moreover have "read_varint ([word_of_nat (length ?hb + 13)] @ ?script @ rest) = Some (length ?script, ?script @ rest)"
    using n len by (simp del: of_nat_add)
  moreover have "read_bytes (length ?script) (?script @ rest) = Some (?script, rest)"
    by (rule read_bytes_append)
  moreover have "read_le 4 ([1, 0, 0, 0] @ r) = Some (1, r)"
    "read_varint ([1] @ r) = Some (1, r)"
    "read_bytes 36 ((replicate 32 0 @ [0xff, 0xff, 0xff, 0xff]) @ r)
       = Some (replicate 32 0 @ [0xff, 0xff, 0xff, 0xff], r)" for r :: bytes
    by (simp_all add: read_le_def read_bytes_def)
  ultimately show ?thesis
    using assms by (simp only: decode_coinbase_def) simp
qed

definition commitment_script :: "bytes \<Rightarrow> bytes" where
  "commitment_script wroot = [0x6a, 0x24, 0xaa, 0x21, 0xa9, 0xed] @ wroot"

lemma commitment_magic_hex:
  "byte_hex 0xaa = ''aa''" "byte_hex 0x21 = ''21''" "byte_hex 0xa9 = ''a9''" "byte_hex 0xed = ''ed''"
  by code_simp+

lemma parse_commitment:
  assumes "length wroot = 32"
  shows "parseOutput tb fs \<lparr>out_value = v, out_script = commitment_script wroot\<rparr>
    = NullData v (''aa21a9ed'' @ bytes_hex wroot) (bytes_hex (commitment_script wroot))
        (Some \<lparr>protocol = ''Segwit Commitment'', detail = Some (bytes_hex wroot)\<rparr>)"
proof -
  have "opReturnData (commitment_script wroot) = ''aa21a9ed'' @ bytes_hex wroot"
    using assms by (simp add: opReturnData_def commitment_script_def commitment_magic_hex)
  moreover have "decodeOpReturn (''aa21a9ed'' @ bytes_hex wroot)
      = Some \<lparr>protocol = ''Segwit Commitment'', detail = Some (bytes_hex wroot)\<rparr>"
    using assms by (simp add: decodeOpReturn_def startsWith_def)
  ultimately show ?thesis
    by (simp add: parseOutput_def Let_def) (simp add: commitment_script_def)
qed

text \<open>
  end to end, a coinbase built for a template with a witness commitment is displayed as
  what it pays. If the transaction decoder reads the reconstructed bytes as the Bitcoin format
  defines, \<open>parseCoinbase\<close> of \<open>reconstructCoinbaseHex\<close> shows version 1, sequence
  0xffffffff, lock time 0, the full amount as the total, and the commitment recognised with
  the committed root as its detail.
\<close>

theorem template_coinbase_display:
  fixes height amount payout wroot
  defines "c \<equiv> buildCoinbase height amount payout (Some (bytes_hex (commitment_script wroot)))"
  assumes "0 \<le> amount" "amount < 2 ^ 64" "length payout < 2 ^ 32" "length wroot = 32"
    and decoder: "fromHex (bytes_hex (cb1 c @ replicate 12 0 @ cb2 c))
                    = decode_coinbase (cb1 c @ replicate 12 0 @ cb2 c)"
  shows "\<exists>p first. parseCoinbase fromHex tb fs
             (reconstructCoinbaseHex (bytes_hex (cb1 c)) (bytes_hex (cb2 c)) fallbackLen) = Some p
      \<and> txVersion p = 1 \<and> inputSequence p = Some (2 ^ 32 - 1) \<and> locktime p = 0
      \<and> totalOutputSats p = nat amount
      \<and> outputs p = [first, NullData 0 (''aa21a9ed'' @ bytes_hex wroot)
           (bytes_hex (commitment_script wroot))
           (Some \<lparr>protocol = ''Segwit Commitment'', detail = Some (bytes_hex wroot)\<rparr>)]
      \<and> outputHex first = bytes_hex payout"
proof -
  have outs: "commitment_outputs (Some (bytes_hex (commitment_script wroot))) = [(0, commitment_script wroot)]"
    by (simp add: commitment_outputs_def commitment_script_def del: bytes_hex_Cons bytes_hex_append)
  have cb2: "read_coinbase2 (cb2 c) = Some (2 ^ 32 - 1, (nat amount, payout) # [(0, commitment_script wroot)], 0)"
    using buildCoinbase_outputs_read [of amount payout "Some (bytes_hex (commitment_script wroot))" height]
      assms outs by (simp add: c_def commitment_script_def)
  note tx = decode_built_coinbase [OF cb2, of height amount payout
      "Some (bytes_hex (commitment_script wroot))", folded c_def]
  have hex: "reconstructCoinbaseHex (bytes_hex (cb1 c)) (bytes_hex (cb2 c)) fallbackLen
      = bytes_hex (cb1 c @ replicate 12 0 @ cb2 c)"
    unfolding c_def by (rule reconstruct_built_coinbase)
  show ?thesis
    unfolding hex parseCoinbase_def decoder tx
    using parse_commitment [OF assms(5)] by (simp add: Let_def)
qed

theorem template_coinbase_display_witness:
  "let c = buildCoinbase 840000 312500000 [0x51] (Some (bytes_hex (commitment_script (replicate 32 7))))
   in \<exists>p first. parseCoinbase (\<lambda>hx. decode_coinbase (hexToUint8Array hx)) (\<lambda>_ _. None) (\<lambda>_. None)
             (reconstructCoinbaseHex (bytes_hex (cb1 c)) (bytes_hex (cb2 c)) 8) = Some p
      \<and> txVersion p = 1 \<and> inputSequence p = Some (2 ^ 32 - 1) \<and> locktime p = 0
      \<and> totalOutputSats p = nat 312500000
      \<and> outputs p = [first, NullData 0 (''aa21a9ed'' @ bytes_hex (replicate 32 7))
           (bytes_hex (commitment_script (replicate 32 7)))
           (Some \<lparr>protocol = ''Segwit Commitment'', detail = Some (bytes_hex (replicate 32 7))\<rparr>)]
      \<and> outputHex first = bytes_hex [0x51]"
  unfolding Let_def
  by (rule template_coinbase_display) (simp_all del: bytes_hex_append)

end
