(* ===== verification/Utils.thy ===== *)
theory Utils
  imports Bitcoin_Utils
begin

text \<open>
  Model of \<open>web/lib/utils.ts\<close>: explorer links, address and hex truncation, relative
  times, the byte-array compact target decoder \<open>nbitsToTarget\<close>, unit formatting and the
  per-address palette. \<open>cn\<close> (class names, third-party) and \<open>formatM1N3\<close>
  (locale formatting) are not modelled. The current time and the network name are
  arguments.
\<close>

unbundle bit_operations_syntax

definition suiscanTx :: "string \<Rightarrow> string \<Rightarrow> string" where
  "suiscanTx network digest = ''https://suiscan.xyz/'' @ network @ ''/tx/'' @ digest"

definition suiscanObject :: "string \<Rightarrow> string \<Rightarrow> string" where
  "suiscanObject network address = ''https://suiscan.xyz/'' @ network @ ''/object/'' @ address"

definition suiscanAccount :: "string \<Rightarrow> string \<Rightarrow> string" where
  "suiscanAccount network address = ''https://suiscan.xyz/'' @ network @ ''/account/'' @ address"

definition truncateAddress :: "string \<Rightarrow> nat \<Rightarrow> string" where
  "truncateAddress addr chars =
     (if addr = [] then []
      else if length addr \<le> chars * 2 + 2 then addr
      else slice 0 (int chars + 2) addr @ ''...'' @ slice (- int chars) (int (length addr)) addr)"

definition formatHex :: "string \<Rightarrow> nat \<Rightarrow> string" where
  "formatHex s maxLen =
     (if s = [] then []
      else if length s \<le> maxLen then s
      else slice 0 (int maxLen) s @ ''...'')"

definition timeAgo :: "int \<Rightarrow> int \<Rightarrow> string" where
  "timeAgo now ms =
     (let diff = now - ms in
      if diff < 0 then ''just now''
      else let seconds = diff div 1000 in
      if seconds < 60 then int_to_string seconds @ ''s ago''
      else let minutes = seconds div 60 in
      if minutes < 60 then int_to_string minutes @ ''m ago''
      else let hours = minutes div 60 in
      if hours < 24 then int_to_string hours @ ''h ago''
      else let days = hours div 24 in int_to_string days @ ''d ago'')"

text \<open>
  \<open>target[i] = v\<close> under the guard \<open>i >= 0 && i < 32\<close>; the assigned value is a byte.
\<close>

definition put_byte :: "int \<Rightarrow> byte \<Rightarrow> bytes \<Rightarrow> bytes" where
  "put_byte i v target = (if 0 \<le> i \<and> i < 32 then target[nat i := v] else target)"

definition nbitsToTarget :: "int \<Rightarrow> string" where
  "nbitsToTarget nbits =
     (let exponent = nbits_exponent nbits;
          mantissa = word_of_nat (nbits_mantissa nbits) :: 32 word
      in if mantissa = 0 \<or> exponent = 0 then repeat_str 64 ''0''
         else let offset = 32 - int exponent;
                  t0 = replicate 32 0;
                  t1 = put_byte offset (ucast (drop_bit 16 mantissa)) t0;
                  t2 = put_byte (offset + 1) (ucast (drop_bit 8 mantissa)) t1;
                  t3 = put_byte (offset + 2) (ucast mantissa) t2
              in bytes_hex t3)"

definition formatDifficulty :: "(number \<Rightarrow> string) \<Rightarrow> number \<Rightarrow> string" where
  "formatDifficulty numToString diff =
     (if Fin (10 ^ 12) \<le> diff then toFixed numToString 2 (diff / Fin (10 ^ 12)) @ ''T''
      else if Fin (10 ^ 9) \<le> diff then toFixed numToString 2 (diff / Fin (10 ^ 9)) @ ''G''
      else if Fin (10 ^ 6) \<le> diff then toFixed numToString 2 (diff / Fin (10 ^ 6)) @ ''M''
      else if Fin (10 ^ 3) \<le> diff then toFixed numToString 2 (diff / Fin (10 ^ 3)) @ ''K''
      else numToString diff)"

definition formatHashrate :: "(number \<Rightarrow> string) \<Rightarrow> number \<Rightarrow> string" where
  "formatHashrate numToString h =
     (if Fin (10 ^ 18) \<le> h then toFixed numToString 2 (h / Fin (10 ^ 18)) @ '' EH/s''
      else if Fin (10 ^ 15) \<le> h then toFixed numToString 2 (h / Fin (10 ^ 15)) @ '' PH/s''
      else if Fin (10 ^ 12) \<le> h then toFixed numToString 2 (h / Fin (10 ^ 12)) @ '' TH/s''
      else if Fin (10 ^ 9) \<le> h then toFixed numToString 2 (h / Fin (10 ^ 9)) @ '' GH/s''
      else if Fin (10 ^ 6) \<le> h then toFixed numToString 2 (h / Fin (10 ^ 6)) @ '' MH/s''
      else if Fin (10 ^ 3) \<le> h then toFixed numToString 2 (h / Fin (10 ^ 3)) @ '' KH/s''
      else toFixed numToString 2 h @ '' H/s'')"

definition ADDRESS_PALETTE :: "string list" where
  "ADDRESS_PALETTE =
     [''#818cf8'', ''#f472b6'', ''#22d3ee'', ''#a78bfa'', ''#fb923c'',
      ''#34d399'', ''#f87171'', ''#38bdf8'', ''#fbbf24'', ''#c084fc'']"

definition djb2Hash :: "string \<Rightarrow> 32 word" where
  "djb2Hash str = foldl (\<lambda>hash c. (push_bit 5 hash + hash) + of_char c) 5381 str"

definition addressColor :: "string \<Rightarrow> string option" where
  "addressColor address =
     index ADDRESS_PALETTE (unat (djb2Hash address) mod length ADDRESS_PALETTE)"

section \<open>Lemmas: the two compact-target decoders agree\<close>

definition be_value :: "bytes \<Rightarrow> nat" where
  "be_value bs = foldl (\<lambda>a b. a * 256 + unat b) 0 bs"

lemma be_value_snoc [simp]: "be_value (bs @ [b]) = be_value bs * 256 + unat b"
  by (simp add: be_value_def)

lemma be_value_zeros [simp]: "be_value (replicate n 0) = 0"
  by (induction n) (simp_all add: be_value_def)

lemma be_value_update:
  "i < length bs \<Longrightarrow> bs ! i = 0 \<Longrightarrow>
     be_value (bs[i := b]) = be_value bs + unat b * 256 ^ (length bs - 1 - i)"
proof (induction bs rule: rev_induct)
  case Nil
  then show ?case by simp
next
  case (snoc c bs)
  show ?case
  proof (cases "i = length bs")
    case True
    with snoc.prems show ?thesis by simp
  next
    case False
    with snoc.prems have i: "i < length bs" "bs ! i = 0" by (auto simp: nth_append)
    obtain k where k: "length bs = Suc (i + k)" using i(1) less_imp_Suc_add by auto
    from snoc.IH i k False show ?thesis
      by (simp add: list_update_append)
  qed
qed

lemma length_put_byte [simp]: "length (put_byte i b t) = length t"
  by (simp add: put_byte_def)

lemma put_byte_other:
  "length t = 32 \<Longrightarrow> j \<noteq> i \<Longrightarrow> 0 \<le> j \<Longrightarrow> put_byte i b t ! nat j = t ! nat j"
  by (auto simp: put_byte_def nth_list_update)

lemma be_value_put_byte:
  assumes "length t = 32" "0 \<le> i \<and> i < 32 \<longrightarrow> t ! nat i = 0"
  shows "be_value (put_byte i b t)
    = be_value t + (if 0 \<le> i \<and> i < 32 then unat b * 256 ^ (31 - nat i) else 0)"
  using assms be_value_update [of "nat i" t b] by (auto simp: put_byte_def)

text \<open>The big-endian value of three bytes at a possibly negative offset.\<close>

lemma be_value_three:
  assumes t: "t3 = put_byte (off + 2) b0 (put_byte (off + 1) b1 (put_byte off b2 (replicate 32 0)))"
    and off: "off = 32 - int e" and e: "3 \<le> e"
  shows "be_value t3 =
    (if e \<le> 32 then unat b2 * 256 ^ (e - 1) else 0)
    + (if e \<le> 33 then unat b1 * 256 ^ (e - 2) else 0)
    + (if e \<le> 34 then unat b0 * 256 ^ (e - 3) else 0)"
proof -
  let ?t1 = "put_byte off b2 (replicate 32 0)"
  let ?t2 = "put_byte (off + 1) b1 ?t1"
  have z: "0 \<le> i \<and> i < 32 \<longrightarrow> replicate 32 (0 :: byte) ! nat i = 0" for i
    by (intro impI nth_replicate) linarith
  have z1: "0 \<le> off + 1 \<and> off + 1 < 32 \<longrightarrow> ?t1 ! nat (off + 1) = 0"
    using put_byte_other [of "replicate 32 0" "off + 1" off b2] z [of "off + 1"] by simp
  have z2: "0 \<le> off + 2 \<and> off + 2 < 32 \<longrightarrow> ?t2 ! nat (off + 2) = 0"
    using put_byte_other [of ?t1 "off + 2" "off + 1" b1]
      put_byte_other [of "replicate 32 0" "off + 2" off b2] z [of "off + 2"] by simp
  have pw: "e \<le> 32 \<Longrightarrow> 31 - nat off = e - 1" "e \<le> 33 \<Longrightarrow> 31 - nat (off + 1) = e - 2"
    "e \<le> 34 \<Longrightarrow> 31 - nat (off + 2) = e - 3"
    using off e by auto
  have in_range: "(0 \<le> off \<and> off < 32) = (e \<le> 32)" "(0 \<le> off + 1 \<and> off + 1 < 32) = (e \<le> 33)"
    "(0 \<le> off + 2 \<and> off + 2 < 32) = (e \<le> 34)"
    using off e by auto
  have v1: "be_value ?t1 = (if e \<le> 32 then unat b2 * 256 ^ (e - 1) else 0)"
    using be_value_put_byte [of "replicate 32 0" off b2, OF _ z [of off]]
    unfolding in_range by (auto simp: pw)
  have v2: "be_value ?t2 = be_value ?t1 + (if e \<le> 33 then unat b1 * 256 ^ (e - 2) else 0)"
    using be_value_put_byte [of ?t1 "off + 1" b1, OF _ z1] unfolding in_range by (auto simp: pw)
  have v3: "be_value t3 = be_value ?t2 + (if e \<le> 34 then unat b0 * 256 ^ (e - 3) else 0)"
    using be_value_put_byte [of ?t2 "off + 2" b0, OF _ z2] unfolding in_range t by (auto simp: pw)
  show ?thesis by (simp only: v1 v2 v3)
qed

lemma mantissa_bytes:
  assumes "m < 2 ^ 24"
  shows "m div 2 ^ 16 mod 256 * 65536 + m div 2 ^ 8 mod 256 * 256 + m mod 256 = (m :: nat)"
  using nat_base256_digits [of m] assms by simp

lemma three_bytes_mod:
  fixes a b c e :: nat
  assumes lt: "a < 256" "b < 256" "c < 256" and e: "3 \<le> e"
  shows "(a * 65536 + b * 256 + c) * 256 ^ (e - 3) mod 2 ^ 256 =
    (if e \<le> 32 then a * 256 ^ (e - 1) else 0) + (if e \<le> 33 then b * 256 ^ (e - 2) else 0)
    + (if e \<le> 34 then c * 256 ^ (e - 3) else 0)"
proof -
  obtain k where k: "e = k + 3" using e le_Suc_ex by (metis add.commute)
  have w: "(2 :: nat) ^ 256 = 256 ^ 32" by simp
  show ?thesis
  proof (cases "e \<le> 32")
    case True
    have "(a * 65536 + b * 256 + c) * 256 ^ k < 256 ^ 3 * 256 ^ k"
      using lt by (intro mult_strict_right_mono) simp_all
    also have "\<dots> = 256 ^ (k + 3)" by (simp add: power_add)
    also have "\<dots> \<le> (256 :: nat) ^ 32" using True k by (intro power_increasing) auto
    finally show ?thesis
      using True k by (simp only: w mod_less) (simp add: algebra_simps power_add)
  next
    case False
    have rem: "(x * 256 ^ 32 + y) mod 256 ^ 32 = y" if "y < 256 ^ 32" for x y :: nat
      using that by simp
    consider "e = 33" | "e = 34" | "35 \<le> e" using False by linarith
    then show ?thesis
    proof cases
      case 1
      have "b * 256 + c < 256 ^ 2" using lt by simp
      then have "(b * 256 + c) * 256 ^ 30 < 256 ^ 2 * 256 ^ 30"
        by (intro mult_strict_right_mono) simp_all
      then have "(b * 256 + c) * 256 ^ 30 < 256 ^ 32" by simp
      note r = rem [OF this, of a]
      have "(a * 65536 + b * 256 + c) * 256 ^ 30 = a * 256 ^ 32 + (b * 256 + c) * 256 ^ 30" by simp
      with r have "(a * 65536 + b * 256 + c) * 256 ^ 30 mod 2 ^ 256 = (b * 256 + c) * 256 ^ 30"
        by (simp only: w)
      with 1 show ?thesis by simp
    next
      case 2
      have "c * 256 ^ 31 < 256 * 256 ^ 31"
        using lt by (intro mult_strict_right_mono) simp_all
      then have "c * 256 ^ 31 < 256 ^ 32" by simp
      note r = rem [OF this, of "a * 256 + b"]
      have "(a * 65536 + b * 256 + c) * 256 ^ 31 = (a * 256 + b) * 256 ^ 32 + c * 256 ^ 31" by simp
      with r have "(a * 65536 + b * 256 + c) * 256 ^ 31 mod 2 ^ 256 = c * 256 ^ 31"
        by (simp only: w)
      with 2 show ?thesis by simp
    next
      case 3
      then have "e - 3 = 32 + (e - 35)" by arith
      then have "(256 :: nat) ^ (e - 3) = 256 ^ 32 * 256 ^ (e - 35)" by (simp only: power_add)
      then have "x * 256 ^ (e - 3) mod 2 ^ 256 = (0 :: nat)" for x by (simp only: w) simp
      with 3 show ?thesis by simp
    qed
  qed
qed

lemma unat_mantissa_word: "unat (word_of_nat (nbits_mantissa n) :: 32 word) = nbits_mantissa n"
  using nbits_mantissa_less [of n] by (simp add: unat_of_nat)

lemma mantissa_word_zero: "(word_of_nat (nbits_mantissa n) = (0 :: 32 word)) \<longleftrightarrow> nbits_mantissa n = 0"
  by (metis unat_mantissa_word unat_eq_zero)

lemma repeat_str_single: "repeat_str n [c] = replicate n c"
  by (induction n) (simp_all add: repeat_str_def)

lemma nbitsToTarget_zero:
  "nbits_mantissa n = 0 \<or> nbits_exponent n = 0 \<Longrightarrow> nbitsToTarget n = replicate 64 CHR ''0''"
  by (simp add: nbitsToTarget_def mantissa_word_zero repeat_str_single)

lemma targetHex_canonical: "canonical 16 (targetHex (decodeNbits n))"
proof -
  have "canonical 16 (nbits_hex n)"
    by (simp add: nbits_hex_def padStart_def repeat_zero_zero canonical_zeros canonical_to_radix)
  then show ?thesis by (simp add: targetHex_eq padStart_def canonical_zeros canonical_drop)
qed

text \<open>The array \<open>nbitsToTarget\<close> fills, for a nonzero mantissa and exponent.\<close>

definition target_bytes :: "int \<Rightarrow> bytes" where
  "target_bytes n =
     (let m = word_of_nat (nbits_mantissa n) :: 32 word; off = 32 - int (nbits_exponent n)
      in put_byte (off + 2) (ucast m) (put_byte (off + 1) (ucast (drop_bit 8 m))
           (put_byte off (ucast (drop_bit 16 m)) (replicate 32 0))))"

lemma nbitsToTarget_bytes:
  "nbits_mantissa n \<noteq> 0 \<Longrightarrow> nbits_exponent n \<noteq> 0 \<Longrightarrow> nbitsToTarget n = bytes_hex (target_bytes n)"
  by (simp only: nbitsToTarget_def target_bytes_def Let_def mantissa_word_zero) simp

lemma length_target_bytes: "length (target_bytes n) = 32"
  by (simp add: target_bytes_def Let_def)

lemma mantissa_byte_values:
  fixes m :: "32 word"
  assumes "m = word_of_nat (nbits_mantissa n)"
  shows "unat (ucast (drop_bit 16 m) :: byte) = nbits_mantissa n div 2 ^ 16 mod 256"
    and "unat (ucast (drop_bit 8 m) :: byte) = nbits_mantissa n div 2 ^ 8 mod 256"
    and "unat (ucast m :: byte) = nbits_mantissa n mod 256"
  using unat_byte_of_word [of 16 m] unat_byte_of_word [of 8 m] unat_byte_of_word [of 0 m]
    unat_mantissa_word [of n] assms
  by simp_all

lemma be_value_target_bytes:
  assumes "3 \<le> nbits_exponent n"
  shows "be_value (target_bytes n) =
    nbits_mantissa n * 256 ^ (nbits_exponent n - 3) mod 2 ^ 256"
proof -
  let ?m = "nbits_mantissa n" and ?e = "nbits_exponent n"
  have m: "?m div 2 ^ 16 mod 256 * 65536 + ?m div 2 ^ 8 mod 256 * 256 + ?m mod 256 = ?m"
    using mantissa_bytes [of ?m] nbits_mantissa_less [of n] by simp
  have "be_value (target_bytes n) =
      (if ?e \<le> 32 then ?m div 2 ^ 16 mod 256 * 256 ^ (?e - 1) else 0)
      + (if ?e \<le> 33 then ?m div 2 ^ 8 mod 256 * 256 ^ (?e - 2) else 0)
      + (if ?e \<le> 34 then ?m mod 256 * 256 ^ (?e - 3) else 0)"
    using be_value_three [OF _ refl assms] mantissa_byte_values [OF refl, of n]
    by (simp only: target_bytes_def Let_def)
  also have "\<dots> = (?m div 2 ^ 16 mod 256 * 65536 + ?m div 2 ^ 8 mod 256 * 256 + ?m mod 256)
      * 256 ^ (?e - 3) mod 2 ^ 256"
    by (rule three_bytes_mod [symmetric]) (use assms in simp_all)
  finally show ?thesis by (simp only: m)
qed

lemma nbits_decoders_eq:
  assumes "3 \<le> nbits_exponent n \<or> nbits_mantissa n = 0"
  shows "nbitsToTarget n = targetHex (decodeNbits n)"
proof (rule canonical_inj [of _ _ 16])
  show "length (nbitsToTarget n) = length (targetHex (decodeNbits n))"
    using nbitsToTarget_zero [of n] nbitsToTarget_bytes [of n] assms
    by (cases "nbits_mantissa n = 0") (auto simp: length_targetHex length_target_bytes)
  show "canonical 16 (nbitsToTarget n)"
    using nbitsToTarget_zero [of n] nbitsToTarget_bytes [of n] canonical_zeros [of 16 64] assms
    by (cases "nbits_mantissa n = 0") (auto simp: canonical_bytes_hex)
  show "canonical 16 (targetHex (decodeNbits n))" by (rule targetHex_canonical)
  show "digits_val 16 (nbitsToTarget n) = digits_val 16 (targetHex (decodeNbits n))"
  proof (cases "nbits_mantissa n = 0")
    case True
    then show ?thesis by (simp add: nbitsToTarget_zero targetHex_value)
  next
    case False
    with assms show ?thesis
      by (simp add: nbitsToTarget_bytes targetHex_value digits_val_bytes_hex
            be_value_def [symmetric] be_value_target_bytes)
  qed
qed simp

lemma be_value_target_bytes_small:
  assumes "nbits_exponent n = 1 \<or> nbits_exponent n = 2"
  shows "be_value (target_bytes n) = nbits_mantissa n div 256 ^ (3 - nbits_exponent n)"
proof -
  let ?m = "nbits_mantissa n"
  have z: "0 \<le> i \<and> i < 32 \<longrightarrow> replicate 32 (0 :: byte) ! nat i = 0" for i
    by (intro impI nth_replicate) linarith
  have v: "be_value (put_byte i b (replicate 32 0)) =
      (if 0 \<le> i \<and> i < 32 then unat b * 256 ^ (31 - nat i) else 0)" for i b
    using be_value_put_byte [of "replicate 32 0" i b, OF _ z] by simp
  have top: "?m div 2 ^ 16 mod 256 = ?m div 2 ^ 16"
    using nbits_mantissa_less [of n] by (simp add: less_mult_imp_div_less)
  have out: "put_byte 32 b t = t" "put_byte 33 b t = t" for b t by (simp_all add: put_byte_def)
  show ?thesis
  proof (cases "nbits_exponent n = 1")
    case True
    then show ?thesis
      using mantissa_byte_values [OF refl, of n] v [of 31] top
      by (simp add: target_bytes_def Let_def out)
  next
    case False
    with assms have e: "nbits_exponent n = 2" by simp
    have "put_byte 30 b (replicate 32 0) ! nat 31 = 0" for b
      using put_byte_other [of "replicate 32 0" 31 30 b] z [of 31] by simp
    then have v2: "be_value (put_byte 31 b (put_byte 30 c (replicate 32 0))) = unat c * 256 + unat b" for b c
      using be_value_put_byte [of "put_byte 30 c (replicate 32 0)" 31 b] v [of 30 c] by simp
    have "?m div 2 ^ 16 * 256 + ?m div 2 ^ 8 mod 256 = ?m div 256"
      by (simp add: div_mult2_eq [of ?m 256 256, simplified])
    then show ?thesis
      using mantissa_byte_values [OF refl, of n] v2 top e
      by (simp add: target_bytes_def Let_def out)
  qed
qed

lemma addressColor_defined: "\<exists>c. addressColor a = Some c \<and> c \<in> set ADDRESS_PALETTE"
proof -
  have "unat (djb2Hash a) mod length ADDRESS_PALETTE < length ADDRESS_PALETTE"
    by (rule mod_less_divisor) (simp add: ADDRESS_PALETTE_def)
  then show ?thesis by (simp only: addressColor_def index_def if_True option.inject) (auto intro: nth_mem)
qed

section \<open>Properties\<close>

text \<open>
  the two independent decoders of the compact target, the string-building
  \<open>decodeNbits\<close> of bitcoin-utils and the byte-array \<open>nbitsToTarget\<close> of utils,
  produce the same 64-digit hex target for every nbits whose exponent is at least 3 or
  whose mantissa is zero.
\<close>

theorem nbits_decoders_agree:
  assumes "3 \<le> nbits_exponent n \<or> nbits_mantissa n = 0"
  shows "nbitsToTarget n = targetHex (decodeNbits n)"
  using assms by (rule nbits_decoders_eq)

theorem nbits_decoders_agree_witness:
  "nbits_exponent 0x1d00ffff = 29 \<and> nbitsToTarget 0x1d00ffff = targetHex (decodeNbits 0x1d00ffff)"
proof -
  have e: "nbits_exponent 0x1d00ffff = 29" by (simp add: nbits_exponent_eq)
  then show ?thesis using nbits_decoders_agree [of "0x1d00ffff"] by simp
qed

text \<open>
  for exponents 1 and 2 the decoders disagree. \<open>nbitsToTarget\<close> shifts the
  mantissa right, as the compact encoding prescribes; \<open>decodeNbits\<close> returns the
  mantissa unshifted, so its target is too large by the factor \<open>256 ^ (3 - exponent)\<close>
  (the comment beside it says \<open>target = mantissa * 256^(exp - 3)\<close>).
\<close>

theorem nbits_small_exponent_divergence:
  assumes "nbits_exponent n = 1 \<or> nbits_exponent n = 2" "nbits_mantissa n \<noteq> 0"
  shows "digits_val 16 (nbitsToTarget n) = nbits_mantissa n div 256 ^ (3 - nbits_exponent n)
    \<and> digits_val 16 (targetHex (decodeNbits n)) = nbits_mantissa n"
proof
  show "digits_val 16 (nbitsToTarget n) = nbits_mantissa n div 256 ^ (3 - nbits_exponent n)"
    using assms be_value_target_bytes_small [OF assms(1)]
    by (auto simp: nbitsToTarget_bytes digits_val_bytes_hex be_value_def)
  have "nbits_mantissa n < 2 ^ 256" using nbits_mantissa_less [of n] by simp
  then show "digits_val 16 (targetHex (decodeNbits n)) = nbits_mantissa n"
    using assms(1) by (auto simp: targetHex_value)
qed

theorem nbits_small_exponent_divergence_witness:
  "digits_val 16 (nbitsToTarget 0x02123456) = 0x1234
   \<and> digits_val 16 (targetHex (decodeNbits 0x02123456)) = 0x123456"
proof -
  have e: "nbits_exponent 0x02123456 = 2" and m: "nbits_mantissa 0x02123456 = 0x123456"
    by (simp_all add: nbits_exponent_eq nbits_mantissa_eq)
  show ?thesis using nbits_small_exponent_divergence [of "0x02123456"] e m by simp
qed

end
