(* ===== verification/Hashprice.thy ===== *)
theory Hashprice
  imports Js_Json
begin

text \<open>
  Model of \<open>web/lib/hashprice-utils.ts\<close> (share valuation, discounts, yields, luck, round
  durations, projections) and of the hashprice computation in \<open>web/hooks/useHashprice.ts\<close>.
  The two HTTP responses are arguments of the latter. The lemmas relate the valuations to each
  other: the PPS value of a share, the hashprice of the work it represents, the discount and
  the buyer's return.
\<close>

section \<open>Share valuation\<close>

definition computeTheoreticalValue :: "number \<Rightarrow> number \<Rightarrow> number \<Rightarrow> number" where
  "computeTheoreticalValue shareDifficulty networkDifficulty blockRewardUsd =
     (if networkDifficulty \<le> 0 then 0 else (blockRewardUsd / networkDifficulty) * shareDifficulty)"

definition computeDiscount :: "number \<Rightarrow> number \<Rightarrow> number" where
  "computeDiscount marketPrice theoreticalValue =
     (if theoreticalValue \<le> 0 then 0
      else Math_max 0 ((1 - marketPrice / theoreticalValue) * 100))"

definition discountAtBlock :: "number \<Rightarrow> number \<Rightarrow> number \<Rightarrow> number" where
  "discountAtBlock blocksUntilMature maxDiscount alpha =
     (let MATURATION_BLOCKS = 100;
          ratio = Math_min (blocksUntilMature / MATURATION_BLOCKS) 1
      in maxDiscount * Math_pow ratio alpha)"

definition difficultyToWorkPh :: "number \<Rightarrow> number" where
  "difficultyToWorkPh difficulty = (difficulty * 4294967296) / Fin (10 ^ 15)"

definition formatHashratePh :: "(number \<Rightarrow> string) \<Rightarrow> number \<Rightarrow> string" where
  "formatHashratePh numToString ph =
     (if 1 \<le> ph then toFixed numToString 2 ph @ '' PH''
      else let th = ph * 1000 in
      if 1 \<le> th then toFixed numToString 2 th @ '' TH''
      else let gh = th * 1000 in toFixed numToString 2 gh @ '' GH'')"

section \<open>Gas\<close>

definition GAS_COST_STANDARD_MIST :: number where "GAS_COST_STANDARD_MIST = 600000"
definition GAS_COST_LIGHTWEIGHT_MIST :: number where "GAS_COST_LIGHTWEIGHT_MIST = 150000"
definition GAS_COST_TEMPLATE_REGISTER_MIST :: number where "GAS_COST_TEMPLATE_REGISTER_MIST = 800000"

definition gasCostPerShareSol :: "bool \<Rightarrow> number" where
  "gasCostPerShareSol lightweight =
     (let mist = (if lightweight then GAS_COST_LIGHTWEIGHT_MIST else GAS_COST_STANDARD_MIST)
      in mist / Fin (10 ^ 9))"

definition totalGasBurnSol :: "number \<Rightarrow> number \<Rightarrow> number \<Rightarrow> number" where
  "totalGasBurnSol standardShares lightweightShares templateRegistrations =
     (standardShares * GAS_COST_STANDARD_MIST
      + lightweightShares * GAS_COST_LIGHTWEIGHT_MIST
      + templateRegistrations * GAS_COST_TEMPLATE_REGISTER_MIST) / Fin (10 ^ 9)"

section \<open>Yields\<close>

definition computeStakerAPY :: "number \<Rightarrow> number \<Rightarrow> number \<Rightarrow> number" where
  "computeStakerAPY totalFeesCollectedMist totalStakedBaseUnits periodDays =
     (if totalStakedBaseUnits \<le> 0 \<or> periodDays \<le> 0 then 0
      else let dailyFeeRate = totalFeesCollectedMist / periodDays;
               annualFees = dailyFeeRate * 365
           in (annualFees / totalStakedBaseUnits) * 100)"

definition computeDailyYieldPerToken :: "number \<Rightarrow> number \<Rightarrow> number \<Rightarrow> number" where
  "computeDailyYieldPerToken totalFeesCollectedMist totalStakedBaseUnits periodDays =
     (if totalStakedBaseUnits \<le> 0 \<or> periodDays \<le> 0 then 0
      else totalFeesCollectedMist / periodDays / totalStakedBaseUnits)"

definition computeAnnualizedBuyerYield :: "number \<Rightarrow> number \<Rightarrow> number" where
  "computeAnnualizedBuyerYield discountPct blocksUntilMature =
     (if discountPct \<le> 0 \<or> blocksUntilMature \<le> 0 then 0
      else let holdingHours = (blocksUntilMature * 10) / 60;
               discountFraction = discountPct / 100;
               returnPct = (discountFraction / (1 - discountFraction)) * 100
           in returnPct * (8760 / holdingHours))"

definition computeBuyerROI :: "number \<Rightarrow> number \<Rightarrow> number" where
  "computeBuyerROI purchasePrice theoreticalValue =
     (if purchasePrice \<le> 0 then 0
      else ((theoreticalValue - purchasePrice) / purchasePrice) * 100)"

section \<open>Pool performance\<close>

definition computeLuckFactor :: "number \<Rightarrow> number \<Rightarrow> number \<Rightarrow> number \<Rightarrow> number" where
  "computeLuckFactor totalShares totalBlocks poolDifficulty networkDifficulty =
     (if networkDifficulty \<le> 0 \<or> totalShares \<le> 0 then 1
      else let expectedBlocks = (totalShares * poolDifficulty) / networkDifficulty in
      if expectedBlocks \<le> 0 then 1 else totalBlocks / expectedBlocks)"

record round_duration =
  avgSec :: number
  stdDevSec :: number

fun gaps_sec :: "number list \<Rightarrow> number list" where
  "gaps_sec (a # b # ts) = (b - a) / 1000 # gaps_sec (b # ts)"
| "gaps_sec ts = []"

definition computeAvgRoundDuration :: "number list \<Rightarrow> round_duration" where
  "computeAvgRoundDuration blockTimestampsMs =
     (if length blockTimestampsMs < 2 then \<lparr>avgSec = 0, stdDevSec = 0\<rparr>
      else let sorted_ts = js_sort (\<lambda>a b. a - b) blockTimestampsMs;
               durations = gaps_sec sorted_ts;
               n = Fin (real (length durations));
               avg = sum_num (\<lambda>d. d) durations / n;
               variance = sum_num (\<lambda>d. (d - avg) * (d - avg)) durations / n
           in \<lparr>avgSec = avg, stdDevSec = Math_sqrt variance\<rparr>)"

definition computeExpectedRoundDuration :: "number \<Rightarrow> number \<Rightarrow> number" where
  "computeExpectedRoundDuration networkDifficulty poolHashrateHps =
     (if poolHashrateHps \<le> 0 then PosInf
      else (networkDifficulty * 4294967296) / poolHashrateHps)"

definition computeImpliedWaitingCost :: "number \<Rightarrow> number" where
  "computeImpliedWaitingCost costOfCapitalApr =
     (let maturationHours = (100 * 10) / 60 in costOfCapitalApr * (maturationHours / 8760))"

definition computeMinerBreakEvenDiscount :: "number \<Rightarrow> number" where
  "computeMinerBreakEvenDiscount costOfCapitalApr = computeImpliedWaitingCost costOfCapitalApr"

section \<open>Pool comparison, market size and projections\<close>

record FPPSComparison =
  poolName :: string
  feeRate :: number
  payoutMethod :: string
  payoutDelay :: string
  effectivePayoutRate :: number
  m1n3EquivalentDiscount :: number

definition FPPS_POOL_DATA :: "FPPSComparison list" where
  "FPPS_POOL_DATA =
     [\<lparr>poolName = ''Foundry USA'', feeRate = Fin 2, payoutMethod = ''FPPS'', payoutDelay = ''24h+'',
       effectivePayoutRate = Fin (98 / 100), m1n3EquivalentDiscount = Fin 2\<rparr>,
      \<lparr>poolName = ''AntPool'', feeRate = Fin (5 / 2), payoutMethod = ''FPPS'', payoutDelay = ''24h+'',
       effectivePayoutRate = Fin (975 / 1000), m1n3EquivalentDiscount = Fin (5 / 2)\<rparr>,
      \<lparr>poolName = ''F2Pool'', feeRate = Fin (5 / 2), payoutMethod = ''PPS+'', payoutDelay = ''24h+'',
       effectivePayoutRate = Fin (975 / 1000), m1n3EquivalentDiscount = Fin (5 / 2)\<rparr>,
      \<lparr>poolName = ''ViaBTC'', feeRate = Fin 4, payoutMethod = ''PPS+'', payoutDelay = ''24h+'',
       effectivePayoutRate = Fin (96 / 100), m1n3EquivalentDiscount = Fin 4\<rparr>,
      \<lparr>poolName = ''m1n3 (marketplace)'', feeRate = Fin 0, payoutMethod = ''Instant (marketplace)'',
       payoutDelay = ''Minutes'', effectivePayoutRate = Fin 1, m1n3EquivalentDiscount = Fin 0\<rparr>]"

definition BTC_BLOCK_SUBSIDY :: number where "BTC_BLOCK_SUBSIDY = Fin (3125 / 1000)"
definition BTC_BLOCKS_PER_DAY :: number where "BTC_BLOCKS_PER_DAY = 144"

record TAM =
  dailyBlockRewardsBtc :: number
  dailyTxFeesBtc :: number
  dailyMiningRevenueUsd :: number
  addressableRevenueUsd :: number

definition computeTAM :: "number \<Rightarrow> number \<Rightarrow> TAM" where
  "computeTAM btcPriceUsd avgDailyTxFeesBtc =
     (let rewards = BTC_BLOCK_SUBSIDY * BTC_BLOCKS_PER_DAY;
          revenue = (rewards + avgDailyTxFeesBtc) * btcPriceUsd
      in \<lparr>dailyBlockRewardsBtc = rewards, dailyTxFeesBtc = avgDailyTxFeesBtc,
          dailyMiningRevenueUsd = revenue, addressableRevenueUsd = rewards * btcPriceUsd\<rparr>)"

record RevenueProjection =
  rp_label :: string
  adoptionPct :: number
  dailyHashratePh :: number
  dailySharesEstimate :: number
  dailyVolumeUsd :: number
  dailyFeesUsd :: number
  monthlyFeesUsd :: number
  annualFeesUsd :: number
  stakerApyPct :: number

definition adoptionLevels :: "(string \<times> number) list" where
  "adoptionLevels = [(''0.1% (early)'', Fin (1 / 10)), (''1% (growing)'', 1),
                     (''5% (established)'', 5), (''10% (major)'', 10)]"

definition project_level :: "number \<Rightarrow> number \<Rightarrow> number \<Rightarrow> number \<Rightarrow> number \<Rightarrow> string \<times> number \<Rightarrow> RevenueProjection" where
  "project_level globalHashratePh hashpricePerPh totalStakedBase avgDiscountPct feeRateBps level =
     (case level of (lab, pct) \<Rightarrow>
      let hashratePh = globalHashratePh * (pct / 100);
          volumeUsd = hashratePh * hashpricePerPh;
          marketplaceVolumeUsd = volumeUsd * (1 - avgDiscountPct / 100);
          feesUsd = marketplaceVolumeUsd * (feeRateBps / 10000);
          monthly = feesUsd * 30;
          annual = feesUsd * 365;
          shares = Math_round (hashratePh * Fin (10 ^ 15) / (4096 * 4294967296) * 86400);
          apy = (if 0 < totalStakedBase then (annual / totalStakedBase) * Fin (10 ^ 8) * 100 else 0)
      in \<lparr>rp_label = lab, adoptionPct = pct, dailyHashratePh = hashratePh, dailySharesEstimate = shares,
          dailyVolumeUsd = marketplaceVolumeUsd, dailyFeesUsd = feesUsd, monthlyFeesUsd = monthly,
          annualFeesUsd = annual, stakerApyPct = apy\<rparr>)"

definition generateRevenueProjections ::
  "number \<Rightarrow> number \<Rightarrow> number \<Rightarrow> number \<Rightarrow> number \<Rightarrow> RevenueProjection list"
where
  "generateRevenueProjections globalHashratePh hashpricePerPh totalStakedBase avgDiscountPct feeRateBps =
     map (project_level globalHashratePh hashpricePerPh totalStakedBase avgDiscountPct feeRateBps)
       adoptionLevels"

section \<open>The hashprice query\<close>

definition BLOCK_SUBSIDY_BTC :: number where "BLOCK_SUBSIDY_BTC = Fin (3125 / 1000)"
definition BLOCKS_PER_DAY :: number where "BLOCKS_PER_DAY = 144"
definition TARGET_BLOCK_TIME_SEC :: number where "TARGET_BLOCK_TIME_SEC = 600"
definition TWO_POW_32 :: number where "TWO_POW_32 = 4294967296"
definition PH :: number where "PH = Fin (10 ^ 15)"
definition SATS_PER_BTC :: number where "SATS_PER_BTC = Fin (10 ^ 8)"
definition BLOCK_SUBSIDY_SATS :: number where "BLOCK_SUBSIDY_SATS = BLOCK_SUBSIDY_BTC * SATS_PER_BTC"

text \<open>A response of \<open>fetch\<close>: its status flag, and the body \<open>json()\<close> resolves to.\<close>

record http_response =
  http_ok :: bool
  http_status :: int
  http_body :: json

datatype fetch_error = CoinGeckoStatus int | MempoolStatus int | NoDifficulty | NoBtcPrice

record HashpriceResponse =
  hashprice :: number
  btcPrice :: number
  suiPrice :: number
  derivedNetworkHashrate :: number
  networkDifficulty :: number
  satsPerDelta :: number
  satsPerMegaDelta :: number
  usdPerMegaDelta :: number
  fairMistPerShareUnit :: number
  updatedAt :: string

definition derive_hashprice :: "number \<Rightarrow> number \<Rightarrow> number \<Rightarrow> string \<Rightarrow> HashpriceResponse" where
  "derive_hashprice btc sui diff now =
     (let hashrate = (diff * TWO_POW_32) / TARGET_BLOCK_TIME_SEC;
          hashratePh = hashrate / PH;
          dailyRevenueUsd = BLOCK_SUBSIDY_BTC * BLOCKS_PER_DAY * btc;
          perDelta = BLOCK_SUBSIDY_SATS / diff;
          perMegaDelta = perDelta * Fin (10 ^ 6);
          usdPerShareUnit = perDelta * (btc / SATS_PER_BTC)
      in \<lparr>hashprice = dailyRevenueUsd / hashratePh, btcPrice = btc, suiPrice = sui,
          derivedNetworkHashrate = hashrate, networkDifficulty = diff,
          satsPerDelta = perDelta, satsPerMegaDelta = perMegaDelta,
          usdPerMegaDelta = perMegaDelta * (btc / SATS_PER_BTC),
          fairMistPerShareUnit = (if 0 < sui then (usdPerShareUnit / sui) * Fin (10 ^ 9) else 0),
          updatedAt = now\<rparr>)"

definition fetchHashprice ::
  "http_response \<Rightarrow> http_response \<Rightarrow> string \<Rightarrow> fetch_error + HashpriceResponse"
where
  "fetchHashprice priceRes diffRes now =
     (if \<not> http_ok priceRes then Inl (CoinGeckoStatus (http_status priceRes))
      else if \<not> http_ok diffRes then Inl (MempoolStatus (http_status diffRes))
      else let btc = get (get (http_body priceRes) ''bitcoin'') ''usd'';
               sui = or_default (get (get (http_body priceRes) ''sui'') ''usd'') (JNum 0);
               diff = or_default (get (http_body diffRes) ''currentDifficulty'') (JNum 0) in
      if \<not> truthy diff then Inl NoDifficulty
      else if \<not> truthy btc then Inl NoBtcPrice
      else Inr (derive_hashprice (to_num btc) (to_num sui) (to_num diff) now))"

section \<open>Valuations agree\<close>

lemmas hashprice_constants = BLOCK_SUBSIDY_BTC_def BLOCKS_PER_DAY_def TARGET_BLOCK_TIME_SEC_def
  TWO_POW_32_def PH_def SATS_PER_BTC_def BLOCK_SUBSIDY_SATS_def

lemma derive_hashprice_finite:
  fixes p n s :: real
  assumes "n \<noteq> 0"
  shows "hashprice (derive_hashprice (Fin p) sui (Fin n) now) = Fin (270000 * p / (n * 4294967296 / 10 ^ 15))"
    "usdPerMegaDelta (derive_hashprice (Fin p) sui (Fin n) now) = Fin (3125000 * p / n)"
    "0 < s \<Longrightarrow> fairMistPerShareUnit (derive_hashprice (Fin p) (Fin s) (Fin n) now) = Fin (3125000000 * p / n / s)"
  using assms by (simp_all add: derive_hashprice_def hashprice_constants Let_def)

lemma fetchHashprice_ok:
  assumes "fetchHashprice priceRes diffRes now = Inr r"
  shows "r = derive_hashprice (btcPrice r) (suiPrice r) (networkDifficulty r) now"
  using assms by (auto simp: fetchHashprice_def Let_def derive_hashprice_def split: if_splits)

text \<open>
  the two valuations of a share agree. The PPS value that \<open>computeTheoreticalValue\<close> gives a
  share of any difficulty, from the block subsidy at the fetched price, is the fetched hashprice
  (dollars per PH/s and day) times the petahashes \<open>difficultyToWorkPh\<close> says the share
  represents, per second of a day; the displayed value of a million difficulty-1 shares and the
  reference price in MIST are that same PPS value in their units.
\<close>

theorem share_value_is_hashprice_of_work:
  assumes "fetchHashprice priceRes diffRes now = Inr r"
    and "btcPrice r = Fin p" "networkDifficulty r = Fin n" "0 < n" "suiPrice r = Fin s" "0 < s"
  shows "computeTheoreticalValue (Fin d) (networkDifficulty r) (BLOCK_SUBSIDY_BTC * btcPrice r)
           = hashprice r / 86400 * difficultyToWorkPh (Fin d)
       \<and> usdPerMegaDelta r
           = computeTheoreticalValue 1000000 (networkDifficulty r) (BLOCK_SUBSIDY_BTC * btcPrice r)
       \<and> fairMistPerShareUnit r * suiPrice r / 1000000000
           = computeTheoreticalValue 1 (networkDifficulty r) (BLOCK_SUBSIDY_BTC * btcPrice r)"
proof -
  have r: "r = derive_hashprice (Fin p) (Fin s) (Fin n) now"
    using fetchHashprice_ok [OF assms(1)] assms by simp
  have n: "n \<noteq> 0" using assms(4) by simp
  note vals = derive_hashprice_finite(1,2) [OF n, where p = p and sui = "Fin s" and now = now]
    derive_hashprice_finite(3) [OF n assms(6), where p = p and now = now]
  have "270000 * p / (n * 4294967296 / 10 ^ 15) / 86400 * (d * 4294967296 / 10 ^ 15) = 3125 / 1000 * p / n * d"
    using n by simp
  then show ?thesis
    using n assms vals
    by (simp add: r [symmetric] computeTheoreticalValue_def difficultyToWorkPh_def
          BLOCK_SUBSIDY_BTC_def del: power_numeral)
qed

definition sample_price_response :: http_response where
  "sample_price_response = \<lparr>http_ok = True, http_status = 200,
     http_body = JObj [(''bitcoin'', JObj [(''usd'', JNum 100000)]), (''sui'', JObj [(''usd'', JNum 4)])]\<rparr>"

definition sample_difficulty_response :: http_response where
  "sample_difficulty_response = \<lparr>http_ok = True, http_status = 200,
     http_body = JObj [(''currentDifficulty'', JNum 125000000000000)]\<rparr>"

lemma sample_fetch:
  "fetchHashprice sample_price_response sample_difficulty_response ''now''
     = Inr (derive_hashprice 100000 4 125000000000000 ''now'')"
  by (simp add: fetchHashprice_def sample_price_response_def sample_difficulty_response_def
        obj_get_def or_default_def truthy_def)

theorem share_value_is_hashprice_of_work_witness:
  "let r = derive_hashprice 100000 4 125000000000000 ''now'' in
     computeTheoreticalValue (Fin 65536) (networkDifficulty r) (BLOCK_SUBSIDY_BTC * btcPrice r)
       = hashprice r / 86400 * difficultyToWorkPh (Fin 65536)
   \<and> usdPerMegaDelta r
       = computeTheoreticalValue 1000000 (networkDifficulty r) (BLOCK_SUBSIDY_BTC * btcPrice r)
   \<and> fairMistPerShareUnit r * suiPrice r / 1000000000
       = computeTheoreticalValue 1 (networkDifficulty r) (BLOCK_SUBSIDY_BTC * btcPrice r)"
  unfolding Let_def
  by (rule share_value_is_hashprice_of_work [OF sample_fetch, of 100000 125000000000000 4])
    (simp_all add: derive_hashprice_def Let_def)

section \<open>Discounts and returns\<close>

lemma computeDiscount_below:
  "0 < v \<Longrightarrow> p \<le> v \<Longrightarrow> computeDiscount (Fin p) (Fin v) = Fin ((1 - p / v) * 100)"
  by (simp add: computeDiscount_def max_def field_simps)

lemma computeDiscount_above:
  "0 < v \<Longrightarrow> v \<le> p \<Longrightarrow> computeDiscount (Fin p) (Fin v) = Fin 0"
  by (simp add: computeDiscount_def max_def field_simps)

text \<open>
  discount, buyer return and annualised yield are one relation. A share bought below its
  value shows a discount strictly between 0 and 100, \<open>computeBuyerROI\<close> is the return that
  discount implies, \<open>(1 - discount) * (1 + return) = 1\<close>, and the annualised yield of the
  discount is that return times the number of holding periods in a year; bought at or above its
  value it shows discount 0 and yield 0.
\<close>

theorem buyer_discount_roi_yield:
  assumes "0 < p" "0 < v" "0 < blocks"
  shows "\<exists>d roi. computeDiscount (Fin p) (Fin v) = Fin d \<and> computeBuyerROI (Fin p) (Fin v) = Fin roi
      \<and> (p < v \<longrightarrow> 0 < d \<and> d < 100 \<and> (1 - d / 100) * (1 + roi / 100) = 1
            \<and> computeAnnualizedBuyerYield (Fin d) (Fin blocks) = Fin (roi * (8760 / (blocks * 10 / 60))))
      \<and> (v \<le> p \<longrightarrow> d = 0 \<and> computeAnnualizedBuyerYield (Fin d) (Fin blocks) = 0)"
proof (cases "p < v")
  case True
  let ?d = "(1 - p / v) * 100" and ?roi = "(v - p) / p * 100"
  have d: "computeDiscount (Fin p) (Fin v) = Fin ?d" using True assms by (simp add: computeDiscount_below)
  have roi: "computeBuyerROI (Fin p) (Fin v) = Fin ?roi" using assms by (simp add: computeBuyerROI_def)
  have pos: "0 < ?d" "?d < 100" using True assms by (simp_all add: field_simps)
  have inv: "(1 - ?d / 100) * (1 + ?roi / 100) = 1" using assms by (simp add: field_simps)
  have frac: "?d / 100 / (1 - ?d / 100) * 100 = ?roi" using assms by (simp add: field_simps)
  have "computeAnnualizedBuyerYield (Fin ?d) (Fin blocks)
      = Fin (?d / 100 / (1 - ?d / 100) * 100 * (8760 / (blocks * 10 / 60)))"
    using pos assms by (simp add: computeAnnualizedBuyerYield_def Let_def)
  then have "computeAnnualizedBuyerYield (Fin ?d) (Fin blocks) = Fin (?roi * (8760 / (blocks * 10 / 60)))"
    by (simp only: frac)
  with d roi pos inv True show ?thesis by (intro exI conjI) auto
next
  case False
  with assms show ?thesis
    by (intro exI [of _ 0] exI [of _ "(v - p) / p * 100"])
      (simp add: computeDiscount_above computeBuyerROI_def computeAnnualizedBuyerYield_def)
qed

theorem buyer_discount_roi_yield_witness:
  "\<exists>d roi. computeDiscount (Fin 90) (Fin 100) = Fin d \<and> computeBuyerROI (Fin 90) (Fin 100) = Fin roi
      \<and> ((90 :: real) < 100 \<longrightarrow> 0 < d \<and> d < 100 \<and> (1 - d / 100) * (1 + roi / 100) = 1
            \<and> computeAnnualizedBuyerYield (Fin d) (Fin 100) = Fin (roi * (8760 / (100 * 10 / 60))))
      \<and> ((100 :: real) \<le> 90 \<longrightarrow> d = 0 \<and> computeAnnualizedBuyerYield (Fin d) (Fin 100) = 0)"
  by (rule buyer_discount_roi_yield) simp_all

text \<open>
  at a discount of 10 percent and 100 blocks to maturity the annualised yield is exactly
  5840 percent, where the comment on the function gives about 219 percent.
\<close>

theorem annualized_yield_example:
  "computeAnnualizedBuyerYield 10 100 = 5840"
  by (simp add: computeAnnualizedBuyerYield_def Let_def)

lemma discountAtBlock_ratio:
  assumes "0 < b" "b \<le> 100"
  shows "discountAtBlock (Fin b) (Fin m) (Fin \<alpha>) = Fin (m * (b / 100) powr \<alpha>)"
  using assms by (simp add: discountAtBlock_def Let_def min_def pow_real_def powr_def)

text \<open>
  the expected discount of a share grows with the blocks left to maturity and stays between
  0 and the maximum, which it takes from 100 blocks on; for a positive exponent a mature share
  has none.
\<close>

theorem discountAtBlock_bounds_mono:
  assumes "0 \<le> b1" "b1 \<le> b2" "0 \<le> m" "0 < \<alpha>"
  shows "\<exists>d1 d2. discountAtBlock (Fin b1) (Fin m) (Fin \<alpha>) = Fin d1
      \<and> discountAtBlock (Fin b2) (Fin m) (Fin \<alpha>) = Fin d2
      \<and> 0 \<le> d1 \<and> d1 \<le> d2 \<and> d2 \<le> m \<and> (b1 = 0 \<longrightarrow> d1 = 0) \<and> (100 \<le> b2 \<longrightarrow> d2 = m)"
proof -
  have eq: "discountAtBlock (Fin b) (Fin m) (Fin \<alpha>) = Fin (m * min (b / 100) 1 powr \<alpha>)" if "0 \<le> b" for b
    using that assms(4) by (simp add: discountAtBlock_def Let_def min_def pow_real_def)
  have mono: "min (b1 / 100) 1 powr \<alpha> \<le> min (b2 / 100) 1 powr \<alpha>"
    using assms by (intro powr_mono2) auto
  have le1: "min (b2 / 100) 1 powr \<alpha> \<le> 1" using assms powr_mono2 [of \<alpha> "min (b2 / 100) 1" 1] by auto
  have "m * min (b1 / 100) 1 powr \<alpha> \<le> m * min (b2 / 100) 1 powr \<alpha>"
    using mono assms(3) by (rule mult_left_mono)
  moreover have "m * min (b2 / 100) 1 powr \<alpha> \<le> m * 1"
    using le1 assms(3) by (rule mult_left_mono)
  ultimately show ?thesis
    using eq [of b1] eq [of b2] assms by (intro exI conjI) auto
qed

theorem discountAtBlock_bounds_mono_witness:
  "\<exists>d1 d2. discountAtBlock (Fin 0) (Fin 15) (Fin (7 / 10)) = Fin d1
      \<and> discountAtBlock (Fin 150) (Fin 15) (Fin (7 / 10)) = Fin d2
      \<and> 0 \<le> d1 \<and> d1 \<le> d2 \<and> d2 \<le> 15 \<and> ((0 :: real) = 0 \<longrightarrow> d1 = 0) \<and> ((100 :: real) \<le> 150 \<longrightarrow> d2 = 15)"
  by (rule discountAtBlock_bounds_mono) simp_all

section \<open>Round durations\<close>

fun real_gaps :: "real list \<Rightarrow> real list" where
  "real_gaps (a # b # ts) = (b - a) / 1000 # real_gaps (b # ts)"
| "real_gaps ts = []"

lemma gaps_sec_Fin: "gaps_sec (map Fin ts) = map Fin (real_gaps ts)"
  by (induction ts rule: real_gaps.induct) simp_all

lemma sum_real_gaps: "ts \<noteq> [] \<Longrightarrow> sum_list (real_gaps ts) = (last ts - hd ts) / 1000"
  by (induction ts rule: real_gaps.induct) (simp_all add: diff_divide_distrib)

lemma length_real_gaps: "length (real_gaps ts) = length ts - 1"
  by (induction ts rule: real_gaps.induct) simp_all

lemma insort_key_map: "insort_key f (g x) (map g xs) = map g (insort_key (\<lambda>a. f (g a)) x xs)"
  by (induction xs) simp_all

lemma sort_key_map: "sort_key f (map g xs) = map g (sort_key (\<lambda>a. f (g a)) xs)"
  by (induction xs) (simp_all add: insort_key_map)

definition fin_real :: "number \<Rightarrow> real" where
  "fin_real x = (case x of Fin a \<Rightarrow> a | _ \<Rightarrow> 0)"

lemma fin_real_Fin [simp]: "fin_real (Fin a) = a"
  by (simp add: fin_real_def)

lemma js_sort_numbers: "js_sort (\<lambda>a b. a - b) (map Fin ts) = map Fin (sort ts)"
proof -
  have "js_sort (\<lambda>a b. a - b) (map Fin ts) = sort_key fin_real (map Fin ts)"
    by (intro js_sort_sort_key) auto
  also have "\<dots> = map Fin (sort_key (\<lambda>a. fin_real (Fin a)) ts)" by (rule sort_key_map)
  finally show ?thesis by simp
qed

lemma hd_sort_Min: "ts \<noteq> [] \<Longrightarrow> hd (sort ts) = Min (set ts)" for ts :: "real list"
proof -
  assume "ts \<noteq> []"
  then obtain x xs where x: "sort ts = x # xs" by (cases "sort ts") (auto dest: arg_cong [of _ _ length])
  then have "\<forall>y \<in> set ts. x \<le> y" "x \<in> set ts"
    using sorted_sort [of ts] set_sort [of "\<lambda>x. x" ts] by auto
  then show ?thesis using x by (metis List.finite_set Min_eqI list.sel(1))
qed

lemma last_sort_Max: "ts \<noteq> [] \<Longrightarrow> last (sort ts) = Max (set ts)" for ts :: "real list"
proof -
  assume "ts \<noteq> []"
  then have ne: "sort ts \<noteq> []" by (metis length_0_conv length_sort)
  have "x \<le> last (sort ts)" if x: "x \<in> set ts" for x
  proof -
    from x obtain i where i: "i < length (sort ts)" "sort ts ! i = x"
      by (metis in_set_conv_nth set_sort)
    then show ?thesis
      using sorted_nth_mono [OF sorted_sort [of ts], of i "length (sort ts) - 1"] ne
      by (simp add: last_conv_nth)
  qed
  moreover have "last (sort ts) \<in> set ts" using ne by (metis last_in_set set_sort)
  ultimately show ?thesis by (metis List.finite_set Max_eqI)
qed

text \<open>
  whatever the order of the block timestamps, the average round duration is the span from the
  earliest to the latest divided by the number of rounds between them, and the standard deviation
  is a finite, non-negative number.
\<close>

theorem computeAvgRoundDuration_span:
  assumes "2 \<le> length ts"
  shows "avgSec (computeAvgRoundDuration (map Fin ts))
           = Fin ((Max (set ts) - Min (set ts)) / 1000 / real (length ts - 1))
       \<and> (\<exists>\<sigma> \<ge> 0. stdDevSec (computeAvgRoundDuration (map Fin ts)) = Fin \<sigma>)"
proof -
  let ?g = "real_gaps (sort ts)"
  have ne: "ts \<noteq> []" "sort ts \<noteq> []" using assms by (auto simp: length_0_conv [symmetric] simp del: length_0_conv)
  have len: "length ?g = length ts - 1" "0 < length ts - 1" using assms by (simp_all add: length_real_gaps)
  have sum: "sum_num (\<lambda>d. d) (map Fin ?g) = Fin ((Max (set ts) - Min (set ts)) / 1000)"
    using sum_num_Fin [of ?g Fin "\<lambda>d. d"] ne
    by (simp add: sum_num_map sum_real_gaps hd_sort_Min last_sort_Max)
  let ?avg = "(Max (set ts) - Min (set ts)) / 1000 / real (length ts - 1)"
  let ?var = "sum_list (map (\<lambda>d. (d - ?avg) * (d - ?avg)) ?g) / real (length ts - 1)"
  have "sum_num (\<lambda>d. (d - Fin ?avg) * (d - Fin ?avg)) (map Fin ?g)
      = Fin (sum_list (map (\<lambda>d. (d - ?avg) * (d - ?avg)) ?g))"
    unfolding sum_num_map by (rule sum_num_Fin) simp
  moreover have "0 \<le> ?var" by (intro divide_nonneg_nonneg sum_list_nonneg) auto
  ultimately show ?thesis
    using assms sum len
    by (auto simp: computeAvgRoundDuration_def js_sort_numbers gaps_sec_Fin Let_def)
qed

theorem computeAvgRoundDuration_span_witness:
  "avgSec (computeAvgRoundDuration (map Fin [5000, 1000, 2000]))
           = Fin ((Max (set [5000, 1000, 2000]) - Min (set [5000, 1000, 2000])) / 1000
                    / real (length [5000, 1000, 2000 :: real] - 1))
       \<and> (\<exists>\<sigma> \<ge> 0. stdDevSec (computeAvgRoundDuration (map Fin [5000, 1000, 2000])) = Fin \<sigma>)"
  by (rule computeAvgRoundDuration_span) simp

lemma FPPS_payout_rates:
  "list_all (\<lambda>c. effectivePayoutRate c = 1 - feeRate c / 100 \<and> m1n3EquivalentDiscount c = feeRate c)
     FPPS_POOL_DATA"
  by (simp add: FPPS_POOL_DATA_def)

end
