(* ===== verification/Profitability.thy ===== *)
theory Profitability
  imports Hashprice
begin

text \<open>
  Model of \<open>web/lib/profitability-utils.ts\<close>: platform margin and break-even volume, buyer yield
  over a trade history, cost of capital, Sharpe ratio, the discount backtest and the market health
  counters, on top of the valuation functions of \<open>Hashprice\<close>.
\<close>

section \<open>Platform profitability\<close>

record PlatformProfitability =
  netMarginMist :: number
  netMarginPct :: number
  totalFeesMist :: number
  totalGasCostsMist :: number
  avgFeePerTrade :: number
  avgGasPerShare :: number
  breakEvenDailyVolumeSol :: number
  dailyInfraCostSol :: number

definition standard_shares :: "number \<Rightarrow> number \<Rightarrow> number" where
  "standard_shares totalShares lightweightRatio = Math_round (totalShares * (1 - lightweightRatio))"

definition lightweight_shares :: "number \<Rightarrow> number \<Rightarrow> number" where
  "lightweight_shares totalShares lightweightRatio = Math_round (totalShares * lightweightRatio)"

definition computePlatformProfitability ::
  "number \<Rightarrow> number \<Rightarrow> number \<Rightarrow> number \<Rightarrow> number \<Rightarrow> number \<Rightarrow> PlatformProfitability"
where
  "computePlatformProfitability fees totalSales totalSharesSubmitted lightweightRatio infra periodDays =
     (let standardShares = standard_shares totalSharesSubmitted lightweightRatio;
          lightweightShares = lightweight_shares totalSharesSubmitted lightweightRatio;
          gas = standardShares * GAS_COST_STANDARD_MIST
                + lightweightShares * GAS_COST_LIGHTWEIGHT_MIST;
          margin = fees - gas;
          dailyGasCostSol = (if 0 < periodDays then gas / Fin (10 ^ 9) / periodDays else 0);
          dailyCostSol = dailyGasCostSol + infra
      in \<lparr>netMarginMist = margin,
          netMarginPct = (if 0 < fees then (margin / fees) * 100 else 0),
          totalFeesMist = fees,
          totalGasCostsMist = gas,
          avgFeePerTrade = (if 0 < totalSales then fees / totalSales else 0),
          avgGasPerShare = (if 0 < totalSharesSubmitted then gas / totalSharesSubmitted else 0),
          breakEvenDailyVolumeSol = dailyCostSol / Fin (2 / 100),
          dailyInfraCostSol = infra\<rparr>)"

section \<open>Buyer yield\<close>

record TradeRecord =
  listingId :: string
  seller :: string
  buyer :: string
  price :: number
  tr_blockHeight :: number
  difficultyAchieved :: number
  templateId :: string
  isBlock :: bool
  purchasedAtMs :: number
  listedAtMs :: number
  timeToFillMs :: number
  txDigest :: string
  feePaid :: number

record BuyerYieldMetrics =
  annualizedYieldPct :: number
  avgDiscountPct :: number
  maturationHours :: number
  historicalRoiPct :: number
  sampleSize :: nat

record yield_acc =
  totalVolume :: number
  weightedDiscount :: number
  totalRoi :: number

definition trade_value :: "number \<Rightarrow> TradeRecord \<Rightarrow> number" where
  "trade_value hashpricePHPerDay trade =
     (difficultyAchieved trade * 4294967296) / Fin (10 ^ 15) * hashpricePHPerDay"

definition yield_step :: "number \<Rightarrow> yield_acc \<Rightarrow> TradeRecord \<Rightarrow> yield_acc" where
  "yield_step hashpricePHPerDay acc trade =
     (let theoreticalValue = trade_value hashpricePHPerDay trade in
      if theoreticalValue \<le> 0 then acc
      else let priceUsd = price trade / Fin (10 ^ 9);
               discount = Math_max 0 ((1 - priceUsd / theoreticalValue) * 100);
               roi = (if 0 < theoreticalValue
                      then ((theoreticalValue - priceUsd) / priceUsd) * 100 else 0)
           in \<lparr>totalVolume = totalVolume acc + price trade,
               weightedDiscount = weightedDiscount acc + discount * price trade,
               totalRoi = totalRoi acc + roi\<rparr>)"

definition computeBuyerYieldMetrics :: "TradeRecord list \<Rightarrow> number \<Rightarrow> BuyerYieldMetrics" where
  "computeBuyerYieldMetrics trades currentHashpricePHPerDay =
     (if length trades = 0
      then \<lparr>annualizedYieldPct = 0, avgDiscountPct = 0, maturationHours = Fin (1667 / 100),
            historicalRoiPct = 0, sampleSize = 0\<rparr>
      else let acc = foldl (yield_step currentHashpricePHPerDay)
                       \<lparr>totalVolume = 0, weightedDiscount = 0, totalRoi = 0\<rparr> trades;
               avgDiscount = (if 0 < totalVolume acc then weightedDiscount acc / totalVolume acc else 0);
               n = Fin (real (length trades))
           in \<lparr>annualizedYieldPct = computeAnnualizedBuyerYield avgDiscount 100,
               avgDiscountPct = avgDiscount,
               maturationHours = (100 * 10) / 60,
               historicalRoiPct = (if 0 < n then totalRoi acc / n else 0),
               sampleSize = length trades\<rparr>)"

section \<open>Cost of capital and risk\<close>

record CostOfCapitalAnalysis =
  costOfCapitalApr :: number
  impliedWaitingCostPct :: number
  breakEvenDiscountPct :: number
  stressedBreakEvenPct :: number

definition computeCostOfCapitalAnalysis :: "number \<Rightarrow> number \<Rightarrow> CostOfCapitalAnalysis" where
  "computeCostOfCapitalAnalysis apr stressedApr =
     \<lparr>costOfCapitalApr = apr,
      impliedWaitingCostPct = computeImpliedWaitingCost apr,
      breakEvenDiscountPct = computeImpliedWaitingCost apr,
      stressedBreakEvenPct = computeImpliedWaitingCost stressedApr\<rparr>"

definition computeSharpeRatio :: "number list \<Rightarrow> number \<Rightarrow> number \<Rightarrow> number" where
  "computeSharpeRatio tradeReturns riskFreeRateAnn periodsPerYear =
     (if length tradeReturns < 2 then 0
      else let n = Fin (real (length tradeReturns));
               mean = sum_num (\<lambda>r. r) tradeReturns / n;
               variance = sum_num (\<lambda>r. (r - mean) * (r - mean)) tradeReturns / (n - 1);
               stdDev = Math_sqrt variance
           in if stdDev \<le> 0 then 0
              else let periodRiskFree = riskFreeRateAnn / periodsPerYear;
                       excessReturn = mean - periodRiskFree
                   in (excessReturn / stdDev) * Math_sqrt periodsPerYear)"

section \<open>Backtest\<close>

record backtest_input =
  bi_timestamp :: number
  bi_btcPrice :: number
  bi_networkDifficulty :: number
  bi_hashprice :: number
  bi_blockFees :: number

record BacktestPoint = backtest_input +
  discountPct :: number
  buyerPnlPct :: number
  sellerEffectiveRate :: number

definition adjusted_discount :: "number \<Rightarrow> backtest_input \<Rightarrow> number" where
  "adjusted_discount baseDiscount point =
     (let feeMultiplier = Math_max (Fin (1 / 2)) (Math_min 2 (bi_blockFees point / Fin (1 / 2)));
          hashpriceStress = (if bi_hashprice point < 30 then Fin (3 / 2)
                             else if bi_hashprice point < 50 then Fin 1 else Fin (7 / 10))
      in baseDiscount * hashpriceStress / feeMultiplier)"

definition backtest_point :: "number \<Rightarrow> number \<Rightarrow> backtest_input \<Rightarrow> BacktestPoint" where
  "backtest_point baseDiscount feeRatePct point =
     (let adjustedDiscount = adjusted_discount baseDiscount point;
          buyPrice = 1 - adjustedDiscount / 100;
          netBuyPrice = buyPrice * (1 + feeRatePct / 100)
      in backtest_input.extend point
           \<lparr>discountPct = adjustedDiscount,
            buyerPnlPct = ((1 - netBuyPrice) / netBuyPrice) * 100,
            sellerEffectiveRate = (1 - adjustedDiscount / 100) * 100\<rparr>)"

definition backtestDiscountArbitrage ::
  "backtest_input list \<Rightarrow> number \<Rightarrow> number \<Rightarrow> BacktestPoint list"
where
  "backtestDiscountArbitrage historicalData baseDiscount feeRatePct =
     map (backtest_point baseDiscount feeRatePct) historicalData"

section \<open>Market health\<close>

definition computeFillRate :: "number \<Rightarrow> number \<Rightarrow> number" where
  "computeFillRate totalSales totalCanceled =
     (let total = totalSales + totalCanceled in
      if total \<le> 0 then 0 else (totalSales / total) * 100)"

definition computeAvgTimeToFill :: "TradeRecord list \<Rightarrow> number" where
  "computeAvgTimeToFill trades =
     (if length trades = 0 then 0
      else sum_num timeToFillMs trades / Fin (real (length trades)))"

record participants =
  sellers :: nat
  buyers :: nat

definition countUniqueParticipants :: "TradeRecord list \<Rightarrow> participants" where
  "countUniqueParticipants trades =
     (let (ss, bs) = foldl (\<lambda>(ss, bs) trade. (js_set_add ss (seller trade), js_set_add bs (buyer trade)))
                       ([], []) trades
      in \<lparr>sellers = length ss, buyers = length bs\<rparr>)"

section \<open>Properties\<close>

lemma round_halves:
  fixes n :: int and x :: real
  shows "\<lfloor>of_int n - x + 1 / 2\<rfloor> + \<lfloor>x + 1 / 2\<rfloor> = (if frac x = 1 / 2 then n + 1 else n)"
proof -
  have fr: "x = of_int \<lfloor>x\<rfloor> + frac x" "0 \<le> frac x" "frac x < 1"
    using frac_ge_0 [of x] frac_lt_1 [of x] by (simp_all add: frac_def)
  consider "frac x < 1 / 2" | "frac x = 1 / 2" | "1 / 2 < frac x" by linarith
  then show ?thesis
  proof cases
    case 1
    then have "\<lfloor>x + 1 / 2\<rfloor> = \<lfloor>x\<rfloor>" "\<lfloor>of_int n - x + 1 / 2\<rfloor> = n - \<lfloor>x\<rfloor>"
      unfolding floor_eq_iff of_int_diff of_int_add of_int_1 using fr by linarith+
    with 1 show ?thesis by simp
  next
    case 2
    then have "\<lfloor>x + 1 / 2\<rfloor> = \<lfloor>x\<rfloor> + 1" "\<lfloor>of_int n - x + 1 / 2\<rfloor> = n - \<lfloor>x\<rfloor>"
      unfolding floor_eq_iff of_int_diff of_int_add of_int_1 using fr by linarith+
    with 2 show ?thesis by simp
  next
    case 3
    then have "\<lfloor>x + 1 / 2\<rfloor> = \<lfloor>x\<rfloor> + 1" "\<lfloor>of_int n - x + 1 / 2\<rfloor> = n - \<lfloor>x\<rfloor> - 1"
      unfolding floor_eq_iff of_int_diff of_int_add of_int_1 using fr by linarith+
    with 3 show ?thesis by simp
  qed
qed

text \<open>
  the split of the submitted shares into standard and lightweight ones adds up to the total,
  except when the lightweight part is half a share over a whole number: then both parts are
  rounded up, and one share too many is charged for gas.
\<close>

theorem platform_share_split:
  fixes n :: int and ratio :: real
  shows "standard_shares (Fin n) (Fin ratio) + lightweight_shares (Fin n) (Fin ratio)
           = Fin (if frac (n * ratio) = 1 / 2 then n + 1 else n)"
proof -
  have split: "real_of_int n * (1 - ratio) = of_int n - n * ratio" by (simp add: algebra_simps)
  have "\<lfloor>of_int n - n * ratio + 1 / 2\<rfloor> + \<lfloor>n * ratio + 1 / 2\<rfloor>
      = (if frac (n * ratio) = 1 / 2 then n + 1 else n)"
    by (rule round_halves)
  then have "real_of_int (\<lfloor>of_int n - n * ratio + 1 / 2\<rfloor> + \<lfloor>n * ratio + 1 / 2\<rfloor>)
      = of_int (if frac (n * ratio) = 1 / 2 then n + 1 else n)"
    by (rule arg_cong)
  then show ?thesis
    by (simp only: standard_shares_def lightweight_shares_def number_one number_minus times_number.simps
        Math_round.simps plus_number.simps split of_int_add)
qed

text \<open>
  at the break-even volume, the two percent marketplace fee on one day's volume pays exactly
  one day's gas and infrastructure, and the margin is the fees less the gas of all shares.
\<close>

theorem platform_break_even:
  assumes "0 < days"
  shows "\<exists>gas. totalGasCostsMist (computePlatformProfitability (Fin fees) sales (Fin n) (Fin ratio) (Fin infra) (Fin days)) = Fin gas
      \<and> Fin (2 / 100) * breakEvenDailyVolumeSol (computePlatformProfitability (Fin fees) sales (Fin n) (Fin ratio) (Fin infra) (Fin days))
          = Fin (gas / 10 ^ 9 / days + infra)
      \<and> netMarginMist (computePlatformProfitability (Fin fees) sales (Fin n) (Fin ratio) (Fin infra) (Fin days)) = Fin (fees - gas)"
  using assms
  by (simp add: computePlatformProfitability_def standard_shares_def lightweight_shares_def Let_def
        GAS_COST_STANDARD_MIST_def GAS_COST_LIGHTWEIGHT_MIST_def field_simps)

theorem platform_break_even_witness:
  "\<exists>gas. totalGasCostsMist (computePlatformProfitability (Fin 5000000) 10 (Fin 100) (Fin (1 / 2)) (Fin 3) (Fin 7)) = Fin gas
      \<and> Fin (2 / 100) * breakEvenDailyVolumeSol (computePlatformProfitability (Fin 5000000) 10 (Fin 100) (Fin (1 / 2)) (Fin 3) (Fin 7))
          = Fin (gas / 10 ^ 9 / 7 + 3)
      \<and> netMarginMist (computePlatformProfitability (Fin 5000000) 10 (Fin 100) (Fin (1 / 2)) (Fin 3) (Fin 7)) = Fin (5000000 - gas)"
  by (rule platform_break_even) simp

text \<open>
  the trade history values a share at 86400 times its PPS value. \<open>computeBuyerYieldMetrics\<close>
  multiplies the petahashes of a share by the hashprice, which is per PH/s sustained for a day, so
  for the hashprice derived from a price and a difficulty its theoretical value is the PPS value
  of \<open>computeTheoreticalValue\<close> times the seconds of a day.
\<close>

theorem trade_value_overstated:
  assumes "0 < n" and "difficultyAchieved t = Fin d"
  shows "trade_value (hashprice (derive_hashprice (Fin p) sui (Fin n) now)) t
           = 86400 * computeTheoreticalValue (Fin d) (Fin n) (BLOCK_SUBSIDY_BTC * Fin p)"
  using assms
  by (simp add: trade_value_def derive_hashprice_finite computeTheoreticalValue_def BLOCK_SUBSIDY_BTC_def
        del: power_numeral)

definition sample_trade :: "real \<Rightarrow> real \<Rightarrow> TradeRecord" where
  "sample_trade p d =
     \<lparr>listingId = ''l'', seller = ''s'', buyer = ''b'', price = Fin p, tr_blockHeight = 1,
      difficultyAchieved = Fin d, templateId = ''t'', isBlock = False, purchasedAtMs = 2,
      listedAtMs = 1, timeToFillMs = 1, txDigest = ''x'', feePaid = 0\<rparr>"

theorem trade_value_overstated_witness:
  "trade_value (hashprice (derive_hashprice (Fin 100000) 4 (Fin 125000000000000) ''now'')) (sample_trade 1000 65536)
     = 86400 * computeTheoreticalValue (Fin 65536) (Fin 125000000000000) (BLOCK_SUBSIDY_BTC * Fin 100000)"
  by (rule trade_value_overstated) (simp_all add: sample_trade_def)

section \<open>Averages over the trade history\<close>

definition acc_ok :: "yield_acc \<Rightarrow> bool" where
  "acc_ok acc = (\<exists>v w r. acc = \<lparr>totalVolume = Fin v, weightedDiscount = Fin w, totalRoi = Fin r\<rparr>
                   \<and> 0 \<le> w \<and> w \<le> 100 * v)"

lemma acc_okI: "0 \<le> w \<Longrightarrow> w \<le> 100 * v \<Longrightarrow> acc_ok \<lparr>totalVolume = Fin v, weightedDiscount = Fin w, totalRoi = Fin r\<rparr>"
  by (auto simp: acc_ok_def)

lemma yield_step_ok:
  assumes "acc_ok acc" "price t = Fin p" "0 < p" "difficultyAchieved t = Fin d"
  shows "acc_ok (yield_step (Fin h) acc t)"
proof -
  obtain v w r where acc: "acc = \<lparr>totalVolume = Fin v, weightedDiscount = Fin w, totalRoi = Fin r\<rparr>"
    and w: "0 \<le> w" "w \<le> 100 * v" using assms(1) by (auto simp: acc_ok_def)
  let ?tv = "d * 4294967296 / 10 ^ 15 * h"
  have tv: "trade_value (Fin h) t = Fin ?tv" using assms(4) by (simp add: trade_value_def)
  show ?thesis
  proof (cases "?tv \<le> 0")
    case True
    then show ?thesis using assms(1) by (simp only: yield_step_def tv Let_def number_zero less_eq_number.simps if_True)
  next
    case False
    then have nz: "d \<noteq> 0" "h \<noteq> 0" by auto
    define disc where "disc = max 0 ((1 - p / 10 ^ 9 / ?tv) * 100)"
    have disc: "0 \<le> disc" "disc \<le> 100" using False assms(3) by (auto simp: disc_def field_simps)
    have "yield_step (Fin h) acc t = \<lparr>totalVolume = Fin (v + p), weightedDiscount = Fin (w + disc * p),
        totalRoi = Fin (r + (?tv - p / 10 ^ 9) / (p / 10 ^ 9) * 100)\<rparr>"
      using False assms(2,3) nz by (simp add: yield_step_def tv acc Let_def disc_def)
    moreover have "0 \<le> w + disc * p" using w disc assms(3) by simp
    moreover have "w + disc * p \<le> 100 * (v + p)"
    proof -
      have "disc * p \<le> 100 * p" using disc(2) assms(3) by (intro mult_right_mono) auto
      with w show ?thesis by (simp only: distrib_left)
    qed
    ultimately show ?thesis by (simp only: acc_okI)
  qed
qed

lemma yield_fold_ok:
  assumes "\<forall>t \<in> set ts. (\<exists>p. price t = Fin p \<and> 0 < p) \<and> (\<exists>d. difficultyAchieved t = Fin d)" "acc_ok acc"
  shows "acc_ok (foldl (yield_step (Fin h)) acc ts)"
  using assms by (induction ts arbitrary: acc) (auto intro: yield_step_ok)

text \<open>
  over any history of trades at positive prices, and for any hashprice, the volume-weighted
  average discount lies between 0 and 100 percent, the average return is a finite number, the
  sample size is the number of trades, and the annualised yield is the one of that discount over
  the 100 blocks of coinbase maturity.
\<close>

theorem computeBuyerYieldMetrics_bounds:
  assumes "\<forall>t \<in> set trades. (\<exists>p. price t = Fin p \<and> 0 < p) \<and> (\<exists>d. difficultyAchieved t = Fin d)"
  shows "\<exists>d roi. avgDiscountPct (computeBuyerYieldMetrics trades (Fin h)) = Fin d \<and> 0 \<le> d \<and> d \<le> 100
      \<and> historicalRoiPct (computeBuyerYieldMetrics trades (Fin h)) = Fin roi
      \<and> sampleSize (computeBuyerYieldMetrics trades (Fin h)) = length trades
      \<and> annualizedYieldPct (computeBuyerYieldMetrics trades (Fin h)) = computeAnnualizedBuyerYield (Fin d) 100"
proof (cases "trades = []")
  case True
  then show ?thesis
    by (simp add: computeBuyerYieldMetrics_def computeAnnualizedBuyerYield_def)
next
  case False
  have "acc_ok (foldl (yield_step (Fin h)) \<lparr>totalVolume = Fin 0, weightedDiscount = Fin 0, totalRoi = Fin 0\<rparr> trades)"
    by (intro yield_fold_ok assms acc_okI) auto
  then obtain v w r where acc: "foldl (yield_step (Fin h)) \<lparr>totalVolume = Fin 0, weightedDiscount = Fin 0, totalRoi = Fin 0\<rparr> trades
      = \<lparr>totalVolume = Fin v, weightedDiscount = Fin w, totalRoi = Fin r\<rparr>" and w: "0 \<le> w" "w \<le> 100 * v"
    by (auto simp: acc_ok_def)
  define d where "d = (if 0 < v then w / v else 0)"
  have d: "0 \<le> d" "d \<le> 100" using w by (auto simp: d_def field_simps)
  show ?thesis
    using False d
    by (intro exI [of _ d] exI [of _ "r / real (length trades)"])
      (auto simp: computeBuyerYieldMetrics_def acc Let_def d_def)
qed

theorem computeBuyerYieldMetrics_bounds_witness:
  "\<exists>d roi. avgDiscountPct (computeBuyerYieldMetrics [sample_trade 1000 65536, sample_trade 5 7] (Fin 50)) = Fin d
      \<and> 0 \<le> d \<and> d \<le> 100
      \<and> historicalRoiPct (computeBuyerYieldMetrics [sample_trade 1000 65536, sample_trade 5 7] (Fin 50)) = Fin roi
      \<and> sampleSize (computeBuyerYieldMetrics [sample_trade 1000 65536, sample_trade 5 7] (Fin 50))
          = length [sample_trade 1000 65536, sample_trade 5 7]
      \<and> annualizedYieldPct (computeBuyerYieldMetrics [sample_trade 1000 65536, sample_trade 5 7] (Fin 50))
          = computeAnnualizedBuyerYield (Fin d) 100"
  by (rule computeBuyerYieldMetrics_bounds) (simp add: sample_trade_def)

section \<open>The backtest\<close>

definition fee_multiplier :: "real \<Rightarrow> real" where
  "fee_multiplier fees = max (1 / 2) (min 2 (fees / (1 / 2)))"

definition hashprice_stress :: "real \<Rightarrow> real" where
  "hashprice_stress h = (if h < 30 then 3 / 2 else if h < 50 then 1 else 7 / 10)"

lemma fee_multiplier_bounds: "1 / 2 \<le> fee_multiplier f" "fee_multiplier f \<le> 2"
  by (auto simp: fee_multiplier_def)

lemma hashprice_stress_bounds: "7 / 10 \<le> hashprice_stress h" "hashprice_stress h \<le> 3 / 2"
  by (simp_all add: hashprice_stress_def)

lemma adjusted_discount_eq:
  assumes "bi_hashprice pt = Fin h" "bi_blockFees pt = Fin f"
  shows "adjusted_discount (Fin b) pt = Fin (b * hashprice_stress h / fee_multiplier f)"
proof -
  have "fee_multiplier f \<noteq> 0" using fee_multiplier_bounds [of f] by simp
  then show ?thesis
    using assms by (auto simp: adjusted_discount_def Let_def fee_multiplier_def hashprice_stress_def)
qed

text \<open>
  in the backtest a positive base discount is scaled to between 35 and 300 percent of itself;
  it never rises with the block fees of the period and never rises with the hashprice, as the
  comments in the code ask.
\<close>

theorem backtest_discount_bounds_antitone:
  assumes "0 \<le> b"
    and "bi_hashprice p1 = Fin h1" "bi_blockFees p1 = Fin f1" "bi_hashprice p2 = Fin h2" "bi_blockFees p2 = Fin f2"
    and "h1 \<le> h2" "f1 \<le> f2"
  shows "\<exists>d1 d2. discountPct (backtest_point (Fin b) fee p1) = Fin d1
      \<and> discountPct (backtest_point (Fin b) fee p2) = Fin d2
      \<and> b * (35 / 100) \<le> d2 \<and> d2 \<le> d1 \<and> d1 \<le> b * 3"
proof -
  let ?d = "\<lambda>h f. b * hashprice_stress h / fee_multiplier f"
  have pos: "0 < fee_multiplier f" for f using fee_multiplier_bounds(1) [of f] by simp
  have fm: "fee_multiplier f1 \<le> fee_multiplier f2" using assms(7) by (auto simp: fee_multiplier_def)
  have hs: "hashprice_stress h2 \<le> hashprice_stress h1" using assms(6) by (auto simp: hashprice_stress_def)
  have "?d h2 f2 \<le> ?d h1 f1"
    using fm hs assms(1) pos hashprice_stress_bounds(1) [of h2] hashprice_stress_bounds(1) [of h1]
    by (intro frac_le mult_left_mono mult_nonneg_nonneg) auto
  moreover have "b * (7 / 10) / 2 \<le> ?d h2 f2"
    using assms(1) pos hashprice_stress_bounds(1) [of h2] fee_multiplier_bounds(2) [of f2]
    by (intro frac_le mult_left_mono mult_nonneg_nonneg) auto
  moreover have "?d h1 f1 \<le> b * (3 / 2) / (1 / 2)"
    using assms(1) pos hashprice_stress_bounds(2) [of h1] fee_multiplier_bounds(1) [of f1]
    by (intro frac_le mult_left_mono mult_nonneg_nonneg) auto
  ultimately show ?thesis
    using assms by (simp add: backtest_point_def Let_def backtest_input.defs adjusted_discount_eq)
qed

definition sample_point :: "real \<Rightarrow> real \<Rightarrow> backtest_input" where
  "sample_point h f = \<lparr>bi_timestamp = 0, bi_btcPrice = 100000, bi_networkDifficulty = 1,
     bi_hashprice = Fin h, bi_blockFees = Fin f\<rparr>"

theorem backtest_discount_bounds_antitone_witness:
  "\<exists>d1 d2. discountPct (backtest_point (Fin 10) 2 (sample_point 20 (1 / 10))) = Fin d1
      \<and> discountPct (backtest_point (Fin 10) 2 (sample_point 60 3)) = Fin d2
      \<and> 10 * (35 / 100) \<le> d2 \<and> d2 \<le> d1 \<and> d1 \<le> 10 * 3"
  by (rule backtest_discount_bounds_antitone [of _ _ 20 "1 / 10" _ 60 3]) (simp_all add: sample_point_def)

lemma length_backtest: "length (backtestDiscountArbitrage ps b f) = length ps"
  by (simp add: backtestDiscountArbitrage_def)

section \<open>Counters\<close>

lemma foldl_pair:
  "foldl (\<lambda>(a, b) x. (f a x, g b x)) (a, b) xs = (foldl f a xs, foldl g b xs)"
  by (induction xs arbitrary: a b) simp_all

text \<open>
  \<open>countUniqueParticipants\<close> returns the numbers of distinct seller and buyer addresses.
\<close>

theorem countUniqueParticipants_card:
  "sellers (countUniqueParticipants trades) = card (seller ` set trades)
   \<and> buyers (countUniqueParticipants trades) = card (buyer ` set trades)"
  by (simp add: countUniqueParticipants_def foldl_pair length_foldl_js_set_add)

lemma computeFillRate_bounds:
  "0 \<le> s \<Longrightarrow> 0 \<le> c \<Longrightarrow> \<exists>r. computeFillRate (Fin s) (Fin c) = Fin r \<and> 0 \<le> r \<and> r \<le> 100"
  by (auto simp: computeFillRate_def Let_def divide_le_eq)

end
