(* ===== verification/Predict_Client.thy ===== *)
theory Predict_Client
  imports Js_Json
begin

text \<open>
  Model of \<open>web/lib/predict-client.ts\<close> and \<open>web/lib/predict-constants.ts\<close>: the client of the
  Predict indexer, with its error mapping, the oracle filter, the strike scaling and the SVI
  variance functions the hedge is priced with. The network name and the server's answers are
  arguments; a response carries the value its JSON body is cast to.
\<close>

section \<open>Configuration\<close>

record PredictConfig =
  packageId :: string
  predictObjectId :: string
  quoteSymbol :: string
  serverBaseUrl :: string

definition TESTNET_PREDICT :: PredictConfig where
  "TESTNET_PREDICT =
     \<lparr>packageId = ''0xf5ea2b3749c65d6e56507cc35388719aadb28f9cab873696a2f8687f5c785138'',
      predictObjectId = ''0xc8736204d12f0a7277c86388a68bf8a194b0a14c5538ad13f22cbd8e2a38028a'',
      quoteSymbol = ''DUSDC'',
      serverBaseUrl = ''https://predict-server.testnet.mystenlabs.com''\<rparr>"

definition activePredictConfig :: "string \<Rightarrow> PredictConfig option" where
  "activePredictConfig SUI_NETWORK = (if SUI_NETWORK = ''testnet'' then Some TESTNET_PREDICT else None)"

definition activePredictQuote :: "(string \<Rightarrow> 'q option) \<Rightarrow> string \<Rightarrow> 'q option" where
  "activePredictQuote findQuoteToken SUI_NETWORK =
     (case activePredictConfig SUI_NETWORK of
        None \<Rightarrow> None
      | Some cfg \<Rightarrow> findQuoteToken (quoteSymbol cfg))"

section \<open>Server data\<close>

record PredictOracleSummary =
  predict_id :: string
  oracle_id :: string
  oracle_cap_id :: string
  underlying_asset :: string
  expiry :: number
  min_strike :: number
  tick_size :: number
  oracle_status :: string
  activated_at :: number
  settlement_price :: "number option"
  settled_at :: "number option"
  created_checkpoint :: number

record PredictPriceEvent =
  pe_oracle_id :: string
  pe_spot :: number
  pe_forward :: number
  pe_onchain_timestamp :: number
  checkpoint_timestamp_ms :: number

record PredictSviEvent =
  svi_oracle_id :: string
  svi_a :: number
  svi_b :: number
  svi_rho :: number
  rho_negative :: bool
  svi_m :: number
  m_negative :: bool
  svi_sigma :: number
  svi_onchain_timestamp :: number

record PredictOracleState =
  st_oracle :: PredictOracleSummary
  latest_price :: "PredictPriceEvent option"
  latest_svi :: "PredictSviEvent option"

record PredictManagerSummary =
  manager_id :: string
  manager_owner :: string
  manager_predict_id :: "string option"
  quote_balances :: "(string \<times> string) list"

section \<open>Requests\<close>

record 'a predict_response =
  r_ok :: bool
  r_status :: int
  r_text :: string
  r_json :: 'a

datatype predict_error =
    NotDeployed
  | NotConfigured
  | PredictServerError int string string

definition fetchPredict ::
  "string \<Rightarrow> (string \<Rightarrow> 'a predict_response) \<Rightarrow> string \<Rightarrow> predict_error + 'a"
where
  "fetchPredict SUI_NETWORK server path =
     (case activePredictConfig SUI_NETWORK of
        None \<Rightarrow> Inl NotDeployed
      | Some cfg \<Rightarrow>
          let r = server (serverBaseUrl cfg @ path) in
          if \<not> r_ok r then Inl (PredictServerError (r_status r) path (r_text r))
          else Inr (r_json r))"

definition getServerStatus :: "string \<Rightarrow> (string \<Rightarrow> 'a predict_response) \<Rightarrow> predict_error + 'a" where
  "getServerStatus net server = fetchPredict net server ''/status''"

definition listPredictOracles ::
  "string \<Rightarrow> (string \<Rightarrow> PredictOracleSummary list predict_response) \<Rightarrow> predict_error + PredictOracleSummary list"
where
  "listPredictOracles net server =
     (case activePredictConfig net of
        None \<Rightarrow> Inl NotConfigured
      | Some cfg \<Rightarrow> fetchPredict net server (''/predicts/'' @ predictObjectId cfg @ ''/oracles''))"

definition filterActiveBtcOracles :: "number \<Rightarrow> PredictOracleSummary list \<Rightarrow> PredictOracleSummary list" where
  "filterActiveBtcOracles now oracles =
     js_sort (\<lambda>a b. expiry a - expiry b)
       (filter (\<lambda>x. oracle_status x = ''active'' \<and> underlying_asset x = ''BTC'' \<and> now < expiry x) oracles)"

definition getOracleState ::
  "string \<Rightarrow> (string \<Rightarrow> PredictOracleState predict_response) \<Rightarrow> string \<Rightarrow> predict_error + PredictOracleState"
where
  "getOracleState net server oracleId = fetchPredict net server (''/oracles/'' @ oracleId @ ''/state'')"

text \<open>\<open>catch (e) { if (e instanceof PredictServerError and e.status === 404) return null; throw e; }\<close>\<close>

definition null_on_404 :: "predict_error + 'a option \<Rightarrow> predict_error + 'a option" where
  "null_on_404 r =
     (case r of
        Inl (PredictServerError st path body) \<Rightarrow>
          if st = 404 then Inr None else Inl (PredictServerError st path body)
      | _ \<Rightarrow> r)"

definition getOracleSviLatest ::
  "string \<Rightarrow> (string \<Rightarrow> PredictSviEvent option predict_response) \<Rightarrow> string \<Rightarrow> predict_error + PredictSviEvent option"
where
  "getOracleSviLatest net server oracleId =
     null_on_404 (fetchPredict net server (''/oracles/'' @ oracleId @ ''/svi/latest''))"

definition getOraclePriceLatest ::
  "string \<Rightarrow> (string \<Rightarrow> PredictPriceEvent option predict_response) \<Rightarrow> string \<Rightarrow> predict_error + PredictPriceEvent option"
where
  "getOraclePriceLatest net server oracleId =
     null_on_404 (fetchPredict net server (''/oracles/'' @ oracleId @ ''/prices/latest''))"

definition findManagerForOwner ::
  "string \<Rightarrow> (string \<Rightarrow> PredictManagerSummary list predict_response) \<Rightarrow> string \<Rightarrow> predict_error + PredictManagerSummary option"
where
  "findManagerForOwner net server owner =
     null_on_404
       (case fetchPredict net server (''/managers?owner='' @ owner) of
          Inl e \<Rightarrow> Inl e
        | Inr xs \<Rightarrow> Inr (index xs 0))"

definition getManagerPositionsSummary ::
  "string \<Rightarrow> (string \<Rightarrow> 'p predict_response) \<Rightarrow> string \<Rightarrow> predict_error + 'p"
where
  "getManagerPositionsSummary net server managerId =
     fetchPredict net server (''/managers/'' @ managerId @ ''/positions/summary'')"

section \<open>Units and the volatility surface\<close>

definition STRIKE_SCALAR :: number where "STRIKE_SCALAR = 1000000000"

definition strikeToUsd :: "json \<Rightarrow> number" where
  "strikeToUsd raw = to_num raw / STRIKE_SCALAR"

definition usdToStrike :: "number \<Rightarrow> number" where
  "usdToStrike usd = Math_round (usd * STRIKE_SCALAR)"

definition sviTotalVariance :: "number \<Rightarrow> PredictSviEvent \<Rightarrow> number" where
  "sviTotalVariance k s =
     (let SCALE = 1000000000;
          a = svi_a s / SCALE;
          b = svi_b s / SCALE;
          rho = (if rho_negative s then - svi_rho s else svi_rho s) / SCALE;
          m = (if m_negative s then - svi_m s else svi_m s) / SCALE;
          sigma = svi_sigma s / SCALE;
          km = k - m
      in a + b * (rho * km + Math_sqrt (km * km + sigma * sigma)))"

definition sviImpliedVol :: "number \<Rightarrow> PredictSviEvent \<Rightarrow> number \<Rightarrow> number" where
  "sviImpliedVol k s tauYears =
     (if tauYears \<le> 0 then 0
      else let w = sviTotalVariance k s in Math_sqrt (Math_max w 0 / tauYears))"

section \<open>Properties\<close>

text \<open>
  the soonest-expiry list contains exactly the active BTC oracles that have not expired, each
  as often as the server listed it, in ascending order of expiry.
\<close>

theorem filterActiveBtcOracles_sorted:
  assumes "\<forall>x \<in> set oracles. \<exists>e. expiry x = Fin e"
  shows "mset (filterActiveBtcOracles now oracles)
           = filter_mset (\<lambda>x. oracle_status x = ''active'' \<and> underlying_asset x = ''BTC'' \<and> now < expiry x)
               (mset oracles)
       \<and> sorted_wrt (\<lambda>a b. expiry a \<le> expiry b) (filterActiveBtcOracles now oracles)"
proof -
  define f :: "PredictOracleSummary \<Rightarrow> real" where "f x = (case expiry x of Fin e \<Rightarrow> e | _ \<Rightarrow> 0)" for x
  define ys where "ys = filter (\<lambda>x. oracle_status x = ''active'' \<and> underlying_asset x = ''BTC'' \<and> now < expiry x) oracles"
  have f: "expiry x = Fin (f x)" if "x \<in> set ys" for x
    using that assms by (auto simp: ys_def f_def)
  have eq: "filterActiveBtcOracles now oracles = sort_key f ys"
    unfolding filterActiveBtcOracles_def ys_def [symmetric] by (intro js_sort_sort_key) (simp add: f)
  have "sorted_wrt (\<lambda>a b. f a \<le> f b) (sort_key f ys)"
    using sorted_sort_key [of f ys] by (simp add: sorted_map)
  then have "sorted_wrt (\<lambda>a b. expiry a \<le> expiry b) (sort_key f ys)"
    by (rule sorted_wrt_mono_rel [rotated]) (simp add: f)
  then show ?thesis by (simp add: eq) (simp add: ys_def)
qed

definition sample_oracle :: "string \<Rightarrow> real \<Rightarrow> PredictOracleSummary" where
  "sample_oracle st e = \<lparr>predict_id = ''p'', oracle_id = ''o'', oracle_cap_id = ''c'', underlying_asset = ''BTC'',
     expiry = Fin e, min_strike = 1000000000, tick_size = 1000000000, oracle_status = st, activated_at = 0,
     settlement_price = None, settled_at = None, created_checkpoint = 0\<rparr>"

theorem filterActiveBtcOracles_sorted_witness:
  "let xs = [sample_oracle ''active'' 9, sample_oracle ''settled'' 8, sample_oracle ''active'' 7] in
   mset (filterActiveBtcOracles 5 xs)
           = filter_mset (\<lambda>x. oracle_status x = ''active'' \<and> underlying_asset x = ''BTC'' \<and> 5 < expiry x) (mset xs)
       \<and> sorted_wrt (\<lambda>a b. expiry a \<le> expiry b) (filterActiveBtcOracles 5 xs)"
  unfolding Let_def by (rule filterActiveBtcOracles_sorted) (simp add: sample_oracle_def)

text \<open>
  looking a manager up by owner distinguishes "none" from failure. Off testnet it fails
  without a request; a 404 and an empty list both mean that the owner has no manager; any other
  error status is reported with its path and text; otherwise the first manager is returned.
\<close>

theorem findManagerForOwner_outcomes:
  "findManagerForOwner net server owner =
     (if net \<noteq> ''testnet'' then Inl NotDeployed
      else let path = ''/managers?owner='' @ owner;
               r = server (serverBaseUrl TESTNET_PREDICT @ path)
           in if r_ok r then Inr (case r_json r of [] \<Rightarrow> None | x # _ \<Rightarrow> Some x)
              else if r_status r = 404 then Inr None
              else Inl (PredictServerError (r_status r) path (r_text r)))"
  by (auto simp: findManagerForOwner_def null_on_404_def fetchPredict_def activePredictConfig_def Let_def
        index_def split: list.split)

lemma abs_rho_bound:
  fixes r x \<sigma> :: real
  assumes "\<bar>r\<bar> \<le> 1"
  shows "0 \<le> r * x + sqrt (x * x + \<sigma> * \<sigma>)"
proof -
  have "\<bar>r * x\<bar> \<le> \<bar>x\<bar>" using assms by (simp add: abs_mult mult_left_le_one_le)
  also have "\<bar>x\<bar> \<le> sqrt (x * x + \<sigma> * \<sigma>)"
    by (rule real_le_rsqrt) (simp add: power2_eq_square)
  finally show ?thesis by linarith
qed

text \<open>
  for SVI parameters with non-negative level and slope and a correlation of at most one in
  absolute value, the total variance is a number of at least the level at every moneyness, so it
  is never negative, and the implied volatility squared times the time to expiry gives it back.
\<close>

theorem sviTotalVariance_nonneg:
  assumes "svi_a s = Fin a" "svi_b s = Fin b" "svi_rho s = Fin r" "svi_m s = Fin m" "svi_sigma s = Fin \<sigma>"
    and "0 \<le> a" "0 \<le> b" "\<bar>r\<bar> \<le> 1000000000" "0 < \<tau>"
  shows "\<exists>w v. sviTotalVariance (Fin k) s = Fin w \<and> a / 1000000000 \<le> w
           \<and> sviImpliedVol (Fin k) s (Fin \<tau>) = Fin v \<and> 0 \<le> v \<and> v * v * \<tau> = w"
proof -
  define rho where "rho = (if rho_negative s then - r else r) / 1000000000"
  define km where "km = k - (if m_negative s then - m else m) / 1000000000"
  define sg where "sg = \<sigma> / 1000000000"
  define root where "root = rho * km + sqrt (km * km + sg * sg)"
  have "\<bar>rho\<bar> \<le> 1" using assms(8) by (auto simp: rho_def)
  then have pos: "0 \<le> root" unfolding root_def by (rule abs_rho_bound)
  define w where "w = a / 1000000000 + b / 1000000000 * root"
  have "\<not> km * km + sg * sg < 0" by (simp add: not_less)
  moreover have "(if rho_negative s then - svi_rho s else svi_rho s) / 1000000000 = Fin rho"
    "Fin k - (if m_negative s then - svi_m s else svi_m s) / 1000000000 = Fin km"
    "svi_sigma s / 1000000000 = Fin sg"
    using assms by (simp_all add: rho_def km_def sg_def)
  ultimately have w: "sviTotalVariance (Fin k) s = Fin w"
    unfolding sviTotalVariance_def Let_def using assms by (simp add: w_def root_def)
  have ge: "a / 1000000000 \<le> w" using pos assms by (simp add: w_def)
  then have nn: "0 \<le> w" using assms(6) by linarith
  have "sviImpliedVol (Fin k) s (Fin \<tau>) = Fin (sqrt (w / \<tau>))"
    using assms(9) nn by (simp add: sviImpliedVol_def w max_def not_less)
  moreover have "sqrt (w / \<tau>) * sqrt (w / \<tau>) * \<tau> = w"
    using nn assms(9) by (simp add: real_sqrt_mult_self)
  ultimately show ?thesis using w ge nn assms(9) by auto
qed

definition sample_svi :: PredictSviEvent where
  "sample_svi = \<lparr>svi_oracle_id = ''o'', svi_a = Fin 1000, svi_b = Fin 500000, svi_rho = Fin 300000000,
     rho_negative = True, svi_m = Fin 2000000, m_negative = False, svi_sigma = Fin 4000000,
     svi_onchain_timestamp = 0\<rparr>"

theorem sviTotalVariance_nonneg_witness:
  "\<exists>w v. sviTotalVariance (Fin (1 / 10)) sample_svi = Fin w \<and> 1000 / 1000000000 \<le> w
     \<and> sviImpliedVol (Fin (1 / 10)) sample_svi (Fin (1 / 100)) = Fin v \<and> 0 \<le> v \<and> v * v * (1 / 100) = w"
  by (rule sviTotalVariance_nonneg [of _ 1000 500000 300000000 2000000 4000000]) (simp_all add: sample_svi_def)

text \<open>A positive, finite implied volatility is only obtained from finite arguments.\<close>

lemma sviTotalVariance_finite_moneyness:
  assumes "sviTotalVariance k s = Fin w"
  shows "isFinite k"
proof (rule ccontr)
  assume inf: "\<not> isFinite k"
  define m where "m = (if m_negative s then - svi_m s else svi_m s) / 1000000000"
  define sg where "sg = svi_sigma s / 1000000000"
  have km: "k - m \<in> {NaN, PosInf, NegInf}"
    using inf by (cases k; cases m) (auto simp: minus_number_def)
  have sq: "sg * sg \<noteq> NegInf" by (cases sg) auto
  have "Math_sqrt ((k - m) * (k - m) + sg * sg) \<in> {NaN, PosInf}"
    using km sq by (cases "sg * sg") (auto split: if_splits)
  then have "rho * (k - m) + Math_sqrt ((k - m) * (k - m) + sg * sg) \<in> {NaN, PosInf}" for rho
    using km by (cases rho) (auto split: if_splits)
  then have "a + b * (rho * (k - m) + Math_sqrt ((k - m) * (k - m) + sg * sg)) \<noteq> Fin w" for a b rho
  proof -
    assume *: "\<And>rho. rho * (k - m) + Math_sqrt ((k - m) * (k - m) + sg * sg) \<in> {NaN, PosInf}"
    have "b * (rho * (k - m) + Math_sqrt ((k - m) * (k - m) + sg * sg)) \<in> {NaN, PosInf, NegInf}"
      using * [of rho] by (cases b) (auto split: if_splits)
    then show ?thesis by (cases a) auto
  qed
  with assms show False by (simp add: sviTotalVariance_def Let_def m_def sg_def)
qed

lemma sviImpliedVol_positive:
  assumes "sviImpliedVol k s tau = Fin v" "0 < v"
  shows "isFinite k \<and> (\<exists>t. tau = Fin t \<and> 0 < t)"
proof -
  have nle: "\<not> tau \<le> 0" using assms by (auto simp: sviImpliedVol_def split: if_splits)
  have v: "Math_sqrt (Math_max (sviTotalVariance k s) 0 / tau) = Fin v"
    using assms nle by (simp add: sviImpliedVol_def)
  show ?thesis
  proof (cases "sviTotalVariance k s")
    case (Fin w)
    then show ?thesis
      using sviTotalVariance_finite_moneyness [OF Fin] v assms(2) nle
      by (cases tau) (auto split: if_splits)
  next
    case NaN
    then show ?thesis using v by simp
  next
    case PosInf
    then show ?thesis using v nle by (cases tau) (auto split: if_splits simp: Math_max_def)
  next
    case NegInf
    then show ?thesis using v assms(2) nle by (cases tau) (auto split: if_splits simp: Math_max_def)
  qed
qed

end
