(* ===== verification/Hedge_Math.thy ===== *)
theory Hedge_Math
  imports Predict_Client
begin

text \<open>
  Model of \<open>web/lib/hedge-math.ts\<close>: the strip of ranges that hedges a miner's revenue, its
  pricing off the SVI smile, the summary, the payoff curve and the Monte-Carlo simulation.
  \<open>Date.now()\<close> is the argument \<open>now\<close> and \<open>Math.random()\<close> a stream \<open>rnd\<close> of numbers. The
  loop that builds the strip is a partial function, so that not returning would show as
  \<open>None\<close>; it is proved to return for every input.
\<close>

definition MS_PER_YEAR :: number where
  "MS_PER_YEAR = Fin (36525 / 100) * 24 * 3600 * 1000"

section \<open>Strip builder\<close>

record HedgeRange =
  lowerStrikeRaw :: number
  higherStrikeRaw :: number
  quantity :: number

record HedgeStripInputs =
  qBtc :: number
  spot :: number
  dropBandLo :: number
  dropBandHi :: number
  tickSizeRaw :: number
  minStrikeRaw :: number

definition spotToTick :: "number \<Rightarrow> number \<Rightarrow> number" where
  "spotToTick usd tickUsd = Math_round ((Math_round (usd / tickUsd) * tickUsd) * STRIKE_SCALAR)"

definition TARGET_BINS :: number where "TARGET_BINS = 8"

definition strip_top :: "HedgeStripInputs \<Rightarrow> number" where
  "strip_top i =
     (let topUsd = spot i * (1 - dropBandLo i);
          tickUsd = tickSizeRaw i / STRIKE_SCALAR
      in Math_min (usdToStrike topUsd) (spotToTick topUsd tickUsd))"

definition strip_floor :: "HedgeStripInputs \<Rightarrow> number" where
  "strip_floor i =
     (let floorUsd = spot i * (1 - dropBandHi i);
          tickUsd = tickSizeRaw i / STRIKE_SCALAR
      in Math_max (Math_max (usdToStrike floorUsd) (minStrikeRaw i)) (spotToTick floorUsd tickUsd))"

definition min_bin :: "number \<Rightarrow> number \<Rightarrow> number" where
  "min_bin tick rawSpan =
     Math_max tick (Math_floor (rawSpan / TARGET_BINS / tick) * tick)"

text \<open>One pass of the loop body: the range from \<open>lowerRaw\<close>, if it has a positive quantity.\<close>

definition bin_range :: "number \<Rightarrow> number \<Rightarrow> number \<Rightarrow> HedgeRange list" where
  "bin_range q lowerRaw higherRaw =
     (let widthUsd = (higherRaw - lowerRaw) / STRIKE_SCALAR;
          quant = q * widthUsd
      in if 0 < quant
         then [\<lparr>lowerStrikeRaw = lowerRaw, higherStrikeRaw = higherRaw, quantity = quant\<rparr>] else [])"

partial_function (option) strip_loop ::
  "number \<Rightarrow> number \<Rightarrow> number \<Rightarrow> number \<Rightarrow> HedgeRange list \<Rightarrow> HedgeRange list option"
where
  "strip_loop q bin topRaw lowerRaw ranges =
     (if lowerRaw < topRaw
      then let higherRaw = Math_min (lowerRaw + bin) topRaw
           in strip_loop q bin topRaw higherRaw (ranges @ bin_range q lowerRaw higherRaw)
      else Some ranges)"

declare strip_loop.simps [code]

definition buildHedgeStrip :: "HedgeStripInputs \<Rightarrow> HedgeRange list option" where
  "buildHedgeStrip i =
     (if qBtc i \<le> 0 \<or> spot i \<le> 0 then Some []
      else if dropBandLo i < 0 \<or> dropBandHi i \<le> dropBandLo i then Some []
      else let topRaw = strip_top i; floorRaw = strip_floor i in
      if topRaw \<le> floorRaw then Some []
      else strip_loop (qBtc i) (min_bin (tickSizeRaw i) (topRaw - floorRaw)) topRaw floorRaw [])"

record drop_band =
  band_lo :: number
  band_hi :: number

definition tau_years :: "number \<Rightarrow> number \<Rightarrow> number" where
  "tau_years expiryMs now = Math_max 1 (expiryMs - now) / MS_PER_YEAR"

definition suggestDropBand :: "PredictSviEvent \<Rightarrow> number \<Rightarrow> number \<Rightarrow> drop_band option" where
  "suggestDropBand svi expiryMs now =
     (let tauYears = tau_years expiryMs now;
          sigmaATM = sviImpliedVol 0 svi tauYears
      in if \<not> isFinite sigmaATM \<or> sigmaATM \<le> 0 then None
         else let oneSigmaMove = sigmaATM * Math_sqrt tauYears
              in Some \<lparr>band_lo = oneSigmaMove * Fin (25 / 100), band_hi = oneSigmaMove * Fin (125 / 100)\<rparr>)"

section \<open>Pricing off the smile\<close>

definition normCdf :: "number \<Rightarrow> number" where
  "normCdf x =
     (let t = 1 / (1 + Fin (3275911 / 10 ^ 7) * Math_abs x / Fin (sqrt 2));
          y = 1 - ((((Fin (1061405429 / 10 ^ 9) * t - Fin (1453152027 / 10 ^ 9)) * t
                     + Fin (1421413741 / 10 ^ 9)) * t - Fin (284496736 / 10 ^ 9)) * t
                   + Fin (254829592 / 10 ^ 9)) * t * Math_exp ((- x * x) / 2)
      in if 0 \<le> x then Fin (1 / 2) * (1 + y) else Fin (1 / 2) * (1 - y))"

definition prob_above :: "PredictSviEvent \<Rightarrow> number \<Rightarrow> number \<Rightarrow> number \<Rightarrow> number" where
  "prob_above svi forward tauYears kRaw =
     (let K = strikeToUsd (JNum kRaw) in
      if K \<le> 0 then 1
      else let k = Math_log (K / forward);
               sigma = sviImpliedVol k svi tauYears in
      if \<not> isFinite sigma \<or> sigma \<le> 0 then (if K \<le> forward then 1 else 0)
      else let d2 = (Math_log (forward / K) - Fin (1 / 2) * sigma * sigma * tauYears)
                    / (sigma * Math_sqrt tauYears)
           in normCdf d2)"

definition priceRangeFromSvi ::
  "HedgeRange \<Rightarrow> PredictSviEvent \<Rightarrow> number \<Rightarrow> number \<Rightarrow> number \<Rightarrow> number"
where
  "priceRangeFromSvi rng svi forward expiryMs now =
     (let tauYears = tau_years expiryMs now in
      if forward \<le> 0 \<or> tauYears \<le> 0 then 0
      else let p = prob_above svi forward tauYears (lowerStrikeRaw rng)
                   - prob_above svi forward tauYears (higherStrikeRaw rng)
           in Math_min 1 (Math_max 0 p))"

record StripPricing =
  totalPremiumUsd :: number
  perRangeUsd :: "number list"

definition priceStripFromSvi ::
  "HedgeRange list \<Rightarrow> PredictSviEvent \<Rightarrow> number \<Rightarrow> number \<Rightarrow> number \<Rightarrow> StripPricing"
where
  "priceStripFromSvi strip svi forward expiryMs now =
     (let per = map (\<lambda>r. quantity r * priceRangeFromSvi r svi forward expiryMs now) strip
      in \<lparr>totalPremiumUsd = sum_num (\<lambda>x. x) per, perRangeUsd = per\<rparr>)"

section \<open>Summary and payoff\<close>

record HedgeSummary =
  premiumUsd :: number
  premiumPctOfRevenue :: number
  maxProtectedUsd :: number
  floorUsd :: number
  topUsd :: number
  flooredRevenueUsd :: number
  unhedgedAtFloorUsd :: number
  breakEvenSpot :: number
  breakEvenDropPct :: number

definition summarizeHedge ::
  "HedgeRange list \<Rightarrow> number \<Rightarrow> number \<Rightarrow> number \<Rightarrow> number \<Rightarrow> HedgeSummary option"
where
  "summarizeHedge strip q spotUsd premium expectedUsd =
     (if length strip = 0 \<or> q \<le> 0 \<or> spotUsd \<le> 0 then None
      else let flo = strikeToUsd (JNum (foldl (\<lambda>m r. Math_min m (lowerStrikeRaw r)) PosInf strip));
               tp = strikeToUsd (JNum (foldl (\<lambda>m r. Math_max m (higherStrikeRaw r)) 0 strip));
               protected = sum_num quantity strip;
               unhedgedAtFloor = q * flo;
               floored = unhedgedAtFloor + protected - premium;
               breakEven = (if 0 < q then tp - premium / q else tp)
           in Some \<lparr>premiumUsd = premium,
                    premiumPctOfRevenue = (if 0 < expectedUsd then premium / expectedUsd else 0),
                    maxProtectedUsd = protected,
                    floorUsd = flo,
                    topUsd = tp,
                    flooredRevenueUsd = floored,
                    unhedgedAtFloorUsd = unhedgedAtFloor,
                    breakEvenSpot = breakEven,
                    breakEvenDropPct = (if 0 < spotUsd then Math_max 0 ((spotUsd - breakEven) / spotUsd) else 0)\<rparr>)"

text \<open>
  The settlement payoff, computed in the same way by the curve and by the simulation: the
  quantity of the first range that contains the price, then \<open>break\<close>.
\<close>

fun settlement_payoff :: "HedgeRange list \<Rightarrow> number \<Rightarrow> number" where
  "settlement_payoff [] s = 0"
| "settlement_payoff (r # rs) s =
     (if strikeToUsd (JNum (lowerStrikeRaw r)) \<le> s \<and> s < strikeToUsd (JNum (higherStrikeRaw r))
      then 0 + quantity r else settlement_payoff rs s)"

record PayoffPoint =
  pp_price :: number
  pp_unhedged :: number
  pp_hedged :: number

definition buildPayoffCurve ::
  "HedgeRange list \<Rightarrow> number \<Rightarrow> number \<Rightarrow> number \<Rightarrow> number \<Rightarrow> number \<Rightarrow> nat \<Rightarrow> PayoffPoint list"
where
  "buildPayoffCurve strip q premium spotUsd loFrac hiFrac steps =
     (if q \<le> 0 \<or> spotUsd \<le> 0 then []
      else let lo = spotUsd * (1 - loFrac);
               hi = spotUsd * (1 + hiFrac)
           in map (\<lambda>i. let price = lo + ((hi - lo) * Fin (real i)) / Fin (real steps);
                           payoff = settlement_payoff strip price
                       in \<lparr>pp_price = price, pp_unhedged = q * price,
                           pp_hedged = q * price + payoff - premium\<rparr>)
                [0..<steps + 1])"

section \<open>Simulation\<close>

definition mean :: "number list \<Rightarrow> number" where
  "mean xs = (if length xs = 0 then 0 else sum_num (\<lambda>x. x) xs / Fin (real (length xs)))"

definition stdev :: "number list \<Rightarrow> number" where
  "stdev xs =
     (if length xs < 2 then 0
      else let m = mean xs
           in Math_sqrt (sum_num (\<lambda>x. (x - m) * (x - m)) xs / Fin (real (length xs - 1))))"

text \<open>An index that is not a natural number reads \<open>undefined\<close>, which is NaN in arithmetic.\<close>

definition at_index :: "number list \<Rightarrow> number \<Rightarrow> number" where
  "at_index xs i =
     (case i of
        Fin x \<Rightarrow> if 0 \<le> x \<and> x = of_int \<lfloor>x\<rfloor> \<and> nat \<lfloor>x\<rfloor> < length xs then xs ! nat \<lfloor>x\<rfloor> else NaN
      | _ \<Rightarrow> NaN)"

definition quantile :: "number list \<Rightarrow> number \<Rightarrow> number" where
  "quantile xs q =
     (if length xs = 0 then 0
      else let srt = js_sort (\<lambda>a b. a - b) xs;
               n = Fin (real (length srt));
               idx = Math_min (n - 1) (Math_max 0 (Math_floor (q * n)))
           in at_index srt idx)"

definition sampleNormal :: "number \<Rightarrow> number \<Rightarrow> number" where
  "sampleNormal r1 r2 =
     (let u1 = Math_max r1 (Fin (1 / 10 ^ 12));
          u2 = Math_max r2 (Fin (1 / 10 ^ 12))
      in Math_sqrt (Fin (- 2) * Math_log u1) * Math_cos (2 * Fin pi * u2))"

record SimulationSummary =
  unhedgedMean :: number
  hedgedMean :: number
  unhedgedStdev :: number
  hedgedStdev :: number
  unhedgedP05 :: number
  hedgedP05 :: number
  unhedgedP50 :: number
  hedgedP50 :: number
  unhedgedP95 :: number
  hedgedP95 :: number
  expectedPayoffUsd :: number
  fairValuePayoffUsd :: number

record SimulationResult =
  samples :: "number list"
  unhedged :: "number list"
  hedged :: "number list"
  sim_summary :: SimulationSummary

record SimulationInputs =
  si_qBtc :: number
  si_spot :: number
  si_strip :: "HedgeRange list"
  si_svi :: PredictSviEvent
  si_expiryMs :: number
  si_premiumUsd :: number
  si_n :: nat

definition zeroSummary :: SimulationSummary where
  "zeroSummary =
     \<lparr>unhedgedMean = 0, hedgedMean = 0, unhedgedStdev = 0, hedgedStdev = 0, unhedgedP05 = 0,
      hedgedP05 = 0, unhedgedP50 = 0, hedgedP50 = 0, unhedgedP95 = 0, hedgedP95 = 0,
      expectedPayoffUsd = 0, fairValuePayoffUsd = 0\<rparr>"

definition simulateHedgePnl :: "(nat \<Rightarrow> number) \<Rightarrow> number \<Rightarrow> SimulationInputs \<Rightarrow> SimulationResult" where
  "simulateHedgePnl rnd now i =
     (let tauMs = Math_max 1 (si_expiryMs i - now);
          tauYears = tauMs / MS_PER_YEAR;
          sigmaATM = sviImpliedVol 0 (si_svi i) tauYears
      in if \<not> isFinite sigmaATM \<or> sigmaATM \<le> 0
         then \<lparr>samples = [], unhedged = [], hedged = [], sim_summary = zeroSummary\<rparr>
         else let smp = map (\<lambda>j. let z = sampleNormal (rnd (2 * j)) (rnd (2 * j + 1))
                                 in si_spot i * Math_exp (Fin (- 1 / 2) * sigmaATM * sigmaATM * tauYears
                                                          + sigmaATM * Math_sqrt tauYears * z))
                          [0..<si_n i];
                  unh = map (\<lambda>s. si_qBtc i * s) smp;
                  hed = map (\<lambda>s. si_qBtc i * s + settlement_payoff (si_strip i) s - si_premiumUsd i) smp;
                  expectedPayoff = mean (map2 (\<lambda>h u. h - u + si_premiumUsd i) hed unh)
              in \<lparr>samples = smp, unhedged = unh, hedged = hed,
                  sim_summary =
                    \<lparr>unhedgedMean = mean unh, hedgedMean = mean hed,
                     unhedgedStdev = stdev unh, hedgedStdev = stdev hed,
                     unhedgedP05 = quantile unh (Fin (5 / 100)), hedgedP05 = quantile hed (Fin (5 / 100)),
                     unhedgedP50 = quantile unh (Fin (50 / 100)), hedgedP50 = quantile hed (Fin (50 / 100)),
                     unhedgedP95 = quantile unh (Fin (95 / 100)), hedgedP95 = quantile hed (Fin (95 / 100)),
                     expectedPayoffUsd = expectedPayoff,
                     fairValuePayoffUsd = si_premiumUsd i\<rparr>\<rparr>)"

section \<open>The strip builder returns\<close>

lemma strip_loop_stop: "\<not> l < t \<Longrightarrow> strip_loop q b t l rs = Some rs"
  by (subst strip_loop.simps) simp

lemma strip_loop_step:
  "l < t \<Longrightarrow> strip_loop q b t l rs
     = strip_loop q b t (Math_min (l + b) t) (rs @ bin_range q l (Math_min (l + b) t))"
  by (subst strip_loop.simps) (simp add: Let_def)

lemma ceiling_drop: "0 < y \<Longrightarrow> x \<le> 0 \<or> x \<le> y - 1 \<Longrightarrow> nat \<lceil>x\<rceil> < nat \<lceil>y\<rceil>" for x y :: real
proof -
  assume y: "0 < y" and x: "x \<le> 0 \<or> x \<le> y - 1"
  have "0 < \<lceil>y\<rceil>" using y by simp
  moreover have "\<lceil>x\<rceil> < \<lceil>y\<rceil>"
  proof (cases "x \<le> 0")
    case True
    then have "\<lceil>x\<rceil> \<le> 0" by simp
    then show ?thesis using \<open>0 < \<lceil>y\<rceil>\<close> by (rule le_less_trans)
  next
    case False
    with x have "\<lceil>x\<rceil> \<le> \<lceil>y - 1\<rceil>" by (intro ceiling_mono) simp
    then show ?thesis by simp
  qed
  ultimately show ?thesis by simp
qed

lemma strip_loop_finite_returns:
  assumes "0 < b"
  shows "\<exists>out. strip_loop q (Fin b) (Fin t) (Fin l) rs = Some out"
proof (induction "nat \<lceil>(t - l) / b\<rceil>" arbitrary: l rs rule: less_induct)
  case less
  show ?case
  proof (cases "l < t")
    case False
    then show ?thesis by (simp add: strip_loop_stop)
  next
    case True
    have "(t - min (l + b) t) / b \<le> 0 \<or> (t - min (l + b) t) / b \<le> (t - l) / b - 1"
      using assms by (auto simp: min_def field_simps)
    moreover have "0 < (t - l) / b" using True assms by simp
    ultimately have "nat \<lceil>(t - min (l + b) t) / b\<rceil> < nat \<lceil>(t - l) / b\<rceil>"
      by (rule ceiling_drop [rotated])
    from less [OF this] show ?thesis using True by (simp add: strip_loop_step)
  qed
qed

lemma min_bin_cases:
  assumes "f < t"
  shows "min_bin tick (t - f) \<in> {NaN, PosInf}
    \<or> (\<exists>b a c. min_bin tick (t - f) = Fin b \<and> 0 < b \<and> t = Fin a \<and> f = Fin c)"
proof (cases "\<exists>a c. t = Fin a \<and> f = Fin c")
  case True
  then obtain a c where ac: "t = Fin a" "f = Fin c" by blast
  have s: "0 < a - c" using assms ac by simp
  show ?thesis
  proof (cases tick)
    case (Fin k)
    consider "k = 0" | "0 < k" | "k < 0" by linarith
    then show ?thesis
    proof cases
      case 1
      then show ?thesis using Fin ac s by (simp add: min_bin_def TARGET_BINS_def)
    next
      case 2
      then show ?thesis using Fin ac by (auto simp: min_bin_def TARGET_BINS_def)
    next
      case 3
      have "(a - c) / 8 / k < 0" using 3 s by (simp add: divide_neg_neg divide_pos_neg)
      then have "of_int \<lfloor>(a - c) / 8 / k\<rfloor> < (0 :: real)" by linarith
      then have "0 < of_int \<lfloor>(a - c) / 8 / k\<rfloor> * k" using 3 by (rule mult_neg_neg)
      then show ?thesis using 3 Fin ac by (auto simp: min_bin_def TARGET_BINS_def)
    qed
  qed (use ac in \<open>simp_all add: min_bin_def TARGET_BINS_def\<close>)
next
  case False
  then have "t - f = PosInf" using assms by (cases t; cases f) (auto simp: minus_number_def)
  then show ?thesis
    by (cases tick) (auto simp: min_bin_def TARGET_BINS_def)
qed

lemma buildHedgeStrip_total:
  "\<exists>strip. buildHedgeStrip i = Some strip"
proof -
  have "\<exists>strip. strip_loop q (min_bin tick (t - f)) t f [] = Some strip" for q tick t f
  proof (cases "f < t")
    case False
    then show ?thesis by (simp add: strip_loop_stop)
  next
    case True
    then have nn: "f \<noteq> NaN" "t \<noteq> NaN" by auto
    consider "min_bin tick (t - f) \<in> {NaN, PosInf}"
      | b a c where "min_bin tick (t - f) = Fin b" "0 < b" "t = Fin a" "f = Fin c"
      using min_bin_cases [OF True] by blast
    then show ?thesis
    proof cases
      case 1
      then have "Math_min (f + min_bin tick (t - f)) t \<in> {NaN, t}"
        using nn True by (cases f; cases t) (auto simp: Math_min_def)
      then have "\<not> Math_min (f + min_bin tick (t - f)) t < t" by auto
      then show ?thesis using True by (simp add: strip_loop_step strip_loop_stop)
    next
      case 2
      then show ?thesis using strip_loop_finite_returns [of b] by simp
    qed
  qed
  then show ?thesis by (simp add: buildHedgeStrip_def Let_def)
qed


section \<open>The shape of the strip\<close>

definition strip_range :: "real \<Rightarrow> real \<Rightarrow> real \<Rightarrow> HedgeRange" where
  "strip_range q lo hi = \<lparr>lowerStrikeRaw = Fin lo, higherStrikeRaw = Fin hi,
     quantity = Fin (q * ((hi - lo) / 1000000000))\<rparr>"

definition strip_bins :: "real \<Rightarrow> real \<Rightarrow> real \<Rightarrow> real \<Rightarrow> nat \<Rightarrow> HedgeRange list" where
  "strip_bins q b t l n =
     map (\<lambda>i. strip_range q (l + real i * b) (min (l + real (Suc i) * b) t)) [0..<n]"

lemma strip_bins_Suc:
  "strip_bins q b t l (Suc n) = strip_range q l (min (l + b) t) # strip_bins q b t (l + b) n"
proof -
  have "[0..<Suc n] = 0 # map Suc [0..<n]" by (metis map_Suc_upt upt_conv_Cons zero_less_Suc)
  then show ?thesis by (simp add: strip_bins_def comp_def algebra_simps)
qed

lemma strip_loop_closed_form:
  assumes "0 < b" "0 < q"
  shows "strip_loop (Fin q) (Fin b) (Fin t) (Fin l) rs = Some (rs @ strip_bins q b t l (nat \<lceil>(t - l) / b\<rceil>))"
proof (induction "nat \<lceil>(t - l) / b\<rceil>" arbitrary: l rs)
  case 0
  then have "(t - l) / b \<le> 0" by linarith
  then have "\<not> l < t" using assms by (simp add: divide_le_0_iff)
  with 0 show ?case by (simp add: strip_loop_stop strip_bins_def)
next
  case (Suc n)
  then have "0 < (t - l) / b" by linarith
  then have l: "l < t" using assms by (simp add: zero_less_divide_iff)
  have "(t - (l + b)) / b = (t - l) / b - 1" using assms by (simp add: field_simps)
  then have next_n: "nat \<lceil>(t - (l + b)) / b\<rceil> = n" using Suc(2) by linarith
  have bin: "bin_range (Fin q) (Fin l) (Fin (min (l + b) t)) = [strip_range q l (min (l + b) t)]"
    using l assms by (simp add: bin_range_def Let_def STRIKE_SCALAR_def strip_range_def)
  show ?case
  proof (cases "l + b \<le> t")
    case True
    with Suc(1) [OF next_n [symmetric], of "rs @ [strip_range q l (min (l + b) t)]"] l bin Suc(2) next_n
    show ?thesis by (simp add: strip_loop_step strip_bins_Suc flip: Suc(2))
  next
    case False
    then have "(t - (l + b)) / b \<le> 0" using assms by (simp add: divide_le_0_iff)
    then have "n = 0" using next_n by linarith
    with False l bin Suc(2) [symmetric] show ?thesis
      by (simp add: strip_loop_step strip_loop_stop strip_bins_Suc strip_bins_def)
  qed
qed

text \<open>
  A list of ranges that tiles the strikes from \<open>f\<close> to \<open>t\<close> without gap or overlap, each sized
  \<open>q\<close> shares per dollar of width.
\<close>

fun tiles :: "real \<Rightarrow> real \<Rightarrow> real \<Rightarrow> HedgeRange list \<Rightarrow> bool" where
  "tiles q f t [] = (f = t)"
| "tiles q f t (r # rs) =
     (lowerStrikeRaw r = Fin f
      \<and> (case higherStrikeRaw r of
           Fin m \<Rightarrow> f < m \<and> quantity r = Fin (q * ((m - f) / 1000000000)) \<and> tiles q m t rs
         | _ \<Rightarrow> False))"

lemma tiles_le: "tiles q f t rs \<Longrightarrow> f \<le> t"
  by (induction q f t rs rule: tiles.induct) (auto split: number.splits)

lemma tiles_less: "tiles q f t rs \<Longrightarrow> rs \<noteq> [] \<Longrightarrow> f < t"
  by (cases rs) (auto split: number.splits dest: tiles_le)

lemma tiles_ConsE:
  assumes "tiles q f t (r # rs)"
  obtains m where "lowerStrikeRaw r = Fin f" "higherStrikeRaw r = Fin m" "f < m"
    "quantity r = Fin (q * ((m - f) / 1000000000))" "tiles q m t rs"
  using assms by (auto split: number.splits)

lemma tiles_strip_bins:
  assumes "0 < b" "l < t" "l + real n * b < t" "t \<le> l + real (Suc n) * b"
  shows "tiles q l t (strip_bins q b t l (Suc n))"
  using assms
proof (induction n arbitrary: l)
  case 0
  then have "min (l + b) t = t" by simp
  with 0 show ?case by (simp add: strip_bins_def strip_range_def)
next
  case (Suc n)
  have "l + b \<le> l + real (Suc n) * b" using Suc.prems(1) by (simp add: algebra_simps)
  also have "\<dots> < t" using Suc.prems(3) .
  finally have lb: "l + b < t" .
  have "tiles q (l + b) t (strip_bins q b t (l + b) (Suc n))"
    using Suc.prems lb by (intro Suc.IH) (simp_all add: algebra_simps)
  then show ?case
    using lb Suc.prems(1) by (subst strip_bins_Suc) (simp add: strip_range_def)
qed

lemma sum_num_quantity_tiles:
  assumes "tiles q f t rs"
  shows "foldl (\<lambda>s r. s + quantity r) (Fin a) rs = Fin (a + q * ((t - f) / 1000000000))"
  using assms
proof (induction rs arbitrary: a f)
  case Nil
  then show ?case by simp
next
  case (Cons r rs)
  then obtain m where m: "quantity r = Fin (q * ((m - f) / 1000000000))" "tiles q m t rs"
    by (elim tiles_ConsE)
  have "q * ((m - f) / 1000000000) + q * ((t - m) / 1000000000) = q * ((t - f) / 1000000000)"
    by (simp add: algebra_simps diff_divide_distrib)
  with Cons.IH [OF m(2)] m(1) show ?case by (simp add: add.assoc)
qed

section \<open>How many ranges\<close>

lemma min_bin_finite:
  "0 < k \<Longrightarrow> min_bin (Fin k) (Fin s) = Fin (max k (of_int \<lfloor>s / 8 / k\<rfloor> * k))"
  by (simp add: min_bin_def TARGET_BINS_def)

lemma bins_at_most_16:
  fixes k s :: real
  assumes "0 < k" "0 < s"
  shows "s / max k (of_int \<lfloor>s / 8 / k\<rfloor> * k) \<le> 16"
proof -
  define j where "j = \<lfloor>s / 8 / k\<rfloor>"
  have j: "s / 8 / k < of_int j + 1" unfolding j_def by linarith
  then have s: "s < 8 * ((of_int j + 1) * k)" using assms by (simp add: field_simps)
  have j0: "0 \<le> j" using assms by (simp add: j_def)
  have "s \<le> 16 * max k (of_int j * k)"
  proof (cases "j = 0")
    case True
    then show ?thesis using s assms by simp
  next
    case False
    with j0 have "1 \<le> j" by simp
    then have "1 \<le> real_of_int j" by simp
    then have "(of_int j + 1) * k \<le> 2 * (of_int j * k)" using assms by (simp add: algebra_simps)
    then show ?thesis using s by simp
  qed
  then show ?thesis using assms by (simp add: pos_divide_le_eq j_def less_max_iff_disj)
qed

lemma ceiling_bins:
  assumes "0 < b" "f < t"
  obtains n where "nat \<lceil>(t - f) / b\<rceil> = Suc n" "f + real n * b < t" "t \<le> f + real (Suc n) * b"
proof -
  have pos: "0 < (t - f) / b" using assms by simp
  define n where "n = nat \<lceil>(t - f) / b\<rceil> - 1"
  have n: "nat \<lceil>(t - f) / b\<rceil> = Suc n" using pos by (simp add: n_def)
  have c: "of_int \<lceil>(t - f) / b\<rceil> = real (Suc n)" using n pos by linarith
  have "(t - f) / b \<le> real (Suc n)" "real (Suc n) - 1 < (t - f) / b"
    using c ceiling_correct [of "(t - f) / b"] by simp_all
  then have "t - f \<le> real (Suc n) * b" "(real (Suc n) - 1) * b < t - f"
    using assms by (simp_all add: pos_divide_le_eq pos_less_divide_eq)
  with n show ?thesis by (intro that [of n]) simp_all
qed

lemma buildHedgeStrip_tiles:
  assumes "qBtc i = Fin q" "0 < q" "spot i = Fin s" "0 < s"
    and "dropBandLo i = Fin lo" "dropBandHi i = Fin hi" "0 \<le> lo" "lo < hi"
    and "tickSizeRaw i = Fin k" "0 < k"
    and "strip_top i = Fin t" "strip_floor i = Fin f" "f < t"
  shows "\<exists>strip. buildHedgeStrip i = Some strip \<and> tiles q f t strip
           \<and> length strip = nat \<lceil>(t - f) / max k (of_int \<lfloor>(t - f) / 8 / k\<rfloor> * k)\<rceil>"
proof -
  let ?b = "max k (of_int \<lfloor>(t - f) / 8 / k\<rfloor> * k)"
  have b: "0 < ?b" using assms by (simp add: less_max_iff_disj)
  from ceiling_bins [OF b assms(13)] obtain n where n: "nat \<lceil>(t - f) / ?b\<rceil> = Suc n"
    "f + real n * ?b < t" "t \<le> f + real (Suc n) * ?b" .
  have "buildHedgeStrip i = Some (strip_bins q ?b t f (Suc n))"
    using assms strip_loop_closed_form [OF b assms(2), of t f "[]"] n(1)
    by (simp add: buildHedgeStrip_def Let_def min_bin_finite)
  moreover have "tiles q f t (strip_bins q ?b t f (Suc n))"
    using b assms(13) n(2,3) by (rule tiles_strip_bins)
  ultimately show ?thesis using n(1) by (simp add: strip_bins_def)
qed

text \<open>
  C16: for a valid request the strip tiles the strikes from the snapped floor to the snapped top:
  the first range starts at the floor, each starts where the one before ends, the last ends at the
  top, every range has a positive width and carries \<open>qBtc\<close> shares per dollar of it, and the
  shares add up to \<open>qBtc\<close> times the dollar width of the band. There is at least one range and there
  are at most 16.
\<close>

theorem buildHedgeStrip_partition:
  assumes "qBtc i = Fin q" "0 < q" "spot i = Fin s" "0 < s"
    and "dropBandLo i = Fin lo" "dropBandHi i = Fin hi" "0 \<le> lo" "lo < hi"
    and "tickSizeRaw i = Fin k" "0 < k"
    and "strip_top i = Fin t" "strip_floor i = Fin f" "f < t"
  shows "\<exists>strip. buildHedgeStrip i = Some strip \<and> tiles q f t strip
           \<and> sum_num quantity strip = Fin (q * ((t - f) / 1000000000))
           \<and> 1 \<le> length strip \<and> length strip \<le> 16"
proof -
  let ?b = "max k (of_int \<lfloor>(t - f) / 8 / k\<rfloor> * k)"
  obtain strip where strip: "buildHedgeStrip i = Some strip" "tiles q f t strip"
    "length strip = nat \<lceil>(t - f) / ?b\<rceil>"
    using buildHedgeStrip_tiles [OF assms] by blast
  have "(t - f) / ?b \<le> 16" using assms by (intro bins_at_most_16) simp_all
  then have "nat \<lceil>(t - f) / ?b\<rceil> \<le> 16" by (simp add: ceiling_le_iff)
  moreover have "strip \<noteq> []" using strip(2) assms(13) by auto
  ultimately show ?thesis
    using strip sum_num_quantity_tiles [OF strip(2), of 0]
    by (auto simp: sum_num_def Suc_le_eq)
qed

definition sample_inputs :: HedgeStripInputs where
  "sample_inputs = \<lparr>qBtc = Fin 2, spot = Fin 100, dropBandLo = Fin 0, dropBandHi = Fin (15 / 100),
     tickSizeRaw = Fin 1000000000, minStrikeRaw = Fin 1000000000\<rparr>"

lemma sample_strip_top: "strip_top sample_inputs = Fin 100000000000"
  by (simp add: strip_top_def sample_inputs_def usdToStrike_def spotToTick_def STRIKE_SCALAR_def Let_def)

lemma sample_strip_floor: "strip_floor sample_inputs = Fin 85000000000"
  by (simp add: strip_floor_def sample_inputs_def usdToStrike_def spotToTick_def STRIKE_SCALAR_def Let_def)

lemmas sample_strip = buildHedgeStrip_tiles [where i = sample_inputs, OF _ _ _ _ _ _ _ _ _ _ sample_strip_top sample_strip_floor]

theorem buildHedgeStrip_partition_witness:
  "\<exists>strip. buildHedgeStrip sample_inputs = Some strip \<and> tiles 2 85000000000 100000000000 strip
           \<and> sum_num quantity strip = Fin (2 * ((100000000000 - 85000000000) / 1000000000))
           \<and> 1 \<le> length strip \<and> length strip \<le> 16"
  by (rule buildHedgeStrip_partition [where i = sample_inputs and s = 100 and lo = 0 and hi = "15 / 100" and k = 1000000000])
    (simp_all add: sample_strip_top sample_strip_floor, simp_all add: sample_inputs_def)

text \<open>
  the strip is not capped at the eight ranges the comment in \<open>buildHedgeStrip\<close> announces:
  a band of fifteen ticks gives fifteen ranges, because the bin width is rounded down to a whole
  number of ticks.
\<close>

theorem buildHedgeStrip_exceeds_target:
  "map_option length (buildHedgeStrip sample_inputs) = Some 15"
proof -
  have "\<lfloor>(100000000000 - 85000000000 :: real) / 8 / 1000000000\<rfloor> = 1" by simp
  then have "nat \<lceil>(100000000000 - 85000000000 :: real)
      / max 1000000000 (of_int \<lfloor>(100000000000 - 85000000000 :: real) / 8 / 1000000000\<rfloor> * 1000000000)\<rceil> = 15"
    by simp
  moreover have "\<exists>strip. buildHedgeStrip sample_inputs = Some strip \<and> tiles 2 85000000000 100000000000 strip
      \<and> length strip = nat \<lceil>(100000000000 - 85000000000 :: real)
          / max 1000000000 (of_int \<lfloor>(100000000000 - 85000000000 :: real) / 8 / 1000000000\<rfloor> * 1000000000)\<rceil>"
    by (rule sample_strip [where s = 100 and lo = 0 and hi = "15 / 100"]) (simp_all add: sample_inputs_def)
  ultimately show ?thesis by auto
qed

section \<open>Settlement\<close>

lemma strikeToUsd_Fin [simp]: "strikeToUsd (JNum (Fin x)) = Fin (x / 1000000000)"
  by (simp add: strikeToUsd_def STRIKE_SCALAR_def)

lemma payoff_outside:
  "tiles q f t rs \<Longrightarrow> s < f / 1000000000 \<or> t / 1000000000 \<le> s \<Longrightarrow> settlement_payoff rs (Fin s) = Fin 0"
proof (induction rs arbitrary: f)
  case Nil
  show ?case by simp
next
  case (Cons r rs)
  from Cons.prems(1) obtain m where m: "lowerStrikeRaw r = Fin f" "higherStrikeRaw r = Fin m" "f < m" "tiles q m t rs"
    by (elim tiles_ConsE)
  have "m \<le> t" using tiles_le [OF m(4)] .
  then have "s < f / 1000000000 \<or> m / 1000000000 \<le> s" using Cons.prems(2) by auto
  moreover have "s < m / 1000000000 \<or> t / 1000000000 \<le> s" using Cons.prems(2) m(3) by auto
  ultimately show ?case using Cons.IH [OF m(4)] m(1,2) by auto
qed

lemma payoff_inside:
  "tiles q f t rs \<Longrightarrow> f / 1000000000 \<le> s \<Longrightarrow> s < t / 1000000000 \<Longrightarrow>
     \<exists>r \<in> set rs. strikeToUsd (JNum (lowerStrikeRaw r)) \<le> Fin s \<and> Fin s < strikeToUsd (JNum (higherStrikeRaw r))
       \<and> settlement_payoff rs (Fin s) = quantity r"
proof (induction rs arbitrary: f)
  case Nil
  then show ?case by simp
next
  case (Cons r rs)
  from Cons.prems(1) obtain m where m: "lowerStrikeRaw r = Fin f" "higherStrikeRaw r = Fin m" "f < m" "tiles q m t rs"
    and qr: "quantity r = Fin (q * ((m - f) / 1000000000))"
    by (elim tiles_ConsE)
  show ?case
  proof (cases "s < m / 1000000000")
    case True
    with m Cons.prems(2) qr show ?thesis by (intro bexI [of _ r]) simp_all
  next
    case False
    then obtain r' where "r' \<in> set rs" "strikeToUsd (JNum (lowerStrikeRaw r')) \<le> Fin s"
      "Fin s < strikeToUsd (JNum (higherStrikeRaw r'))" "settlement_payoff rs (Fin s) = quantity r'"
      using Cons.IH [OF m(4)] Cons.prems(3) by auto
    with False m show ?thesis by (intro bexI [of _ r']) simp_all
  qed
qed

text \<open>
  at settlement the strip pays one range only. Inside the band it pays the quantity of the one
  range that contains the price, which is \<open>qBtc\<close> times the width of that range and not \<open>qBtc\<close>
  times the distance to the top; below the floor and from the top on it pays nothing.
\<close>

theorem settlement_payoff_single_range:
  assumes "tiles q f t strip"
  shows "(s < f / 1000000000 \<or> t / 1000000000 \<le> s \<longrightarrow> settlement_payoff strip (Fin s) = Fin 0)
    \<and> (f / 1000000000 \<le> s \<and> s < t / 1000000000 \<longrightarrow>
         (\<exists>r \<in> set strip. strikeToUsd (JNum (lowerStrikeRaw r)) \<le> Fin s
            \<and> Fin s < strikeToUsd (JNum (higherStrikeRaw r)) \<and> settlement_payoff strip (Fin s) = quantity r))"
  using payoff_outside [OF assms] payoff_inside [OF assms] by blast

theorem settlement_payoff_single_range_witness:
  "tiles 2 85000000000 86000000000 [strip_range 2 85000000000 86000000000]
    \<and> settlement_payoff [strip_range 2 85000000000 86000000000] (Fin 84) = Fin 0"
proof -
  have t: "tiles 2 85000000000 86000000000 [strip_range 2 85000000000 86000000000]"
    by (simp add: strip_range_def)
  with settlement_payoff_single_range [OF t, of 84] show ?thesis by simp
qed

lemma foldl_min_tiles:
  "tiles q f t rs \<Longrightarrow> a \<le> f \<Longrightarrow> foldl (\<lambda>m r. Math_min m (lowerStrikeRaw r)) (Fin a) rs = Fin a"
proof (induction rs arbitrary: f)
  case Nil
  show ?case by simp
next
  case (Cons r rs)
  from Cons.prems(1) obtain m where m: "lowerStrikeRaw r = Fin f" "f < m" "tiles q m t rs"
    by (elim tiles_ConsE)
  then show ?case using Cons.IH [OF m(3)] Cons.prems(2) by (simp add: min_def)
qed

lemma foldl_max_tiles:
  "tiles q f t rs \<Longrightarrow> foldl (\<lambda>m r. Math_max m (higherStrikeRaw r)) (Fin a) rs = Fin (if rs = [] then a else max a t)"
proof (induction rs arbitrary: f a)
  case Nil
  show ?case by simp
next
  case (Cons r rs)
  from Cons.prems(1) obtain m where m: "higherStrikeRaw r = Fin m" "tiles q m t rs"
    by (elim tiles_ConsE)
  moreover have "m \<le> t" using tiles_le [OF m(2)] .
  ultimately show ?case using Cons.IH [OF m(2)] by (auto simp: max_def)
qed

lemma foldl_min_first:
  "tiles q f t rs \<Longrightarrow> rs \<noteq> [] \<Longrightarrow> foldl (\<lambda>m r. Math_min m (lowerStrikeRaw r)) PosInf rs = Fin f"
proof (cases rs)
  case (Cons r rs')
  assume tl: "tiles q f t rs"
  with Cons have "tiles q f t (r # rs')" by (simp only:)
  then obtain m where "lowerStrikeRaw r = Fin f" "f < m" "tiles q m t rs'"
    by (elim tiles_ConsE)
  then show ?thesis using Cons foldl_min_tiles [of q m t rs' f] by simp
qed simp

lemma summarizeHedge_tiles:
  assumes "tiles q f t strip" "strip \<noteq> []" "0 < q" "0 < sp" "0 < t"
  shows "\<exists>sm. summarizeHedge strip (Fin q) (Fin sp) (Fin prem) expected = Some sm
      \<and> floorUsd sm = Fin (f / 1000000000) \<and> topUsd sm = Fin (t / 1000000000)
      \<and> maxProtectedUsd sm = Fin (q * ((t - f) / 1000000000))
      \<and> flooredRevenueUsd sm = Fin (q * (t / 1000000000) - prem)
      \<and> breakEvenSpot sm = Fin (t / 1000000000 - prem / q)"
proof -
  have "q * (f / 1000000000) + q * ((t - f) / 1000000000) - prem = q * (t / 1000000000) - prem"
    by (simp add: algebra_simps diff_divide_distrib)
  then show ?thesis
    using assms foldl_min_first [OF assms(1,2)] foldl_max_tiles [OF assms(1), of 0]
      sum_num_quantity_tiles [OF assms(1), of 0]
    by (simp add: summarizeHedge_def sum_num_def Let_def max_def)
qed



section \<open>Prices are probabilities\<close>

lemma Math_log_finite: "0 < a \<Longrightarrow> Math_log (Fin a) = Fin (ln a)"
  by simp

lemma normCdf_finite: "\<exists>p. normCdf (Fin x) = Fin p"
proof -
  have "0 \<le> 3275911 / 10 ^ 7 * \<bar>x\<bar> / sqrt 2"
    by (intro divide_nonneg_nonneg mult_nonneg_nonneg) auto
  then have nz: "1 + 3275911 / 10 ^ 7 * \<bar>x\<bar> / sqrt 2 \<noteq> 0" by linarith
  define t where "t = 1 / (1 + 3275911 / 10 ^ 7 * \<bar>x\<bar> / sqrt 2)"
  have "Fin (3275911 / 10 ^ 7) * Math_abs (Fin x) / Fin (sqrt 2) = Fin (3275911 / 10 ^ 7 * \<bar>x\<bar> / sqrt 2)"
    by simp
  then have t: "1 / (1 + Fin (3275911 / 10 ^ 7) * Math_abs (Fin x) / Fin (sqrt 2)) = Fin t"
    by (simp only: number_one plus_number.simps number_divide [OF nz] t_def)
  have e: "Math_exp ((- Fin x * Fin x) / 2) = Fin (exp (- x * x / 2))" by simp
  show ?thesis
    unfolding normCdf_def Let_def t e
    by (simp only: number_one times_number.simps plus_number.simps number_minus split: if_split) blast
qed

lemma prob_above_finite: "\<exists>p. prob_above svi fwd tau kRaw = Fin p"
proof -
  let ?K = "strikeToUsd (JNum kRaw)"
  let ?v = "sviImpliedVol (Math_log (?K / fwd)) svi tau"
  show ?thesis
  proof (cases "?K \<le> 0 \<or> \<not> isFinite ?v \<or> ?v \<le> 0")
    case True
    then show ?thesis by (auto simp: prob_above_def Let_def)
  next
    case False
    then obtain v where v: "?v = Fin v" "0 < v" by (auto simp: isFinite_iff)
    from sviImpliedVol_positive [OF v] obtain t where t: "tau = Fin t" "0 < t"
      and lg: "isFinite (Math_log (?K / fwd))" by blast
    have "\<exists>a b. ?K = Fin a \<and> fwd = Fin b \<and> 0 < a \<and> 0 < b"
      using lg False by (cases ?K; cases fwd) (auto split: if_splits simp: divide_less_0_iff not_le)
    then obtain a b where ab: "?K = Fin a" "fwd = Fin b" "0 < a" "0 < b" by blast
    have "\<exists>d2. (Math_log (fwd / ?K) - Fin (1 / 2) * ?v * ?v * tau) / (?v * Math_sqrt tau) = Fin d2"
      using ab t v by (simp add: divide_less_0_iff)
    then show ?thesis
      using False normCdf_finite by (auto simp: prob_above_def Let_def)
  qed
qed

lemma priceRangeFromSvi_prob:
  "\<exists>p. priceRangeFromSvi r svi fwd expiryMs now = Fin p \<and> 0 \<le> p \<and> p \<le> 1"
proof -
  obtain a b where "prob_above svi fwd (tau_years expiryMs now) (lowerStrikeRaw r) = Fin a"
    "prob_above svi fwd (tau_years expiryMs now) (higherStrikeRaw r) = Fin b"
    using prob_above_finite by blast
  then show ?thesis by (simp add: priceRangeFromSvi_def Let_def)
qed

text \<open>
  the price of a range is a probability for every input: whatever the smile, the forward, the
  strikes and the clock are, NaN and infinities included, it is a finite number between 0 and 1.
\<close>

theorem priceRangeFromSvi_probability:
  "\<exists>p. priceRangeFromSvi r svi fwd expiryMs now = Fin p \<and> 0 \<le> p \<and> p \<le> 1"
  by (rule priceRangeFromSvi_prob)

section \<open>Premium and simulation\<close>

lemma tiles_quantity:
  "tiles q f t rs \<Longrightarrow> 0 \<le> q \<Longrightarrow> r \<in> set rs \<Longrightarrow> \<exists>x. quantity r = Fin x \<and> 0 \<le> x"
proof (induction rs arbitrary: f)
  case Nil
  then show ?case by simp
next
  case (Cons a rs)
  from Cons.prems(1) obtain m where m: "f < m" "quantity a = Fin (q * ((m - f) / 1000000000))" "tiles q m t rs"
    by (elim tiles_ConsE)
  have "0 \<le> q * ((m - f) / 1000000000)" using m(1) Cons.prems(2) by simp
  with Cons m show ?case by auto
qed

lemma sum_num_bounded:
  "(\<And>r. r \<in> set rs \<Longrightarrow> \<exists>x y. f r = Fin x \<and> g r = Fin y \<and> 0 \<le> x \<and> x \<le> y) \<Longrightarrow>
     \<exists>x y. sum_num f rs = Fin x \<and> sum_num g rs = Fin y \<and> 0 \<le> x \<and> x \<le> y"
proof (induction rs rule: rev_induct)
  case Nil
  show ?case by (simp add: sum_num_def)
next
  case (snoc r rs)
  then obtain x y a b where "sum_num f rs = Fin x" "sum_num g rs = Fin y" "0 \<le> x" "x \<le> y"
    "f r = Fin a" "g r = Fin b" "0 \<le> a" "a \<le> b" by fastforce
  then show ?case by (simp add: sum_num_def)
qed

lemma premium_bounds:
  assumes "tiles q f t strip" "0 \<le> q"
  shows "\<exists>p m. totalPremiumUsd (priceStripFromSvi strip svi fwd expiryMs now) = Fin p
           \<and> sum_num quantity strip = Fin m \<and> 0 \<le> p \<and> p \<le> m
           \<and> length (perRangeUsd (priceStripFromSvi strip svi fwd expiryMs now)) = length strip"
proof -
  have "\<exists>x y. quantity r * priceRangeFromSvi r svi fwd expiryMs now = Fin x \<and> quantity r = Fin y \<and> 0 \<le> x \<and> x \<le> y"
    if r: "r \<in> set strip" for r
  proof -
    from tiles_quantity [OF assms r] obtain x where x: "quantity r = Fin x" "0 \<le> x" by blast
    from priceRangeFromSvi_prob [of r svi fwd expiryMs now] obtain p where p: "priceRangeFromSvi r svi fwd expiryMs now = Fin p" "0 \<le> p" "p \<le> 1" by blast
    show ?thesis using x p by (simp add: mult_left_le)
  qed
  then have "\<exists>x y. sum_num (\<lambda>r. quantity r * priceRangeFromSvi r svi fwd expiryMs now) strip = Fin x
      \<and> sum_num quantity strip = Fin y \<and> 0 \<le> x \<and> x \<le> y"
    by (rule sum_num_bounded)
  then show ?thesis by (simp add: priceStripFromSvi_def Let_def sum_num_map)
qed

text \<open>
  the premium of a strip is never negative and never more than the amount it can pay out: the
  total is a number between 0 and the sum of the quantities.
\<close>

theorem priceStripFromSvi_bounds:
  assumes "tiles q f t strip" "0 \<le> q"
  shows "\<exists>p m. totalPremiumUsd (priceStripFromSvi strip svi fwd expiryMs now) = Fin p
           \<and> sum_num quantity strip = Fin m \<and> 0 \<le> p \<and> p \<le> m
           \<and> length (perRangeUsd (priceStripFromSvi strip svi fwd expiryMs now)) = length strip"
  using assms by (rule premium_bounds)

theorem priceStripFromSvi_bounds_witness:
  "\<exists>p m. totalPremiumUsd (priceStripFromSvi [strip_range 2 85000000000 86000000000] sample_svi 100 1000 0) = Fin p
           \<and> sum_num quantity [strip_range 2 85000000000 86000000000] = Fin m \<and> 0 \<le> p \<and> p \<le> m
           \<and> length (perRangeUsd (priceStripFromSvi [strip_range 2 85000000000 86000000000] sample_svi 100 1000 0))
               = length [strip_range 2 85000000000 86000000000]"
  by (rule priceStripFromSvi_bounds [of 2 85000000000 86000000000]) (simp_all add: strip_range_def)

lemma quantile_member:
  assumes "xs \<noteq> []"
  shows "quantile (map Fin xs) (Fin q) \<in> Fin ` set xs"
proof -
  let ?n = "length xs"
  let ?s = "js_sort (\<lambda>a b. a - b) (map Fin xs)"
  define j where "j = min (int ?n - 1) (max 0 \<lfloor>q * real ?n\<rfloor>)"
  have "0 < int ?n" using assms by simp
  then have j: "0 \<le> j" "nat j < ?n" by (simp_all add: j_def nat_less_iff min_less_iff_disj)
  have idx: "Math_min (Fin (real ?n) - 1) (Math_max 0 (Math_floor (Fin q * Fin (real ?n)))) = Fin (of_int j)"
    using assms by (auto simp: j_def min_def max_def)
  have "?s ! nat j \<in> set ?s" using j by (intro nth_mem) simp
  then have "?s ! nat j \<in> Fin ` set xs" by simp
  then show ?thesis
    using assms j idx by (simp add: quantile_def Let_def at_index_def)
qed

lemma sviImpliedVol_eq:
  "sviTotalVariance k s = Fin w \<Longrightarrow> 0 < w \<Longrightarrow> 0 < t \<Longrightarrow>
     sviImpliedVol k s (Fin t) = Fin (sqrt (w / t)) \<and> 0 < sqrt (w / t)"
  by (simp add: sviImpliedVol_def max_def not_less)

lemma mean_Fin: "mean (map Fin xs) = Fin (sum_list xs / real (length xs))"
  using sum_num_Fin [of xs Fin "\<lambda>x. x"]
  by (cases "xs = []") (simp_all add: mean_def sum_num_map)

lemma sampleNormal_finite:
  assumes "0 \<le> a" "a \<le> 1" "0 \<le> b" "b \<le> 1"
  shows "\<exists>z. sampleNormal (Fin a) (Fin b) = Fin z"
proof -
  have u: "0 < max a (1 / 10 ^ 12)" "max a (1 / 10 ^ 12) \<le> 1" using assms by (auto simp: max_def)
  then have "ln (max a (1 / 10 ^ 12)) \<le> 0" by simp
  with u show ?thesis by (simp add: sampleNormal_def Let_def not_less)
qed

lemma payoff_finite:
  assumes "tiles q f t strip" "0 \<le> q"
  shows "\<exists>p. settlement_payoff strip (Fin s) = Fin p \<and> 0 \<le> p"
proof (cases "f / 1000000000 \<le> s \<and> s < t / 1000000000")
  case True
  with payoff_inside [OF assms(1)] obtain r where "r \<in> set strip" "settlement_payoff strip (Fin s) = quantity r"
    by blast
  with tiles_quantity [OF assms] show ?thesis by auto
next
  case False
  with payoff_outside [OF assms(1)] show ?thesis by (auto simp: not_le not_less)
qed

lemma sum_list_affine:
  "sum_list (map (\<lambda>s. q * s + p s - prem) ss) = sum_list (map (\<lambda>s. q * s) ss) + sum_list (map p ss) - real (length ss) * prem"
  by (induction ss) (simp_all add: algebra_simps)

text \<open>
  in the simulation, hedging changes the mean revenue by exactly the mean payoff less the
  premium: for any random stream with values in the unit interval, any strip that tiles a band and
  a smile with a positive at-the-money volatility, the three reported means are finite and satisfy
  that equation, and the mean payoff is not negative.
\<close>

theorem simulateHedgePnl_means:
  assumes "si_qBtc i = Fin q" "0 \<le> q" "si_spot i = Fin sp" "si_premiumUsd i = Fin prem"
    and "tiles q f t (si_strip i)" "0 < si_n i"
    and "sviImpliedVol 0 (si_svi i) (Math_max 1 (si_expiryMs i - now) / MS_PER_YEAR) = Fin v" "0 < v"
    and "\<forall>j. \<exists>x. rnd j = Fin x \<and> 0 \<le> x \<and> x \<le> 1"
  shows "\<exists>u h e. unhedgedMean (sim_summary (simulateHedgePnl rnd now i)) = Fin u
           \<and> hedgedMean (sim_summary (simulateHedgePnl rnd now i)) = Fin h
           \<and> expectedPayoffUsd (sim_summary (simulateHedgePnl rnd now i)) = Fin e
           \<and> h = u + e - prem \<and> 0 \<le> e \<and> length (samples (simulateHedgePnl rnd now i)) = si_n i"
proof -
  define tau where "tau = Math_max 1 (si_expiryMs i - now) / MS_PER_YEAR"
  from sviImpliedVol_positive [OF assms(7,8)] obtain ty where ty: "tau = Fin ty" "0 < ty"
    by (auto simp: tau_def)
  define zs where "zs j = sampleNormal (rnd (2 * j)) (rnd (2 * j + 1))" for j
  have "\<exists>z. zs j = Fin z" for j
    using assms(9) sampleNormal_finite unfolding zs_def by (metis (full_types))
  then obtain zf where zf: "\<And>j. zs j = Fin (zf j)" by metis
  have zj: "sampleNormal (rnd (2 * j)) (rnd (Suc (2 * j))) = Fin (zf j)" for j
    using zf [of j] by (simp add: zs_def)
  define ss where "ss = map (\<lambda>j. sp * exp (- 1 / 2 * v * v * ty + v * sqrt ty * zf j)) [0..<si_n i]"
  define pay where "pay s = (case settlement_payoff (si_strip i) (Fin s) of Fin p \<Rightarrow> p | _ \<Rightarrow> 0)" for s
  have pay: "settlement_payoff (si_strip i) (Fin s) = Fin (pay s)" "0 \<le> pay s" for s
    using payoff_finite [OF assms(5,2), of s] by (auto simp: pay_def)
  have smp: "map (\<lambda>j. let z = sampleNormal (rnd (2 * j)) (rnd (2 * j + 1))
      in si_spot i * Math_exp (Fin (- 1 / 2) * Fin v * Fin v * tau + Fin v * Math_sqrt tau * z)) [0..<si_n i] = map Fin ss"
    using ty by (simp add: ss_def zj Let_def assms(3))
  have unh: "map (\<lambda>s. si_qBtc i * s) (map Fin ss) = map Fin (map (\<lambda>s. q * s) ss)"
    by (simp add: assms(1))
  have hed: "map (\<lambda>s. si_qBtc i * s + settlement_payoff (si_strip i) s - si_premiumUsd i) (map Fin ss)
      = map Fin (map (\<lambda>s. q * s + pay s - prem) ss)"
    by (simp add: assms(1,4) pay)
  have ep: "map2 (\<lambda>h u. h - u + si_premiumUsd i) (map Fin (map (\<lambda>s. q * s + pay s - prem) ss)) (map Fin (map (\<lambda>s. q * s) ss))
      = map Fin (map pay ss)"
    by (simp add: assms(4) zip_map_map zip_same_conv_map comp_def)
  have len: "length ss = si_n i" by (simp add: ss_def)
  let ?N = "real (length ss)"
  have e0: "0 \<le> sum_list (map pay ss) / ?N"
    by (intro divide_nonneg_nonneg sum_list_nonneg) (auto simp: pay(2))
  have "?N \<noteq> 0" using assms(6) len by simp
  then have eq: "sum_list (map (\<lambda>s. q * s + pay s - prem) ss) / ?N
      = sum_list (map (\<lambda>s. q * s) ss) / ?N + sum_list (map pay ss) / ?N - prem"
    by (simp add: sum_list_affine diff_divide_distrib add_divide_distrib)
  have nb: "\<not> (\<not> isFinite (Fin v) \<or> Fin v \<le> 0)" using assms(8) by simp
  show ?thesis
    unfolding simulateHedgePnl_def Let_def tau_def [symmetric] assms(7) [folded tau_def]
      smp [unfolded Let_def] unh hed ep mean_Fin
    using nb e0 eq len by simp
qed

definition sample_simulation :: SimulationInputs where
  "sample_simulation = \<lparr>si_qBtc = Fin 2, si_spot = Fin 100, si_strip = [strip_range 2 85000000000 86000000000],
     si_svi = sample_svi, si_expiryMs = Fin 1000, si_premiumUsd = Fin 1, si_n = 3\<rparr>"

theorem simulateHedgePnl_means_witness:
  "\<exists>u h e. unhedgedMean (sim_summary (simulateHedgePnl (\<lambda>_. Fin 0) 0 sample_simulation)) = Fin u
           \<and> hedgedMean (sim_summary (simulateHedgePnl (\<lambda>_. Fin 0) 0 sample_simulation)) = Fin h
           \<and> expectedPayoffUsd (sim_summary (simulateHedgePnl (\<lambda>_. Fin 0) 0 sample_simulation)) = Fin e
           \<and> h = u + e - 1 \<and> 0 \<le> e
           \<and> length (samples (simulateHedgePnl (\<lambda>_. Fin 0) 0 sample_simulation)) = si_n sample_simulation"
proof -
  let ?tau = "1000 / (36525 / 100 * 24 * 3600 * 1000) :: real"
  have tau: "Math_max 1 (si_expiryMs sample_simulation - 0) / MS_PER_YEAR = Fin ?tau"
    by (simp add: sample_simulation_def MS_PER_YEAR_def)
  let ?w = "1000 / 10 ^ 9 + 500000 / 10 ^ 9 * (- (300000000 / 10 ^ 9) * (0 - 2000000 / 10 ^ 9)
      + sqrt ((0 - 2000000 / 10 ^ 9) * (0 - 2000000 / 10 ^ 9) + 4000000 / 10 ^ 9 * (4000000 / 10 ^ 9))) :: real"
  have w: "sviTotalVariance 0 (si_svi sample_simulation) = Fin ?w"
    by (simp add: sviTotalVariance_def sample_simulation_def sample_svi_def)
  have "0 \<le> - (300000000 / 10 ^ 9) * (0 - 2000000 / 10 ^ 9)
      + sqrt ((0 - 2000000 / 10 ^ 9) * (0 - 2000000 / 10 ^ 9) + 4000000 / 10 ^ 9 * (4000000 / 10 ^ 9) :: real)"
    by (rule abs_rho_bound) simp
  then have "0 < ?w" by (intro add_pos_nonneg mult_nonneg_nonneg) simp_all
  with w have "sviImpliedVol 0 (si_svi sample_simulation) (Fin ?tau) = Fin (sqrt (?w / ?tau)) \<and> 0 < sqrt (?w / ?tau)"
    by (intro sviImpliedVol_eq) simp_all
  then obtain v where v: "sviImpliedVol 0 (si_svi sample_simulation) (Math_max 1 (si_expiryMs sample_simulation - 0) / MS_PER_YEAR) = Fin v" "0 < v"
    unfolding tau by blast
  show ?thesis
    by (rule simulateHedgePnl_means [OF _ _ _ _ _ _ v, of 2 100 1 85000000000 86000000000])
      (simp_all add: sample_simulation_def strip_range_def)
qed

end
