(* ===== verification/Miner_Hedge.thy ===== *)
theory Miner_Hedge
  imports Hedge_Math Hashprice
begin

text \<open>
  Model of \<open>web/hooks/useMinerHedge.ts\<close>: the projection of a miner's revenue over the horizon of
  the soonest oracle, and the function that builds, prices, summarises and simulates a hedge for a
  choice of drop band. The results of the hooks it reads (miners, hashprice, oracles, oracle
  state) and the clock are the fields of \<open>hedge_env\<close>.
\<close>

section \<open>Revenue projection\<close>

record miner_entry =
  miner_address :: string
  estimatedHashrate :: "number option"

record hedge_env =
  env_address :: "string option"
  env_miners :: "miner_entry list"
  env_btcPrice :: "number option"
  env_hashprice :: "number option"
  env_oracles :: "PredictOracleSummary list option"
  env_state :: "PredictOracleState option"
  env_now :: number

record MinerRevenueProjection =
  mp_address :: "string option"
  hashrateThs :: number
  mp_btcPrice :: number
  hashpriceUsdPerThDay :: number
  mp_qBtc :: number
  expectedUsd :: number

definition MS_PER_DAY :: number where "MS_PER_DAY = 86400000"

definition first_oracle :: "hedge_env \<Rightarrow> PredictOracleSummary option" where
  "first_oracle e = (case env_oracles e of None \<Rightarrow> None | Some xs \<Rightarrow> index xs 0)"

definition revenue_projection :: "hedge_env \<Rightarrow> MinerRevenueProjection" where
  "revenue_projection e =
     (let miner = find (\<lambda>m. Some (miner_address m) = env_address e) (env_miners e);
          ths = (case miner of
                   Some m \<Rightarrow> (case estimatedHashrate m of Some h \<Rightarrow> h / Fin (10 ^ 12) | None \<Rightarrow> 0)
                 | None \<Rightarrow> 0);
          btc = (case env_btcPrice e of Some p \<Rightarrow> p | None \<Rightarrow> 0);
          hp = (case env_hashprice e of Some h \<Rightarrow> h | None \<Rightarrow> 0);
          expiryMs = (case first_oracle e of Some x \<Rightarrow> expiry x | None \<Rightarrow> env_now e);
          horizonMs = Math_max 0 (expiryMs - env_now e);
          horizonDays = horizonMs / MS_PER_DAY;
          expectedUsdDaily = ths * hp;
          expected = expectedUsdDaily * horizonDays
      in \<lparr>mp_address = env_address e, hashrateThs = ths, mp_btcPrice = btc, hashpriceUsdPerThDay = hp,
          mp_qBtc = (if 0 < btc then expected / btc else 0), expectedUsd = expected\<rparr>)"

section \<open>Building a hedge\<close>

definition env_spot :: "hedge_env \<Rightarrow> number" where
  "env_spot e =
     (case env_state e of
        Some st \<Rightarrow> (case latest_price st of Some p \<Rightarrow> strikeToUsd (JNum (pe_spot p)) | None \<Rightarrow> 0)
      | None \<Rightarrow> 0)"

definition env_forward :: "hedge_env \<Rightarrow> number" where
  "env_forward e =
     (case env_state e of
        Some st \<Rightarrow> (case latest_price st of Some p \<Rightarrow> strikeToUsd (JNum (pe_forward p)) | None \<Rightarrow> env_spot e)
      | None \<Rightarrow> env_spot e)"

definition env_expiry :: "hedge_env \<Rightarrow> number" where
  "env_expiry e = (case env_state e of Some st \<Rightarrow> expiry (st_oracle st) | None \<Rightarrow> 0)"

definition env_svi :: "hedge_env \<Rightarrow> PredictSviEvent option" where
  "env_svi e = (case env_state e of Some st \<Rightarrow> latest_svi st | None \<Rightarrow> None)"

definition suggestedBand :: "hedge_env \<Rightarrow> drop_band option" where
  "suggestedBand e =
     (case env_svi e of
        Some svi \<Rightarrow> if falsy (env_expiry e) then None else suggestDropBand svi (env_expiry e) (env_now e)
      | None \<Rightarrow> None)"

record HedgeBuild =
  hb_strip :: "HedgeRange list"
  hb_pricing :: StripPricing
  hb_summary :: "HedgeSummary option"
  hb_payoff :: "PayoffPoint list"
  hb_sim :: "SimulationResult option"

definition build_ready :: "hedge_env \<Rightarrow> bool" where
  "build_ready e = (env_state e \<noteq> None \<and> env_svi e \<noteq> None \<and> \<not> falsy (env_spot e))"

definition strip_inputs :: "hedge_env \<Rightarrow> PredictOracleState \<Rightarrow> number \<Rightarrow> number \<Rightarrow> HedgeStripInputs" where
  "strip_inputs e st lo hi =
     \<lparr>qBtc = mp_qBtc (revenue_projection e), spot = env_spot e, dropBandLo = lo, dropBandHi = hi,
      tickSizeRaw = tick_size (st_oracle st), minStrikeRaw = min_strike (st_oracle st)\<rparr>"

text \<open>
  The build function for a ready environment; \<open>None\<close> would mean that the strip loop does not end.
\<close>

definition build_hedge ::
  "(nat \<Rightarrow> number) \<Rightarrow> hedge_env \<Rightarrow> PredictOracleState \<Rightarrow> PredictSviEvent \<Rightarrow> number \<Rightarrow> number \<Rightarrow> HedgeBuild option"
where
  "build_hedge rnd e st svi lo hi =
     (case buildHedgeStrip (strip_inputs e st lo hi) of
        None \<Rightarrow> None
      | Some strip \<Rightarrow>
          if length strip = 0
          then Some \<lparr>hb_strip = [], hb_pricing = \<lparr>totalPremiumUsd = 0, perRangeUsd = []\<rparr>,
                     hb_summary = None, hb_payoff = [], hb_sim = None\<rparr>
          else let proj = revenue_projection e;
                   pricing = priceStripFromSvi strip svi (env_forward e) (env_expiry e) (env_now e);
                   premium = totalPremiumUsd pricing;
                   sim = simulateHedgePnl rnd (env_now e)
                           \<lparr>si_qBtc = mp_qBtc proj, si_spot = env_spot e, si_strip = strip, si_svi = svi,
                            si_expiryMs = env_expiry e, si_premiumUsd = premium, si_n = 10000\<rparr>;
                   sim1 = sim\<lparr>sim_summary := (sim_summary sim)\<lparr>fairValuePayoffUsd := premium\<rparr>\<rparr>
               in Some \<lparr>hb_strip = strip, hb_pricing = pricing,
                        hb_summary = summarizeHedge strip (mp_qBtc proj) (env_spot e) premium (expectedUsd proj),
                        hb_payoff = buildPayoffCurve strip (mp_qBtc proj) premium (env_spot e)
                                      (Fin (12 / 100)) (Fin (6 / 100)) 140,
                        hb_sim = Some sim1\<rparr>)"

section \<open>Properties\<close>

text \<open>
  the projected revenue is a thousand times the revenue the hashrate earns. The hashrate is
  converted to TH/s but multiplied by the hashprice of \<open>useHashprice\<close>, which is in dollars per
  PH/s and day; so for the hashprice derived from a price and a difficulty, the projection is 1000
  times the expected number of blocks of the miner in the horizon times the subsidy in dollars.
\<close>

theorem projected_revenue_thousandfold:
  assumes "env_address e = Some addr" "find (\<lambda>m. Some (miner_address m) = env_address e) (env_miners e) = Some mn"
    and "estimatedHashrate mn = Some (Fin h)"
    and "env_hashprice e = Some (hashprice (derive_hashprice (Fin p) sui (Fin n) stamp))" "0 < n"
    and "first_oracle e = Some x" "expiry x = Fin ex" "env_now e = Fin now" "now \<le> ex"
  shows "expectedUsd (revenue_projection e)
           = Fin (1000 * (h * ((ex - now) / 1000) / (n * 4294967296)) * (3125 / 1000 * p))"
proof -
  have hz: "Math_max 0 (expiry x - env_now e) / MS_PER_DAY = Fin ((ex - now) / 86400000)"
    using assms by (simp add: MS_PER_DAY_def max_def)
  have hp: "hashprice (derive_hashprice (Fin p) sui (Fin n) stamp) = Fin (270000 * p / (n * 4294967296 / 10 ^ 15))"
    using assms(5) by (simp add: derive_hashprice_finite)
  have "h / 10 ^ 12 * (270000 * p / (n * 4294967296 / 10 ^ 15)) * ((ex - now) / 86400000)
      = 1000 * (h * ((ex - now) / 1000) / (n * 4294967296)) * (3125 / 1000 * p)"
    using assms(5) by (simp add: field_simps)
  then show ?thesis
    using assms(2,3,4,6) hz hp by (simp add: revenue_projection_def Let_def del: power_numeral)
qed

definition sample_state :: PredictOracleState where
  "sample_state = \<lparr>st_oracle = sample_oracle ''active'' 1800000,
     latest_price = Some \<lparr>pe_oracle_id = ''o'', pe_spot = Fin 100000000000, pe_forward = Fin 100000000000,
       pe_onchain_timestamp = 0, checkpoint_timestamp_ms = 0\<rparr>,
     latest_svi = Some sample_svi\<rparr>"

definition sample_env :: hedge_env where
  "sample_env = \<lparr>env_address = Some ''a'',
     env_miners = [\<lparr>miner_address = ''a'', estimatedHashrate = Some (Fin (10 ^ 15))\<rparr>],
     env_btcPrice = Some (Fin 100000),
     env_hashprice = Some (hashprice (derive_hashprice (Fin 100000) 4 (Fin 125000000000000) ''now'')),
     env_oracles = Some [sample_oracle ''active'' 1800000], env_state = Some sample_state, env_now = Fin 0\<rparr>"

theorem projected_revenue_thousandfold_witness:
  "expectedUsd (revenue_projection sample_env)
     = Fin (1000 * (10 ^ 15 * ((1800000 - 0) / 1000) / (125000000000000 * 4294967296)) * (3125 / 1000 * 100000))"
  by (rule projected_revenue_thousandfold [of _ "''a''" "\<lparr>miner_address = ''a'', estimatedHashrate = Some (Fin (10 ^ 15))\<rparr>"
        _ _ 4 _ "''now''" "sample_oracle ''active'' 1800000"])
    (simp_all add: sample_env_def first_oracle_def index_def sample_oracle_def)

text \<open>
  building a hedge always returns, and what it returns is consistent: with a positive finite
  revenue and spot, and finite oracle data, a non-empty strip comes with one price per range, a
  summary whose premium is the total of those prices and lies between 0 and the protected amount,
  and a simulation marked at that premium.
\<close>

theorem build_hedge_consistent:
  assumes "mp_qBtc (revenue_projection e) = Fin q" "env_spot e = Fin s" "0 < s"
    and "lo = Fin l" "hi = Fin h" "tick_size (st_oracle st) = Fin k" "0 < k" "min_strike (st_oracle st) = Fin ms" "0 < ms"
  shows "\<exists>b. build_hedge rnd e st svi lo hi = Some b
      \<and> (hb_strip b = [] \<longrightarrow> hb_summary b = None \<and> hb_sim b = None)
      \<and> (hb_strip b \<noteq> [] \<longrightarrow>
           (\<exists>sm sim p m. hb_summary b = Some sm \<and> hb_sim b = Some sim
              \<and> length (perRangeUsd (hb_pricing b)) = length (hb_strip b)
              \<and> totalPremiumUsd (hb_pricing b) = Fin p \<and> premiumUsd sm = Fin p
              \<and> maxProtectedUsd sm = Fin m \<and> 0 \<le> p \<and> p \<le> m
              \<and> fairValuePayoffUsd (sim_summary sim) = Fin p))"
proof -
  let ?i = "strip_inputs e st lo hi"
  obtain strip where strip: "buildHedgeStrip ?i = Some strip" using buildHedgeStrip_total by blast
  show ?thesis
  proof (cases "strip = []")
    case True
    then show ?thesis using strip by (simp add: build_hedge_def)
  next
    case False
    have inp: "qBtc ?i = Fin q" "spot ?i = Fin s" "dropBandLo ?i = Fin l" "dropBandHi ?i = Fin h"
      "tickSizeRaw ?i = Fin k" "minStrikeRaw ?i = Fin ms"
      using assms by (simp_all add: strip_inputs_def)
    obtain t f where tf: "strip_top ?i = Fin t" "strip_floor ?i = Fin f" "ms \<le> f"
      using inp assms(7) by (auto simp: strip_top_def strip_floor_def Let_def usdToStrike_def spotToTick_def STRIKE_SCALAR_def)
    have guards: "0 < q" "0 \<le> l" "l < h" "f < t"
      using False strip inp tf by (auto simp: buildHedgeStrip_def Let_def split: if_splits)
    then have tl: "tiles q f t strip"
      using buildHedgeStrip_tiles [OF inp(1) guards(1) inp(2) assms(3) inp(3,4) guards(2,3) inp(5) assms(7) tf(1,2) guards(4)]
        strip by auto
    have "0 < t" using guards(4) tf(3) assms(9) by linarith
    obtain p m where pm: "totalPremiumUsd (priceStripFromSvi strip svi (env_forward e) (env_expiry e) (env_now e)) = Fin p"
      "sum_num quantity strip = Fin m" "0 \<le> p" "p \<le> m"
      "length (perRangeUsd (priceStripFromSvi strip svi (env_forward e) (env_expiry e) (env_now e))) = length strip"
      using premium_bounds [OF tl, of svi "env_forward e" "env_expiry e" "env_now e"] guards(1) by auto
    obtain sm where sm: "summarizeHedge strip (Fin q) (Fin s) (Fin p) (expectedUsd (revenue_projection e)) = Some sm"
      using summarizeHedge_tiles [OF tl False guards(1) assms(3) \<open>0 < t\<close>] by blast
    then have "premiumUsd sm = Fin p" "maxProtectedUsd sm = Fin m"
      using pm(2) by (auto simp: summarizeHedge_def Let_def split: if_splits)
    then show ?thesis
      using strip False sm pm assms(1,2) by (simp add: build_hedge_def Let_def)
  qed
qed

lemma sample_qBtc: "mp_qBtc (revenue_projection sample_env) = Fin (703125 / 67108864)"
  by (simp add: revenue_projection_def sample_env_def first_oracle_def index_def sample_oracle_def Let_def
        MS_PER_DAY_def derive_hashprice_finite)

theorem build_hedge_consistent_witness:
  "\<exists>b. build_hedge (\<lambda>_. Fin 0) sample_env sample_state sample_svi (Fin 0) (Fin (15 / 100)) = Some b
      \<and> (hb_strip b = [] \<longrightarrow> hb_summary b = None \<and> hb_sim b = None)
      \<and> (hb_strip b \<noteq> [] \<longrightarrow>
           (\<exists>sm sim p m. hb_summary b = Some sm \<and> hb_sim b = Some sim
              \<and> length (perRangeUsd (hb_pricing b)) = length (hb_strip b)
              \<and> totalPremiumUsd (hb_pricing b) = Fin p \<and> premiumUsd sm = Fin p
              \<and> maxProtectedUsd sm = Fin m \<and> 0 \<le> p \<and> p \<le> m
              \<and> fairValuePayoffUsd (sim_summary sim) = Fin p))"
proof -
  obtain q where q: "mp_qBtc (revenue_projection sample_env) = Fin q" using sample_qBtc by blast
  have s: "env_spot sample_env = Fin 100"
    by (simp add: env_spot_def sample_env_def sample_state_def)
  show ?thesis
    by (rule build_hedge_consistent [OF q s, of _ 0 _ "15 / 100" _ 1000000000 1000000000])
      (simp_all add: sample_state_def sample_oracle_def)
qed

end
