(* ===== verification/Amounts.thy ===== *)
theory Amounts
  imports Js_Prelude
begin

text \<open>
  Model of the amount formatting and parsing in \<open>web/lib/quote-format.ts\<close> and
  \<open>web/lib/otc-ticket.ts\<close>, and of the quote token tables of \<open>web/lib/quote-tokens.ts\<close>. Base-unit
  amounts are bigints, so they are integers here. What a caller relies on, that a displayed
  amount parses back to itself, is the locale \<open>amount_codec\<close>, interpreted for both pairs of
  functions.
\<close>

section \<open>Quote tokens\<close>

datatype routing = M1n3Market | DeepBook | Predict

record QuoteToken =
  symbol :: string
  coin_type :: string
  decimals :: nat
  route :: routing
  quote_note :: string

record DeepBookConfig =
  db_packageId :: string
  db_registryId :: string
  db_deepTreasuryId :: string

definition dot_note :: "string \<Rightarrow> string \<Rightarrow> string" where
  "dot_note a b = a @ '' '' @ [CHR 0xB7] @ '' '' @ b"

definition MAINNET_QUOTES :: "QuoteToken list" where
  "MAINNET_QUOTES =
     [\<lparr>symbol = ''USDC'',
       coin_type = ''0xdba34672e30cb065b1f93e3ab55318768fd6fef66c15942c9f7cb846e2f900e7::usdc::USDC'',
       decimals = 6, route = M1n3Market, quote_note = dot_note ''native'' ''live''\<rparr>,
      \<lparr>symbol = ''SUI'',
       coin_type = ''0x0000000000000000000000000000000000000000000000000000000000000002::sui::SUI'',
       decimals = 9, route = DeepBook, quote_note = ''via DeepBookV3''\<rparr>,
      \<lparr>symbol = ''DEEP'',
       coin_type = ''0xdeeb7a4662eec9f2f3def03fb937a663dddaa2e215b8078a284d026b7946c270::deep::DEEP'',
       decimals = 6, route = DeepBook, quote_note = ''via DeepBookV3''\<rparr>,
      \<lparr>symbol = ''ETH'',
       coin_type = ''0xd0e89b2af5e4910726fbcd8b8dd37bb79b29e5f83f7491bca830e94f7f226d29::eth::ETH'',
       decimals = 8, route = DeepBook, quote_note = ''via DeepBookV3''\<rparr>,
      \<lparr>symbol = ''WAL'',
       coin_type = ''0x356a26eb9e012a68958082340d4c4116e7f55615cf27affcff209cf0ae544f59::wal::WAL'',
       decimals = 9, route = DeepBook, quote_note = ''via DeepBookV3''\<rparr>,
      \<lparr>symbol = ''IKA'',
       coin_type = ''0x7262fb2f7a3a14c888c438a3cd9b912469a58cf60f367352c46584262e8299aa::ika::IKA'',
       decimals = 9, route = DeepBook, quote_note = ''via DeepBookV3''\<rparr>]"

definition TESTNET_QUOTES :: "QuoteToken list" where
  "TESTNET_QUOTES =
     [\<lparr>symbol = ''SUI'',
       coin_type = ''0x0000000000000000000000000000000000000000000000000000000000000002::sui::SUI'',
       decimals = 9, route = M1n3Market, quote_note = dot_note ''native'' ''live''\<rparr>,
      \<lparr>symbol = ''USDC'',
       coin_type = ''0xa1ec7fc00a6f40db9693ad1415d0c193ad3906494428cf252621037bd7117e29::usdc::USDC'',
       decimals = 6, route = DeepBook, quote_note = dot_note ''Circle'' ''official''\<rparr>,
      \<lparr>symbol = ''DBUSDC'',
       coin_type = ''0xf7152c05930480cd740d7311b5b8b45c6f488e3a53a11c3f74a6fac36a52e0d7::DBUSDC::DBUSDC'',
       decimals = 6, route = DeepBook, quote_note = ''DeepBook USDC''\<rparr>,
      \<lparr>symbol = ''DBTC'',
       coin_type = ''0x6502dae813dbe5e42643c119a6450a518481f03063febc7e20238e43b6ea9e86::dbtc::DBTC'',
       decimals = 8, route = DeepBook, quote_note = ''DeepBook BTC''\<rparr>,
      \<lparr>symbol = ''DBUSDT'',
       coin_type = ''0xf7152c05930480cd740d7311b5b8b45c6f488e3a53a11c3f74a6fac36a52e0d7::DBUSDT::DBUSDT'',
       decimals = 6, route = DeepBook, quote_note = ''DeepBook USDT''\<rparr>,
      \<lparr>symbol = ''DEEP'',
       coin_type = ''0x36dbef866a1d62bf7328989a10fb2f07d769f4ee587c0de4a0a256e57e0a58a8::deep::DEEP'',
       decimals = 6, route = DeepBook, quote_note = ''DeepBook native''\<rparr>,
      \<lparr>symbol = ''WAL'',
       coin_type = ''0x9ef7676a9f81937a52ae4b2af8d511a28a0b080477c0c2db40b0ab8882240d76::wal::WAL'',
       decimals = 9, route = DeepBook, quote_note = ''Walrus''\<rparr>,
      \<lparr>symbol = ''DUSDC'',
       coin_type = ''0xe95040085976bfd54a1a07225cd46c8a2b4e8e2b6732f140a0fc49850ba73e1a::dusdc::DUSDC'',
       decimals = 6, route = Predict, quote_note = ''Predict quote''\<rparr>]"

definition DEVNET_QUOTES :: "QuoteToken list" where
  "DEVNET_QUOTES =
     [\<lparr>symbol = ''SUI'',
       coin_type = ''0x0000000000000000000000000000000000000000000000000000000000000002::sui::SUI'',
       decimals = 9, route = M1n3Market, quote_note = dot_note ''native'' ''live''\<rparr>]"

definition ALL_QUOTES :: "string \<Rightarrow> QuoteToken list" where
  "ALL_QUOTES network =
     (if network = ''mainnet'' then MAINNET_QUOTES
      else if network = ''testnet'' then TESTNET_QUOTES else DEVNET_QUOTES)"

definition QUOTE_TOKENS :: "string \<Rightarrow> QuoteToken list" where
  "QUOTE_TOKENS network = filter (\<lambda>t. route t \<noteq> Predict) (ALL_QUOTES network)"

definition findQuoteToken :: "string \<Rightarrow> string \<Rightarrow> QuoteToken option" where
  "findQuoteToken network wanted = find (\<lambda>t. symbol t = wanted) (ALL_QUOTES network)"

definition activeNetwork :: "string \<Rightarrow> string" where
  "activeNetwork SUI_NETWORK = (if SUI_NETWORK = [] then ''devnet'' else SUI_NETWORK)"

definition DEEPBOOK_V3 :: "string \<Rightarrow> DeepBookConfig option" where
  "DEEPBOOK_V3 network =
     (if network = ''mainnet''
      then Some \<lparr>db_packageId = ''0x337f4f4f6567fcd778d5454f27c16c70e2f274cc6377ea6249ddf491482ef497'',
                 db_registryId = ''0xaf16199a2dff736e9f07a845f23c5da6df6f756eddb631aed9d24a93efc4549d'',
                 db_deepTreasuryId = ''0x032abf8948dda67a271bcc18e776dbbcfb0d58c8d288a700ff0d5521e57a1ffe''\<rparr>
      else if network = ''testnet''
      then Some \<lparr>db_packageId = ''0x22be4cade64bf2d02412c7e8d0e8beea2f78828b948118d46735315409371a3c'',
                 db_registryId = ''0x7c256edbda983a2cd6f946655f4bf3f00a41043993781f8674a7046e8c0e11d1'',
                 db_deepTreasuryId = ''0x69fffdae0075f8f71f4fa793549c11079266910e8905169845af1f5d00e09dcb''\<rparr>
      else None)"

definition activeDeepBookConfig :: "string \<Rightarrow> DeepBookConfig option" where
  "activeDeepBookConfig SUI_NETWORK = DEEPBOOK_V3 (activeNetwork SUI_NETWORK)"

section \<open>Formatting\<close>

definition strip_zeros :: "string \<Rightarrow> string" where
  "strip_zeros s = rev (dropWhile (\<lambda>c. c = CHR ''0'') (rev s))"

definition baseUnitLabel :: "QuoteToken \<Rightarrow> string" where
  "baseUnitLabel quote =
     (if symbol quote = ''SUI'' then ''MIST''
      else if decimals quote = 6 then [CHR 0xB5] @ symbol quote
      else if decimals quote = 9 then ''n'' @ symbol quote
      else symbol quote @ ''@10^-'' @ to_radix 10 (decimals quote))"

definition formatPriceInQuote :: "int \<Rightarrow> QuoteToken \<Rightarrow> string" where
  "formatPriceInQuote priceBaseUnits quote =
     (let dec = decimals quote in
      if dec = 0 then int_to_string priceBaseUnits @ '' '' @ symbol quote
      else let factor = 10 ^ dec;
               whole = bigint_div priceBaseUnits factor;
               fracPart = bigint_mod priceBaseUnits factor in
      if fracPart = 0 then int_to_string whole @ '' '' @ symbol quote
      else let fracPadded = strip_zeros (padStart dec CHR ''0'' (int_to_string fracPart))
           in int_to_string whole @ ''.'' @ fracPadded @ '' '' @ symbol quote)"

definition formatAmount :: "int \<Rightarrow> nat \<Rightarrow> string" where
  "formatAmount v dec =
     (if dec = 0 then int_to_string v
      else let factor = 10 ^ dec;
               whole = bigint_div v factor;
               fracPart = bigint_mod v factor;
               fracStr = strip_zeros (padStart dec CHR ''0'' (int_to_string fracPart))
           in if fracStr \<noteq> [] then int_to_string whole @ ''.'' @ fracStr else int_to_string whole)"

text \<open>\<open>formatAmount\<close> of a string, which throws when the string is not a bigint.\<close>

definition formatAmountStr :: "string \<Rightarrow> nat \<Rightarrow> string option" where
  "formatAmountStr raw dec = map_option (\<lambda>v. formatAmount v dec) (BigInt_str raw)"

section \<open>Parsing\<close>

text \<open>\<open>/^\d*\.?\d*$/\<close>\<close>

definition re_decimal :: "string \<Rightarrow> bool" where
  "re_decimal s =
     (case dropWhile (is_digit 10) s of
        [] \<Rightarrow> True
      | c # t \<Rightarrow> c = CHR ''.'' \<and> list_all (is_digit 10) t)"

definition is_dot :: "char \<Rightarrow> bool" where
  "is_dot c = (c = CHR ''.'')"

text \<open>\<open>const [whole, fracPart = ""] = s.split(".")\<close>: what follows a second point is dropped.\<close>

definition split_decimal :: "string \<Rightarrow> string \<times> string" where
  "split_decimal s =
     (case split_at is_dot s of
        (a, None) \<Rightarrow> (a, [])
      | (a, Some b) \<Rightarrow> (a, fst (split_at is_dot b)))"

definition parseQuoteAmount :: "string \<Rightarrow> QuoteToken \<Rightarrow> int option" where
  "parseQuoteAmount decimalString quote =
     (let trimmed = trim decimalString in
      if trimmed = [] \<or> trimmed = ''.'' then None
      else if \<not> re_decimal trimmed then None
      else case split_decimal trimmed of (wholeRaw, fracRaw) \<Rightarrow>
        if length fracRaw > decimals quote then None
        else let whole = (if wholeRaw = [] then ''0'' else wholeRaw);
                 fracPadded = padEnd (decimals quote) CHR ''0'' fracRaw
             in BigInt_str (whole @ fracPadded))"

text \<open>\<open>replace(/^0+(?=\d)/, "")\<close>: leading zeros go as long as a digit follows.\<close>

fun strip_leading :: "string \<Rightarrow> string" where
  "strip_leading (c # d # s) =
     (if c = CHR ''0'' \<and> is_digit 10 d then strip_leading (d # s) else c # d # s)"
| "strip_leading s = s"

definition parseAmount :: "string \<Rightarrow> nat \<Rightarrow> int option" where
  "parseAmount decStr dec =
     (case split_decimal decStr of (whole, fracPart) \<Rightarrow>
        let padded = take dec (fracPart @ replicate dec CHR ''0'');
            al = strip_leading (whole @ padded)
        in BigInt_str (if al = [] then ''0'' else al))"

section \<open>Digits of an amount\<close>

lemma to_radix_all_digits: "all_digits (to_radix 10 n)"
  using to_radix_digits [of 10 n] by (simp add: all_digits_def list_all_iff)

lemma list_all_to_radix [simp]: "list_all (is_digit 10) (to_radix 10 n)"
  using to_radix_all_digits by (simp add: all_digits_def)

lemma is_digit_0 [simp]: "is_digit 10 CHR ''0''"
  by (simp add: is_digit_def)

lemma list_all_zeros [simp]: "list_all (is_digit 10) (replicate n CHR ''0'')"
  by (simp add: list_all_iff)

lemma digits_not_dot: "list_all (is_digit 10) s \<Longrightarrow> s \<noteq> ''.''"
  using digit_not_letter [of "CHR ''.''"] by auto

lemma list_all_padStart [simp]: "list_all (is_digit 10) s \<Longrightarrow> list_all (is_digit 10) (padStart n CHR ''0'' s)"
  by (auto simp: padStart_def list_all_iff)

lemma list_all_strip_zeros: "list_all P s \<Longrightarrow> list_all P (strip_zeros s)"
  by (auto simp: strip_zeros_def list_all_iff dest: set_dropWhileD)

lemma strip_zeros_snoc: "strip_zeros (s @ [c]) = (if c = CHR ''0'' then strip_zeros s else s @ [c])"
  by (simp add: strip_zeros_def)

lemma length_strip_zeros_le: "length (strip_zeros s) \<le> length s"
  by (metis strip_zeros_def length_dropWhile_le length_rev)

lemma strip_zeros_pad: "strip_zeros s @ replicate (length s - length (strip_zeros s)) CHR ''0'' = s"
proof (induction s rule: rev_induct)
  case Nil
  show ?case by (simp add: strip_zeros_def)
next
  case (snoc c s)
  show ?case
  proof (cases "c = CHR ''0''")
    case True
    have "Suc (length s) - length (strip_zeros s) = Suc (length s - length (strip_zeros s))"
      using length_strip_zeros_le [of s] by simp
    then have "strip_zeros (s @ [c]) @ replicate (length (s @ [c]) - length (strip_zeros (s @ [c]))) CHR ''0''
        = (strip_zeros s @ replicate (length s - length (strip_zeros s)) CHR ''0'') @ [c]"
      using True by (simp add: strip_zeros_snoc replicate_append_same)
    then show ?thesis using snoc by simp
  next
    case False
    then show ?thesis by (simp add: strip_zeros_snoc)
  qed
qed

lemma take_strip_zeros:
  assumes "length s = d"
  shows "take d (strip_zeros s @ replicate d CHR ''0'') = s"
proof -
  let ?k = "d - length (strip_zeros s)"
  have "take d (strip_zeros s @ replicate d CHR ''0'') = strip_zeros s @ replicate ?k CHR ''0''"
    using length_strip_zeros_le [of s] assms by simp
  then show ?thesis using strip_zeros_pad [of s] assms by simp
qed

lemma padEnd_strip_zeros: "length s = d \<Longrightarrow> padEnd d CHR ''0'' (strip_zeros s) = s"
  using strip_zeros_pad [of s] by (simp add: padEnd_def)

lemma strip_zeros_eq_Nil:
  assumes "list_all (is_digit 10) s"
  shows "strip_zeros s = [] \<longleftrightarrow> digits_val 10 s = 0"
proof
  assume "strip_zeros s = []"
  then have "s = replicate (length s) CHR ''0''" using strip_zeros_pad [of s] by simp
  then show "digits_val 10 s = 0" by (metis digits_val_zeros)
next
  assume "digits_val 10 s = 0"
  then show "strip_zeros s = []"
    using assms
  proof (induction s rule: rev_induct)
    case Nil
    show ?case by (simp add: strip_zeros_def)
  next
    case (snoc c s)
    obtain d where d: "digit_val c = Some d" using snoc.prems(2) by (auto simp: is_digit_def split: option.splits)
    with snoc.prems have "d = 0" "digits_val 10 s = 0" by simp_all
    moreover have "c = CHR ''0''"
    proof -
      have "of_char c = (48 :: nat)"
        using d \<open>d = 0\<close> snoc.prems(2) by (auto simp: char_defs Let_def split: if_splits)
      then show ?thesis by (metis char_of_char digit_char_def digit_char_zero add_0_right zero_less_numeral)
    qed
    ultimately show ?case using snoc by (simp add: strip_zeros_snoc)
  qed
qed

definition frac_digits :: "nat \<Rightarrow> nat \<Rightarrow> string" where
  "frac_digits n d = padStart d CHR ''0'' (to_radix 10 (n mod 10 ^ d))"

lemma frac_digits:
  assumes "0 < d"
  shows "length (frac_digits n d) = d" "list_all (is_digit 10) (frac_digits n d)"
    "digits_val 10 (frac_digits n d) = n mod 10 ^ d"
proof -
  have "length (to_radix 10 (n mod 10 ^ d)) \<le> d"
    using assms by (intro length_to_radix_le) simp_all
  then show "length (frac_digits n d) = d" by (simp add: frac_digits_def)
qed (simp_all add: frac_digits_def)

lemma bigint_parts:
  "bigint_div (int n) (10 ^ d) = int (n div 10 ^ d)" "bigint_mod (int n) (10 ^ d) = int (n mod 10 ^ d)"
  by (simp_all add: zdiv_int zmod_int)

lemma formatAmount_nat:
  assumes "0 < d"
  shows "formatAmount (int n) d =
    (if n mod 10 ^ d = 0 then to_radix 10 (n div 10 ^ d)
     else to_radix 10 (n div 10 ^ d) @ ''.'' @ strip_zeros (frac_digits n d))"
  unfolding formatAmount_def Let_def bigint_parts int_to_string_nat frac_digits_def [symmetric]
  using assms strip_zeros_eq_Nil [OF frac_digits(2) [OF assms, of n]] frac_digits(3) [OF assms, of n]
  by simp

section \<open>Splitting and parsing\<close>

lemma digits_no_dot: "list_all (is_digit 10) s \<Longrightarrow> takeWhile (\<lambda>c. \<not> is_dot c) s = s"
  using digit_not_letter by (auto simp: takeWhile_eq_all_conv list_all_iff is_dot_def)

lemma split_decimal_whole: "list_all (is_digit 10) s \<Longrightarrow> split_decimal s = (s, [])"
  by (simp add: split_decimal_def split_at_def digits_no_dot)

lemma split_decimal_dot:
  assumes "list_all (is_digit 10) a" "list_all (is_digit 10) b"
  shows "split_decimal (a @ ''.'' @ b) = (a, b)"
proof -
  have "takeWhile (\<lambda>c. \<not> is_dot c) (a @ ''.'' @ b) = a"
    using digits_no_dot [OF assms(1)] by (simp add: takeWhile_append is_dot_def takeWhile_eq_all_conv)
  then show ?thesis using digits_no_dot [OF assms(2)] by (simp add: split_decimal_def split_at_def Let_def)
qed

lemma strip_leading_digits:
  assumes "list_all (is_digit 10) s" "s \<noteq> []"
  shows "strip_leading s \<noteq> [] \<and> list_all (is_digit 10) (strip_leading s)
    \<and> digits_val 10 (strip_leading s) = digits_val 10 s"
  using assms by (induction s rule: strip_leading.induct) (auto simp: digits_val_Cons)

lemma BigInt_digits:
  "list_all (is_digit 10) s \<Longrightarrow> s \<noteq> [] \<Longrightarrow> BigInt_str s = Some (int (digits_val 10 s))"
  by (rule BigInt_str_digits) (simp add: all_digits_def)

lemma digits_val_parts:
  "length f = d \<Longrightarrow> digits_val 10 f = n mod 10 ^ d \<Longrightarrow> digits_val 10 (to_radix 10 (n div 10 ^ d) @ f) = n"
  using div_mult_mod_eq [of n "10 ^ d"] by (simp add: digits_val_append)

lemma parseAmount_parts:
  assumes "split_decimal s = (w, f)" "list_all (is_digit 10) w" "w \<noteq> []"
    and "take d (f @ replicate d CHR ''0'') = g" "list_all (is_digit 10) g"
  shows "parseAmount s d = Some (int (digits_val 10 (w @ g)))"
proof -
  have "list_all (is_digit 10) (w @ g)" "w @ g \<noteq> []" using assms by simp_all
  from strip_leading_digits [OF this] show ?thesis
    using assms BigInt_digits [of "strip_leading (w @ g)"] by (simp add: parseAmount_def Let_def)
qed

lemma parseQuoteAmount_parts:
  assumes "trim s = s" "re_decimal s" "split_decimal s = (w, f)" "w \<noteq> []" "list_all (is_digit 10) w"
    and "length f \<le> decimals q" "padEnd (decimals q) CHR ''0'' f = g" "list_all (is_digit 10) g" "s \<noteq> ''.''" "s \<noteq> []"
  shows "parseQuoteAmount s q = Some (int (digits_val 10 (w @ g)))"
  using assms BigInt_digits [of "w @ g"] by (simp add: parseQuoteAmount_def Let_def)

lemma trim_digits_dot:
  assumes "list_all (is_digit 10) a" "a \<noteq> []" "list_all (is_digit 10) b"
  shows "trim (a @ ''.'' @ b) = a @ ''.'' @ b"
proof -
  have no: "\<forall>c \<in> set (a @ ''.'' @ b). \<not> js_space c"
    using assms is_digit_not_space by (auto simp: list_all_iff js_space_def)
  have drop: "dropWhile js_space t = t" if "\<forall>c \<in> set t. \<not> js_space c" for t
    using that by (cases t) auto
  have "dropWhile js_space (rev (a @ ''.'' @ b)) = rev (a @ ''.'' @ b)"
    by (rule drop) (use no in auto)
  then show ?thesis unfolding trim_def drop [OF no] by (simp only: rev_rev_ident)
qed

lemma re_decimal_digits: "list_all (is_digit 10) a \<Longrightarrow> re_decimal a"
proof -
  assume "list_all (is_digit 10) a"
  then have d: "dropWhile (is_digit 10) a = []" by (simp add: list_all_iff dropWhile_eq_Nil_conv)
  show ?thesis unfolding re_decimal_def d by simp
qed

lemma re_decimal_dot:
  assumes "list_all (is_digit 10) a" "list_all (is_digit 10) b"
  shows "re_decimal (a @ ''.'' @ b)"
proof -
  have "dropWhile (is_digit 10) (a @ ''.'' @ b) = ''.'' @ b"
    using assms by (simp add: dropWhile_append list_all_iff dropWhile_eq_Nil_conv)
      (simp add: char_defs)
  then show ?thesis using assms by (simp add: re_decimal_def)
qed

section \<open>The codec interface\<close>

text \<open>
  What the order and escrow forms need of a pair of functions that show and read an amount:
  every displayed amount is read back.
\<close>

locale amount_codec =
  fixes show_amount :: "nat \<Rightarrow> string"
    and read_amount :: "string \<Rightarrow> int option"
  assumes read_show: "read_amount (show_amount n) = Some (int n)"
begin

lemma show_inj: "show_amount m = show_amount n \<longleftrightarrow> m = n"
  by (metis of_nat_eq_iff option.inject read_show)

lemma read_show_iff: "read_amount (show_amount n) = Some v \<longleftrightarrow> v = int n"
  by (auto simp: read_show)

end

lemma parseAmount_formatAmount: "parseAmount (formatAmount (int n) d) d = Some (int n)"
proof (cases "d = 0")
  case True
  have "parseAmount (to_radix 10 n) 0 = Some (int (digits_val 10 (to_radix 10 n @ [])))"
    by (rule parseAmount_parts [OF split_decimal_whole]) simp_all
  then show ?thesis using True by (simp add: formatAmount_def)
next
  case False
  then have d: "0 < d" by simp
  note fd = frac_digits [OF d, of n]
  show ?thesis
  proof (cases "n mod 10 ^ d = 0")
    case True
    then have "parseAmount (formatAmount (int n) d) d
        = Some (int (digits_val 10 (to_radix 10 (n div 10 ^ d) @ replicate d CHR ''0'')))"
      unfolding formatAmount_nat [OF d] if_P [OF True]
      by (intro parseAmount_parts [OF split_decimal_whole]) simp_all
    moreover have "digits_val 10 (to_radix 10 (n div 10 ^ d) @ replicate d CHR ''0'') = n"
      using True by (intro digits_val_parts) simp_all
    ultimately show ?thesis by simp
  next
    case False
    have "parseAmount (formatAmount (int n) d) d = Some (int (digits_val 10 (to_radix 10 (n div 10 ^ d) @ frac_digits n d)))"
      unfolding formatAmount_nat [OF d] if_not_P [OF False]
      by (rule parseAmount_parts [OF split_decimal_dot _ _ take_strip_zeros [OF fd(1)]])
        (simp_all add: list_all_strip_zeros fd)
    then show ?thesis using digits_val_parts [OF fd(1,3)] by simp
  qed
qed

lemma parseQuoteAmount_formatAmount:
  "parseQuoteAmount (formatAmount (int n) (decimals q)) q = Some (int n)"
proof (cases "decimals q = 0")
  case True
  have "parseQuoteAmount (to_radix 10 n) q = Some (int (digits_val 10 (to_radix 10 n @ [])))"
    by (rule parseQuoteAmount_parts [OF _ _ split_decimal_whole])
      (simp_all add: True trim_digits [of 10] re_decimal_digits padEnd_def digits_not_dot)
  then show ?thesis using True by (simp add: formatAmount_def)
next
  case False
  then have d: "0 < decimals q" by simp
  let ?d = "decimals q" and ?w = "to_radix 10 (n div 10 ^ decimals q)"
  note fd = frac_digits [OF d, of n]
  have dot: "?w \<noteq> ''.''" by (rule digits_not_dot) simp
  show ?thesis
  proof (cases "n mod 10 ^ ?d = 0")
    case True
    then have "parseQuoteAmount (formatAmount (int n) ?d) q = Some (int (digits_val 10 (?w @ replicate ?d CHR ''0'')))"
      unfolding formatAmount_nat [OF d] if_P [OF True]
      by (intro parseQuoteAmount_parts [OF _ _ split_decimal_whole])
        (simp_all add: trim_digits [of 10] re_decimal_digits padEnd_def dot)
    moreover have "digits_val 10 (?w @ replicate ?d CHR ''0'') = n"
      using True by (intro digits_val_parts) simp_all
    ultimately show ?thesis by simp
  next
    case False
    have sz: "list_all (is_digit 10) (strip_zeros (frac_digits n ?d))" by (simp add: list_all_strip_zeros fd)
    have "parseQuoteAmount (?w @ ''.'' @ strip_zeros (frac_digits n ?d)) q
        = Some (int (digits_val 10 (?w @ frac_digits n ?d)))"
    proof (rule parseQuoteAmount_parts)
      show "trim (?w @ ''.'' @ strip_zeros (frac_digits n ?d)) = ?w @ ''.'' @ strip_zeros (frac_digits n ?d)"
        by (rule trim_digits_dot) (simp_all add: sz)
      show "re_decimal (?w @ ''.'' @ strip_zeros (frac_digits n ?d))"
        by (rule re_decimal_dot) (simp_all add: sz)
      show "split_decimal (?w @ ''.'' @ strip_zeros (frac_digits n ?d)) = (?w, strip_zeros (frac_digits n ?d))"
        by (rule split_decimal_dot) (simp_all add: sz)
      show "length (strip_zeros (frac_digits n ?d)) \<le> ?d"
        using length_strip_zeros_le [of "frac_digits n ?d"] fd(1) by simp
      show "padEnd ?d CHR ''0'' (strip_zeros (frac_digits n ?d)) = frac_digits n ?d"
        by (rule padEnd_strip_zeros [OF fd(1)])
    qed (simp_all add: fd append_eq_Cons_conv)
    then show ?thesis
      unfolding formatAmount_nat [OF d] if_not_P [OF False] using digits_val_parts [OF fd(1,3)] by simp
  qed
qed

interpretation otc: amount_codec "\<lambda>n. formatAmount (int n) d" "\<lambda>s. parseAmount s d" for d
  by unfold_locales (rule parseAmount_formatAmount)

interpretation quote: amount_codec "\<lambda>n. formatAmount (int n) (decimals q)" "\<lambda>s. parseQuoteAmount s q" for q
  by unfold_locales (rule parseQuoteAmount_formatAmount)

section \<open>Properties\<close>

text \<open>
  C30: an amount in base units survives display and entry. Whatever the number of decimals, the
  text \<open>formatAmount\<close> shows is read back by \<open>parseAmount\<close> as the same amount, and by
  \<open>parseQuoteAmount\<close> for a token of that many decimals; so two different amounts are never shown
  as the same text.
\<close>

theorem amount_display_roundtrip:
  "parseAmount (formatAmount (int n) (decimals q)) (decimals q) = Some (int n)
   \<and> parseQuoteAmount (formatAmount (int n) (decimals q)) q = Some (int n)
   \<and> (formatAmount (int m) (decimals q) = formatAmount (int n) (decimals q) \<longleftrightarrow> m = n)"
  by (simp add: otc.read_show quote.read_show otc.show_inj)

lemma strip_zeros_zero: "strip_zeros (padStart d CHR ''0'' (int_to_string 0)) = []"
  by (simp add: strip_zeros_eq_Nil int_to_string_def)

lemma frac_string_nonempty:
  assumes "r \<noteq> 0"
  shows "strip_zeros (padStart d CHR ''0'' (int_to_string r)) \<noteq> []"
proof
  assume "strip_zeros (padStart d CHR ''0'' (int_to_string r)) = []"
  then have z: "padStart d CHR ''0'' (int_to_string r) = replicate (max d (length (int_to_string r))) CHR ''0''"
    using strip_zeros_pad [of "padStart d CHR ''0'' (int_to_string r)"] by simp
  have sub: "set (int_to_string r) \<subseteq> {CHR ''0''}"
    using arg_cong [OF z, of set] by (auto simp: padStart_def split: if_splits)
  then have pos: "0 < r" using assms by (cases "r < 0") (auto simp: int_to_string_def)
  then have "list_all (is_digit 10) (int_to_string r)" "strip_zeros (int_to_string r) = []"
    using sub by (simp_all add: int_to_string_def strip_zeros_def subset_iff)
  then have "digits_val 10 (int_to_string r) = 0" by (simp add: strip_zeros_eq_Nil)
  then show False using pos by (simp add: int_to_string_def)
qed

text \<open>
  \<open>formatPriceInQuote\<close> is \<open>formatAmount\<close> followed by a space and the symbol, for every price,
  negative ones included, and every token.
\<close>

theorem formatPriceInQuote_formatAmount:
  "formatPriceInQuote p q = formatAmount p (decimals q) @ '' '' @ symbol q"
  using frac_string_nonempty [of "bigint_mod p (10 ^ decimals q)" "decimals q"]
  by (auto simp: formatPriceInQuote_def formatAmount_def Let_def strip_zeros_zero)

lemma re_decimal_chars: "re_decimal s \<Longrightarrow> c \<in> set s \<Longrightarrow> is_digit 10 c \<or> c = CHR ''.''"
proof -
  assume r: "re_decimal s" and c: "c \<in> set s"
  have "set s = set (takeWhile (is_digit 10) s) \<union> set (dropWhile (is_digit 10) s)"
    by (metis set_append takeWhile_dropWhile_id)
  with r c show ?thesis
    by (auto simp: re_decimal_def list_all_iff dest: set_takeWhileD split: list.splits)
qed

lemma in_set_trim: "c \<in> set s \<Longrightarrow> \<not> js_space c \<Longrightarrow> c \<in> set (trim s)"
proof -
  assume c: "c \<in> set s" "\<not> js_space c"
  have keep: "c \<in> set (dropWhile js_space t)" if "c \<in> set t" for t
  proof -
    have "set t = set (takeWhile js_space t) \<union> set (dropWhile js_space t)"
      by (metis set_append takeWhile_dropWhile_id)
    with that c(2) show ?thesis by (auto dest: set_takeWhileD)
  qed
  show ?thesis using keep [of "rev (dropWhile js_space s)"] keep [of s] c by (simp add: trim_def)
qed

text \<open>
  \<open>parseQuoteAmount\<close> does not invert \<open>formatPriceInQuote\<close>, as its comment says: the formatted
  price ends in the token symbol, and for every token whose symbol has a letter the parser returns
  null on it.
\<close>

theorem formatted_price_not_parsed:
  assumes "c \<in> set (symbol q)" "\<not> is_digit 10 c" "c \<noteq> CHR ''.''" "\<not> js_space c"
  shows "parseQuoteAmount (formatPriceInQuote p q) q = None"
proof -
  have "c \<in> set (formatPriceInQuote p q)"
    using assms(1) by (auto simp: formatPriceInQuote_def Let_def)
  then have "c \<in> set (trim (formatPriceInQuote p q))" using assms(4) by (rule in_set_trim)
  then have "\<not> re_decimal (trim (formatPriceInQuote p q))" using re_decimal_chars assms(2,3) by blast
  then show ?thesis by (simp add: parseQuoteAmount_def Let_def)
qed

definition usdc_mainnet :: QuoteToken where
  "usdc_mainnet = hd MAINNET_QUOTES"

theorem formatted_price_not_parsed_witness:
  "parseQuoteAmount (formatPriceInQuote 17 usdc_mainnet) usdc_mainnet = None"
  by (rule formatted_price_not_parsed [of "CHR ''U''"])
    (simp_all add: usdc_mainnet_def MAINNET_QUOTES_def char_defs)

lemma re_decimal_cases:
  assumes "re_decimal s"
  obtains (whole) "list_all (is_digit 10) s"
    | (dotted) a b where "s = a @ ''.'' @ b" "list_all (is_digit 10) a" "list_all (is_digit 10) b"
proof (cases "dropWhile (is_digit 10) s")
  case Nil
  then have "list_all (is_digit 10) s" by (simp add: list_all_iff dropWhile_eq_Nil_conv)
  then show ?thesis by (rule whole)
next
  case (Cons c b)
  with assms have "c = CHR ''.''" "list_all (is_digit 10) b" by (simp_all add: re_decimal_def)
  moreover have "s = takeWhile (is_digit 10) s @ c # b" using Cons by (metis takeWhile_dropWhile_id)
  moreover have "list_all (is_digit 10) (takeWhile (is_digit 10) s)"
    by (auto simp: list_all_iff dest: set_takeWhileD)
  ultimately show ?thesis by (intro dotted [of "takeWhile (is_digit 10) s" b]) simp_all
qed

text \<open>
  the two parsers agree wherever the strict one succeeds: whatever text \<open>parseQuoteAmount\<close>
  accepts for a token, \<open>parseAmount\<close> reads, once trimmed, as the same amount for the token's
  decimals.
\<close>

theorem parseAmount_extends_parseQuoteAmount:
  assumes "parseQuoteAmount s q = Some v"
  shows "parseAmount (trim s) (decimals q) = Some v"
proof -
  let ?d = "decimals q" and ?t = "trim s"
  obtain w f where wf: "split_decimal ?t = (w, f)" by force
  have re: "re_decimal ?t" and ne: "?t \<noteq> []" "?t \<noteq> ''.''" and len: "length f \<le> ?d"
    and v: "BigInt_str ((if w = [] then ''0'' else w) @ padEnd ?d CHR ''0'' f) = Some v"
    using assms wf by (auto simp: parseQuoteAmount_def Let_def split: if_splits)
  have "list_all (is_digit 10) w \<and> list_all (is_digit 10) f \<and> w @ f \<noteq> []"
    using re
  proof (cases rule: re_decimal_cases)
    case whole
    then show ?thesis using ne wf by (simp add: split_decimal_whole)
  next
    case (dotted a b)
    then show ?thesis using ne wf split_decimal_dot [OF dotted(2,3)] by auto
  qed
  then have dig: "list_all (is_digit 10) w" "list_all (is_digit 10) f" and any: "w @ f \<noteq> []" by simp_all
  let ?g = "padEnd ?d CHR ''0'' f"
  have g: "take ?d (f @ replicate ?d CHR ''0'') = ?g" "list_all (is_digit 10) ?g"
    using len dig by (simp_all add: padEnd_def)
  have wg: "list_all (is_digit 10) (w @ ?g)" "w @ ?g \<noteq> []" using dig g any by (auto simp: padEnd_def)
  from strip_leading_digits [OF this]
  have "parseAmount ?t ?d = Some (int (digits_val 10 (w @ ?g)))"
    using wf g BigInt_digits [of "strip_leading (w @ ?g)"] by (simp add: parseAmount_def Let_def)
  moreover have "v = int (digits_val 10 (w @ ?g))"
    using v BigInt_digits [of "(if w = [] then ''0'' else w) @ ?g"] wg dig g
    by (cases "w = []") (simp_all add: digits_val_Cons)
  ultimately show ?thesis by simp
qed

theorem parseAmount_extends_parseQuoteAmount_witness:
  "parseAmount (trim (formatAmount (int 1500000) 6)) 6 = Some (int 1500000)"
proof -
  have "decimals usdc_mainnet = 6" by (simp add: usdc_mainnet_def MAINNET_QUOTES_def)
  then show ?thesis
    using parseAmount_extends_parseQuoteAmount [OF quote.read_show [of 1500000 usdc_mainnet]] by simp
qed

text \<open>
  \<open>parseAmount\<close> has no guard on the whole part beyond that of \<open>BigInt\<close>: a leading minus sign
  gives a negative amount, and a hexadecimal prefix makes the padded digits hexadecimal, so that
  "0x1" at six decimals is 16777216 base units.
\<close>

theorem parseAmount_accepts_sign_and_hex:
  "parseAmount ''-1'' 6 = Some (- 1000000) \<and> parseAmount ''0x1'' 6 = Some 16777216"
proof -
  have "replicate 6 CHR ''0'' = ''000000''" by (simp add: numeral_eq_Suc)
  then show ?thesis
    by (simp add: parseAmount_def split_decimal_def split_at_def is_dot_def BigInt_str_def trim_def
        js_space_def startsWith_def strip_sign_def radix_literal_def char_defs
        digits_val_def)
qed

end
