(* ===== verification/Block_Hashes.thy ===== *)
theory Block_Hashes
  imports Js_Prelude
begin

text \<open>
  Model of \<open>web/lib/block-hashes-client.ts\<close>: block hashes looked up in chunked static JSON files,
  with an in-memory cache of the metadata and of every chunk. The session state is a record of the
  two caches and of the requests sent; the web server is the parameter \<open>files\<close>. A rejected fetch,
  a response that is not ok and a body that is not the expected JSON are values of the response.
  Heights, offsets and limits are the integers the callers pass; a chunk is named by the text of
  its index, so that the index of a zero chunk size (NaN or Infinity) is covered.

  What the page functions rely on is the locale \<open>read_through\<close>: a cached read returns what the
  source holds and keeps the cache coherent.
\<close>

section \<open>State and files\<close>

datatype 'a response = HttpOk 'a | HttpError | Rejected

datatype hash_error = MetaFailed | ChunkFailed string | FetchRejected

record BlockHashMeta =
  total :: int
  chunkSize :: int
  chunks :: int

record HashEntry =
  entry_height :: int
  entry_hash :: "string option"

record HashesPage =
  hashes :: "HashEntry list"
  page_total :: int
  page_offset :: int
  page_limit :: int

record hash_files =
  meta_file :: "BlockHashMeta response"
  chunk_file :: "string \<Rightarrow> string list response"

record hash_session =
  metaCache :: "BlockHashMeta option"
  chunkCache :: "string \<Rightarrow> string list option"
  requests :: "string list"

definition hash_session0 :: hash_session where
  "hash_session0 = \<lparr>metaCache = None, chunkCache = (\<lambda>_. None), requests = []\<rparr>"

datatype page_order = Asc | Desc

section \<open>Cached reads\<close>

definition meta_path :: string where
  "meta_path = ''/data/block-hashes/meta.json''"

definition chunk_path :: "string \<Rightarrow> string" where
  "chunk_path key = ''/data/block-hashes/chunk-'' @ key @ ''.json''"

definition request :: "string \<Rightarrow> hash_session \<Rightarrow> hash_session" where
  "request path s = s\<lparr>requests := requests s @ [path]\<rparr>"

definition getMeta :: "hash_files \<Rightarrow> hash_session \<Rightarrow> (hash_error + BlockHashMeta) \<times> hash_session" where
  "getMeta files s =
     (case metaCache s of
        Some m \<Rightarrow> (Inr m, s)
      | None \<Rightarrow>
          (let s' = request meta_path s in
           case meta_file files of
             HttpOk m \<Rightarrow> (Inr m, s'\<lparr>metaCache := Some m\<rparr>)
           | HttpError \<Rightarrow> (Inl MetaFailed, s')
           | Rejected \<Rightarrow> (Inl FetchRejected, s')))"

definition getChunk ::
  "hash_files \<Rightarrow> string \<Rightarrow> hash_session \<Rightarrow> (hash_error + string list) \<times> hash_session" where
  "getChunk files key s =
     (case chunkCache s key of
        Some cached \<Rightarrow> (Inr cached, s)
      | None \<Rightarrow>
          (let s' = request (chunk_path key) s in
           case chunk_file files key of
             HttpOk data \<Rightarrow> (Inr data, s'\<lparr>chunkCache := (chunkCache s')(key \<mapsto> data)\<rparr>)
           | HttpError \<Rightarrow> (Inl (ChunkFailed key), s')
           | Rejected \<Rightarrow> (Inl FetchRejected, s')))"

text \<open>
  \<open>Math.floor(i / chunkSize)\<close>, as the text interpolated into the path, and
  \<open>chunk[i % chunkSize]\<close>: undefined outside the chunk.
\<close>

definition chunkIndex :: "int \<Rightarrow> int \<Rightarrow> string" where
  "chunkIndex i csize =
     (if csize = 0 then (if i = 0 then ''NaN'' else if i > 0 then ''Infinity'' else ''-Infinity'')
      else int_to_string (i div csize))"

definition chunk_at :: "string list \<Rightarrow> int \<Rightarrow> int \<Rightarrow> string option" where
  "chunk_at chunk i csize =
     (if csize = 0 \<or> bigint_mod i \<bar>csize\<bar> < 0 then None
      else index chunk (nat (bigint_mod i \<bar>csize\<bar>)))"

definition entry_at ::
  "hash_files \<Rightarrow> BlockHashMeta \<Rightarrow> int \<Rightarrow> hash_session \<Rightarrow> (hash_error + HashEntry) \<times> hash_session" where
  "entry_at files meta i s =
     (case getChunk files (chunkIndex i (chunkSize meta)) s of
        (Inl e, s') \<Rightarrow> (Inl e, s')
      | (Inr chunk, s') \<Rightarrow>
          (Inr \<lparr>entry_height = i, entry_hash = chunk_at chunk i (chunkSize meta)\<rparr>, s'))"

definition lookupBlockHash ::
  "hash_files \<Rightarrow> int \<Rightarrow> hash_session \<Rightarrow> (hash_error + HashesPage) \<times> hash_session" where
  "lookupBlockHash files height s =
     (case getMeta files s of
        (Inl e, s') \<Rightarrow> (Inl e, s')
      | (Inr meta, s') \<Rightarrow>
          (if height < 0 \<or> height \<ge> total meta
           then (Inr \<lparr>hashes = [], page_total = total meta, page_offset = height, page_limit = 1\<rparr>, s')
           else case entry_at files meta height s' of
                  (Inl e, s'') \<Rightarrow> (Inl e, s'')
                | (Inr entry, s'') \<Rightarrow>
                    (Inr \<lparr>hashes = [entry], page_total = total meta, page_offset = height,
                          page_limit = 1\<rparr>, s'')))"

section \<open>Pages\<close>

function desc_loop ::
  "hash_files \<Rightarrow> BlockHashMeta \<Rightarrow> int \<Rightarrow> int \<Rightarrow> HashEntry list \<Rightarrow> hash_session
     \<Rightarrow> (hash_error + HashEntry list) \<times> hash_session" where
  "desc_loop files meta limit i entries s =
     (if i \<ge> 0 \<and> int (length entries) < limit
      then case entry_at files meta i s of
             (Inl e, s') \<Rightarrow> (Inl e, s')
           | (Inr entry, s') \<Rightarrow> desc_loop files meta limit (i - 1) (entries @ [entry]) s'
      else (Inr entries, s))"
  by pat_completeness auto

termination desc_loop
  by (relation "measure (\<lambda>(_, _, _, i, _, _). nat (i + 1))") auto

function asc_loop ::
  "hash_files \<Rightarrow> BlockHashMeta \<Rightarrow> int \<Rightarrow> int \<Rightarrow> HashEntry list \<Rightarrow> hash_session
     \<Rightarrow> (hash_error + HashEntry list) \<times> hash_session" where
  "asc_loop files meta limit i entries s =
     (if i < total meta \<and> int (length entries) < limit
      then case entry_at files meta i s of
             (Inl e, s') \<Rightarrow> (Inl e, s')
           | (Inr entry, s') \<Rightarrow> asc_loop files meta limit (i + 1) (entries @ [entry]) s'
      else (Inr entries, s))"
  by pat_completeness auto

termination asc_loop
  by (relation "measure (\<lambda>(_, meta, _, i, _, _). nat (total meta - i))") auto

declare desc_loop.simps [simp del] asc_loop.simps [simp del]

definition fetchBlockHashesPage ::
  "hash_files \<Rightarrow> int \<Rightarrow> int \<Rightarrow> page_order \<Rightarrow> hash_session
     \<Rightarrow> (hash_error + HashesPage) \<times> hash_session" where
  "fetchBlockHashesPage files offset limit order s =
     (case getMeta files s of
        (Inl e, s') \<Rightarrow> (Inl e, s')
      | (Inr meta, s') \<Rightarrow>
          (case (case order of
                   Desc \<Rightarrow> desc_loop files meta limit (total meta - 1 - offset) [] s'
                 | Asc \<Rightarrow> asc_loop files meta limit offset [] s') of
             (Inl e, s'') \<Rightarrow> (Inl e, s'')
           | (Inr entries, s'') \<Rightarrow>
               (Inr \<lparr>hashes = entries, page_total = total meta, page_offset = offset,
                     page_limit = limit\<rparr>, s'')))"


section \<open>The cache contract\<close>

primrec read_all :: "('k \<Rightarrow> 's \<Rightarrow> ('e + 'v) \<times> 's) \<Rightarrow> 'k list \<Rightarrow> 's \<Rightarrow> ('e + 'v list) \<times> 's" where
  "read_all get [] s = (Inr [], s)"
| "read_all get (k # ks) s =
     (case get k s of
        (Inl e, s') \<Rightarrow> (Inl e, s')
      | (Inr v, s') \<Rightarrow>
          (case read_all get ks s' of
             (Inl e, s'') \<Rightarrow> (Inl e, s'')
           | (Inr vs, s'') \<Rightarrow> (Inr (v # vs), s'')))"

locale read_through =
  fixes get :: "'k \<Rightarrow> 's \<Rightarrow> ('e + 'v) \<times> 's"
    and inv :: "'s \<Rightarrow> bool"
    and source :: "'k \<Rightarrow> 'v option"
  assumes get_source: "inv s \<Longrightarrow> source k = Some v \<Longrightarrow> fst (get k s) = Inr v"
    and get_inv: "inv s \<Longrightarrow> inv (snd (get k s))"
begin

lemma getE:
  assumes "inv s" "source k = Some v"
  obtains s' where "get k s = (Inr v, s')" "inv s'"
  using get_source [OF assms] get_inv [OF assms(1), of k] by (cases "get k s") auto

lemma read_all_source:
  "inv s \<Longrightarrow> \<forall>k \<in> set ks. source k = Some (f k) \<Longrightarrow> fst (read_all get ks s) = Inr (map f ks)"
proof (induction ks arbitrary: s)
  case (Cons k ks)
  obtain s1 where "get k s = (Inr (f k), s1)" "inv s1"
    using Cons.prems by (auto intro: getE [of s k "f k"])
  with Cons.IH [of s1] Cons.prems show ?case by (auto split: prod.split sum.split)
qed simp

lemma read_all_inv: "inv s \<Longrightarrow> inv (snd (read_all get ks s))"
proof (induction ks arbitrary: s)
  case (Cons k ks)
  have "inv (snd (get k s))" by (rule get_inv [OF Cons.prems])
  from Cons.IH [OF this] this show ?case
    by (auto split: prod.split sum.split)
qed simp

lemma read_allE:
  assumes "inv s" "\<And>k. k \<in> set ks \<Longrightarrow> source k = Some (f k)"
  obtains s' where "read_all get ks s = (Inr (map f ks), s')" "inv s'"
  using read_all_source [of s ks f] read_all_inv [of s ks] assms
  by (cases "read_all get ks s") auto

end

definition ok_body :: "'a response \<Rightarrow> 'a option" where
  "ok_body r = (case r of HttpOk v \<Rightarrow> Some v | _ \<Rightarrow> None)"

lemma ok_body_Some [simp]: "ok_body r = Some v \<longleftrightarrow> r = HttpOk v"
  by (cases r) (auto simp: ok_body_def)

definition coherent :: "hash_files \<Rightarrow> hash_session \<Rightarrow> bool" where
  "coherent files s \<longleftrightarrow>
     (\<forall>m. metaCache s = Some m \<longrightarrow> meta_file files = HttpOk m) \<and>
     (\<forall>k v. chunkCache s k = Some v \<longrightarrow> chunk_file files k = HttpOk v)"

interpretation chunk: read_through "getChunk files" "coherent files" "\<lambda>k. ok_body (chunk_file files k)"
  for files
  by unfold_locales
    (auto simp: getChunk_def coherent_def request_def Let_def split: option.split response.split)

interpretation entry: read_through "entry_at files meta" "coherent files"
  "\<lambda>i. map_option (\<lambda>c. \<lparr>entry_height = i, entry_hash = chunk_at c i (chunkSize meta)\<rparr>)
         (ok_body (chunk_file files (chunkIndex i (chunkSize meta))))"
  for files meta
proof unfold_locales
  fix s i v
  assume s: "coherent files s"
    and src: "map_option (\<lambda>c. \<lparr>entry_height = i, entry_hash = chunk_at c i (chunkSize meta)\<rparr>)
         (ok_body (chunk_file files (chunkIndex i (chunkSize meta)))) = Some v"
  then obtain c where "ok_body (chunk_file files (chunkIndex i (chunkSize meta))) = Some c"
    and v: "v = \<lparr>entry_height = i, entry_hash = chunk_at c i (chunkSize meta)\<rparr>" by auto
  then obtain s' where "getChunk files (chunkIndex i (chunkSize meta)) s = (Inr c, s')"
    using s by (auto elim: chunk.getE)
  then show "fst (entry_at files meta i s) = Inr v" by (simp add: entry_at_def v)
next
  fix s i
  assume "coherent files s"
  then have "coherent files (snd (getChunk files (chunkIndex i (chunkSize meta)) s))"
    by (rule chunk.get_inv)
  then show "coherent files (snd (entry_at files meta i s))"
    by (auto simp: entry_at_def split: prod.split sum.split)
qed

section \<open>Pages are slices of the table\<close>

definition prepend_result :: "'a list \<Rightarrow> ('e + 'a list) \<times> 's \<Rightarrow> ('e + 'a list) \<times> 's" where
  "prepend_result xs r = (case r of (Inl e, s) \<Rightarrow> (Inl e, s) | (Inr ys, s) \<Rightarrow> (Inr (xs @ ys), s))"

lemma prepend_result_simps [simp]:
  "prepend_result xs (Inl e, s) = (Inl e, s)"
  "prepend_result xs (Inr ys, s) = (Inr (xs @ ys), s)"
  "prepend_result [] r = r"
  by (auto simp: prepend_result_def split: prod.split sum.split)

lemma prepend_read_all_Cons:
  "prepend_result xs (read_all get (k # ks) s) =
     (case get k s of
        (Inl e, s') \<Rightarrow> (Inl e, s')
      | (Inr v, s') \<Rightarrow> prepend_result (xs @ [v]) (read_all get ks s'))"
  by (auto simp: prepend_result_def split: prod.split sum.split)

lemma desc_loop_read_all:
  "desc_loop files meta limit i entries s =
     prepend_result entries
       (read_all (entry_at files meta) (take (nat (limit - int (length entries))) (rev [0..i])) s)"
proof (induction files meta limit i entries s rule: desc_loop.induct)
  case (1 files meta limit i entries s)
  show ?case
  proof (cases "i \<ge> 0 \<and> int (length entries) < limit")
    case True
    have "rev [0..i] = i # rev [0..i - 1]" using True by (simp add: upto_rec2)
    moreover have "nat (limit - int (length entries)) = Suc (nat (limit - int (length entries) - 1))"
      using True by linarith
    ultimately have tk: "take (nat (limit - int (length entries))) (rev [0..i])
        = i # take (nat (limit - int (length entries) - 1)) (rev [0..i - 1])" by simp
    show ?thesis
      unfolding tk prepend_read_all_Cons desc_loop.simps [of files meta limit i]
      using True by (auto simp: "1.IH" diff_diff_eq add.commute [of "int (length entries)" 1] split: prod.split sum.split)
  qed (auto simp: desc_loop.simps [of files meta limit i])
qed


lemma asc_loop_read_all:
  "asc_loop files meta limit i entries s =
     prepend_result entries
       (read_all (entry_at files meta) (take (nat (limit - int (length entries))) [i..total meta - 1]) s)"
proof (induction files meta limit i entries s rule: asc_loop.induct)
  case (1 files meta limit i entries s)
  show ?case
  proof (cases "i < total meta \<and> int (length entries) < limit")
    case True
    have "[i..total meta - 1] = i # [i + 1..total meta - 1]" using True by (simp add: upto_rec1)
    moreover have "nat (limit - int (length entries)) = Suc (nat (limit - int (length entries) - 1))"
      using True by linarith
    ultimately have tk: "take (nat (limit - int (length entries))) [i..total meta - 1]
        = i # take (nat (limit - int (length entries) - 1)) [i + 1..total meta - 1]" by simp
    show ?thesis
      unfolding tk prepend_read_all_Cons asc_loop.simps [of files meta limit i]
      using True by (auto simp: "1.IH" diff_diff_eq add.commute [of "int (length entries)" 1] split: prod.split sum.split)
  qed (auto simp: asc_loop.simps [of files meta limit i])
qed

text \<open>
  The files of a table of hashes: the metadata gives its length and a positive chunk size, and
  chunk \<open>k\<close> holds the hashes from \<open>k * chunkSize\<close> on.
\<close>

definition serves :: "hash_files \<Rightarrow> nat \<Rightarrow> string list \<Rightarrow> bool" where
  "serves files n table \<longleftrightarrow>
     0 < n \<and>
     (case meta_file files of
        HttpOk m \<Rightarrow> total m = int (length table) \<and> chunkSize m = int n
      | _ \<Rightarrow> False) \<and>
     list_all (\<lambda>k. chunk_file files (int_to_string (int k)) = HttpOk (take n (drop (k * n) table)))
       [0..<(length table + n - 1) div n]"

definition table_entry :: "string list \<Rightarrow> int \<Rightarrow> HashEntry" where
  "table_entry table i = \<lparr>entry_height = i, entry_hash = Some (table ! nat i)\<rparr>"

definition table_entries :: "page_order \<Rightarrow> string list \<Rightarrow> HashEntry list" where
  "table_entries order table =
     (let es = map (table_entry table) [0..int (length table) - 1] in
      case order of Asc \<Rightarrow> es | Desc \<Rightarrow> rev es)"

lemma serves_meta:
  assumes "serves files n table"
  obtains m where "meta_file files = HttpOk m" "total m = int (length table)" "chunkSize m = int n"
  using assms by (auto simp: serves_def split: response.splits)

lemma serves_entry:
  assumes sv: "serves files n table" and m: "chunkSize m = int n" and i: "0 \<le> i" "i < int (length table)"
  shows "map_option (\<lambda>c. \<lparr>entry_height = i, entry_hash = chunk_at c i (chunkSize m)\<rparr>)
          (ok_body (chunk_file files (chunkIndex i (chunkSize m)))) = Some (table_entry table i)"
proof -
  have n: "0 < n" using sv by (simp add: serves_def)
  define k where "k = nat i div n"
  have k: "i div int n = int k" using i by (simp add: k_def zdiv_int)
  have "Suc k * n \<le> length table + n - 1"
    using div_times_less_eq_dividend [of "nat i" n] i n unfolding k_def mult_Suc by linarith
  then have "k < (length table + n - 1) div n"
    using n by (simp add: less_eq_div_iff_mult_less_eq flip: Suc_le_eq)
  then have ch: "chunk_file files (to_radix 10 k) = HttpOk (take n (drop (k * n) table))"
    using sv by (auto simp: serves_def list_all_iff)
  have md: "bigint_mod i (int n) = int (nat i mod n)"
    using i by (simp add: zmod_int)
  have "k * n + nat i mod n = nat i" by (simp add: k_def)
  then have "index (take n (drop (k * n) table)) (nat i mod n) = Some (table ! nat i)"
    using n i by (simp add: index_def)
  then show ?thesis
    using n by (simp add: chunkIndex_def m k ch chunk_at_def md table_entry_def ok_body_def)
qed


lemma upto_slice:
  "0 \<le> a \<Longrightarrow> drop (nat a) [0..n - 1] = [a..n - 1]"
proof (cases "a \<le> n")
  case True
  assume "0 \<le> a"
  then have "[0..n - 1] = [0..a - 1] @ [a..n - 1]"
    using upto_split2 [of 0 "a - 1" "n - 1"] True by (cases "a = 0") auto
  then show ?thesis using \<open>0 \<le> a\<close> by simp
next
  case False
  then show ?thesis by simp
qed

lemma rev_upto_slice:
  assumes "0 \<le> a" "0 \<le> n" shows "drop (nat a) (rev [0..n - 1]) = rev [0..n - 1 - a]"
proof (cases "a \<le> n")
  case True
  then have "[0..n - 1] = [0..n - 1 - a] @ [n - a..n - 1]"
    using upto_split2 [of 0 "n - 1 - a" "n - 1"] assms by (cases "a = n") (auto simp: algebra_simps)
  then show ?thesis using assms True by simp
next
  case False
  then show ?thesis by simp
qed

lemma table_entries_slice:
  assumes "0 \<le> offset"
  shows "take k (drop (nat offset) (table_entries Asc table))
           = map (table_entry table) (take k [offset..int (length table) - 1])"
    and "take k (drop (nat offset) (table_entries Desc table))
           = map (table_entry table) (take k (rev [0..int (length table) - 1 - offset]))"
  using upto_slice [OF assms, of "int (length table)"] rev_upto_slice [OF assms, of "int (length table)"]
  by (simp_all add: table_entries_def drop_map take_map rev_map)

lemma getMeta_coherent:
  assumes "serves files n table" "coherent files s"
  obtains m s' where "getMeta files s = (Inr m, s')" "coherent files s'"
    "total m = int (length table)" "chunkSize m = int n"
proof -
  obtain m where m: "meta_file files = HttpOk m" "total m = int (length table)" "chunkSize m = int n"
    using assms(1) by (rule serves_meta)
  then have "fst (getMeta files s) = Inr m \<and> coherent files (snd (getMeta files s))"
    using assms(2)
    by (auto simp: getMeta_def coherent_def request_def Let_def split: option.split)
  then show ?thesis using that m by (cases "getMeta files s") auto
qed

lemma read_table:
  assumes sv: "serves files n table" and s: "coherent files s" and m: "chunkSize m = int n"
    and sub: "set idx \<subseteq> {0..<int (length table)}"
  obtains s' where "read_all (entry_at files m) idx s = (Inr (map (table_entry table) idx), s')"
    "coherent files s'"
proof -
  have "map_option (\<lambda>c. \<lparr>entry_height = i, entry_hash = chunk_at c i (chunkSize m)\<rparr>)
          (ok_body (chunk_file files (chunkIndex i (chunkSize m)))) = Some (table_entry table i)"
    if "i \<in> set idx" for i
    using that sub by (intro serves_entry [OF sv m]) auto
  then show ?thesis using that by (rule entry.read_allE [OF s])
qed

lemma fetch_page_served:
  assumes "serves files n table" "coherent files s" "0 \<le> offset"
  shows "\<exists>s'. fetchBlockHashesPage files offset limit order s =
           (Inr \<lparr>hashes = take (nat limit) (drop (nat offset) (table_entries order table)),
                 page_total = int (length table), page_offset = offset, page_limit = limit\<rparr>, s')
         \<and> coherent files s'"
proof -
  obtain m s1 where m: "getMeta files s = (Inr m, s1)" "coherent files s1"
    "total m = int (length table)" "chunkSize m = int n"
    using assms by (auto elim: getMeta_coherent)
  define idx where "idx = (case order of Asc \<Rightarrow> take (nat limit) [offset..int (length table) - 1]
    | Desc \<Rightarrow> take (nat limit) (rev [0..int (length table) - 1 - offset]))"
  have "set idx \<subseteq> {0..<int (length table)}"
    using assms(3) by (auto simp: idx_def split: page_order.splits dest!: in_set_takeD)
  then obtain s2 where "read_all (entry_at files m) idx s1 = (Inr (map (table_entry table) idx), s2)"
    "coherent files s2"
    by (rule read_table [OF assms(1) m(2,4)])
  then show ?thesis
    using assms(3)
    by (cases order)
      (simp_all add: fetchBlockHashesPage_def m table_entries_slice desc_loop_read_all
        asc_loop_read_all idx_def)
qed

text \<open>
  C13: When the server holds the chunked files of a table of block hashes, fetchBlockHashesPage
  returns exactly the requested slice of the table, oldest or newest first, whatever part of the
  table is already cached, and leaves the cache coherent with the files: no hash is missing,
  repeated or attributed to another height across chunk boundaries.
\<close>

theorem fetchBlockHashesPage_slice:
  assumes "serves files n table" "coherent files s" "0 \<le> offset"
  shows "\<exists>s'. fetchBlockHashesPage files offset limit order s =
           (Inr \<lparr>hashes = take (nat limit) (drop (nat offset) (table_entries order table)),
                 page_total = int (length table), page_offset = offset, page_limit = limit\<rparr>, s')
         \<and> coherent files s'"
  using assms by (rule fetch_page_served)

definition demo_files :: hash_files where
  "demo_files =
     \<lparr>meta_file = HttpOk \<lparr>total = 3, chunkSize = 2, chunks = 2\<rparr>,
      chunk_file = (\<lambda>k. if k = ''0'' then HttpOk [''aa'', ''bb''] else if k = ''1'' then HttpOk [''cc'']
                        else HttpError)\<rparr>"

theorem fetchBlockHashesPage_slice_witness:
  "serves demo_files 2 [''aa'', ''bb'', ''cc''] \<and> coherent demo_files hash_session0 \<and>
   (\<exists>s'. fetchBlockHashesPage demo_files 1 2 Desc hash_session0 =
      (Inr \<lparr>hashes = take 2 (drop 1 (table_entries Desc [''aa'', ''bb'', ''cc''])),
            page_total = 3, page_offset = 1, page_limit = 2\<rparr>, s') \<and> coherent demo_files s')"
proof -
  have sv: "serves demo_files 2 [''aa'', ''bb'', ''cc'']"
    by code_simp
  have co: "coherent demo_files hash_session0"
    by (simp add: coherent_def hash_session0_def)
  show ?thesis
    using sv co fetchBlockHashesPage_slice [OF sv co, of 1 2 Desc] by simp
qed


section \<open>Every file is loaded once\<close>

text \<open>
  A session is a sequence of the two exported calls. A request is \<open>served\<close> when the file it asks
  for is delivered.
\<close>

datatype call = Lookup int | Page int int page_order

definition run_call :: "hash_files \<Rightarrow> call \<Rightarrow> hash_session \<Rightarrow> hash_session" where
  "run_call files c s =
     (case c of
        Lookup h \<Rightarrow> snd (lookupBlockHash files h s)
      | Page offset limit order \<Rightarrow> snd (fetchBlockHashesPage files offset limit order s))"

definition served :: "hash_files \<Rightarrow> string \<Rightarrow> bool" where
  "served files path \<longleftrightarrow>
     (path = meta_path \<and> ok_body (meta_file files) \<noteq> None) \<or>
     (\<exists>k. path = chunk_path k \<and> ok_body (chunk_file files k) \<noteq> None)"

definition loads_once :: "hash_files \<Rightarrow> hash_session \<Rightarrow> bool" where
  "loads_once files s \<longleftrightarrow>
     distinct (filter (served files) (requests s)) \<and>
     (meta_path \<in> set (requests s) \<longrightarrow> ok_body (meta_file files) \<noteq> None \<longrightarrow> metaCache s \<noteq> None) \<and>
     (\<forall>k. chunk_path k \<in> set (requests s) \<longrightarrow> ok_body (chunk_file files k) \<noteq> None \<longrightarrow> chunkCache s k \<noteq> None)"

lemma paths_distinct [simp]:
  "chunk_path k = chunk_path k' \<longleftrightarrow> k = k'" "chunk_path k \<noteq> meta_path" "meta_path \<noteq> chunk_path k"
  by (auto simp: chunk_path_def meta_path_def)

lemma getMeta_loads_once: "loads_once files s \<Longrightarrow> loads_once files (snd (getMeta files s))"
  by (auto simp: loads_once_def getMeta_def request_def served_def ok_body_def Let_def
      split: option.split response.splits)

lemma getChunk_loads_once: "loads_once files s \<Longrightarrow> loads_once files (snd (getChunk files k s))"
  by (auto simp: loads_once_def getChunk_def request_def served_def ok_body_def Let_def
      split: option.split response.splits)

lemma entry_at_loads_once: "loads_once files s \<Longrightarrow> loads_once files (snd (entry_at files m i s))"
  using getChunk_loads_once [of files s "chunkIndex i (chunkSize m)"]
  by (auto simp: entry_at_def split: prod.split sum.split)

interpretation once: read_through "entry_at files meta" "loads_once files" "\<lambda>_. None :: HashEntry option"
  for files meta
  by unfold_locales (auto intro: entry_at_loads_once)

lemma snd_prepend_result [simp]: "snd (prepend_result xs r) = snd r"
  by (auto simp: prepend_result_def split: prod.split sum.split)

lemma loop_loads_once:
  "loads_once files s \<Longrightarrow> loads_once files (snd (desc_loop files m limit i es s))"
  "loads_once files s \<Longrightarrow> loads_once files (snd (asc_loop files m limit i es s))"
  by (simp_all add: desc_loop_read_all asc_loop_read_all once.read_all_inv)

lemma run_call_loads_once: "loads_once files s \<Longrightarrow> loads_once files (run_call files c s)"
proof (cases c)
  case (Lookup h)
  assume "loads_once files s"
  then have "loads_once files (snd (getMeta files s))" by (rule getMeta_loads_once)
  then show ?thesis
    using entry_at_loads_once [of files "snd (getMeta files s)" _ h]
    by (auto simp: Lookup run_call_def lookupBlockHash_def split: prod.split sum.split)
       (metis snd_conv)+
next
  case (Page offset limit order)
  assume "loads_once files s"
  then have "loads_once files (snd (getMeta files s))" by (rule getMeta_loads_once)
  then show ?thesis
    using loop_loads_once [of files "snd (getMeta files s)"]
    by (auto simp: Page run_call_def fetchBlockHashesPage_def split: prod.split sum.split page_order.split)
       (metis snd_conv)+
qed


end
