(* ===== verification/Market_History.thy ===== *)
theory Market_History
  imports Hashprice
begin

text \<open>
  Model of \<open>web/hooks/useMarketHistory.ts\<close>: the price and hashrate histories of two public APIs,
  aligned on the hashrate timestamps by a binary search and linear interpolation. The responses
  are parameters; a body that does not have the shape the code casts it to is the error
  \<open>UnexpectedShape\<close> (a TypeError in the code). The main result is that the binary search computes
  the piecewise linear interpolation that a scan of the history defines.
\<close>

section \<open>Ranges and responses\<close>

datatype MarketHistoryRange = R7d | R30d | R90d | R1y

fun RANGE_TO_DAYS :: "MarketHistoryRange \<Rightarrow> int" where
  "RANGE_TO_DAYS R7d = 7"
| "RANGE_TO_DAYS R30d = 30"
| "RANGE_TO_DAYS R90d = 90"
| "RANGE_TO_DAYS R1y = 365"

fun RANGE_TO_MEMPOOL_TF :: "MarketHistoryRange \<Rightarrow> string" where
  "RANGE_TO_MEMPOOL_TF R7d = ''1m''"
| "RANGE_TO_MEMPOOL_TF R30d = ''1m''"
| "RANGE_TO_MEMPOOL_TF R90d = ''3m''"
| "RANGE_TO_MEMPOOL_TF R1y = ''1y''"

datatype market_error =
    CoinGeckoFailed int
  | HashrateFailed int
  | AdjustmentsFailed int
  | UnexpectedShape

record hashrate_point =
  hr_timestamp :: number
  avgHashrate :: number

record MarketHistoryPoint =
  mh_timestamp :: number
  mh_btcPrice :: number
  mh_networkHashrate :: number
  mh_hashprice :: number

record DifficultyAdjustment =
  da_timestamp :: json
  da_height :: json
  da_difficulty :: json
  da_difficultyChange :: json

fun those_list :: "('a \<Rightarrow> 'b option) \<Rightarrow> 'a list \<Rightarrow> 'b list option" where
  "those_list f [] = Some []"
| "those_list f (x # xs) =
     (case f x of None \<Rightarrow> None | Some y \<Rightarrow> map_option (\<lambda>ys. y # ys) (those_list f xs))"

fun price_pair :: "json \<Rightarrow> (number \<times> number) option" where
  "price_pair (JArr (JNum t # JNum p # _)) = Some (t, p)"
| "price_pair _ = None"

definition fetchBtcPriceHistory :: "http_response \<Rightarrow> market_error + (number \<times> number) list" where
  "fetchBtcPriceHistory res =
     (if \<not> http_ok res then Inl (CoinGeckoFailed (http_status res))
      else case get (http_body res) ''prices'' of
             JArr ps \<Rightarrow> (case those_list price_pair ps of
                          Some prices \<Rightarrow> Inr prices
                        | None \<Rightarrow> Inl UnexpectedShape)
           | _ \<Rightarrow> Inl UnexpectedShape)"

definition hashrate_of :: "json \<Rightarrow> hashrate_point option" where
  "hashrate_of x =
     (case (get x ''timestamp'', get x ''avgHashrate'') of
        (JNum t, JNum h) \<Rightarrow> Some \<lparr>hr_timestamp = t, avgHashrate = h\<rparr>
      | _ \<Rightarrow> None)"

definition fetchHashrateHistory :: "http_response \<Rightarrow> market_error + hashrate_point list" where
  "fetchHashrateHistory res =
     (if \<not> http_ok res then Inl (HashrateFailed (http_status res))
      else case or_default (get (http_body res) ''hashrates'') (JArr []) of
             JArr hs \<Rightarrow> (case those_list hashrate_of hs of
                          Some points \<Rightarrow> Inr points
                        | None \<Rightarrow> Inl UnexpectedShape)
           | _ \<Rightarrow> Inl UnexpectedShape)"

definition array_at :: "json \<Rightarrow> nat \<Rightarrow> json" where
  "array_at x i = (case x of JArr xs \<Rightarrow> (if i < length xs then xs ! i else JUndef) | _ \<Rightarrow> JUndef)"

definition fetchDifficultyAdjustments :: "http_response \<Rightarrow> market_error + DifficultyAdjustment list" where
  "fetchDifficultyAdjustments res =
     (if \<not> http_ok res then Inl (AdjustmentsFailed (http_status res))
      else case http_body res of
             JArr raw \<Rightarrow>
               Inr (map (\<lambda>entry. \<lparr>da_timestamp = array_at entry 0, da_height = array_at entry 1,
                                  da_difficulty = array_at entry 2,
                                  da_difficultyChange = array_at entry 3\<rparr>) raw)
           | _ \<Rightarrow> Inl UnexpectedShape)"

section \<open>Interpolation\<close>

text \<open>
  The loop of interpolatePrice. \<open>(lo + hi) >>> 1\<close> is the halved sum: an array of fewer than
  \<open>2 ^ 31\<close> points, as every engine has, does not reach the 32-bit wrap-around.
\<close>

function price_search :: "(number \<times> number) list \<Rightarrow> number \<Rightarrow> nat \<Rightarrow> nat \<Rightarrow> nat \<times> nat" where
  "price_search prices targetMs lo hi =
     (if lo + 1 < hi
      then let mid = (lo + hi) div 2 in
           if fst (prices ! mid) \<le> targetMs then price_search prices targetMs mid hi
           else price_search prices targetMs lo mid
      else (lo, hi))"
  by pat_completeness auto

termination price_search
  by (relation "measure (\<lambda>(_, _, lo, hi). hi - lo)") auto

declare price_search.simps [simp del]

definition interpolatePrice :: "(number \<times> number) list \<Rightarrow> number \<Rightarrow> number" where
  "interpolatePrice prices targetMs =
     (if prices = [] then 0
      else if targetMs \<le> fst (prices ! 0) then snd (prices ! 0)
      else if targetMs \<ge> fst (prices ! (length prices - 1)) then snd (prices ! (length prices - 1))
      else let (lo, hi) = price_search prices targetMs 0 (length prices - 1);
               (t0, p0) = prices ! lo;
               (t1, p1) = prices ! hi;
               ratio = (targetMs - t0) / (t1 - t0)
           in p0 + ratio * (p1 - p0))"

definition align_point :: "(number \<times> number) list \<Rightarrow> hashrate_point \<Rightarrow> MarketHistoryPoint" where
  "align_point prices h =
     (let tsMs = hr_timestamp h * 1000;
          btc = interpolatePrice prices tsMs;
          networkHashrate = avgHashrate h;
          hp = (if networkHashrate > 0
                then (Fin 3.125 * 144 * btc) / (networkHashrate / Fin (10 ^ 15))
                else 0)
      in \<lparr>mh_timestamp = tsMs, mh_btcPrice = btc, mh_networkHashrate = networkHashrate,
          mh_hashprice = hp\<rparr>)"

definition alignData ::
  "number \<Rightarrow> (number \<times> number) list \<Rightarrow> hashrate_point list \<Rightarrow> int \<Rightarrow> MarketHistoryPoint list" where
  "alignData now prices hashrates rangeDays =
     (let cutoff = now - Fin (of_int rangeDays) * 86400000;
          filtered = filter (\<lambda>h. hr_timestamp h * 1000 \<ge> cutoff) hashrates
      in map (align_point prices) filtered)"

text \<open>
  The query function. \<open>Promise.all\<close> rejects with the rejection that comes first: the argument
  \<open>hashratesFirst\<close> says which of the two responses arrived first.
\<close>

definition market_history ::
  "bool \<Rightarrow> number \<Rightarrow> MarketHistoryRange \<Rightarrow> http_response \<Rightarrow> http_response
     \<Rightarrow> market_error + MarketHistoryPoint list" where
  "market_history hashratesFirst now rng priceRes rateRes =
     (case (fetchBtcPriceHistory priceRes, fetchHashrateHistory rateRes) of
        (Inr prices, Inr hashrates) \<Rightarrow> Inr (alignData now prices hashrates (RANGE_TO_DAYS rng))
      | (Inl e, Inl e') \<Rightarrow> Inl (if hashratesFirst then e' else e)
      | (Inl e, Inr _) \<Rightarrow> Inl e
      | (Inr _, Inl e) \<Rightarrow> Inl e)"

section \<open>The binary search finds the bracket\<close>

definition fin_points :: "(real \<times> real) list \<Rightarrow> (number \<times> number) list" where
  "fin_points ps = map (\<lambda>(t, p). (Fin t, Fin p)) ps"

definition increasing :: "(real \<times> real) list \<Rightarrow> bool" where
  "increasing ps = sorted_wrt (\<lambda>a b. fst a < fst b) ps"

lemma fin_points_simps [simp]:
  "length (fin_points ps) = length ps" "fin_points ps = [] \<longleftrightarrow> ps = []"
  "i < length ps \<Longrightarrow> fin_points ps ! i = (Fin (fst (ps ! i)), Fin (snd (ps ! i)))"
  by (simp_all add: fin_points_def split_beta)

lemma price_search_bracket:
  assumes "lo < hi" "hi < length ps" "fst (ps ! lo) \<le> x" "x < fst (ps ! hi)"
  shows "\<exists>i. price_search (fin_points ps) (Fin x) lo hi = (i, Suc i) \<and> lo \<le> i \<and> Suc i \<le> hi
            \<and> fst (ps ! i) \<le> x \<and> x < fst (ps ! Suc i)"
  using assms
proof (induction "fin_points ps" "Fin x" lo hi rule: price_search.induct)
  case (1 lo hi)
  define mid where "mid = (lo + hi) div 2"
  show ?case
  proof (cases "lo + 1 < hi")
    case True
    then have mid: "lo < mid" "mid < hi" by (auto simp: mid_def)
    show ?thesis
    proof (cases "fst (ps ! mid) \<le> x")
      case le: True
      then have "\<exists>i. price_search (fin_points ps) (Fin x) mid hi = (i, Suc i) \<and> mid \<le> i \<and> Suc i \<le> hi
            \<and> fst (ps ! i) \<le> x \<and> x < fst (ps ! Suc i)"
        using 1(1) [OF True mid_def] 1(4,6) mid by simp
      with le True mid 1(4) show ?thesis
        by (subst price_search.simps) (auto simp: mid_def [symmetric] Let_def)
    next
      case gt: False
      then have "\<exists>i. price_search (fin_points ps) (Fin x) lo mid = (i, Suc i) \<and> lo \<le> i \<and> Suc i \<le> mid
            \<and> fst (ps ! i) \<le> x \<and> x < fst (ps ! Suc i)"
        using 1(2) [OF True mid_def] 1(4,5) mid by simp
      with gt True mid 1(4) show ?thesis
        by (subst price_search.simps) (auto simp: mid_def [symmetric] Let_def)
    qed
  next
    case False
    with 1 have "hi = Suc lo" by simp
    with 1 show ?thesis by (subst price_search.simps) auto
  qed
qed

text \<open>The interpolation the chart means, by a scan over consecutive points.\<close>

fun scan_price :: "(real \<times> real) list \<Rightarrow> real \<Rightarrow> real" where
  "scan_price [] x = 0"
| "scan_price [(t, p)] x = p"
| "scan_price ((t0, p0) # (t1, p1) # ps) x =
     (if x \<le> t0 then p0
      else if x < t1 then p0 + (x - t0) / (t1 - t0) * (p1 - p0)
      else scan_price ((t1, p1) # ps) x)"

lemma increasing_nth: "increasing ps \<Longrightarrow> i < j \<Longrightarrow> j < length ps \<Longrightarrow> fst (ps ! i) < fst (ps ! j)"
  by (auto simp: increasing_def intro: sorted_wrt_nth_less)

lemma scan_price_first: "ps \<noteq> [] \<Longrightarrow> x \<le> fst (ps ! 0) \<Longrightarrow> scan_price ps x = snd (ps ! 0)"
  by (induction ps x rule: scan_price.induct) auto

lemma scan_price_last:
  "increasing ps \<Longrightarrow> ps \<noteq> [] \<Longrightarrow> fst (ps ! (length ps - 1)) \<le> x \<Longrightarrow> scan_price ps x = snd (ps ! (length ps - 1))"
proof (induction ps x rule: scan_price.induct)
  case (3 t0 p0 t1 p1 ps x)
  have "t0 < fst (((t0, p0) # (t1, p1) # ps) ! Suc (length ps))"
    using increasing_nth [OF 3(2), of 0 "Suc (length ps)"] by simp
  moreover have "t1 \<le> fst (((t0, p0) # (t1, p1) # ps) ! Suc (length ps))"
    using increasing_nth [OF 3(2), of 1 "Suc (length ps)"] by (cases ps) auto
  ultimately show ?case using 3 by (auto simp: increasing_def)
qed auto

lemma scan_price_bracket:
  assumes "increasing ps" "Suc i < length ps" "fst (ps ! i) \<le> x" "x < fst (ps ! Suc i)"
  shows "scan_price ps x
    = snd (ps ! i) + (x - fst (ps ! i)) / (fst (ps ! Suc i) - fst (ps ! i)) * (snd (ps ! Suc i) - snd (ps ! i))"
  using assms
proof (induction ps x arbitrary: i rule: scan_price.induct)
  case (3 t0 p0 t1 p1 ps x)
  show ?case
  proof (cases i)
    case 0
    then show ?thesis using 3 by auto
  next
    case (Suc j)
    have "t1 \<le> fst (((t1, p1) # ps) ! j)"
      using increasing_nth [OF 3(2), of 1 "Suc j"] 3(3) Suc by (cases j) auto
    moreover have "t0 < t1" using 3(2) by (simp add: increasing_def)
    ultimately show ?thesis using 3 Suc by (auto simp: increasing_def)
  qed
qed auto

lemma interpolatePrice_scan:
  assumes "increasing ps"
  shows "interpolatePrice (fin_points ps) (Fin x) = Fin (scan_price ps x)"
proof (cases "ps = [] \<or> x \<le> fst (ps ! 0) \<or> fst (ps ! (length ps - 1)) \<le> x")
  case True
  then show ?thesis
    using assms by (auto simp: interpolatePrice_def scan_price_first scan_price_last)
next
  case False
  then have ne: "ps \<noteq> []" "fst (ps ! 0) \<le> x" "x < fst (ps ! (length ps - 1))" by auto
  have "0 < length ps - 1"
    using ne by (cases "length ps - 1 = 0") auto
  then obtain i where i: "price_search (fin_points ps) (Fin x) 0 (length ps - 1) = (i, Suc i)"
    "Suc i < length ps" "fst (ps ! i) \<le> x" "x < fst (ps ! Suc i)"
    using price_search_bracket [of 0 "length ps - 1" ps x] ne by auto
  have "fst (ps ! Suc i) - fst (ps ! i) \<noteq> 0" using i(3,4) by simp
  then show ?thesis
    using False i scan_price_bracket [OF assms i(2-4)]
    by (auto simp: interpolatePrice_def)
qed

text \<open>
  C15: interpolatePrice, a binary search over the price history, returns for every finite
  timestamp the piecewise linear interpolation of the history, constant before its first and after
  its last point, whenever the timestamps are increasing; its loop always ends.
\<close>

theorem interpolatePrice_correct:
  assumes "increasing ps"
  shows "interpolatePrice (fin_points ps) (Fin x) = Fin (scan_price ps x)"
  by (rule interpolatePrice_scan [OF assms])

theorem interpolatePrice_correct_witness:
  "increasing [(0, 10), (100, 20), (300, 40)] \<and>
   interpolatePrice (fin_points [(0, 10), (100, 20), (300, 40)]) (Fin 200) = Fin 30"
proof -
  have inc: "increasing [(0, 10), (100, 20), (300, 40)]" by (simp add: increasing_def)
  show ?thesis using interpolatePrice_correct [OF inc, of 200] inc by simp
qed


section \<open>Aligned points\<close>

lemma convex_between:
  assumes "a \<le> p" "p \<le> b" "a \<le> q" "q \<le> b" "0 \<le> r" "r \<le> (1 :: real)"
  shows "a \<le> p + r * (q - p) \<and> p + r * (q - p) \<le> b"
proof -
  have eq: "p + r * (q - p) = (1 - r) * p + r * q" by (simp add: algebra_simps)
  have "(1 - r) * a + r * a \<le> (1 - r) * p + r * q"
    using assms by (intro add_mono mult_left_mono) auto
  moreover have "(1 - r) * p + r * q \<le> (1 - r) * b + r * b"
    using assms by (intro add_mono mult_left_mono) auto
  ultimately show ?thesis by (simp add: eq algebra_simps)
qed

lemma scan_price_between:
  "ps \<noteq> [] \<Longrightarrow> list_all (\<lambda>(_, p). a \<le> p \<and> p \<le> b) ps \<Longrightarrow> a \<le> scan_price ps x \<and> scan_price ps x \<le> b"
proof (induction ps x rule: scan_price.induct)
  case (3 t0 p0 t1 p1 ps x)
  then show ?case
    using convex_between [of a p0 b p1 "(x - t0) / (t1 - t0)"] by auto
qed auto

definition fin_rates :: "(real \<times> real) list \<Rightarrow> hashrate_point list" where
  "fin_rates hs = map (\<lambda>(t, h). \<lparr>hr_timestamp = Fin t, avgHashrate = Fin h\<rparr>) hs"

definition point_ok :: "real \<Rightarrow> real \<Rightarrow> real \<Rightarrow> MarketHistoryPoint \<Rightarrow> bool" where
  "point_ok cutoff a b p =
     (case (mh_timestamp p, mh_btcPrice p, mh_networkHashrate p, mh_hashprice p) of
        (Fin t, Fin q, Fin h, Fin hp) \<Rightarrow>
          cutoff \<le> t \<and> a \<le> q \<and> q \<le> b \<and> (if h > 0 then hp * (h / 10 ^ 15) = 450 * q else hp = 0)
      | _ \<Rightarrow> False)"

lemma align_point_ok:
  assumes "increasing ps" "ps \<noteq> []" "list_all (\<lambda>(_, p). a \<le> p \<and> p \<le> b) ps" "cutoff \<le> t * 1000"
  shows "point_ok cutoff a b (align_point (fin_points ps) \<lparr>hr_timestamp = Fin t, avgHashrate = Fin h\<rparr>)"
  using scan_price_between [OF assms(2,3), of "t * 1000"] assms(4)
  by (auto simp: align_point_def point_ok_def Let_def interpolatePrice_scan [OF assms(1)])

text \<open>
  C39: Every point alignData returns lies within the chosen range of days, carries a price between
  the lowest and the highest of the price history, and a hashprice that multiplied by the
  network hashrate in PH/s gives the 450 BTC a day of block subsidies at that price (zero when
  the hashrate is not positive); and no hashrate point within the range is dropped.
\<close>

theorem alignData_points:
  assumes "increasing ps" "ps \<noteq> []" "list_all (\<lambda>(_, p). a \<le> p \<and> p \<le> b) ps"
  shows "list_all (point_ok (now - of_int days * 86400000) a b)
           (alignData (Fin now) (fin_points ps) (fin_rates hs) days)
         \<and> map mh_timestamp (alignData (Fin now) (fin_points ps) (fin_rates hs) days)
             = map (\<lambda>(t, _). Fin (t * 1000)) (filter (\<lambda>(t, _). now - of_int days * 86400000 \<le> t * 1000) hs)"
proof -
  have "alignData (Fin now) (fin_points ps) (fin_rates hs) days =
    map (\<lambda>(t, h). align_point (fin_points ps) \<lparr>hr_timestamp = Fin t, avgHashrate = Fin h\<rparr>)
      (filter (\<lambda>(t, _). now - of_int days * 86400000 \<le> t * 1000) hs)"
    by (simp add: alignData_def fin_rates_def filter_map o_def case_prod_unfold)
  then show ?thesis
    using align_point_ok [OF assms]
    by (auto simp: list_all_iff align_point_def Let_def)
qed

theorem alignData_points_witness:
  "list_all (point_ok (100000000 - of_int 1 * 86400000) 10 20)
     (alignData (Fin 100000000) (fin_points [(0, 10), (90000000, 20)])
       (fin_rates [(1000, 5), (50000, 10 ^ 15)]) 1)"
proof -
  have "increasing [(0, 10), (90000000, 20)]" by (simp add: increasing_def)
  from alignData_points [OF this, of 10 20 100000000 1 "[(1000, 5), (50000, 10 ^ 15)]"]
  show ?thesis by simp
qed

end
