(* ===== verification/Sui_Rpc.thy ===== *)
theory Sui_Rpc
  imports Js_Json
begin

text \<open>
  What the hooks use of the Sui JSON-RPC client: pages of events read with a cursor, and objects
  read in batches. The node is a parameter (the functions \<open>queryEvents\<close> and \<open>multiGetObjects\<close>
  below are arguments); a request that fails, a member of null and a malformed integer are error
  values. The page loops of the hooks are instances of \<open>walk\<close>, and what a loop computes from the
  events is stated by the locale \<open>aggregator\<close>: a step function and the meaning of the events read
  so far.
\<close>

section \<open>Results\<close>

datatype rpc_error = RequestFailed | NoMember | BadBigInt

definition sum_bind :: "'e + 'a \<Rightarrow> ('a \<Rightarrow> 'e + 'b) \<Rightarrow> 'e + 'b" where
  "sum_bind m f = (case m of Inl e \<Rightarrow> Inl e | Inr x \<Rightarrow> f x)"

definition of_opt :: "'e \<Rightarrow> 'a option \<Rightarrow> 'e + 'a" where
  "of_opt e x = (case x of None \<Rightarrow> Inl e | Some y \<Rightarrow> Inr y)"

primrec sum_fold :: "('a \<Rightarrow> 'x \<Rightarrow> 'e + 'a) \<Rightarrow> 'a \<Rightarrow> 'x list \<Rightarrow> 'e + 'a" where
  "sum_fold step acc [] = Inr acc"
| "sum_fold step acc (x # xs) = sum_bind (step acc x) (\<lambda>acc'. sum_fold step acc' xs)"

primrec sum_map :: "('x \<Rightarrow> 'e + 'y) \<Rightarrow> 'x list \<Rightarrow> 'e + 'y list" where
  "sum_map f [] = Inr []"
| "sum_map f (x # xs) = sum_bind (f x) (\<lambda>y. sum_bind (sum_map f xs) (\<lambda>ys. Inr (y # ys)))"

lemma sum_bind_simps [simp]: "sum_bind (Inl e) f = Inl e" "sum_bind (Inr x) f = f x"
  by (simp_all add: sum_bind_def)

lemma of_opt_simps [simp]: "of_opt e None = Inl e" "of_opt e (Some x) = Inr x"
  by (simp_all add: of_opt_def)

lemma sum_bind_Inr [simp]: "sum_bind m f = Inr y \<longleftrightarrow> (\<exists>x. m = Inr x \<and> f x = Inr y)"
  by (cases m) auto

lemma of_opt_Inr [simp]: "of_opt e m = Inr x \<longleftrightarrow> m = Some x"
  by (cases m) auto

lemma sum_bind_assoc [simp]: "sum_bind (sum_bind m f) g = sum_bind m (\<lambda>x. sum_bind (f x) g)"
  by (cases m) auto

lemma sum_bind_right [simp]: "sum_bind m Inr = m"
  by (cases m) auto

lemma sum_fold_append:
  "sum_fold step acc (xs @ ys) = sum_bind (sum_fold step acc xs) (\<lambda>a. sum_fold step a ys)"
  by (induction xs arbitrary: acc) auto

lemma sum_map_Inr: "sum_map f xs = Inr ys \<longleftrightarrow> list_all2 (\<lambda>x y. f x = Inr y) xs ys"
  by (induction xs arbitrary: ys) (auto simp: list_all2_Cons1)

lemma sum_map_origin: "sum_map f xs = Inr ys \<Longrightarrow> y \<in> set ys \<Longrightarrow> \<exists>x \<in> set xs. f x = Inr y"
  by (induction xs arbitrary: ys) auto

lemma sum_fold_inv:
  assumes "sum_fold step acc xs = Inr acc'" "P acc"
    and "\<And>a x a'. P a \<Longrightarrow> step a x = Inr a' \<Longrightarrow> P a'"
  shows "P acc'"
  using assms(1,2) by (induction xs arbitrary: acc) (auto intro: assms(3))

section \<open>Event pages\<close>

record sui_event =
  parsedJson :: json
  timestampMs :: json
  txDigest :: string

record 'c event_page =
  page_data :: "sui_event list"
  hasNextPage :: bool
  nextCursor :: "'c option"

text \<open>
  \<open>for (page = 0; page < n && !stop; page++) { r = await query(cursor); for (ev of r.data) step;
  if (!r.hasNextPage || !r.nextCursor) break; cursor = r.nextCursor }\<close>
\<close>

primrec walk ::
  "nat \<Rightarrow> ('c option \<Rightarrow> rpc_error + 'c event_page) \<Rightarrow> ('a \<Rightarrow> bool)
     \<Rightarrow> ('a \<Rightarrow> sui_event \<Rightarrow> rpc_error + 'a) \<Rightarrow> 'c option \<Rightarrow> 'a \<Rightarrow> rpc_error + 'a" where
  "walk 0 query stop step cursor acc = Inr acc"
| "walk (Suc n) query stop step cursor acc =
     (if stop acc then Inr acc
      else sum_bind (query cursor) (\<lambda>r.
             sum_bind (sum_fold step acc (page_data r)) (\<lambda>acc'.
               if \<not> hasNextPage r \<or> nextCursor r = None then Inr acc'
               else walk n query stop step (nextCursor r) acc')))"

text \<open>The events that a loop of at most \<open>n\<close> pages reads.\<close>

primrec delivered ::
  "nat \<Rightarrow> ('c option \<Rightarrow> rpc_error + 'c event_page) \<Rightarrow> 'c option \<Rightarrow> rpc_error + sui_event list" where
  "delivered 0 query cursor = Inr []"
| "delivered (Suc n) query cursor =
     sum_bind (query cursor) (\<lambda>r.
       if \<not> hasNextPage r \<or> nextCursor r = None then Inr (page_data r)
       else sum_bind (delivered n query (nextCursor r)) (\<lambda>es. Inr (page_data r @ es)))"

text \<open>
  A node that serves the events \<open>es\<close> in pages of \<open>k\<close>, the cursor after \<open>i\<close> pages being \<open>cur i\<close>.
\<close>

definition serves_stream ::
  "('c option \<Rightarrow> rpc_error + 'c event_page) \<Rightarrow> (nat \<Rightarrow> 'c) \<Rightarrow> nat \<Rightarrow> sui_event list \<Rightarrow> bool" where
  "serves_stream query cur k es \<longleftrightarrow>
     (\<forall>i. query (if i = 0 then None else Some (cur i)) =
        Inr \<lparr>page_data = take k (drop (i * k) es), hasNextPage = (Suc i * k < length es),
             nextCursor = Some (cur (Suc i))\<rparr>)"

lemma delivered_from:
  assumes "serves_stream query cur k es"
  shows "delivered n query (if i = 0 then None else Some (cur i)) = Inr (take (n * k) (drop (i * k) es))"
proof (induction n arbitrary: i)
  case (Suc n)
  have q: "query (if i = 0 then None else Some (cur i)) =
        Inr \<lparr>page_data = take k (drop (i * k) es), hasNextPage = (Suc i * k < length es),
             nextCursor = Some (cur (Suc i))\<rparr>"
    using assms by (simp add: serves_stream_def)
  have split: "take (Suc n * k) (drop (i * k) es)
      = take k (drop (i * k) es) @ take (n * k) (drop (Suc i * k) es)"
    by (simp add: take_add drop_drop add.commute)
  show ?case
  proof (cases "Suc i * k < length es")
    case True
    then show ?thesis using Suc.IH [of "Suc i"] by (simp only: delivered.simps q split) simp
  next
    case False
    then have "drop (Suc i * k) es = []" by simp
    then show ?thesis using False by (simp only: delivered.simps q split) simp
  qed
qed simp

lemma delivered_stream:
  assumes "serves_stream query cur k es"
  shows "delivered n query None = Inr (take (n * k) es)"
  using delivered_from [OF assms, of n 0] by simp

section \<open>Aggregation of events\<close>

locale aggregator =
  fixes step :: "'a \<Rightarrow> sui_event \<Rightarrow> rpc_error + 'a"
    and meaning :: "sui_event list \<Rightarrow> 'a"
    and good :: "sui_event \<Rightarrow> bool"
  assumes step_meaning: "list_all good es \<Longrightarrow> good e \<Longrightarrow> step (meaning es) e = Inr (meaning (es @ [e]))"
begin

lemma fold_meaning:
  "list_all good (es @ es') \<Longrightarrow> sum_fold step (meaning es) es' = Inr (meaning (es @ es'))"
  by (induction es' arbitrary: es) (auto simp: step_meaning)

lemma meaning_idle:
  assumes "\<And>es e. list_all good es \<Longrightarrow> good e \<Longrightarrow> stop (meaning es) \<Longrightarrow> meaning (es @ [e]) = meaning es"
  shows "list_all good (es @ es') \<Longrightarrow> stop (meaning es) \<Longrightarrow> meaning (es @ es') = meaning es"
proof (induction es' arbitrary: es)
  case (Cons e es')
  have "meaning (es @ [e]) = meaning es" using Cons.prems assms [of es e] by simp
  with Cons.IH [of "es @ [e]"] Cons.prems show ?case by simp
qed simp

lemma walk_from:
  assumes idle: "\<And>es e. list_all good es \<Longrightarrow> good e \<Longrightarrow> stop (meaning es) \<Longrightarrow> meaning (es @ [e]) = meaning es"
    and "delivered n query cursor = Inr es'" "list_all good (es @ es')"
  shows "walk n query stop step cursor (meaning es) = Inr (meaning (es @ es'))"
  using assms(2,3)
proof (induction n arbitrary: cursor es es')
  case (Suc n)
  from Suc.prems(1) obtain r where r: "query cursor = Inr r" by auto
  show ?case
  proof (cases "stop (meaning es)")
    case True
    then show ?thesis using meaning_idle [of stop, OF idle Suc.prems(2)] by simp
  next
    case go: False
    show ?thesis
    proof (cases "\<not> hasNextPage r \<or> nextCursor r = None")
      case True
      then show ?thesis using Suc.prems r go by (simp add: fold_meaning)
    next
      case False
      then obtain es2 where es2: "delivered n query (nextCursor r) = Inr es2" "es' = page_data r @ es2"
        using Suc.prems(1) r by auto
      have "sum_fold step (meaning es) (page_data r) = Inr (meaning (es @ page_data r))"
        using Suc.prems(2) es2(2) by (intro fold_meaning) simp
      then show ?thesis
        using Suc.IH [OF es2(1), of "es @ page_data r"] Suc.prems(2) es2(2) r False go by auto
    qed
  qed
qed simp

lemma walk_stop_meaning:
  assumes "\<And>es e. list_all good es \<Longrightarrow> good e \<Longrightarrow> stop (meaning es) \<Longrightarrow> meaning (es @ [e]) = meaning es"
    and "delivered n query None = Inr es" "list_all good es"
  shows "walk n query stop step None (meaning []) = Inr (meaning es)"
  using walk_from [of stop n query None es "[]", OF assms(1)] assms(2,3) by simp

lemma walk_meaning:
  "delivered n query None = Inr es \<Longrightarrow> list_all good es \<Longrightarrow>
     walk n query (\<lambda>_. False) step None (meaning []) = Inr (meaning es)"
  by (rule walk_stop_meaning) auto

end

section \<open>Objects\<close>

record move_content =
  dataType :: string
  content_fields :: json

record sui_object =
  objectId :: string
  obj_type :: "string option"
  content :: "move_content option"

text \<open>
  Objects are requested in batches of at most 50 identifiers; a missing object has no data
  (\<open>None\<close>).
\<close>

function batch_loop ::
  "(json list \<Rightarrow> rpc_error + sui_object option list) \<Rightarrow> json list \<Rightarrow> nat \<Rightarrow> sui_object option list
     \<Rightarrow> rpc_error + sui_object option list" where
  "batch_loop multiGetObjects ids i out =
     (if i < length ids
      then sum_bind (multiGetObjects (take 50 (drop i ids)))
             (\<lambda>batch. batch_loop multiGetObjects ids (i + 50) (out @ batch))
      else Inr out)"
  by pat_completeness auto

termination batch_loop
  by (relation "measure (\<lambda>(_, ids, i, _). length ids - i)") auto

declare batch_loop.simps [simp del]

definition batchedMultiGet ::
  "(json list \<Rightarrow> rpc_error + sui_object option list) \<Rightarrow> json list \<Rightarrow> rpc_error + sui_object option list" where
  "batchedMultiGet multiGetObjects ids = batch_loop multiGetObjects ids 0 []"

lemma batch_loop_map:
  assumes "\<And>xs. length xs \<le> 50 \<Longrightarrow> multiGetObjects xs = Inr (map look xs)"
  shows "batch_loop multiGetObjects ids i out = Inr (out @ map look (drop i ids))"
proof (induction "length ids - i" arbitrary: i out rule: less_induct)
  case less
  show ?case
  proof (cases "i < length ids")
    case True
    have "multiGetObjects (take 50 (drop i ids)) = Inr (map look (take 50 (drop i ids)))"
      by (rule assms) simp
    moreover have "map look (drop i ids) = map look (take 50 (drop i ids)) @ map look (drop (i + 50) ids)"
      by (metis append_take_drop_id drop_drop map_append add.commute)
    ultimately show ?thesis using True less [of "i + 50"] by (subst batch_loop.simps) simp
  qed (simp add: batch_loop.simps)
qed

text \<open>
  Reading objects in batches of 50 gives one answer per identifier, in order, for every number
  of identifiers, with a node that only answers requests of at most 50.
\<close>

theorem batchedMultiGet_map:
  assumes "\<And>xs. length xs \<le> 50 \<Longrightarrow> multiGetObjects xs = Inr (map look xs)"
  shows "batchedMultiGet multiGetObjects ids = Inr (map look ids)"
  by (simp add: batchedMultiGet_def batch_loop_map [OF assms])

definition limited_node :: "(json \<Rightarrow> sui_object option) \<Rightarrow> json list \<Rightarrow> rpc_error + sui_object option list" where
  "limited_node look ids = (if length ids \<le> 50 then Inr (map look ids) else Inl RequestFailed)"

theorem batchedMultiGet_map_witness:
  "batchedMultiGet (limited_node (\<lambda>_. None)) (replicate 120 (JStr ''0x1''))
     = Inr (map (\<lambda>_. None) (replicate 120 (JStr ''0x1'')))"
  by (rule batchedMultiGet_map) (simp add: limited_node_def)


section \<open>The client\<close>

record 'c sui_client =
  queryEvents :: "string \<Rightarrow> nat \<Rightarrow> 'c option \<Rightarrow> rpc_error + 'c event_page"
  multiGetObjects :: "json list \<Rightarrow> rpc_error + sui_object option list"

text \<open>\<open>String(x ?? d)\<close> and \<open>BigInt(String(x ?? "0"))\<close>\<close>

definition str_or :: "(number \<Rightarrow> string) \<Rightarrow> json \<Rightarrow> string \<Rightarrow> string" where
  "str_or numStr x d = js_string numStr (or_default x (JStr d))"

definition big_or :: "(number \<Rightarrow> string) \<Rightarrow> json \<Rightarrow> rpc_error + int" where
  "big_or numStr x = of_opt BadBigInt (BigInt_str (str_or numStr x ''0''))"

definition event_member :: "sui_event \<Rightarrow> string \<Rightarrow> rpc_error + json" where
  "event_member e k = of_opt NoMember (member (parsedJson e) k)"

definition some_values :: "'a option list \<Rightarrow> 'a list" where
  "some_values xs = concat (map (\<lambda>x. case x of None \<Rightarrow> [] | Some y \<Rightarrow> [y]) xs)"

lemma set_some_values: "x \<in> set (some_values xs) \<longleftrightarrow> Some x \<in> set xs"
  by (induction xs) (auto simp: some_values_def split: option.split)

lemma str_or_JStr [simp]: "str_or numStr (JStr s) d = s" "str_or numStr JUndef d = d"
  by (simp_all add: str_or_def)

end
