(* ===== verification/Orders.thy ===== *)
theory Orders
  imports Sui_Rpc
begin

text \<open>
  Model of the order hooks: \<open>web/hooks/useHashpowerOrders.ts\<close> (hashpower orders of both lanes with
  their recent fills and the buyers' latest templates), \<open>web/hooks/useShareMarketOrders.ts\<close> (the
  order book of a HashShare pair), \<open>web/hooks/useMarketVolume.ts\<close> and
  \<open>web/hooks/useHashiRewardBatches.ts\<close>. Each query function is a function of the client; the
  package identifiers of the environment are arguments, and amounts are bigints. The page loops
  are instances of \<open>walk\<close>, and the locale \<open>aggregator\<close> is interpreted for their bodies.
\<close>

section \<open>Hashpower orders\<close>

datatype HashpowerOrderKind = V1 | V2

record OrderFill =
  fill_timestampMs :: int
  fill_miner :: string
  payout :: int
  fill_difficulty :: int
  fill_isBlock :: bool
  fill_templateId :: string

record HashpowerOrder =
  kind :: HashpowerOrderKind
  order_objectId :: string
  buyer :: string
  templateId :: "string option"
  latestTemplateId :: "string option"
  latestTemplateAtMs :: "int option"
  recentFills :: "OrderFill list"
  pricePerDifficulty :: int
  budget :: int
  expiresEpoch :: "int option"
  isDynamic :: bool
  quoteCoinType :: string

record lane_packages =
  HASHPOWER_LANE_PACKAGE_ID :: string
  HASHPOWER_LANE_V2_PACKAGE_ID :: string
  ORIGINAL_PACKAGE_ID :: string

definition parseOptionEpoch :: "(number \<Rightarrow> string) \<Rightarrow> json \<Rightarrow> rpc_error + int option" where
  "parseOptionEpoch numStr v =
     (if \<not> truthy v then Inr None
      else case get v ''vec'' of
             JArr (x # _) \<Rightarrow>
               sum_bind (of_opt BadBigInt (BigInt_str (js_string numStr x))) (\<lambda>n. Inr (Some n))
           | _ \<Rightarrow> Inr None)"

text \<open>
  One object of the answer: skipped (\<open>None\<close>) unless it is a Move object whose type has the
  prefix of the order struct; the quote coin type is what stands between the angle brackets.
\<close>

definition parse_order ::
  "(number \<Rightarrow> string) \<Rightarrow> HashpowerOrderKind \<Rightarrow> string \<Rightarrow> sui_object option
     \<Rightarrow> rpc_error + HashpowerOrder option" where
  "parse_order numStr k typePrefix obj =
     (case obj of
        None \<Rightarrow> Inr None
      | Some d \<Rightarrow>
          (case (content d, obj_type d) of
             (Some c, Some t) \<Rightarrow>
               (if dataType c \<noteq> ''moveObject'' \<or> \<not> startsWith t typePrefix then Inr None
                else let f = content_fields c in
                  sum_bind (big_or numStr (get f ''price_per_difficulty'')) (\<lambda>price.
                  sum_bind (big_or numStr (get f ''budget'')) (\<lambda>bud.
                  sum_bind (parseOptionEpoch numStr (get f ''expires_epoch'')) (\<lambda>epoch.
                    Inr (Some
                      \<lparr>kind = k, order_objectId = objectId d,
                       buyer = str_or numStr (get f ''buyer'') [],
                       templateId = (case k of V1 \<Rightarrow> Some (str_or numStr (get f ''template_id'') [])
                                             | V2 \<Rightarrow> None),
                       latestTemplateId = None, latestTemplateAtMs = None, recentFills = [],
                       pricePerDifficulty = price, budget = bud, expiresEpoch = epoch,
                       isDynamic = truthy (get f ''is_dynamic''),
                       quoteCoinType =
                         slice (int (length typePrefix)) (int (length t) - 1) t\<rparr>)))))
           | _ \<Rightarrow> Inr None))"

text \<open>The identifiers of placed orders, and the orders behind them.\<close>

definition placed_ids :: "'c event_page \<Rightarrow> rpc_error + json list" where
  "placed_ids events =
     sum_bind (sum_map (\<lambda>e. event_member e ''order_id'') (page_data events))
       (\<lambda>raw. Inr (filter truthy raw))"

definition collect_orders ::
  "(number \<Rightarrow> string) \<Rightarrow> 'c sui_client \<Rightarrow> HashpowerOrderKind \<Rightarrow> string \<Rightarrow> string \<Rightarrow> string
     \<Rightarrow> rpc_error + HashpowerOrder list" where
  "collect_orders numStr client k packageId eventName structName =
     sum_bind (queryEvents client (packageId @ ''::pool::'' @ eventName) 200 None) (\<lambda>events.
     sum_bind (placed_ids events) (\<lambda>ids.
       if ids = [] then Inr []
       else sum_bind (batchedMultiGet (multiGetObjects client) ids) (\<lambda>objects.
            sum_bind (sum_map (parse_order numStr k (packageId @ ''::pool::'' @ structName @ ''<'')) objects)
              (\<lambda>orders. Inr (some_values orders)))))"

definition collectV1Orders ::
  "(number \<Rightarrow> string) \<Rightarrow> 'c sui_client \<Rightarrow> lane_packages \<Rightarrow> rpc_error + HashpowerOrder list" where
  "collectV1Orders numStr client pkgs =
     (if HASHPOWER_LANE_PACKAGE_ID pkgs = [] then Inr []
      else collect_orders numStr client V1 (HASHPOWER_LANE_PACKAGE_ID pkgs)
             ''HashpowerBuyOrderPlaced'' ''HashpowerBuyOrder'')"

text \<open>
  The walk over \<open>TemplateRegistered\<close>, newest first, that finds every buyer's latest template. The
  state is the map built so far and the number of buyers still without one; once it is 0 both
  loops are left.
\<close>

definition template_hit :: "(number \<Rightarrow> string) \<Rightarrow> sui_event \<Rightarrow> rpc_error + (string \<times> int)" where
  "template_hit numStr ev =
     sum_bind (big_or numStr (or_default (get (parsedJson ev) ''timestamp_ms'') (timestampMs ev)))
       (\<lambda>atMs. Inr (js_string numStr (get (parsedJson ev) ''template_id''), atMs))"

definition latest_step ::
  "(number \<Rightarrow> string) \<Rightarrow> string list \<Rightarrow> (string \<Rightarrow> (string \<times> int) option) \<times> nat \<Rightarrow> sui_event
     \<Rightarrow> rpc_error + (string \<Rightarrow> (string \<times> int) option) \<times> nat" where
  "latest_step numStr buyers st ev =
     (case st of (latest, remaining) \<Rightarrow>
        if remaining = 0 then Inr st
        else sum_bind (event_member ev ''owner'') (\<lambda>own.
          case own of
            JStr b \<Rightarrow>
              (if b \<noteq> [] \<and> b \<in> set buyers \<and> latest b = None
               then sum_bind (template_hit numStr ev) (\<lambda>hit. Inr (latest(b \<mapsto> hit), remaining - 1))
               else Inr st)
          | _ \<Rightarrow> Inr st))"

definition latest_templates ::
  "(number \<Rightarrow> string) \<Rightarrow> 'c sui_client \<Rightarrow> lane_packages \<Rightarrow> string list
     \<Rightarrow> rpc_error + (string \<Rightarrow> (string \<times> int) option)" where
  "latest_templates numStr client pkgs buyers =
     (if ORIGINAL_PACKAGE_ID pkgs = [] then Inr (\<lambda>_. None)
      else sum_bind
             (walk 10 (queryEvents client (ORIGINAL_PACKAGE_ID pkgs @ ''::pool::TemplateRegistered'') 100)
                (\<lambda>(_, remaining). remaining = 0) (latest_step numStr buyers) None
                (\<lambda>_. None, length buyers))
             (\<lambda>(latest, _). Inr latest))"

definition with_latest ::
  "(string \<Rightarrow> (string \<times> int) option) \<Rightarrow> HashpowerOrder \<Rightarrow> HashpowerOrder" where
  "with_latest latest ord =
     (case latest (buyer ord) of
        None \<Rightarrow> ord
      | Some (tid, atMs) \<Rightarrow> ord\<lparr>latestTemplateId := Some tid, latestTemplateAtMs := Some atMs\<rparr>)"

definition collectV2Orders ::
  "(number \<Rightarrow> string) \<Rightarrow> 'c sui_client \<Rightarrow> lane_packages \<Rightarrow> rpc_error + HashpowerOrder list" where
  "collectV2Orders numStr client pkgs =
     (if HASHPOWER_LANE_V2_PACKAGE_ID pkgs = [] then Inr []
      else sum_bind
             (collect_orders numStr client V2 (HASHPOWER_LANE_V2_PACKAGE_ID pkgs)
                ''BuyerHashpowerOrderPlaced'' ''BuyerHashpowerOrder'') (\<lambda>raw.
           if raw = [] then Inr raw
           else let buyers = foldl js_set_add [] (map buyer raw) in
                sum_bind (latest_templates numStr client pkgs buyers)
                  (\<lambda>latest. Inr (map (with_latest latest) raw))))"

section \<open>Recent fills\<close>

definition fill_of :: "(number \<Rightarrow> string) \<Rightarrow> json \<Rightarrow> rpc_error + OrderFill" where
  "fill_of numStr j =
     sum_bind (big_or numStr (get j ''timestamp_ms'')) (\<lambda>ts.
     sum_bind (big_or numStr (get j ''payout'')) (\<lambda>pay.
     sum_bind (big_or numStr (get j ''difficulty'')) (\<lambda>diff.
       Inr \<lparr>fill_timestampMs = ts, fill_miner = str_or numStr (get j ''miner'') [], payout = pay,
            fill_difficulty = diff, fill_isBlock = truthy (get j ''is_block''),
            fill_templateId = str_or numStr (get j ''template_id'') []\<rparr>)))"

definition fills_step ::
  "(number \<Rightarrow> string) \<Rightarrow> string list \<Rightarrow> (string \<Rightarrow> OrderFill list option) \<Rightarrow> sui_event
     \<Rightarrow> rpc_error + (string \<Rightarrow> OrderFill list option)" where
  "fills_step numStr orderIds out ev =
     sum_bind (event_member ev ''order_id'') (\<lambda>raw.
       let oid = str_or numStr raw [];
           fills = (case out oid of None \<Rightarrow> [] | Some l \<Rightarrow> l) in
       if oid \<notin> set orderIds \<or> length fills \<ge> 5 then Inr out
       else sum_bind (fill_of numStr (parsedJson ev)) (\<lambda>fill. Inr (out(oid \<mapsto> fills @ [fill]))))"

definition collectFills ::
  "(number \<Rightarrow> string) \<Rightarrow> 'c sui_client \<Rightarrow> string list \<Rightarrow> string \<Rightarrow> string
     \<Rightarrow> rpc_error + (string \<Rightarrow> OrderFill list option)" where
  "collectFills numStr client orderIds originPackageId eventName =
     (if orderIds = [] \<or> originPackageId = [] then Inr (\<lambda>_. None)
      else walk 5 (queryEvents client (originPackageId @ ''::pool::'' @ eventName) 100) (\<lambda>_. False)
             (fills_step numStr orderIds) None (\<lambda>_. None))"

definition with_fills ::
  "(string \<Rightarrow> OrderFill list option) \<Rightarrow> (string \<Rightarrow> OrderFill list option) \<Rightarrow> HashpowerOrder \<Rightarrow> HashpowerOrder" where
  "with_fills v2Fills v1Fills ord =
     ord\<lparr>recentFills :=
       (case v2Fills (order_objectId ord) of
          Some l \<Rightarrow> l
        | None \<Rightarrow> (case v1Fills (order_objectId ord) of Some l \<Rightarrow> l | None \<Rightarrow> []))\<rparr>"

definition useHashpowerOrders ::
  "(number \<Rightarrow> string) \<Rightarrow> 'c sui_client \<Rightarrow> lane_packages \<Rightarrow> rpc_error + HashpowerOrder list" where
  "useHashpowerOrders numStr client pkgs =
     sum_bind (collectV1Orders numStr client pkgs) (\<lambda>v1.
     sum_bind (collectV2Orders numStr client pkgs) (\<lambda>v2.
       let orders = v2 @ v1;
           allOrderIds = foldl js_set_add [] (map order_objectId orders) in
     sum_bind (collectFills numStr client allOrderIds (HASHPOWER_LANE_V2_PACKAGE_ID pkgs)
                 ''BuyerHashpowerShareFilled'') (\<lambda>v2Fills.
     sum_bind (collectFills numStr client allOrderIds (HASHPOWER_LANE_PACKAGE_ID pkgs)
                 ''HashpowerShareFilled'') (\<lambda>v1Fills.
       Inr (js_sort (\<lambda>a b. Fin (of_int (pricePerDifficulty b - pricePerDifficulty a)))
              (map (with_fills v2Fills v1Fills) orders))))))"


section \<open>Market volume\<close>

record MarketVolume =
  quoteBaseUnits :: int
  fill_count :: nat
  fees :: int

definition truthy_big :: "(number \<Rightarrow> string) \<Rightarrow> json \<Rightarrow> rpc_error + int" where
  "truthy_big numStr x = (if truthy x then of_opt BadBigInt (BigInt_json numStr x) else Inr 0)"

definition volume_step ::
  "(number \<Rightarrow> string) \<Rightarrow> MarketVolume \<Rightarrow> sui_event \<Rightarrow> rpc_error + MarketVolume" where
  "volume_step numStr v ev =
     sum_bind (event_member ev ''gross_mist'') (\<lambda>gross.
     sum_bind (truthy_big numStr gross) (\<lambda>g.
     sum_bind (event_member ev ''fee_mist'') (\<lambda>fee.
     sum_bind (truthy_big numStr fee) (\<lambda>f.
       Inr (if g > 0
            then \<lparr>quoteBaseUnits = quoteBaseUnits v + g, fill_count = fill_count v + 1, fees = fees v + f\<rparr>
            else v)))))"

definition volume0 :: MarketVolume where
  "volume0 = \<lparr>quoteBaseUnits = 0, fill_count = 0, fees = 0\<rparr>"

definition useMarketVolume ::
  "(number \<Rightarrow> string) \<Rightarrow> 'c sui_client \<Rightarrow> string \<Rightarrow> rpc_error + MarketVolume" where
  "useMarketVolume numStr client originalPackageId =
     (if originalPackageId = [] then Inr volume0
      else sum_fold
             (\<lambda>acc t. walk 50 (queryEvents client t 100) (\<lambda>_. False) (volume_step numStr) None acc)
             volume0
             [originalPackageId @ ''::hash_share_market::BuyOrderFilled'',
              originalPackageId @ ''::hash_share_market::SellOrderFilled''])"

section \<open>The order book\<close>

datatype order_side = Bid | Ask

record ShareMarketOrder =
  side :: order_side
  so_objectId :: string
  so_owner :: string
  pricePerUnitMist :: int
  remaining :: int
  maxUnits :: int
  so_expiresEpoch :: "int option"

definition BUY_TYPE :: "string \<Rightarrow> string \<Rightarrow> string \<Rightarrow> string" where
  "BUY_TYPE packageId coin quot =
     packageId @ ''::hash_share_market::BuyOrder<'' @ coin @ '', '' @ quot @ ''>''"

definition SELL_TYPE :: "string \<Rightarrow> string \<Rightarrow> string \<Rightarrow> string" where
  "SELL_TYPE packageId coin quot =
     packageId @ ''::hash_share_market::SellOrder<'' @ coin @ '', '' @ quot @ ''>''"

definition book_entry ::
  "(number \<Rightarrow> string) \<Rightarrow> string \<Rightarrow> string \<Rightarrow> sui_object option \<Rightarrow> rpc_error + ShareMarketOrder option" where
  "book_entry numStr expectedBuy expectedSell obj =
     (case obj of
        None \<Rightarrow> Inr None
      | Some d \<Rightarrow>
          (case content d of
             None \<Rightarrow> Inr None
           | Some c \<Rightarrow>
               (let f = content_fields c in
                if dataType c \<noteq> ''moveObject'' then Inr None
                else if obj_type d = Some expectedBuy then
                  sum_bind (big_or numStr (get f ''price_per_unit_mist'')) (\<lambda>price.
                  sum_bind (big_or numStr (get f ''payment'')) (\<lambda>bud.
                  sum_bind (parseOptionEpoch numStr (get f ''expires_epoch'')) (\<lambda>epoch.
                    Inr (Some \<lparr>side = Bid, so_objectId = objectId d,
                               so_owner = str_or numStr (get f ''buyer'') [],
                               pricePerUnitMist = price, remaining = bud,
                               maxUnits = (if price > 0 then bigint_div bud price else 0),
                               so_expiresEpoch = epoch\<rparr>))))
                else if obj_type d = Some expectedSell then
                  sum_bind (big_or numStr (get f ''price_per_unit_mist'')) (\<lambda>price.
                  sum_bind (big_or numStr (get f ''inventory'')) (\<lambda>inventory.
                  sum_bind (parseOptionEpoch numStr (get f ''expires_epoch'')) (\<lambda>epoch.
                    Inr (Some \<lparr>side = Ask, so_objectId = objectId d,
                               so_owner = str_or numStr (get f ''seller'') [],
                               pricePerUnitMist = price, remaining = inventory,
                               maxUnits = inventory, so_expiresEpoch = epoch\<rparr>))))
                else Inr None)))"

definition useShareMarketOrders ::
  "(number \<Rightarrow> string) \<Rightarrow> 'c sui_client \<Rightarrow> string \<Rightarrow> string \<Rightarrow> string \<Rightarrow> string
     \<Rightarrow> rpc_error + ShareMarketOrder list \<times> ShareMarketOrder list" where
  "useShareMarketOrders numStr client packageId originalPackageId coinType quoteType =
     (if coinType = [] \<or> quoteType = [] \<or> originalPackageId = [] then Inr ([], [])
      else
        sum_bind (queryEvents client (originalPackageId @ ''::hash_share_market::BuyOrderPlaced'') 100 None) (\<lambda>buyEvents.
        sum_bind (queryEvents client (originalPackageId @ ''::hash_share_market::SellOrderPlaced'') 100 None) (\<lambda>sellEvents.
        sum_bind (placed_ids buyEvents) (\<lambda>buyIds.
        sum_bind (placed_ids sellEvents) (\<lambda>sellIds.
          let allIds = foldl js_set_add [] (buyIds @ sellIds) in
          if allIds = [] then Inr ([], [])
          else
            sum_bind (batchedMultiGet (multiGetObjects client) allIds) (\<lambda>objects.
            sum_bind (sum_map (book_entry numStr (BUY_TYPE packageId coinType quoteType)
                                 (SELL_TYPE packageId coinType quoteType)) objects) (\<lambda>entries.
              let orders = some_values entries;
                  bids = filter (\<lambda>x. side x = Bid) orders;
                  asks = filter (\<lambda>x. side x = Ask) orders in
              Inr (js_sort (\<lambda>a b. Fin (of_int (pricePerUnitMist b - pricePerUnitMist a))) bids,
                   js_sort (\<lambda>a b. Fin (of_int (pricePerUnitMist a - pricePerUnitMist b))) asks))))))))"

section \<open>Reward batches\<close>

record HashiRewardBatch =
  batchId :: json
  roundId :: int
  totalSats :: int
  claimDeadlineMs :: int
  batch_status :: nat

definition big_json :: "(number \<Rightarrow> string) \<Rightarrow> json \<Rightarrow> rpc_error + int" where
  "big_json numStr x = of_opt BadBigInt (BigInt_json numStr (or_default x (JStr ''0'')))"

definition created_map :: "sui_event list \<Rightarrow> (json \<times> json) list" where
  "created_map events =
     foldl (\<lambda>m e. let f = parsedJson e; b = get f ''batch_id'' in
                  if truthy b then js_map_set m b f else m) [] events"

definition funded_batch :: "(number \<Rightarrow> string) \<Rightarrow> sui_event \<Rightarrow> rpc_error + HashiRewardBatch option" where
  "funded_batch numStr e =
     (let f = parsedJson e; b = get f ''batch_id'' in
      if \<not> truthy b then Inr None
      else sum_bind (big_json numStr (get f ''round_id'')) (\<lambda>r.
           sum_bind (big_json numStr (get f ''total_sats'')) (\<lambda>sats.
           sum_bind (big_json numStr (get f ''claim_deadline_ms'')) (\<lambda>dl.
             Inr (Some \<lparr>batchId = b, roundId = r, totalSats = sats, claimDeadlineMs = dl,
                        batch_status = 1\<rparr>)))))"

definition pending_step ::
  "(number \<Rightarrow> string) \<Rightarrow> HashiRewardBatch list \<Rightarrow> json \<times> json \<Rightarrow> rpc_error + HashiRewardBatch list" where
  "pending_step numStr out entry =
     (case entry of (b, f) \<Rightarrow>
        if \<exists>x \<in> set out. batchId x = b then Inr out
        else sum_bind (big_json numStr (get f ''round_id'')) (\<lambda>r.
             sum_bind (big_json numStr (get f ''total_sats'')) (\<lambda>sats.
               Inr (out @ [\<lparr>batchId = b, roundId = r, totalSats = sats, claimDeadlineMs = 0,
                            batch_status = 0\<rparr>]))))"

definition useHashiRewardBatches ::
  "(number \<Rightarrow> string) \<Rightarrow> 'c sui_client \<Rightarrow> string \<Rightarrow> rpc_error + HashiRewardBatch list" where
  "useHashiRewardBatches numStr client originalPackageId =
     sum_bind (queryEvents client (originalPackageId @ ''::hashi_rewards::HashiBatchFunded'') 50 None) (\<lambda>funded.
     sum_bind (queryEvents client (originalPackageId @ ''::hashi_rewards::HashiBatchCreated'') 100 None) (\<lambda>created.
     sum_bind (sum_map (funded_batch numStr) (page_data funded)) (\<lambda>out.
     sum_bind (sum_fold (pending_step numStr) (some_values out) (created_map (page_data created))) (\<lambda>batches.
       Inr (js_sort (\<lambda>a b. Fin (of_int (roundId b - roundId a))) batches)))))"


section \<open>What the loops compute\<close>

definition order_key :: "(number \<Rightarrow> string) \<Rightarrow> sui_event \<Rightarrow> string" where
  "order_key numStr e = str_or numStr (get (parsedJson e) ''order_id'') []"

definition good_fill :: "(number \<Rightarrow> string) \<Rightarrow> sui_event \<Rightarrow> bool" where
  "good_fill numStr e \<longleftrightarrow> \<not> nullish (parsedJson e) \<and> \<not> isl (fill_of numStr (parsedJson e))"

definition recent_fills ::
  "(number \<Rightarrow> string) \<Rightarrow> string list \<Rightarrow> sui_event list \<Rightarrow> string \<Rightarrow> OrderFill list option" where
  "recent_fills numStr orderIds es k =
     (let hits = filter (\<lambda>e. order_key numStr e = k) es in
      if k \<in> set orderIds \<and> hits \<noteq> []
      then Some (map (\<lambda>e. projr (fill_of numStr (parsedJson e))) (take 5 hits)) else None)"

lemma recent_fills_Nil [simp]: "recent_fills numStr orderIds [] = (\<lambda>_. None)"
  by (simp add: recent_fills_def fun_eq_iff)

lemma event_member_ok [simp]: "\<not> nullish (parsedJson e) \<Longrightarrow> event_member e k = Inr (get (parsedJson e) k)"
  by (simp add: event_member_def member_def)

lemma fills_step_meaning:
  assumes "good_fill numStr e"
  shows "fills_step numStr orderIds (recent_fills numStr orderIds es) e
           = Inr (recent_fills numStr orderIds (es @ [e]))"
proof -
  define k where "k = order_key numStr e"
  define hits where "hits = filter (\<lambda>x. order_key numStr x = k) es"
  obtain f where f: "fill_of numStr (parsedJson e) = Inr f" and m: "\<not> nullish (parsedJson e)"
    using assms by (auto simp: good_fill_def isl_def) (metis sum.exhaust)
  have other: "recent_fills numStr orderIds (es @ [e]) j = recent_fills numStr orderIds es j" if "j \<noteq> k" for j
    using that by (simp add: recent_fills_def k_def)
  have old: "(case recent_fills numStr orderIds es k of None \<Rightarrow> [] | Some l \<Rightarrow> l)
      = (if k \<in> set orderIds then map (\<lambda>e. projr (fill_of numStr (parsedJson e))) (take 5 hits) else [])"
    by (simp add: recent_fills_def hits_def Let_def)
  have new: "recent_fills numStr orderIds (es @ [e]) k =
      (if k \<in> set orderIds then Some (map (\<lambda>e. projr (fill_of numStr (parsedJson e))) (take 5 (hits @ [e]))) else None)"
    by (simp add: recent_fills_def hits_def k_def)
  have unchanged: "recent_fills numStr orderIds es k = recent_fills numStr orderIds (es @ [e]) k"
    if "k \<notin> set orderIds \<or> 5 \<le> length hits"
    using that by (auto simp: new) (auto simp: recent_fills_def hits_def Let_def)
  show ?thesis
  proof (cases "k \<notin> set orderIds \<or> 5 \<le> length hits")
    case True
    then have "recent_fills numStr orderIds (es @ [e]) = recent_fills numStr orderIds es"
      using other unchanged by (intro ext) metis
    then show ?thesis
      using True m old by (auto simp: fills_step_def Let_def k_def [symmetric, unfolded order_key_def])
  next
    case False
    then have "(recent_fills numStr orderIds es)(k \<mapsto> map (\<lambda>e. projr (fill_of numStr (parsedJson e))) (take 5 hits) @ [f])
        = recent_fills numStr orderIds (es @ [e])"
      using other new f by (intro ext) auto
    then show ?thesis
      using False m old f by (auto simp: fills_step_def Let_def k_def [symmetric, unfolded order_key_def])
  qed
qed

interpretation fills: aggregator "fills_step numStr orderIds" "recent_fills numStr orderIds" "good_fill numStr"
  for numStr orderIds
  by unfold_locales (rule fills_step_meaning)


text \<open>
  For every tracked order collectFills returns its (at most five) most recent fills, newest
  first: the first five fill events of that order among the five pages of 100 it reads, and
  nothing for an order without fills or one that is not tracked.
\<close>

theorem collectFills_recent:
  assumes "orderIds \<noteq> []" "pkg \<noteq> []"
    and "serves_stream (queryEvents client (pkg @ ''::pool::'' @ eventName) 100) cur 100 es"
    and "list_all (good_fill numStr) es"
  shows "collectFills numStr client orderIds pkg eventName
           = Inr (recent_fills numStr orderIds (take 500 es))"
proof -
  have "list_all (good_fill numStr) (take 500 es)"
    using assms(4) by (auto simp: list_all_iff dest: in_set_takeD)
  with delivered_stream [OF assms(3), of 5] fills.walk_meaning [of 5 _ "take 500 es" numStr orderIds]
  show ?thesis using assms(1,2) by (simp add: collectFills_def)
qed

definition no_objects :: "json list \<Rightarrow> rpc_error + sui_object option list" where
  "no_objects ids = Inr (map (\<lambda>_. None) ids)"

text \<open>A node that serves one stream of events, its cursors being page numbers.\<close>

definition stream_client :: "(string \<Rightarrow> sui_event list) \<Rightarrow> nat sui_client" where
  "stream_client es =
     \<lparr>queryEvents = (\<lambda>t k c. let i = (case c of None \<Rightarrow> 0 | Some n \<Rightarrow> n) in
        Inr \<lparr>page_data = take k (drop (i * k) (es t)), hasNextPage = (Suc i * k < length (es t)),
             nextCursor = Some (Suc i)\<rparr>),
      multiGetObjects = no_objects\<rparr>"

lemma stream_client_serves: "serves_stream (queryEvents (stream_client es) t k) (\<lambda>i. i) k (es t)"
  by (simp add: serves_stream_def stream_client_def)

definition demo_fill_event :: sui_event where
  "demo_fill_event =
     \<lparr>parsedJson = JObj [(''order_id'', JStr ''0xa''), (''payout'', JStr ''12''),
        (''difficulty'', JStr ''3''), (''timestamp_ms'', JStr ''7''), (''miner'', JStr ''0xb''),
        (''is_block'', JBool False), (''template_id'', JStr ''0xc'')],
      timestampMs = JUndef, txDigest = ''d''\<rparr>"

lemma demo_fill_good: "good_fill (\<lambda>_. []) demo_fill_event"
  by (simp add: good_fill_def demo_fill_event_def fill_of_def big_or_def str_or_def obj_get_def
      bigint_eval)

theorem collectFills_recent_witness:
  "collectFills (\<lambda>_. []) (stream_client (\<lambda>_. replicate 7 demo_fill_event)) [''0xa''] ''0x1'' ''HashpowerShareFilled''
     = Inr (recent_fills (\<lambda>_. []) [''0xa''] (replicate 7 demo_fill_event))"
proof -
  have "list_all (good_fill (\<lambda>_. [])) (replicate 7 demo_fill_event)"
    using demo_fill_good by (simp add: list_all_iff)
  from collectFills_recent [OF _ _ stream_client_serves this, of "[''0xa'']" "''0x1''" "''HashpowerShareFilled''"]
  show ?thesis by (simp add: min_def)
qed

section \<open>Volume\<close>

definition gross_of :: "(number \<Rightarrow> string) \<Rightarrow> sui_event \<Rightarrow> int" where
  "gross_of numStr e = projr (truthy_big numStr (get (parsedJson e) ''gross_mist''))"

definition fee_of :: "(number \<Rightarrow> string) \<Rightarrow> sui_event \<Rightarrow> int" where
  "fee_of numStr e = projr (truthy_big numStr (get (parsedJson e) ''fee_mist''))"

definition good_trade :: "(number \<Rightarrow> string) \<Rightarrow> sui_event \<Rightarrow> bool" where
  "good_trade numStr e \<longleftrightarrow>
     \<not> nullish (parsedJson e) \<and>
     \<not> isl (truthy_big numStr (get (parsedJson e) ''gross_mist'')) \<and>
     \<not> isl (truthy_big numStr (get (parsedJson e) ''fee_mist''))"

definition volume_of :: "(number \<Rightarrow> string) \<Rightarrow> sui_event list \<Rightarrow> MarketVolume" where
  "volume_of numStr es =
     (let trades = filter (\<lambda>e. gross_of numStr e > 0) es in
      \<lparr>quoteBaseUnits = sum_list (map (gross_of numStr) trades), fill_count = length trades,
       fees = sum_list (map (fee_of numStr) trades)\<rparr>)"

lemma not_isl_projr: "\<not> isl x \<Longrightarrow> x = Inr (projr x)"
  by (cases x) auto

interpretation volume: aggregator "volume_step numStr" "volume_of numStr" "good_trade numStr"
  for numStr
proof unfold_locales
  fix es e
  assume "good_trade numStr e"
  then have "\<not> nullish (parsedJson e)"
    "truthy_big numStr (get (parsedJson e) ''gross_mist'') = Inr (gross_of numStr e)"
    "truthy_big numStr (get (parsedJson e) ''fee_mist'') = Inr (fee_of numStr e)"
    by (auto simp: good_trade_def gross_of_def fee_of_def not_isl_projr)
  then show "volume_step numStr (volume_of numStr es) e = Inr (volume_of numStr (es @ [e]))"
    by (simp add: volume_step_def volume_of_def Let_def)
qed

lemma volume0_meaning: "volume0 = volume_of numStr []"
  by (simp add: volume0_def volume_of_def)

text \<open>
  The market volume is the sum of the gross amounts, the count and the fees of the trades with
  a positive gross amount among the newest 5000 buy fills and the newest 5000 sell fills.
\<close>

theorem useMarketVolume_total:
  assumes "pkg \<noteq> []"
    and "serves_stream (queryEvents client (pkg @ ''::hash_share_market::BuyOrderFilled'') 100) cur 100 buys"
    and "serves_stream (queryEvents client (pkg @ ''::hash_share_market::SellOrderFilled'') 100) cur' 100 sells"
    and "list_all (good_trade numStr) (buys @ sells)"
  shows "useMarketVolume numStr client pkg
           = Inr (volume_of numStr (take 5000 buys @ take 5000 sells))"
proof -
  have good: "list_all (good_trade numStr) (take 5000 buys @ take 5000 sells)"
    using assms(4) by (auto simp: list_all_iff dest: in_set_takeD)
  have 1: "walk 50 (queryEvents client (pkg @ ''::hash_share_market::BuyOrderFilled'') 100) (\<lambda>_. False)
      (volume_step numStr) None (volume_of numStr []) = Inr (volume_of numStr (take 5000 buys))"
    using delivered_stream [OF assms(2), of 50] good by (intro volume.walk_meaning) auto
  have 2: "walk 50 (queryEvents client (pkg @ ''::hash_share_market::SellOrderFilled'') 100) (\<lambda>_. False)
      (volume_step numStr) None (volume_of numStr (take 5000 buys))
        = Inr (volume_of numStr (take 5000 buys @ take 5000 sells))"
    using delivered_stream [OF assms(3), of 50] good by (intro volume.walk_from) auto
  show ?thesis
    using assms(1) 1 2 by (simp add: useMarketVolume_def volume0_meaning [of numStr])
qed

definition demo_trade :: sui_event where
  "demo_trade = \<lparr>parsedJson = JObj [(''gross_mist'', JStr ''50''), (''fee_mist'', JStr ''2'')],
                 timestampMs = JUndef, txDigest = ''t''\<rparr>"

theorem useMarketVolume_total_witness:
  "useMarketVolume (\<lambda>_. []) (stream_client (\<lambda>_. replicate 3 demo_trade)) ''0x1''
     = Inr \<lparr>quoteBaseUnits = 300, fill_count = 6, fees = 12\<rparr>"
proof -
  have digits: "BigInt_str ''50'' = Some 50" "BigInt_str ''2'' = Some 2"
    by (simp_all add: bigint_eval digits_val_def)
  then have vals: "gross_of (\<lambda>_. []) demo_trade = 50" "fee_of (\<lambda>_. []) demo_trade = 2"
    by (simp_all add: gross_of_def fee_of_def demo_trade_def truthy_big_def obj_get_def)
  have "list_all (good_trade (\<lambda>_. [])) (replicate 3 demo_trade @ replicate 3 demo_trade)"
    using digits by (simp add: list_all_iff good_trade_def demo_trade_def truthy_big_def obj_get_def)
  from useMarketVolume_total [OF _ stream_client_serves stream_client_serves this, of "''0x1''"]
  show ?thesis by (simp add: volume_of_def vals Let_def numeral_eq_Suc)
qed


section \<open>Latest templates\<close>

definition good_template :: "(number \<Rightarrow> string) \<Rightarrow> sui_event \<Rightarrow> bool" where
  "good_template numStr e \<longleftrightarrow> \<not> nullish (parsedJson e) \<and> \<not> isl (template_hit numStr e)"

definition newest_template ::
  "(number \<Rightarrow> string) \<Rightarrow> string list \<Rightarrow> sui_event list \<Rightarrow> string \<Rightarrow> (string \<times> int) option" where
  "newest_template numStr buyers es b =
     (if b \<noteq> [] \<and> b \<in> set buyers
      then map_option (\<lambda>e. projr (template_hit numStr e))
             (find (\<lambda>e. get (parsedJson e) ''owner'' = JStr b) es)
      else None)"

definition latest_meaning ::
  "(number \<Rightarrow> string) \<Rightarrow> string list \<Rightarrow> sui_event list \<Rightarrow> (string \<Rightarrow> (string \<times> int) option) \<times> nat" where
  "latest_meaning numStr buyers es =
     (newest_template numStr buyers es,
      length (filter (\<lambda>b. newest_template numStr buyers es b = None) buyers))"

lemma find_snoc: "find P (xs @ [x]) = (case find P xs of Some y \<Rightarrow> Some y | None \<Rightarrow> if P x then Some x else None)"
  by (induction xs) auto

lemma newest_template_snoc:
  "newest_template numStr buyers (es @ [e]) b =
     (case newest_template numStr buyers es b of
        Some h \<Rightarrow> Some h
      | None \<Rightarrow> if b \<noteq> [] \<and> b \<in> set buyers \<and> get (parsedJson e) ''owner'' = JStr b
               then Some (projr (template_hit numStr e)) else None)"
  by (auto simp: newest_template_def find_snoc split: option.split)

lemma length_filter_remove:
  assumes "distinct xs" "b \<in> set xs" "P b"
  shows "length (filter (\<lambda>x. P x \<and> x \<noteq> b) xs) = length (filter P xs) - 1"
proof -
  have "filter (\<lambda>x. P x \<and> x \<noteq> b) xs = filter (\<lambda>x. x \<noteq> b) (filter P xs)" by (simp add: conj_commute)
  also have "\<dots> = remove1 b (filter P xs)"
    using assms(1) by (simp add: distinct_remove1_removeAll removeAll_filter_not_eq eq_commute)
  finally show ?thesis using assms(2,3) by (simp add: length_remove1)
qed

lemma latest_step_meaning:
  assumes "distinct buyers" "good_template numStr e"
  shows "latest_step numStr buyers (latest_meaning numStr buyers es) e
           = Inr (latest_meaning numStr buyers (es @ [e]))"
proof -
  let ?new = "newest_template numStr buyers"
  obtain tid at_ms where hit: "template_hit numStr e = Inr (tid, at_ms)" and m: "\<not> nullish (parsedJson e)"
    using assms(2) by (cases "template_hit numStr e") (auto simp: good_template_def)
  show ?thesis
  proof (cases "\<exists>b. get (parsedJson e) ''owner'' = JStr b \<and> b \<noteq> [] \<and> b \<in> set buyers \<and> ?new es b = None")
    case True
    then obtain b where b: "get (parsedJson e) ''owner'' = JStr b" "b \<noteq> []" "b \<in> set buyers" "?new es b = None"
      by auto
    have new: "?new (es @ [e]) = (?new es)(b \<mapsto> (tid, at_ms))"
      using b hit by (auto simp: newest_template_snoc fun_eq_iff split: option.split)
    have "(\<lambda>x. ?new (es @ [e]) x = None) = (\<lambda>x. ?new es x = None \<and> x \<noteq> b)" by (auto simp: new)
    then have len: "length (filter (\<lambda>x. ?new (es @ [e]) x = None) buyers)
        = length (filter (\<lambda>x. ?new es x = None) buyers) - 1"
      using length_filter_remove [OF assms(1) b(3), of "\<lambda>x. ?new es x = None"] b(4) by simp
    have "b \<in> set (filter (\<lambda>x. ?new es x = None) buyers)" using b(3,4) by simp
    then have "filter (\<lambda>x. ?new es x = None) buyers \<noteq> []" by (metis list.set(1) empty_iff)
    then show ?thesis
      using b hit m len
      by (simp add: latest_step_def latest_meaning_def new)
  next
    case False
    then have new: "?new (es @ [e]) = ?new es"
      by (auto simp: newest_template_snoc fun_eq_iff split: option.split)
    show ?thesis
      using False m by (auto simp: latest_step_def latest_meaning_def new split: json.split)
  qed
qed

lemma latest_meaning_idle:
  assumes "snd (latest_meaning numStr buyers es) = 0"
  shows "latest_meaning numStr buyers (es @ [e]) = latest_meaning numStr buyers es"
proof -
  have hit: "newest_template numStr buyers es b \<noteq> None" if "b \<in> set buyers" for b
    using assms that by (auto simp: latest_meaning_def filter_empty_conv)
  have "newest_template numStr buyers (es @ [e]) b = newest_template numStr buyers es b" for b
    using hit [of b] by (cases "newest_template numStr buyers es b") (auto simp: newest_template_snoc)
  then have "newest_template numStr buyers (es @ [e]) = newest_template numStr buyers es" by (rule ext)
  then show ?thesis by (simp add: latest_meaning_def)
qed

interpretation latest: aggregator "latest_step numStr (remdups buyers)" "latest_meaning numStr (remdups buyers)"
  "good_template numStr"
  for numStr buyers
  by unfold_locales (rule latest_step_meaning [OF distinct_remdups])

lemma latest_templates_walk:
  assumes "distinct buyers" "ORIGINAL_PACKAGE_ID pkgs \<noteq> []"
    and "serves_stream (queryEvents client (ORIGINAL_PACKAGE_ID pkgs @ ''::pool::TemplateRegistered'') 100) cur 100 es"
    and "list_all (good_template numStr) es"
  shows "latest_templates numStr client pkgs buyers = Inr (newest_template numStr buyers (take 1000 es))"
proof -
  have rd: "remdups buyers = buyers" using assms(1) by (simp add: distinct_remdups_id)
  have good: "list_all (good_template numStr) (take 1000 es)"
    using assms(4) by (auto simp: list_all_iff dest: in_set_takeD)
  have "walk 10 (queryEvents client (ORIGINAL_PACKAGE_ID pkgs @ ''::pool::TemplateRegistered'') 100)
      (\<lambda>(_, remaining). remaining = 0) (latest_step numStr (remdups buyers)) None
      (latest_meaning numStr (remdups buyers) []) = Inr (latest_meaning numStr (remdups buyers) (take 1000 es))"
    using delivered_stream [OF assms(3), of 10] good
    by (intro latest.walk_stop_meaning) (auto simp: case_prod_unfold intro: latest_meaning_idle)
  moreover have "latest_meaning numStr buyers [] = (\<lambda>_. None, length buyers)"
    by (auto simp: latest_meaning_def newest_template_def fun_eq_iff)
  ultimately show ?thesis
    using assms(2) rd by (simp add: latest_templates_def latest_meaning_def)
qed

text \<open>
  The template attached to a buyer is the one of the buyer's newest TemplateRegistered event
  among the 1000 newest, although the walk stops as soon as every buyer has been seen.
\<close>

theorem latest_templates_newest:
  assumes "distinct buyers" "ORIGINAL_PACKAGE_ID pkgs \<noteq> []"
    and "serves_stream (queryEvents client (ORIGINAL_PACKAGE_ID pkgs @ ''::pool::TemplateRegistered'') 100) cur 100 es"
    and "list_all (good_template numStr) es"
  shows "latest_templates numStr client pkgs buyers = Inr (newest_template numStr buyers (take 1000 es))"
  by (rule latest_templates_walk [OF assms])

definition demo_packages :: lane_packages where
  "demo_packages = \<lparr>HASHPOWER_LANE_PACKAGE_ID = ''0x1'', HASHPOWER_LANE_V2_PACKAGE_ID = ''0x4'',
                    ORIGINAL_PACKAGE_ID = ''0x0''\<rparr>"

definition demo_template_event :: "string \<Rightarrow> string \<Rightarrow> sui_event" where
  "demo_template_event own tid =
     \<lparr>parsedJson = JObj [(''owner'', JStr own), (''template_id'', JStr tid)],
      timestampMs = JStr ''9'', txDigest = ''t''\<rparr>"

theorem latest_templates_newest_witness:
  "latest_templates (\<lambda>_. []) (stream_client (\<lambda>_. [demo_template_event ''0xb'' ''0x2'', demo_template_event ''0xb'' ''0x1'']))
     demo_packages [''0xb'']
   = Inr (newest_template (\<lambda>_. []) [''0xb''] [demo_template_event ''0xb'' ''0x2'', demo_template_event ''0xb'' ''0x1''])"
proof -
  let ?es = "[demo_template_event ''0xb'' ''0x2'', demo_template_event ''0xb'' ''0x1'']"
  have "list_all (good_template (\<lambda>_. [])) ?es"
    by (simp add: good_template_def demo_template_event_def template_hit_def big_or_def str_or_def
        obj_get_def bigint_eval)
  moreover have "ORIGINAL_PACKAGE_ID demo_packages \<noteq> []" by (simp add: demo_packages_def)
  ultimately show ?thesis
    using latest_templates_newest [OF _ _ stream_client_serves, of "[''0xb'']" demo_packages "\<lambda>_. []" "\<lambda>_. ?es"]
    by simp
qed


section \<open>Sorted orders, books and batches\<close>

definition few_fills :: "(string \<Rightarrow> OrderFill list option) \<Rightarrow> bool" where
  "few_fills out \<longleftrightarrow> (\<forall>k l. out k = Some l \<longrightarrow> length l \<le> 5)"

lemma few_fills_step: "few_fills out \<Longrightarrow> fills_step numStr ids out e = Inr out' \<Longrightarrow> few_fills out'"
  by (auto simp: fills_step_def few_fills_def Let_def split: if_splits option.splits)

lemma walk_inv:
  assumes "walk n query stop step cursor acc = Inr acc'" "P acc"
    and "\<And>a x a'. P a \<Longrightarrow> step a x = Inr a' \<Longrightarrow> P a'"
  shows "P acc'"
  using assms(1,2)
proof (induction n arbitrary: cursor acc)
  case (Suc n)
  then show ?case
    by (auto split: if_splits dest: sum_fold_inv [where P = P, OF _ _ assms(3)])
qed simp

lemma collectFills_few: "collectFills numStr client ids pkg ev = Inr out \<Longrightarrow> few_fills out"
  by (auto simp: collectFills_def few_fills_def [of "\<lambda>_. None"] split: if_splits
      intro: walk_inv [where P = few_fills] few_fills_step)

text \<open>What parse_order and the collectors guarantee of each order, before the fills are attached.\<close>

definition order_wf :: "lane_packages \<Rightarrow> HashpowerOrder \<Rightarrow> bool" where
  "order_wf pkgs ord \<longleftrightarrow>
     (case kind ord of
        V1 \<Rightarrow> HASHPOWER_LANE_PACKAGE_ID pkgs \<noteq> [] \<and> templateId ord \<noteq> None \<and> latestTemplateId ord = None
      | V2 \<Rightarrow> HASHPOWER_LANE_V2_PACKAGE_ID pkgs \<noteq> [] \<and> templateId ord = None) \<and>
     (latestTemplateId ord = None \<longleftrightarrow> latestTemplateAtMs ord = None)"

lemma parse_order_fields:
  "parse_order numStr k pre obj = Inr (Some ord) \<Longrightarrow>
     kind ord = k \<and> (templateId ord = None \<longleftrightarrow> k = V2) \<and> latestTemplateId ord = None \<and> latestTemplateAtMs ord = None"
  by (auto simp: parse_order_def Let_def split: option.splits if_splits HashpowerOrderKind.splits)

lemma collect_orders_fields:
  assumes "collect_orders numStr client k pkg ev st = Inr orders" "ord \<in> set orders"
  shows "kind ord = k \<and> (templateId ord = None \<longleftrightarrow> k = V2) \<and> latestTemplateId ord = None \<and> latestTemplateAtMs ord = None"
proof -
  obtain objects entries where
    "sum_map (parse_order numStr k (pkg @ ''::pool::'' @ st @ ''<'')) objects = Inr entries"
    "Some ord \<in> set entries"
    using assms by (auto simp: collect_orders_def set_some_values split: if_splits)
  then obtain obj where "parse_order numStr k (pkg @ ''::pool::'' @ st @ ''<'') obj = Inr (Some ord)"
    by (blast dest: sum_map_origin)
  then show ?thesis by (rule parse_order_fields)
qed

lemma with_latest_fields:
  assumes "kind ord = V2" "templateId ord = None" "latestTemplateId ord = None" "latestTemplateAtMs ord = None"
  shows "kind (with_latest l ord) = V2 \<and> templateId (with_latest l ord) = None \<and>
    (latestTemplateId (with_latest l ord) = None \<longleftrightarrow> latestTemplateAtMs (with_latest l ord) = None)"
  using assms by (auto simp: with_latest_def split: option.split)

lemma collectV1Orders_wf:
  "collectV1Orders numStr client pkgs = Inr orders \<Longrightarrow> ord \<in> set orders \<Longrightarrow> order_wf pkgs ord"
  by (auto simp: collectV1Orders_def order_wf_def split: if_splits dest!: collect_orders_fields)

lemma collectV2Orders_wf:
  assumes "collectV2Orders numStr client pkgs = Inr orders" "ord \<in> set orders"
  shows "order_wf pkgs ord"
proof -
  obtain raw l x where raw: "collect_orders numStr client V2 (HASHPOWER_LANE_V2_PACKAGE_ID pkgs)
      ''BuyerHashpowerOrderPlaced'' ''BuyerHashpowerOrder'' = Inr raw" "x \<in> set raw" "ord = with_latest l x"
    and ne: "HASHPOWER_LANE_V2_PACKAGE_ID pkgs \<noteq> []"
    using assms by (auto simp: collectV2Orders_def Let_def split: if_splits)
  show ?thesis
    using collect_orders_fields [OF raw(1,2)] with_latest_fields [of x l] ne
    by (auto simp: order_wf_def raw(3))
qed

lemma order_wf_with_fills [simp]: "order_wf pkgs (with_fills a b ord) = order_wf pkgs ord"
  by (simp add: order_wf_def with_fills_def split: HashpowerOrderKind.split)

lemma length_with_fills:
  "few_fills a \<Longrightarrow> few_fills b \<Longrightarrow> length (recentFills (with_fills a b ord)) \<le> 5"
  by (auto simp: with_fills_def few_fills_def split: option.split)

text \<open>
  Whenever useHashpowerOrders succeeds, the orders are sorted by price per difficulty, the
  highest first, every order has at most five recent fills, and the fields of each lane are
  consistent: a V1 order has its pinned template and no latest one, a V2 order has no pinned
  template, and its latest template comes with its time.
\<close>

theorem useHashpowerOrders_sorted:
  assumes "useHashpowerOrders numStr client pkgs = Inr orders"
  shows "sorted_wrt (\<lambda>a b. pricePerDifficulty b \<le> pricePerDifficulty a) orders
    \<and> list_all (\<lambda>ord. order_wf pkgs ord \<and> length (recentFills ord) \<le> 5) orders"
proof -
  obtain v1 v2 f2 f1 where v: "collectV1Orders numStr client pkgs = Inr v1"
    "collectV2Orders numStr client pkgs = Inr v2" and f: "few_fills f2" "few_fills f1"
    and orders: "orders = js_sort (\<lambda>a b. Fin (of_int (pricePerDifficulty b - pricePerDifficulty a)))
        (map (with_fills f2 f1) (v2 @ v1))"
    using assms by (auto simp: useHashpowerOrders_def Let_def dest!: collectFills_few)
  have "list_all (\<lambda>ord. order_wf pkgs ord \<and> length (recentFills ord) \<le> 5) orders"
    using collectV1Orders_wf [OF v(1)] collectV2Orders_wf [OF v(2)] length_with_fills [OF f]
    by (auto simp: list_all_iff orders)
  then show ?thesis using js_sort_int_desc orders by blast
qed


definition demo_order_object :: sui_object where
  "demo_order_object =
     \<lparr>objectId = ''0xa'', obj_type = Some ''0x1::pool::HashpowerBuyOrder<0x2::sui::SUI>'',
      content = Some \<lparr>dataType = ''moveObject'',
        content_fields = JObj [(''buyer'', JStr ''0xb''), (''template_id'', JStr ''0xc''),
          (''price_per_difficulty'', JStr ''5''), (''budget'', JStr ''40''), (''is_dynamic'', JBool True)]\<rparr>\<rparr>"

definition demo_order_client :: "nat sui_client" where
  "demo_order_client =
     (stream_client (\<lambda>t. if t = ''0x1::pool::HashpowerBuyOrderPlaced'' then [demo_fill_event]
                         else if t = ''0x1::pool::HashpowerShareFilled'' then [demo_fill_event] else []))
       \<lparr>multiGetObjects := (\<lambda>ids. Inr (map (\<lambda>_. Some demo_order_object) ids))\<rparr>"

theorem useHashpowerOrders_sorted_witness:
  "\<exists>orders. useHashpowerOrders (\<lambda>_. []) demo_order_client demo_packages = Inr orders \<and>
     length orders = 1 \<and>
     sorted_wrt (\<lambda>a b. pricePerDifficulty b \<le> pricePerDifficulty a) orders \<and>
     list_all (\<lambda>ord. order_wf demo_packages ord \<and> length (recentFills ord) \<le> 5) orders"
proof -
  have "case useHashpowerOrders (\<lambda>_. []) demo_order_client demo_packages of
          Inr orders \<Rightarrow> length orders = 1 | Inl _ \<Rightarrow> False"
    by code_simp
  then obtain orders where ok: "useHashpowerOrders (\<lambda>_. []) demo_order_client demo_packages = Inr orders"
    and "length orders = 1" by (auto split: sum.splits)
  with useHashpowerOrders_sorted [OF ok] show ?thesis by auto
qed


definition book_order_ok :: "ShareMarketOrder \<Rightarrow> bool" where
  "book_order_ok ord =
     (case side ord of
        Ask \<Rightarrow> maxUnits ord = remaining ord
      | Bid \<Rightarrow>
          if pricePerUnitMist ord \<le> 0 then maxUnits ord = 0
          else if remaining ord < 0 then True
          else maxUnits ord * pricePerUnitMist ord \<le> remaining ord
               \<and> remaining ord < (maxUnits ord + 1) * pricePerUnitMist ord)"

lemma floor_units:
  assumes "0 < (p :: int)" "0 \<le> b"
  shows "bigint_div b p * p \<le> b \<and> b < (bigint_div b p + 1) * p"
proof -
  have "b = b div p * p + b mod p" "0 \<le> b mod p" "b mod p < p" using assms by simp_all
  then show ?thesis
    unfolding bigint_div_nonneg [OF assms(2) less_imp_le [OF assms(1)]] distrib_right by linarith
qed

lemma bid_ok:
  "book_order_ok \<lparr>side = Bid, so_objectId = i, so_owner = w, pricePerUnitMist = p, remaining = b,
     maxUnits = (if p > 0 then bigint_div b p else 0), so_expiresEpoch = x\<rparr>"
  using floor_units [of p b] by (auto simp: book_order_ok_def)

lemma ask_ok:
  "book_order_ok \<lparr>side = Ask, so_objectId = i, so_owner = w, pricePerUnitMist = p, remaining = b,
     maxUnits = b, so_expiresEpoch = x\<rparr>"
  by (simp add: book_order_ok_def)

lemma book_entry_ok:
  assumes "book_entry numStr eb es obj = Inr (Some ord)" shows "book_order_ok ord"
proof -
  obtain d c where d: "obj = Some d" "content d = Some c" "dataType c = ''moveObject''"
    using assms by (auto simp: book_entry_def Let_def split: option.splits if_splits)
  consider "obj_type d = Some eb" | "obj_type d \<noteq> Some eb" "obj_type d = Some es"
    using assms d by (auto simp: book_entry_def Let_def split: if_splits)
  then show ?thesis
  proof cases
    case 1
    then show ?thesis
      using assms d by (simp only: book_entry_def option.case Let_def simp_thms if_True if_False refl
        sum_bind_Inr sum.inject option.inject) (blast intro: bid_ok)
  next
    case 2
    then show ?thesis
      using assms d by (simp only: book_entry_def option.case Let_def simp_thms if_True if_False refl
        sum_bind_Inr sum.inject option.inject) (blast intro: ask_ok)
  qed
qed

lemma share_book_entries:
  assumes "useShareMarketOrders numStr client pkg orig coin quot = Inr (bids, asks)"
  obtains entries where "bids = js_sort (\<lambda>a b. Fin (of_int (pricePerUnitMist b - pricePerUnitMist a)))
          (filter (\<lambda>x. side x = Bid) entries)"
    "asks = js_sort (\<lambda>a b. Fin (of_int (pricePerUnitMist a - pricePerUnitMist b)))
          (filter (\<lambda>x. side x = Ask) entries)"
    "list_all book_order_ok entries"
proof (cases "bids = [] \<and> asks = []")
  case True
  then show ?thesis using that [of "[]"] by (simp add: js_sort_def)
next
  case False
  then obtain objects entries where
    e: "sum_map (book_entry numStr (BUY_TYPE pkg coin quot) (SELL_TYPE pkg coin quot)) objects = Inr entries"
    and "bids = js_sort (\<lambda>a b. Fin (of_int (pricePerUnitMist b - pricePerUnitMist a)))
          (filter (\<lambda>x. side x = Bid) (some_values entries))"
    and "asks = js_sort (\<lambda>a b. Fin (of_int (pricePerUnitMist a - pricePerUnitMist b)))
          (filter (\<lambda>x. side x = Ask) (some_values entries))"
    using assms by (auto simp: useShareMarketOrders_def Let_def split: if_splits)
  moreover have "list_all book_order_ok (some_values entries)"
    using sum_map_origin [OF e] book_entry_ok by (fastforce simp: set_some_values list_all_iff)
  ultimately show ?thesis by (intro that)
qed

lemma share_book_sorted:
  assumes "useShareMarketOrders numStr client pkg orig coin quot = Inr (bids, asks)"
  shows "sorted_wrt (\<lambda>a b. pricePerUnitMist b \<le> pricePerUnitMist a) bids"
    "sorted_wrt (\<lambda>a b. pricePerUnitMist a \<le> pricePerUnitMist b) asks"
  using share_book_entries [OF assms] js_sort_int_desc [of pricePerUnitMist] js_sort_int_asc [of pricePerUnitMist] by metis+

text \<open>
  In a book that useShareMarketOrders returns the bids are sorted from the highest price
  down and the asks from the lowest up, every order stands on its own side, and the units a bid
  shows are the most its remaining budget can buy at its price (0 when the price is not positive),
  while an ask shows its whole inventory.
\<close>

theorem useShareMarketOrders_book:
  assumes "useShareMarketOrders numStr client pkg orig coin quot = Inr (bids, asks)"
  shows "sorted_wrt (\<lambda>a b. pricePerUnitMist b \<le> pricePerUnitMist a) bids
    \<and> sorted_wrt (\<lambda>a b. pricePerUnitMist a \<le> pricePerUnitMist b) asks
    \<and> list_all (\<lambda>x. side x = Bid \<and> book_order_ok x) bids
    \<and> list_all (\<lambda>x. side x = Ask \<and> book_order_ok x) asks"
proof -
  obtain entries where e: "bids = js_sort (\<lambda>a b. Fin (of_int (pricePerUnitMist b - pricePerUnitMist a)))
          (filter (\<lambda>x. side x = Bid) entries)"
    "asks = js_sort (\<lambda>a b. Fin (of_int (pricePerUnitMist a - pricePerUnitMist b)))
          (filter (\<lambda>x. side x = Ask) entries)" "list_all book_order_ok entries"
    by (rule share_book_entries [OF assms])
  have "set bids = set (filter (\<lambda>x. side x = Bid) entries)" "set asks = set (filter (\<lambda>x. side x = Ask) entries)"
    using js_sort_int_desc [of pricePerUnitMist] js_sort_int_asc [of pricePerUnitMist] by (auto simp: e)
  then show ?thesis using share_book_sorted [OF assms] e(3) by (simp add: list_all_iff)
qed

definition demo_book_object :: "string \<Rightarrow> sui_object" where
  "demo_book_object struct =
     \<lparr>objectId = ''0xa'', obj_type = Some (''0x1::hash_share_market::'' @ struct @ ''<A, B>''),
      content = Some \<lparr>dataType = ''moveObject'',
        content_fields = JObj [(''buyer'', JStr ''0xb''), (''seller'', JStr ''0xb''),
          (''price_per_unit_mist'', JStr ''3''), (''payment'', JStr ''11''), (''inventory'', JStr ''8'')]\<rparr>\<rparr>"

definition demo_book_client :: "nat sui_client" where
  "demo_book_client =
     (stream_client (\<lambda>_. [demo_fill_event]))
       \<lparr>multiGetObjects := (\<lambda>ids. Inr [Some (demo_book_object ''BuyOrder''), Some (demo_book_object ''SellOrder'')])\<rparr>"

theorem useShareMarketOrders_book_witness:
  "\<exists>bids asks. useShareMarketOrders (\<lambda>_. []) demo_book_client ''0x1'' ''0x0'' ''A'' ''B'' = Inr (bids, asks)
    \<and> length bids = 1 \<and> length asks = 1
    \<and> list_all (\<lambda>x. side x = Bid \<and> book_order_ok x) bids \<and> list_all (\<lambda>x. side x = Ask \<and> book_order_ok x) asks"
proof -
  have "case useShareMarketOrders (\<lambda>_. []) demo_book_client ''0x1'' ''0x0'' ''A'' ''B'' of
          Inr (bids, asks) \<Rightarrow> length bids = 1 \<and> length asks = 1 | Inl _ \<Rightarrow> False"
    by code_simp
  then obtain bids asks where
    ok: "useShareMarketOrders (\<lambda>_. []) demo_book_client ''0x1'' ''0x0'' ''A'' ''B'' = Inr (bids, asks)"
    and "length bids = 1" "length asks = 1" by (auto split: sum.splits)
  with useShareMarketOrders_book [OF ok] show ?thesis by blast
qed

text \<open>Reward batches: the identifiers of the funded and of the created events.\<close>

definition batch_ids :: "sui_event list \<Rightarrow> json list" where
  "batch_ids es = filter truthy (map (\<lambda>e. get (parsedJson e) ''batch_id'') es)"

lemma created_map_keys:
  "distinct (map fst (created_map es)) \<and> fst ` set (created_map es) = set (batch_ids es)"
proof -
  let ?step = "\<lambda>m e. let f = parsedJson e; b = get f ''batch_id'' in if truthy b then js_map_set m b f else m"
  have "distinct (map fst m) \<Longrightarrow>
      distinct (map fst (foldl ?step m es)) \<and> fst ` set (foldl ?step m es) = fst ` set m \<union> set (batch_ids es)"
    for m :: "(json \<times> json) list"
    by (induction es arbitrary: m) (auto simp: batch_ids_def Let_def)
  from this [of "[]"] show ?thesis by (simp add: created_map_def)
qed

lemma funded_batches:
  "sum_map (funded_batch numStr) es = Inr out \<Longrightarrow>
     map batchId (some_values out) = batch_ids es \<and> list_all (\<lambda>b. batch_status b = 1) (some_values out)"
proof (induction es arbitrary: out)
  case (Cons e es)
  then show ?case
    by (auto simp: funded_batch_def batch_ids_def some_values_def Let_def split: if_splits)
qed (simp add: batch_ids_def some_values_def)

lemma pending_fold:
  assumes "sum_fold (pending_step numStr) out m = Inr out'" "distinct (map fst m)"
  shows "\<exists>new. out' = out @ new \<and> list_all (\<lambda>b. batch_status b = 0) new \<and> distinct (map batchId new)
          \<and> set (map batchId new) = fst ` set m - set (map batchId out)"
  using assms
proof (induction m arbitrary: out)
  case (Cons x m)
  obtain b f where x: "x = (b, f)" by (cases x)
  show ?case
  proof (cases "\<exists>y \<in> set out. batchId y = b")
    case True
    then show ?thesis using Cons.IH [of out] Cons.prems by (auto simp: x pending_step_def)
  next
    case False
    obtain out1 where o1: "pending_step numStr out (b, f) = Inr out1"
      "sum_fold (pending_step numStr) out1 m = Inr out'"
      using Cons.prems by (auto simp: x)
    obtain new1 where n1: "batchId new1 = b" "batch_status new1 = 0"
      "sum_fold (pending_step numStr) (out @ [new1]) m = Inr out'"
    proof -
      obtain r sats where "out1 = out @ [\<lparr>batchId = b, roundId = r, totalSats = sats,
          claimDeadlineMs = 0, batch_status = 0\<rparr>]"
        using o1(1) False by (auto simp: pending_step_def)
      then show ?thesis using o1(2) that by force
    qed
    obtain new where new: "out' = (out @ [new1]) @ new" "list_all (\<lambda>b. batch_status b = 0) new"
      "distinct (map batchId new)" "set (map batchId new) = fst ` set m - set (map batchId (out @ [new1]))"
      using Cons.IH [OF n1(3)] Cons.prems(2) by auto
    have "set (map batchId (new1 # new)) = fst ` set (x # m) - set (map batchId out)"
      using new(4) n1(1) False Cons.prems(2) by (auto simp: x)
    moreover have "distinct (map batchId (new1 # new))" using new(3,4) n1(1) by auto
    ultimately show ?thesis
      using new(1,2) n1(2) by (intro exI [of _ "new1 # new"]) auto
  qed
qed auto

text \<open>
  useHashiRewardBatches lists every funded batch with status 1 and every batch that was created
  but not funded exactly once with status 0, and nothing else, the latest round first.
\<close>

theorem useHashiRewardBatches_complete:
  assumes "queryEvents client (pkg @ ''::hashi_rewards::HashiBatchFunded'') 50 None = Inr funded"
    and "queryEvents client (pkg @ ''::hashi_rewards::HashiBatchCreated'') 100 None = Inr created"
    and "useHashiRewardBatches numStr client pkg = Inr batches"
  shows "sorted_wrt (\<lambda>a b. roundId b \<le> roundId a) batches
    \<and> mset (map batchId (filter (\<lambda>b. batch_status b = 1) batches)) = mset (batch_ids (page_data funded))
    \<and> mset (map batchId (filter (\<lambda>b. batch_status b \<noteq> 1) batches))
        = mset_set (set (batch_ids (page_data created)) - set (batch_ids (page_data funded)))"
proof -
  obtain out all where o1: "sum_map (funded_batch numStr) (page_data funded) = Inr out"
    and o2: "sum_fold (pending_step numStr) (some_values out) (created_map (page_data created)) = Inr all"
    and bs: "batches = js_sort (\<lambda>a b. Fin (of_int (roundId b - roundId a))) all"
    using assms by (auto simp: useHashiRewardBatches_def)
  have f: "map batchId (some_values out) = batch_ids (page_data funded)"
    "list_all (\<lambda>b. batch_status b = 1) (some_values out)"
    using funded_batches [OF o1] by auto
  obtain new where new: "all = some_values out @ new" "list_all (\<lambda>b. batch_status b = 0) new"
    "distinct (map batchId new)"
    "set (map batchId new) = set (batch_ids (page_data created)) - set (batch_ids (page_data funded))"
    using pending_fold [OF o2] created_map_keys [of "page_data created"] f(1) by auto
  have split: "filter (\<lambda>b. batch_status b = 1) all = some_values out" "filter (\<lambda>b. batch_status b \<noteq> 1) all = new"
    using f(2) new(1,2) by (auto simp: list_all_iff filter_id_conv filter_empty_conv)
  have "mset (map batchId (filter P batches)) = mset (map batchId (filter P all))" for P
    by (simp add: bs mset_filter)
  moreover have "mset (map batchId new) = mset_set (set (map batchId new))"
    using new(3) by (simp only: mset_set_set)
  ultimately show ?thesis
    using js_sort_int_desc [of roundId all] unfolding bs [symmetric] by (simp only: split f(1) new(4))
qed


definition demo_batch_event :: "string \<Rightarrow> string \<Rightarrow> sui_event" where
  "demo_batch_event b r =
     \<lparr>parsedJson = JObj [(''batch_id'', JStr b), (''round_id'', JStr r), (''total_sats'', JStr ''100'')],
      timestampMs = JUndef, txDigest = ''t''\<rparr>"

definition demo_batch_client :: "nat sui_client" where
  "demo_batch_client =
     stream_client (\<lambda>t. if t = ''0x0::hashi_rewards::HashiBatchFunded'' then [demo_batch_event ''0xa'' ''1'']
                        else [demo_batch_event ''0xb'' ''2'', demo_batch_event ''0xa'' ''1''])"

theorem useHashiRewardBatches_complete_witness:
  "\<exists>batches. useHashiRewardBatches (\<lambda>_. []) demo_batch_client ''0x0'' = Inr batches \<and> length batches = 2 \<and>
     mset (map batchId (filter (\<lambda>b. batch_status b \<noteq> 1) batches))
       = mset_set (set (batch_ids [demo_batch_event ''0xb'' ''2'', demo_batch_event ''0xa'' ''1''])
                   - set (batch_ids [demo_batch_event ''0xa'' ''1'']))"
proof -
  have "case useHashiRewardBatches (\<lambda>_. []) demo_batch_client ''0x0'' of
          Inr batches \<Rightarrow> length batches = 2 | Inl _ \<Rightarrow> False"
    by code_simp
  then obtain batches where ok: "useHashiRewardBatches (\<lambda>_. []) demo_batch_client ''0x0'' = Inr batches"
    and len: "length batches = 2" by (auto split: sum.splits)
  have q: "queryEvents demo_batch_client (''0x0'' @ ''::hashi_rewards::HashiBatchFunded'') 50 None
      = Inr \<lparr>page_data = [demo_batch_event ''0xa'' ''1''], hasNextPage = False, nextCursor = Some 1\<rparr>"
    "queryEvents demo_batch_client (''0x0'' @ ''::hashi_rewards::HashiBatchCreated'') 100 None
      = Inr \<lparr>page_data = [demo_batch_event ''0xb'' ''2'', demo_batch_event ''0xa'' ''1''],
             hasNextPage = False, nextCursor = Some 1\<rparr>"
    by (simp_all add: demo_batch_client_def stream_client_def)
  from useHashiRewardBatches_complete [OF q ok] ok len show ?thesis by auto
qed

end
