(* ===== verification/Encoding.thy ===== *)
theory Encoding
  imports Js_Prelude
begin

text \<open>
  The byte encodings of the platform that the dashboard uses: \<open>btoa\<close>, \<open>atob\<close> and
  \<open>Buffer.from(s, 'base64')\<close>, and the UTF-8 conversion behind \<open>encodeURIComponent\<close>,
  \<open>decodeURIComponent\<close>, \<open>escape\<close> and \<open>unescape\<close>. A binary string is a list of characters below
  256, a text a list of code points. The locale \<open>byte_decoder\<close> states what a client of base64
  relies on: decoding gives back the encoded bytes.
\<close>

section \<open>Base64\<close>

definition b64_char :: "nat \<Rightarrow> char" where
  "b64_char v =
     char_of (if v < 26 then v + 65 else if v < 52 then v + 71 else if v < 62 then v - 4
              else if v = 62 then 43 else 47)"

definition b64_val :: "char \<Rightarrow> nat option" where
  "b64_val c =
     (let n = of_char c :: nat in
      if 65 \<le> n \<and> n \<le> 90 then Some (n - 65)
      else if 97 \<le> n \<and> n \<le> 122 then Some (n - 71)
      else if 48 \<le> n \<and> n \<le> 57 then Some (n + 4)
      else if n = 43 then Some 62
      else if n = 47 then Some 63
      else None)"

fun b64_encode :: "nat list \<Rightarrow> string" where
  "b64_encode [] = []"
| "b64_encode [a] = [b64_char (a div 4), b64_char (a mod 4 * 16), CHR ''='', CHR ''='']"
| "b64_encode [a, b] =
     [b64_char (a div 4), b64_char (a mod 4 * 16 + b div 16), b64_char (b mod 16 * 4), CHR ''='']"
| "b64_encode (a # b # c # r) =
     b64_char (a div 4) # b64_char (a mod 4 * 16 + b div 16) # b64_char (b mod 16 * 4 + c div 64)
       # b64_char (c mod 64) # b64_encode r"

definition btoa :: "string \<Rightarrow> string" where
  "btoa s = b64_encode (map of_char s)"

text \<open>Sextets to bytes; bits that do not fill a byte are discarded, a single sextet is an error.\<close>

fun b64_join :: "nat list \<Rightarrow> nat list option" where
  "b64_join [] = Some []"
| "b64_join [x] = None"
| "b64_join [x, y] = Some [x * 4 + y div 16]"
| "b64_join [x, y, z] = Some [x * 4 + y div 16, y mod 16 * 16 + z div 4]"
| "b64_join (x # y # z # w # r) =
     map_option (\<lambda>bs. (x * 4 + y div 16) # (y mod 16 * 16 + z div 4) # (z mod 4 * 64 + w) # bs) (b64_join r)"

fun b64_vals :: "string \<Rightarrow> nat list option" where
  "b64_vals [] = Some []"
| "b64_vals (c # cs) =
     (case b64_val c of None \<Rightarrow> None | Some v \<Rightarrow> map_option (\<lambda>vs. v # vs) (b64_vals cs))"

definition ascii_space :: "char \<Rightarrow> bool" where
  "ascii_space c = (c \<in> set [CHR 0x09, CHR 0x0A, CHR 0x0C, CHR 0x0D, CHR '' ''])"

text \<open>
  \<open>atob\<close>: white space is removed, then one or two \<open>=\<close> at the end of a text of a multiple of four
  characters; every other character outside the alphabet is an InvalidCharacterError (\<open>None\<close>).
\<close>

definition strip_padding :: "string \<Rightarrow> string" where
  "strip_padding s =
     (if length s mod 4 = 0
      then (if drop (length s - 2) s = ''=='' then take (length s - 2) s
            else if drop (length s - 1) s = ''='' then take (length s - 1) s
            else s)
      else s)"

definition atob :: "string \<Rightarrow> string option" where
  "atob s =
     (case b64_vals (strip_padding (filter (\<lambda>c. \<not> ascii_space c) s)) of
        None \<Rightarrow> None
      | Some vs \<Rightarrow> map_option (map char_of) (b64_join vs))"

text \<open>
  \<open>Buffer.from(s, 'base64')\<close> never fails: it stops at the first \<open>=\<close>, skips the characters that
  are in neither alphabet, and drops a last single sextet.
\<close>

definition url_char :: "char \<Rightarrow> char" where
  "url_char c = (if c = CHR ''-'' then CHR ''+'' else if c = CHR ''_'' then CHR ''/'' else c)"

definition drop_odd :: "'a list \<Rightarrow> 'a list" where
  "drop_odd vs = (if length vs mod 4 = 1 then butlast vs else vs)"

definition Buffer_from_base64 :: "string \<Rightarrow> string" where
  "Buffer_from_base64 s =
     (let cs = map url_char (takeWhile (\<lambda>c. c \<noteq> CHR ''='') s);
          vs = map (\<lambda>c. the (b64_val c)) (filter (\<lambda>c. b64_val c \<noteq> None) cs)
      in map char_of (the (b64_join (drop_odd vs))))"

lemma b64_val_char: "v < 64 \<Longrightarrow> b64_val (b64_char v) = Some v"
  by (auto simp: b64_val_def b64_char_def Let_def)

definition plain_char :: "char \<Rightarrow> bool" where
  "plain_char c \<longleftrightarrow> \<not> ascii_space c \<and> c \<noteq> CHR ''='' \<and> c \<noteq> CHR ''-'' \<and> c \<noteq> CHR ''_''"

lemma plain_charI: "of_char c \<in> {43, 47} \<union> {48..57} \<union> {65..90} \<union> {97..122 :: nat} \<Longrightarrow> plain_char c"
  by (auto simp: plain_char_def ascii_space_def)

lemma plain_b64_char: "v < 64 \<Longrightarrow> plain_char (b64_char v)"
  by (rule plain_charI) (auto simp: b64_char_def)

text \<open>The sextets of a byte list, and its padding.\<close>

fun sextets :: "nat list \<Rightarrow> nat list" where
  "sextets [] = []"
| "sextets [a] = [a div 4, a mod 4 * 16]"
| "sextets [a, b] = [a div 4, a mod 4 * 16 + b div 16, b mod 16 * 4]"
| "sextets (a # b # c # r) =
     (a div 4) # (a mod 4 * 16 + b div 16) # (b mod 16 * 4 + c div 64) # (c mod 64) # sextets r"

definition padding :: "nat list \<Rightarrow> string" where
  "padding bs = (if length bs mod 3 = 1 then ''=='' else if length bs mod 3 = 2 then ''='' else [])"

lemma b64_encode_sextets: "b64_encode bs = map b64_char (sextets bs) @ padding bs"
  by (induction bs rule: sextets.induct) (auto simp: padding_def)

lemma sextet_less:
  "a < 256 \<Longrightarrow> a div 4 < (64 :: nat)" "a mod 4 * 16 < (64 :: nat)"
  "b < 256 \<Longrightarrow> a mod 4 * 16 + b div 16 < (64 :: nat)" "b mod 16 * 4 < (64 :: nat)"
  "c < 256 \<Longrightarrow> b mod 16 * 4 + c div 64 < (64 :: nat)"
  using mod_less_divisor [of 4 a] mod_less_divisor [of 16 b] by linarith+

lemma sextets_bound: "\<forall>b \<in> set bs. b < 256 \<Longrightarrow> \<forall>v \<in> set (sextets bs). v < 64"
  by (induction bs rule: sextets.induct) (simp_all add: sextet_less)

lemma packed: "(y :: nat) < k \<Longrightarrow> (x * k + y) div k = x" "(y :: nat) < k \<Longrightarrow> (x * k + y) mod k = y"
  by simp_all

lemma sextet_arith:
  "b < 256 \<Longrightarrow> (a mod 4 * 16 + b div 16) div 16 = a mod (4 :: nat)"
  "b < 256 \<Longrightarrow> (a mod 4 * 16 + b div 16) mod 16 = b div (16 :: nat)"
  "c < 256 \<Longrightarrow> (b mod 16 * 4 + c div 64) div 4 = b mod (16 :: nat)"
  "c < 256 \<Longrightarrow> (b mod 16 * 4 + c div 64) mod 4 = c div (64 :: nat)"
  by (rule packed, linarith)+

lemma b64_join_sextets: "\<forall>b \<in> set bs. b < 256 \<Longrightarrow> b64_join (sextets bs) = Some bs"
  by (induction bs rule: sextets.induct) (auto simp: sextet_arith)

lemma length_sextets_mod: "length (sextets bs) mod 4 = (if length bs mod 3 = 0 then 0 else length bs mod 3 + 1)"
  by (induction bs rule: sextets.induct) auto

lemma b64_vals_chars: "\<forall>v \<in> set vs. v < 64 \<Longrightarrow> b64_vals (map b64_char vs) = Some vs"
  by (induction vs) (auto simp: b64_val_char)

lemma filter_plain: "\<forall>c \<in> set cs. plain_char c \<Longrightarrow> filter (\<lambda>c. \<not> ascii_space c) cs = cs"
  by (induction cs) (auto simp: plain_char_def)

lemma mod4: "n mod 4 = 2 \<Longrightarrow> (n + 2) mod 4 = (0 :: nat)" "n mod 4 = 3 \<Longrightarrow> (n + 1) mod 4 = (0 :: nat)"
  by presburger+

lemma strip_padding_encode:
  assumes "\<forall>b \<in> set bs. b < 256"
  shows "strip_padding (map b64_char (sextets bs) @ padding bs) = map b64_char (sextets bs)"
proof -
  let ?cs = "map b64_char (sextets bs)"
  have plain: "\<forall>c \<in> set ?cs. plain_char c" using sextets_bound [OF assms] plain_b64_char by auto
  have m: "length ?cs mod 4 = (if length bs mod 3 = 0 then 0 else length bs mod 3 + 1)"
    using length_sextets_mod [of bs] by simp
  consider "length bs mod 3 = 0" | "length bs mod 3 = 1" | "length bs mod 3 = 2" by linarith
  then show ?thesis
  proof cases
    case 1
    have "CHR ''='' \<notin> set ?cs" using plain by (auto simp: plain_char_def)
    then have "drop (length ?cs - 2) ?cs \<noteq> ''==''" "drop (length ?cs - 1) ?cs \<noteq> ''=''"
      by (metis in_set_dropD list.set_intros(1))+
    then show ?thesis using 1 by (simp add: strip_padding_def padding_def)
  next
    case 2
    then have "(length ?cs + 2) mod 4 = 0" using m mod4(1) by simp
    then show ?thesis using 2 by (simp add: strip_padding_def padding_def)
  next
    case 3
    then have len: "(length ?cs + 1) mod 4 = 0" using m mod4(2) by simp
    then have "length ?cs \<noteq> 0" by auto
    then obtain cs c where cs: "?cs = cs @ [c]" by (metis length_0_conv rev_exhaust)
    then have "c \<noteq> CHR ''=''" using plain by (auto simp: plain_char_def)
    then have "drop (length ?cs + 1 - 2) (?cs @ ''='') \<noteq> ''==''" by (simp add: cs)
    then show ?thesis using 3 len by (simp add: strip_padding_def padding_def)
  qed
qed

lemma atob_core:
  assumes "\<forall>b \<in> set bs. b < 256"
  shows "atob (b64_encode bs) = Some (map char_of bs)"
proof -
  have bound: "\<forall>v \<in> set (sextets bs). v < 64" by (rule sextets_bound [OF assms])
  have "filter (\<lambda>c. \<not> ascii_space c) (b64_encode bs) = b64_encode bs"
    using bound plain_b64_char filter_plain [of "map b64_char (sextets bs)"]
    by (auto simp: b64_encode_sextets padding_def) (auto simp: ascii_space_def)
  then show ?thesis
    using bound b64_join_sextets [OF assms]
    by (simp add: atob_def b64_encode_sextets strip_padding_encode [OF assms] b64_vals_chars)
qed

lemma map_char_of [simp]: "map char_of (map of_char s :: nat list) = s"
  by (induction s) auto

lemma Buffer_core:
  assumes "\<forall>b \<in> set bs. b < 256"
  shows "Buffer_from_base64 (b64_encode bs) = map char_of bs"
proof -
  let ?cs = "map b64_char (sextets bs)"
  have bound: "\<forall>v \<in> set (sextets bs). v < 64" by (rule sextets_bound [OF assms])
  then have plain: "\<forall>c \<in> set ?cs. plain_char c" using plain_b64_char by auto
  have "takeWhile (\<lambda>c. c \<noteq> CHR ''='') (?cs @ padding bs) = ?cs @ takeWhile (\<lambda>c. c \<noteq> CHR ''='') (padding bs)"
    using plain by (intro takeWhile_append2) (auto simp: plain_char_def)
  then have tw: "takeWhile (\<lambda>c. c \<noteq> CHR ''='') (b64_encode bs) = ?cs"
    by (simp add: b64_encode_sextets padding_def)
  have url: "map url_char ?cs = ?cs"
    using plain by (intro map_idI) (auto simp: url_char_def plain_char_def)
  have vals: "map (\<lambda>c. the (b64_val c)) (filter (\<lambda>c. b64_val c \<noteq> None) ?cs) = sextets bs"
    using bound by (induction "sextets bs" arbitrary: bs) (auto simp: filter_map o_def b64_val_char intro!: map_idI)
  have "drop_odd (sextets bs) = sextets bs"
    using length_sextets_mod [of bs] by (simp add: drop_odd_def)
  then show ?thesis
    using b64_join_sextets [OF assms] unfolding Buffer_from_base64_def tw url vals Let_def by simp
qed

section \<open>The decoder contract\<close>

text \<open>
  A client that decodes base64 relies on getting back the bytes that were encoded; the client here
  is the conversion of an on-chain byte vector to hex.
\<close>

definition hex_of_binary :: "string \<Rightarrow> string" where
  "hex_of_binary s = concat (map (\<lambda>c. padStart 2 CHR ''0'' (to_radix 16 (of_char c))) s)"

locale byte_decoder =
  fixes decode :: "string \<Rightarrow> string option"
  assumes decode_btoa: "decode (btoa s) = Some s"
begin

lemma btoa_inj: "btoa s = btoa t \<Longrightarrow> s = t"
  by (metis decode_btoa option.inject)

lemma hex_of_decoded: "map_option hex_of_binary (decode (btoa s)) = Some (hex_of_binary s)"
  by (simp add: decode_btoa)

end

lemma atob_btoa: "atob (btoa s) = Some s"
  unfolding btoa_def by (subst atob_core) auto

lemma Buffer_btoa: "Buffer_from_base64 (btoa s) = s"
  unfolding btoa_def by (subst Buffer_core) auto

interpretation web: byte_decoder atob
  by unfold_locales (rule atob_btoa)

interpretation node: byte_decoder "\<lambda>s. Some (Buffer_from_base64 s)"
  by unfold_locales (simp add: Buffer_btoa)

lemma hex_of_binary_bytes: "hex_of_binary (map (\<lambda>b. char_of (unat b)) bs) = bytes_hex bs"
  by (induction bs) (simp_all add: hex_of_binary_def bytes_hex_def byte_hex_def unat_byte_less)

section \<open>UTF-8\<close>

type_synonym code_points = "nat list"

text \<open>
  \<open>unescape(encodeURIComponent(t))\<close>: the UTF-8 bytes of a text as a binary string. A lone
  surrogate is a URIError (\<open>None\<close>).
\<close>

definition surrogate :: "nat \<Rightarrow> bool" where
  "surrogate c \<longleftrightarrow> 0xD800 \<le> c \<and> c < 0xE000"

definition scalar_value :: "nat \<Rightarrow> bool" where
  "scalar_value c \<longleftrightarrow> c < 0x110000 \<and> \<not> surrogate c"

definition utf8_char :: "nat \<Rightarrow> nat list" where
  "utf8_char c =
     (if c < 0x80 then [c]
      else if c < 0x800 then [0xC0 + c div 64, 0x80 + c mod 64]
      else if c < 0x10000 then [0xE0 + c div 64 div 64, 0x80 + c div 64 mod 64, 0x80 + c mod 64]
      else [0xF0 + c div 64 div 64 div 64, 0x80 + c div 64 div 64 mod 64, 0x80 + c div 64 mod 64,
            0x80 + c mod 64])"

definition utf8_encode :: "code_points \<Rightarrow> string option" where
  "utf8_encode t =
     (if list_all scalar_value t then Some (map char_of (concat (map utf8_char t))) else None)"

definition cont :: "nat \<Rightarrow> bool" where
  "cont b \<longleftrightarrow> 0x80 \<le> b \<and> b < 0xC0"

text \<open>
  \<open>decodeURIComponent(escape(s))\<close>: the text of a binary string, or a URIError when a sequence is
  truncated, overlong, a surrogate or beyond the last code point.
\<close>

fun utf8_bytes_decode :: "nat list \<Rightarrow> code_points option" where
  "utf8_bytes_decode [] = Some []"
| "utf8_bytes_decode (b # bs) =
     (if b < 0x80 then map_option (\<lambda>t. b # t) (utf8_bytes_decode bs)
      else if b < 0xE0 then
        (case bs of
           b1 # r \<Rightarrow>
             (let c = (b - 0xC0) * 64 + (b1 - 0x80) in
              if 0xC2 \<le> b \<and> cont b1 then map_option (\<lambda>t. c # t) (utf8_bytes_decode r) else None)
         | _ \<Rightarrow> None)
      else if b < 0xF0 then
        (case bs of
           b1 # b2 # r \<Rightarrow>
             (let c = ((b - 0xE0) * 64 + (b1 - 0x80)) * 64 + (b2 - 0x80) in
              if cont b1 \<and> cont b2 \<and> 0x800 \<le> c \<and> \<not> surrogate c
              then map_option (\<lambda>t. c # t) (utf8_bytes_decode r) else None)
         | _ \<Rightarrow> None)
      else
        (case bs of
           b1 # b2 # b3 # r \<Rightarrow>
             (let c = (((b - 0xF0) * 64 + (b1 - 0x80)) * 64 + (b2 - 0x80)) * 64 + (b3 - 0x80) in
              if b < 0xF8 \<and> cont b1 \<and> cont b2 \<and> cont b3 \<and> 0x10000 \<le> c \<and> c < 0x110000
              then map_option (\<lambda>t. c # t) (utf8_bytes_decode r) else None)
         | _ \<Rightarrow> None))"

definition utf8_decode :: "string \<Rightarrow> code_points option" where
  "utf8_decode s = utf8_bytes_decode (map of_char s)"


lemma div_mod_64: "c div 64 * 64 + c mod 64 = (c :: nat)"
  by (rule div_mult_mod_eq)

lemma cont_low [simp]: "cont (128 + c mod 64)"
proof -
  have "c mod 64 < 64" by simp
  then show ?thesis unfolding cont_def by linarith
qed

lemma utf8_decode_char:
  assumes "scalar_value c"
  shows "utf8_bytes_decode (utf8_char c @ r) = map_option (\<lambda>t. c # t) (utf8_bytes_decode r)"
proof -
  have s: "c < 0x110000" "\<not> surrogate c" using assms by (auto simp: scalar_value_def)
  consider "c < 0x80" | "0x80 \<le> c" "c < 0x800" | "0x800 \<le> c" "c < 0x10000" | "0x10000 \<le> c" by linarith
  then show ?thesis
  proof cases
    case 2
    then have "2 \<le> c div 64" "c div 64 < 32" by linarith+
    then show ?thesis using 2 by (simp add: utf8_char_def div_mod_64)
  next
    case 3
    then have "c div 64 div 64 < 16" by linarith
    then show ?thesis using 3 s by (simp add: utf8_char_def div_mod_64)
  next
    case 4
    then have "c div 64 div 64 div 64 < 8" using s by linarith
    moreover have "4096 * (c div 64 div 64) + c div 64 mod 64 * 64 + c mod 64 = c"
      using div_mod_64 [of c] div_mod_64 [of "c div 64"] by linarith
    ultimately show ?thesis using 4 s by (simp add: utf8_char_def div_mod_64 Let_def)
  qed (simp add: utf8_char_def)
qed

lemma utf8_char_byte:
  assumes "scalar_value c" "b \<in> set (utf8_char c)"
  shows "b < 256"
proof -
  have low: "128 + x mod 64 < 256" for x :: nat
    using mod_less_divisor [of 64 x] by linarith
  have "c < 0x800 \<Longrightarrow> 192 + c div 64 < 256" "c < 0x10000 \<Longrightarrow> 224 + c div 64 div 64 < 256"
    "240 + c div 64 div 64 div 64 < 256"
    using assms(1) unfolding scalar_value_def by linarith+
  then show ?thesis
    using assms(2) low unfolding utf8_char_def by (auto simp only: set_simps split: if_splits)
qed

lemma utf8_concat: "list_all scalar_value t \<Longrightarrow> utf8_bytes_decode (concat (map utf8_char t)) = Some t"
  by (induction t) (auto simp: utf8_decode_char simp del: utf8_bytes_decode.simps(2))

lemma utf8_roundtrip:
  assumes "utf8_encode t = Some s"
  shows "utf8_decode s = Some t"
proof -
  have t: "list_all scalar_value t" and s: "s = map char_of (concat (map utf8_char t))"
    using assms by (auto simp: utf8_encode_def split: if_splits)
  have "\<forall>b \<in> set (concat (map utf8_char t)). b < 256"
    using t utf8_char_byte by (auto simp: list_all_iff)
  then have "map of_char s = concat (map utf8_char t)"
    by (auto simp: s intro!: map_idI)
  then show ?thesis by (simp add: utf8_decode_def utf8_concat [OF t])
qed

end
