(* ===== verification/Ptb.thy ===== *)
theory Ptb
  imports Js_Json
begin

text \<open>
  The programmable transactions the dashboard builds: a list of commands, to which every call of
  the builder (\<open>tx.mergeCoins\<close>, \<open>tx.splitCoins\<close>, \<open>tx.moveCall\<close>, \<open>tx.transferObjects\<close>) appends one
  and whose results later commands name by their position. The second part is the documented
  effect of the coin commands on balances, against which the transactions of the hooks are
  checked. The range check of \<open>tx.pure.u64\<close> belongs to the SDK and is not modelled.
\<close>

section \<open>Commands\<close>

datatype tx_arg =
    GasCoin
  | ObjArg string
  | PureAddress string
  | PureU64 int
  | PureBytes "nat list"
  | Res nat nat

datatype command =
    MergeCoins tx_arg "tx_arg list"
  | SplitCoins tx_arg "int list"
  | MoveCall string "string list" "tx_arg list"
  | TransferObjects "tx_arg list" string

type_synonym tx = "command list"

text \<open>An owned coin as the node lists it.\<close>

record owned_coin =
  coinObjectId :: string
  coin_balance :: string

datatype spend_error = BadBalance | NotEnough string int int | NoCoin

text \<open>\<open>coins.reduce((a, c) => a + BigInt(c.balance), 0n)\<close>\<close>

fun coin_total :: "int \<Rightarrow> owned_coin list \<Rightarrow> int option" where
  "coin_total a [] = Some a"
| "coin_total a (c # cs) =
     (case BigInt_str (coin_balance c) of None \<Rightarrow> None | Some b \<Rightarrow> coin_total (a + b) cs)"

text \<open>
  The coin selection shared by the hooks that spend: check the total, merge every coin onto the
  first, and split off the exact amount. The result is the transaction and the split coin.
\<close>

definition merge_and_split :: "string \<Rightarrow> owned_coin list \<Rightarrow> int \<Rightarrow> spend_error + tx \<times> tx_arg" where
  "merge_and_split coinType coins amount =
     (case coin_total 0 coins of
        None \<Rightarrow> Inl BadBalance
      | Some tot \<Rightarrow>
          if tot < amount then Inl (NotEnough coinType tot amount)
          else (case coins of
                  [] \<Rightarrow> Inl NoCoin
                | primary # rest \<Rightarrow>
                    let tx1 = (if length rest > 0
                               then [MergeCoins (ObjArg (coinObjectId primary))
                                       (map (\<lambda>c. ObjArg (coinObjectId c)) rest)]
                               else [])
                    in Inr (tx1 @ [SplitCoins (ObjArg (coinObjectId primary)) [amount]], Res (length tx1) 0)))"

section \<open>Coin effects\<close>

type_synonym purse = "tx_arg \<Rightarrow> int option"

definition wallet :: "owned_coin list \<Rightarrow> purse" where
  "wallet coins = map_of (map (\<lambda>c. (ObjArg (coinObjectId c), the (BigInt_str (coin_balance c)))) coins)"

text \<open>
  Command \<open>n\<close> of a transaction on the balances of the coins: merging adds the sources to the
  destination and consumes them, splitting takes amounts that must be covered out of a coin.
  Calls and transfers do not change the balance of a coin that is not an argument of theirs; a
  coin they take is gone.
\<close>

definition run_command :: "nat \<Rightarrow> command \<Rightarrow> purse \<Rightarrow> purse option" where
  "run_command n cmd m =
     (case cmd of
        MergeCoins d srcs \<Rightarrow>
          (if m d = None \<or> d \<in> set srcs \<or> \<not> distinct srcs \<or> (\<exists>a \<in> set srcs. m a = None) then None
           else Some (\<lambda>a. if a = d then Some (the (m d) + sum_list (map (\<lambda>x. the (m x)) srcs))
                          else if a \<in> set srcs then None else m a))
      | SplitCoins c amts \<Rightarrow>
          (case m c of
             None \<Rightarrow> None
           | Some v \<Rightarrow>
               if sum_list amts \<le> v \<and> list_all (\<lambda>x. 0 \<le> x) amts
               then Some (\<lambda>a. if a = c then Some (v - sum_list amts)
                              else case a of Res i j \<Rightarrow> if i = n \<and> j < length amts then Some (amts ! j) else m a
                                   | _ \<Rightarrow> m a)
               else None)
      | MoveCall _ _ args \<Rightarrow> Some (\<lambda>a. if a \<in> set args then None else m a)
      | TransferObjects args _ \<Rightarrow> Some (\<lambda>a. if a \<in> set args then None else m a))"

fun run_tx :: "nat \<Rightarrow> tx \<Rightarrow> purse \<Rightarrow> purse option" where
  "run_tx n [] m = Some m"
| "run_tx n (c # cs) m = (case run_command n c m of None \<Rightarrow> None | Some m' \<Rightarrow> run_tx (Suc n) cs m')"

lemma run_tx_append:
  "run_tx n (xs @ ys) m = (case run_tx n xs m of None \<Rightarrow> None | Some m' \<Rightarrow> run_tx (n + length xs) ys m')"
  by (induction xs arbitrary: n m) (auto split: option.split)

definition balances_ok :: "owned_coin list \<Rightarrow> bool" where
  "balances_ok coins = list_all (\<lambda>c. BigInt_str (coin_balance c) \<noteq> None) coins"

definition wallet_total :: "owned_coin list \<Rightarrow> int" where
  "wallet_total coins = sum_list (map (\<lambda>c. the (BigInt_str (coin_balance c))) coins)"

lemma coin_total_ok: "balances_ok coins \<Longrightarrow> coin_total a coins = Some (a + wallet_total coins)"
  by (induction coins arbitrary: a) (auto simp: balances_ok_def wallet_total_def)

lemma coin_total_bad: "\<not> balances_ok coins \<Longrightarrow> coin_total a coins = None"
  by (induction coins arbitrary: a) (auto simp: balances_ok_def split: option.split)

lemma map_of_wallet_rest:
  "distinct (map coinObjectId coins) \<Longrightarrow> c \<in> set coins \<Longrightarrow>
     wallet coins (ObjArg (coinObjectId c)) = Some (the (BigInt_str (coin_balance c)))"
  by (induction coins) (auto simp: wallet_def image_iff)

lemma wallet_Res [simp]: "wallet coins (Res i j) = None"
  by (auto simp: wallet_def map_of_eq_None_iff)

lemma run_merge:
  assumes "distinct (map coinObjectId (p # rest))"
  shows "run_command n (MergeCoins (ObjArg (coinObjectId p)) (map (\<lambda>c. ObjArg (coinObjectId c)) rest)) (wallet (p # rest))
           = Some [ObjArg (coinObjectId p) \<mapsto> wallet_total (p # rest)]"
proof -
  let ?rest = "map (\<lambda>c. ObjArg (coinObjectId c)) rest"
  have wal: "wallet (p # rest) (ObjArg (coinObjectId c)) = Some (the (BigInt_str (coin_balance c)))"
    if "c \<in> set (p # rest)" for c by (rule map_of_wallet_rest [OF assms that])
  have dist: "distinct ?rest" "ObjArg (coinObjectId p) \<notin> set ?rest"
    using assms by (auto simp: distinct_map inj_on_def)
  have sum: "sum_list (map (\<lambda>x. the (wallet (p # rest) x)) ?rest) = wallet_total rest"
    using wal by (auto simp: wallet_total_def o_def intro!: arg_cong [where f = sum_list])
  have out: "wallet (p # rest) a = None" if "a \<noteq> ObjArg (coinObjectId p)" "a \<notin> set ?rest" for a
    using that by (auto simp: wallet_def map_of_eq_None_iff image_iff)
  show ?thesis
    using dist wal [of p] wal sum out
    by (auto simp: run_command_def fun_eq_iff wallet_total_def)
qed

lemma run_merge_prefix:
  assumes "distinct (map coinObjectId (p # rest))"
  shows "run_tx 0 (if length rest > 0
       then [MergeCoins (ObjArg (coinObjectId p)) (map (\<lambda>c. ObjArg (coinObjectId c)) rest)] else [])
       (wallet (p # rest)) = Some [ObjArg (coinObjectId p) \<mapsto> wallet_total (p # rest)]"
proof (cases "rest = []")
  case True
  then show ?thesis by (auto simp: wallet_def wallet_total_def fun_eq_iff)
next
  case False
  then show ?thesis using run_merge [OF assms, of 0] by simp
qed

text \<open>The spending prefix on any wallet with distinct coins and enough funds.\<close>

lemma merge_and_split_run:
  assumes "distinct (map coinObjectId coins)" "balances_ok coins" "coins \<noteq> []"
    and "0 \<le> amount" "amount \<le> wallet_total coins"
  obtains cmds k where "merge_and_split ct coins amount = Inr (cmds, Res k 0)"
    "length cmds = Suc k"
    "run_tx 0 cmds (wallet coins)
       = Some [ObjArg (coinObjectId (hd coins)) \<mapsto> wallet_total coins - amount, Res k 0 \<mapsto> amount]"
proof -
  obtain p rest where coins: "coins = p # rest" using assms(3) by (cases coins) auto
  define tx1 where "tx1 = (if length rest > 0
     then [MergeCoins (ObjArg (coinObjectId p)) (map (\<lambda>c. ObjArg (coinObjectId c)) rest)] else [])"
  have ms: "merge_and_split ct coins amount
      = Inr (tx1 @ [SplitCoins (ObjArg (coinObjectId p)) [amount]], Res (length tx1) 0)"
    using assms(5) coin_total_ok [OF assms(2), of 0] by (simp add: merge_and_split_def coins tx1_def)
  have run1: "run_tx 0 tx1 (wallet coins) = Some [ObjArg (coinObjectId p) \<mapsto> wallet_total coins]"
    using run_merge_prefix [of p rest] assms(1) by (simp add: tx1_def coins)
  have "run_tx 0 (tx1 @ [SplitCoins (ObjArg (coinObjectId p)) [amount]]) (wallet coins)
      = Some [ObjArg (coinObjectId p) \<mapsto> wallet_total coins - amount, Res (length tx1) 0 \<mapsto> amount]"
    using assms(4,5)
    by (auto simp: run_tx_append run1 run_command_def fun_eq_iff split: tx_arg.split)
  then show ?thesis using that ms by (simp add: coins)
qed

section \<open>What the calls receive\<close>

text \<open>
  The move calls of a transaction as the contracts see them: the objects and plain numbers among
  the arguments, and the balances of the coins that are handed over.
\<close>

record call_view =
  cv_target :: string
  cv_types :: "string list"
  cv_objects :: "string list"
  cv_numbers :: "int list"
  cv_paid :: "int list"

definition view_call :: "string \<Rightarrow> string list \<Rightarrow> tx_arg list \<Rightarrow> purse \<Rightarrow> call_view" where
  "view_call target types args m =
     \<lparr>cv_target = target, cv_types = types,
      cv_objects = concat (map (\<lambda>a. case a of ObjArg i \<Rightarrow> if m a = None then [i] else [] | _ \<Rightarrow> []) args),
      cv_numbers = concat (map (\<lambda>a. case a of PureU64 n \<Rightarrow> [n] | _ \<Rightarrow> []) args),
      cv_paid = concat (map (\<lambda>a. case m a of None \<Rightarrow> [] | Some v \<Rightarrow> [v]) args)\<rparr>"

fun call_trace :: "nat \<Rightarrow> tx \<Rightarrow> purse \<Rightarrow> call_view list option" where
  "call_trace n [] m = Some []"
| "call_trace n (c # cs) m =
     (case run_command n c m of
        None \<Rightarrow> None
      | Some m' \<Rightarrow>
          map_option (\<lambda>r. (case c of MoveCall t tys args \<Rightarrow> [view_call t tys args m] | _ \<Rightarrow> []) @ r)
            (call_trace (Suc n) cs m'))"

lemma call_trace_append:
  "call_trace n (xs @ ys) m =
     (case run_tx n xs m of
        None \<Rightarrow> None
      | Some m' \<Rightarrow>
          (case call_trace n xs m of
             None \<Rightarrow> None
           | Some r \<Rightarrow> map_option (\<lambda>r'. r @ r') (call_trace (n + length xs) ys m')))"
  by (induction xs arbitrary: n m) (auto simp: map_option_case split: option.split)

end
