(* ===== verification/Otc_Escrow.thy ===== *)
theory Otc_Escrow
  imports Encoding Ptb
begin

text \<open>
  Model of the over-the-counter escrow: the share links of \<open>web/lib/otc-ticket.ts\<close>, the network
  configuration of \<open>web/lib/confidential-constants.ts\<close> and the reads and transactions of
  \<open>web/hooks/useOtcEscrow.ts\<close>. \<open>JSON.stringify\<close> and \<open>JSON.parse\<close>, the UTF-8 decoder of memos, the
  node and the wallet that signs and executes a transaction are parameters.
\<close>

section \<open>Share links\<close>

record OtcLinkV1 =
  link_escrowId :: string
  sellAsset :: string
  payAsset :: string

definition link_json :: "OtcLinkV1 \<Rightarrow> json" where
  "link_json t = JObj [(''v'', JNum 1), (''escrowId'', JStr (link_escrowId t)),
                       (''sellAsset'', JStr (sellAsset t)), (''payAsset'', JStr (payAsset t))]"

definition url_safe :: "char \<Rightarrow> char" where
  "url_safe c = (if c = CHR ''+'' then CHR ''-'' else if c = CHR ''/'' then CHR ''_'' else c)"

definition strip_equals :: "string \<Rightarrow> string" where
  "strip_equals s = rev (dropWhile (\<lambda>c. c = CHR ''='') (rev s))"

definition encodeOtcLink :: "(json \<Rightarrow> code_points) \<Rightarrow> OtcLinkV1 \<Rightarrow> string option" where
  "encodeOtcLink stringify t =
     map_option (\<lambda>bin. strip_equals (map url_safe (btoa bin))) (utf8_encode (stringify (link_json t)))"

definition is_JStr :: "json \<Rightarrow> bool" where
  "is_JStr x = (case x of JStr _ \<Rightarrow> True | _ \<Rightarrow> False)"

text \<open>Every exception of the body (atob, decodeURIComponent, JSON.parse, a member of null) gives null.\<close>

definition decodeOtcLink :: "(code_points \<Rightarrow> json option) \<Rightarrow> string \<Rightarrow> json option" where
  "decodeOtcLink parse s =
     (let b64 = map url_char s;
          padded = b64 @ replicate ((4 - length b64 mod 4) mod 4) CHR ''='' in
      case atob padded of
        None \<Rightarrow> None
      | Some bin \<Rightarrow>
          (case utf8_decode bin of
             None \<Rightarrow> None
           | Some t \<Rightarrow>
               (case parse t of
                  None \<Rightarrow> None
                | Some parsed \<Rightarrow>
                    if nullish parsed \<or> get parsed ''v'' \<noteq> JNum 1 then None
                    else if \<not> is_JStr (get parsed ''escrowId'') \<or> \<not> is_JStr (get parsed ''sellAsset'')
                            \<or> \<not> is_JStr (get parsed ''payAsset'') then None
                    else Some parsed)))"

section \<open>Configuration\<close>

record ConfidentialTransfersConfig =
  ct_packageId :: string
  tokenRegistryId :: string
  accountRegistryId :: string

record OtcEscrowConfig =
  packageId :: string
  dusdcCoinType :: string
  dusdcCapId :: string

record OtcAsset =
  asset_symbol :: string
  asset_decimals :: nat
  coinType :: string
  isQuote :: bool

text \<open>The environment variables of the build: \<open>None\<close> when a variable is not set.\<close>

record otc_env =
  CONFIDENTIAL_TRANSFERS_PACKAGE :: "string option"
  CONFIDENTIAL_TOKEN_REGISTRY_ID :: "string option"
  CONFIDENTIAL_ACCOUNT_REGISTRY_ID :: "string option"
  PACKAGE_ID :: "string option"
  DUSDC_COIN_TYPE :: "string option"
  DUSDC_CAP_ID :: "string option"

definition env_or :: "string option \<Rightarrow> string \<Rightarrow> string" where
  "env_or v d = (case v of Some s \<Rightarrow> s | None \<Rightarrow> d)"

definition DEVNET_CONFIDENTIAL :: "otc_env \<Rightarrow> ConfidentialTransfersConfig" where
  "DEVNET_CONFIDENTIAL env =
     \<lparr>ct_packageId = env_or (CONFIDENTIAL_TRANSFERS_PACKAGE env)
        ''0xe0f1b22e6064aa9d9fe7612862a4fde5e586c09ea76005b14ee1489e0d70c271'',
      tokenRegistryId = env_or (CONFIDENTIAL_TOKEN_REGISTRY_ID env) [],
      accountRegistryId = env_or (CONFIDENTIAL_ACCOUNT_REGISTRY_ID env) []\<rparr>"

definition activeConfidentialTransfersConfig ::
  "string \<Rightarrow> otc_env \<Rightarrow> ConfidentialTransfersConfig option" where
  "activeConfidentialTransfersConfig network env =
     (if network \<noteq> ''devnet'' then None else Some (DEVNET_CONFIDENTIAL env))"

definition DEVNET_OTC :: "otc_env \<Rightarrow> OtcEscrowConfig" where
  "DEVNET_OTC env =
     \<lparr>packageId = env_or (PACKAGE_ID env)
        ''0xcb89aa2d259d780d7050a269053f289f27b6448281d4a2a1c418a61e5499f077'',
      dusdcCoinType = env_or (DUSDC_COIN_TYPE env)
        ''0xcb89aa2d259d780d7050a269053f289f27b6448281d4a2a1c418a61e5499f077::dusdc::DUSDC'',
      dusdcCapId = env_or (DUSDC_CAP_ID env)
        ''0x1b7d1727b395c5e21fb655692566f9aad0435aaeb7d07768ed9c1990890d37a3''\<rparr>"

definition activeOtcEscrowConfig :: "string \<Rightarrow> otc_env \<Rightarrow> OtcEscrowConfig option" where
  "activeOtcEscrowConfig network env = (if network \<noteq> ''devnet'' then None else Some (DEVNET_OTC env))"

definition hash_share_asset :: "string \<Rightarrow> nat \<Rightarrow> OtcAsset" where
  "hash_share_asset pkg i =
     (let slot = padStart 3 CHR ''0'' (to_radix 10 i) in
      \<lparr>asset_symbol = ''HS_'' @ slot, asset_decimals = 0,
       coinType = pkg @ ''::hs_'' @ slot @ ''::HS_'' @ slot, isQuote = False\<rparr>)"

definition activeOtcAssets :: "string \<Rightarrow> otc_env \<Rightarrow> OtcAsset list" where
  "activeOtcAssets network env =
     (case activeOtcEscrowConfig network env of
        None \<Rightarrow> []
      | Some cfg \<Rightarrow>
          map (hash_share_asset (packageId cfg)) [0..<8]
          @ [\<lparr>asset_symbol = ''DUSDC'', asset_decimals = 6, coinType = dusdcCoinType cfg, isQuote = True\<rparr>])"

section \<open>Reading an escrow\<close>

record EscrowState =
  escrowId :: string
  deliverableAmount :: int
  payAmount :: int
  seller :: string
  escrow_buyer :: string
  deliverableType :: string
  payType :: string
  memo :: string

definition index_of :: "char \<Rightarrow> string \<Rightarrow> nat option" where
  "index_of c s = (if c \<in> set s then Some (length (takeWhile (\<lambda>x. x \<noteq> c) s)) else None)"

definition last_index_of :: "char \<Rightarrow> string \<Rightarrow> nat option" where
  "last_index_of c s = map_option (\<lambda>k. length s - 1 - k) (index_of c (rev s))"

text \<open>
  The loop of parseTypeArg, the piece since the last top-level comma being \<open>cur\<close>
  (\<open>inner.slice(start, i)\<close>).
\<close>

fun split_scan :: "string \<Rightarrow> int \<Rightarrow> string \<Rightarrow> string list \<Rightarrow> string list" where
  "split_scan [] depth cur parts = parts @ [trim cur]"
| "split_scan (c # cs) depth cur parts =
     (if c = CHR ''<'' then split_scan cs (depth + 1) (cur @ [c]) parts
      else if c = CHR ''>'' then split_scan cs (depth - 1) (cur @ [c]) parts
      else if c = CHR '','' \<and> depth = 0 then split_scan cs depth [] (parts @ [trim cur])
      else split_scan cs depth (cur @ [c]) parts)"

definition parseTypeArg :: "string \<Rightarrow> nat \<Rightarrow> string" where
  "parseTypeArg typeStr i =
     (case (index_of CHR ''<'' typeStr, last_index_of CHR ''>'' typeStr) of
        (Some op, Some cl) \<Rightarrow>
          (let inner = slice (int op + 1) (int cl) typeStr;
               parts = split_scan inner 0 [] []
           in case index parts i of Some p \<Rightarrow> p | None \<Rightarrow> [])
      | _ \<Rightarrow> [])"

datatype escrow_error =
    NotAvailable string
  | RpcFailed
  | BadAmount
  | Spend spend_error
  | EscrowNotFound

record escrow_object =
  eo_dataType :: "string option"
  eo_type :: "string option"
  eo_fields :: json

definition big_member :: "json \<Rightarrow> escrow_error + int" where
  "big_member x =
     (case or_default x (JStr ''0'') of
        JStr s \<Rightarrow> (case BigInt_str s of Some n \<Rightarrow> Inr n | None \<Rightarrow> Inl BadAmount)
      | JNum (Fin r) \<Rightarrow> (if r = of_int \<lfloor>r\<rfloor> then Inr \<lfloor>r\<rfloor> else Inl BadAmount)
      | JBool b \<Rightarrow> Inr (of_bool b)
      | _ \<Rightarrow> Inl BadAmount)"

text \<open>\<open>(x as string) ?? ""\<close>: the node gives addresses as strings.\<close>

definition str_member :: "json \<Rightarrow> string" where
  "str_member x = (case x of JStr s \<Rightarrow> s | _ \<Rightarrow> [])"

definition read_memo :: "(nat list \<Rightarrow> string) \<Rightarrow> json \<Rightarrow> string" where
  "read_memo decodeText m =
     (case m of JArr xs \<Rightarrow> decodeText (uint8_array xs) | JStr s \<Rightarrow> s | _ \<Rightarrow> [])"

definition useEscrow ::
  "(nat list \<Rightarrow> string) \<Rightarrow> (string \<Rightarrow> escrow_error + escrow_object option) \<Rightarrow> string
     \<Rightarrow> escrow_error + EscrowState option" where
  "useEscrow decodeText getObject eid =
     (if eid = [] then Inr None
      else case getObject eid of
        Inl e \<Rightarrow> Inl e
      | Inr None \<Rightarrow> Inr None
      | Inr (Some obj) \<Rightarrow>
          (case eo_type obj of
             None \<Rightarrow> Inr None
           | Some fullType \<Rightarrow>
               if eo_dataType obj \<noteq> Some ''moveObject'' \<or> fullType = [] then Inr None
               else (let fs = eo_fields obj in
                     case big_member (get (get (get fs ''deliverable'') ''fields'') ''balance'') of
                       Inl e \<Rightarrow> Inl e
                     | Inr del \<Rightarrow>
                         (case big_member (get fs ''pay_amount'') of
                            Inl e \<Rightarrow> Inl e
                          | Inr pay \<Rightarrow>
                              Inr (Some
                                \<lparr>escrowId = eid, deliverableAmount = del, payAmount = pay,
                                 seller = str_member (get fs ''seller''),
                                 escrow_buyer = str_member (get fs ''buyer''),
                                 deliverableType = parseTypeArg fullType 0,
                                 payType = parseTypeArg fullType 1,
                                 memo = read_memo decodeText (get fs ''memo'')\<rparr>)))))"

section \<open>Transactions\<close>

record lock_args =
  sellerAddress :: string
  la_deliverableType :: string
  la_payType :: string
  la_deliverableAmount :: int
  la_payAmount :: int
  la_buyer :: string
  la_memo :: "nat list"

record object_change =
  change_type :: string
  objectType :: "string option"
  change_objectId :: string

record executed =
  digest :: string
  objectChanges :: "object_change list"

text \<open>The node's coin list and the wallet's signature and execution.\<close>

record escrow_client =
  getCoins :: "string \<Rightarrow> string \<Rightarrow> escrow_error + owned_coin list"
  signAndExecute :: "tx \<Rightarrow> escrow_error + executed"

definition is_escrow_change :: "object_change \<Rightarrow> bool" where
  "is_escrow_change c =
     (change_type c = ''created'' \<and>
      (case objectType c of Some t \<Rightarrow> js_includes ''m1n3_confidential_otc::Escrow'' t | None \<Rightarrow> False))"

definition lock_tx :: "OtcEscrowConfig \<Rightarrow> lock_args \<Rightarrow> owned_coin list \<Rightarrow> spend_error + tx" where
  "lock_tx cfg args coins =
     (case merge_and_split (la_deliverableType args) coins (la_deliverableAmount args) of
        Inl e \<Rightarrow> Inl e
      | Inr (tx0, deliverable) \<Rightarrow>
          Inr (tx0 @ [MoveCall (packageId cfg @ ''::m1n3_confidential_otc::lock_escrow'')
                        [la_deliverableType args, la_payType args]
                        [deliverable, PureAddress (la_buyer args), PureU64 (la_payAmount args),
                         PureBytes (la_memo args)]]))"

definition useLockEscrow ::
  "OtcEscrowConfig option \<Rightarrow> escrow_client \<Rightarrow> lock_args \<Rightarrow> escrow_error + string \<times> string" where
  "useLockEscrow config client args =
     (case config of
        None \<Rightarrow> Inl (NotAvailable ''OTC escrow not available on this network'')
      | Some cfg \<Rightarrow>
          (case getCoins client (sellerAddress args) (la_deliverableType args) of
             Inl e \<Rightarrow> Inl e
           | Inr coins \<Rightarrow>
               (case lock_tx cfg args coins of
                  Inl e \<Rightarrow> Inl (Spend e)
                | Inr tx \<Rightarrow>
                    (case signAndExecute client tx of
                       Inl e \<Rightarrow> Inl e
                     | Inr full \<Rightarrow>
                         (case find is_escrow_change (objectChanges full) of
                            None \<Rightarrow> Inl EscrowNotFound
                          | Some c \<Rightarrow> Inr (change_objectId c, digest full))))))"

definition settle_tx :: "OtcEscrowConfig \<Rightarrow> EscrowState \<Rightarrow> string \<Rightarrow> owned_coin list \<Rightarrow> spend_error + tx" where
  "settle_tx cfg esc buyerAddress coins =
     (case merge_and_split (payType esc) coins (payAmount esc) of
        Inl e \<Rightarrow> Inl e
      | Inr (tx0, payment) \<Rightarrow>
          (let tx1 = tx0 @ [MoveCall (packageId cfg @ ''::m1n3_confidential_otc::settle'')
                              [deliverableType esc, payType esc] [ObjArg (escrowId esc), payment]]
           in Inr (tx1 @ [TransferObjects [Res (length tx0) 0] buyerAddress])))"

definition useSettleEscrow ::
  "OtcEscrowConfig option \<Rightarrow> escrow_client \<Rightarrow> EscrowState \<Rightarrow> string \<Rightarrow> escrow_error + string" where
  "useSettleEscrow config client esc buyerAddress =
     (case config of
        None \<Rightarrow> Inl (NotAvailable ''OTC escrow not available on this network'')
      | Some cfg \<Rightarrow>
          (case getCoins client buyerAddress (payType esc) of
             Inl e \<Rightarrow> Inl e
           | Inr coins \<Rightarrow>
               (case settle_tx cfg esc buyerAddress coins of
                  Inl e \<Rightarrow> Inl (Spend e)
                | Inr tx \<Rightarrow>
                    (case signAndExecute client tx of Inl e \<Rightarrow> Inl e | Inr r \<Rightarrow> Inr (digest r)))))"

definition cancel_tx :: "OtcEscrowConfig \<Rightarrow> EscrowState \<Rightarrow> string \<Rightarrow> tx" where
  "cancel_tx cfg esc sellerAddr =
     [MoveCall (packageId cfg @ ''::m1n3_confidential_otc::cancel'')
        [deliverableType esc, payType esc] [ObjArg (escrowId esc)],
      TransferObjects [Res 0 0] sellerAddr]"

definition useCancelEscrow ::
  "OtcEscrowConfig option \<Rightarrow> escrow_client \<Rightarrow> EscrowState \<Rightarrow> string \<Rightarrow> escrow_error + string" where
  "useCancelEscrow config client esc sellerAddr =
     (case config of
        None \<Rightarrow> Inl (NotAvailable ''OTC escrow not available on this network'')
      | Some cfg \<Rightarrow>
          (case signAndExecute client (cancel_tx cfg esc sellerAddr) of
             Inl e \<Rightarrow> Inl e | Inr r \<Rightarrow> Inr (digest r)))"

definition useDusdcFaucet :: "OtcEscrowConfig option \<Rightarrow> escrow_client \<Rightarrow> escrow_error + string" where
  "useDusdcFaucet config client =
     (case config of
        None \<Rightarrow> Inl (NotAvailable ''DUSDC not available on this network'')
      | Some cfg \<Rightarrow>
          (case signAndExecute client
                  [MoveCall (packageId cfg @ ''::dusdc::faucet'') [] [ObjArg (dusdcCapId cfg)]] of
             Inl e \<Rightarrow> Inl e | Inr r \<Rightarrow> Inr (digest r)))"


section \<open>Links survive the round trip\<close>

lemma url_char_safe: "plain_char c \<Longrightarrow> url_char (url_safe c) = c"
  by (auto simp: plain_char_def url_char_def url_safe_def)

lemma url_safe_not_equals: "c \<noteq> CHR ''='' \<Longrightarrow> url_safe c \<noteq> CHR ''=''"
  by (auto simp: url_safe_def)

lemma strip_equals_encode:
  assumes "CHR ''='' \<notin> set cs" "set pad \<subseteq> {CHR ''=''}"
  shows "strip_equals (cs @ pad) = cs"
proof -
  have "dropWhile (\<lambda>c. c = CHR ''='') (rev pad @ rev cs) = dropWhile (\<lambda>c. c = CHR ''='') (rev cs)"
    using assms(2) by (intro dropWhile_append2) auto
  also have "\<dots> = rev cs" using assms(1) by (cases "rev cs") auto
  finally show ?thesis by (simp add: strip_equals_def)
qed

lemma padding_length:
  "replicate ((4 - length (sextets bs) mod 4) mod 4) CHR ''='' = padding bs"
proof -
  have "length bs mod 3 = 0 \<or> length bs mod 3 = 1 \<or> length bs mod 3 = 2" by linarith
  then show ?thesis
    using length_sextets_mod [of bs] by (auto simp: padding_def numeral_2_eq_2)
qed

lemma link_transport:
  "let s = strip_equals (map url_safe (btoa bin)); b64 = map url_char s
   in b64 @ replicate ((4 - length b64 mod 4) mod 4) CHR ''='' = btoa bin"
proof -
  let ?bs = "map of_char bin :: nat list"
  let ?cs = "map b64_char (sextets ?bs)"
  have plain: "\<forall>c \<in> set ?cs. plain_char c"
    using sextets_bound [of ?bs] plain_b64_char by auto
  have "map url_safe (btoa bin) = map url_safe ?cs @ padding ?bs"
    by (simp add: btoa_def b64_encode_sextets padding_def url_safe_def)
  moreover have "CHR ''='' \<notin> set (map url_safe ?cs)"
    using plain url_safe_not_equals by (fastforce simp: plain_char_def)
  moreover have "set (padding ?bs) \<subseteq> {CHR ''=''}" by (auto simp: padding_def)
  ultimately have "strip_equals (map url_safe (btoa bin)) = map url_safe ?cs"
    by (metis strip_equals_encode)
  moreover have "map url_char (map url_safe ?cs) = ?cs"
    using plain url_char_safe by simp
  moreover have "?cs @ replicate ((4 - length ?cs mod 4) mod 4) CHR ''='' = btoa bin"
    using padding_length [of ?bs] by (simp add: btoa_def b64_encode_sextets)
  ultimately show ?thesis unfolding Let_def by (simp only:)
qed

lemma decode_link_text:
  assumes "utf8_encode (stringify (link_json t)) = Some bin" "parse (stringify (link_json t)) = Some (link_json t)"
  shows "decodeOtcLink parse (strip_equals (map url_safe (btoa bin))) = Some (link_json t)"
  using link_transport [of bin] assms(2)
  by (simp add: decodeOtcLink_def Let_def atob_btoa utf8_roundtrip [OF assms(1)])
     (simp add: link_json_def obj_get_def is_JStr_def)

text \<open>
  C14: Decoding an encoded share link gives back the link, whatever its length modulo three and
  whichever of the characters \<open>+\<close>, \<open>/\<close> and \<open>=\<close> its base64 text has, for any JSON functions of
  which parse inverts stringify on the link and stringify gives well-formed text.
\<close>

theorem decode_encodeOtcLink:
  assumes "parse (stringify (link_json t)) = Some (link_json t)"
    and "list_all scalar_value (stringify (link_json t))"
  shows "\<exists>s. encodeOtcLink stringify t = Some s \<and> decodeOtcLink parse s = Some (link_json t)"
proof -
  obtain bin where bin: "utf8_encode (stringify (link_json t)) = Some bin"
    using assms(2) by (simp add: utf8_encode_def)
  then show ?thesis using decode_link_text [of stringify t bin parse] assms(1) by (simp add: encodeOtcLink_def)
qed

definition demo_link :: OtcLinkV1 where
  "demo_link = \<lparr>link_escrowId = ''0xa'', sellAsset = ''A'', payAsset = ''B''\<rparr>"

theorem decode_encodeOtcLink_witness:
  "\<exists>s. encodeOtcLink (\<lambda>_. [123, 0x20AC, 125]) demo_link = Some s \<and>
     decodeOtcLink (\<lambda>t. if t = [123, 0x20AC, 125] then Some (link_json demo_link) else None) s
       = Some (link_json demo_link)"
  by (rule decode_encodeOtcLink) (simp_all add: scalar_value_def surrogate_def)

section \<open>Type arguments\<close>

text \<open>
  A type text whose brackets are balanced and whose commas are inside brackets; \<open>d\<close> is the depth
  at its start.
\<close>

fun balanced :: "nat \<Rightarrow> string \<Rightarrow> bool" where
  "balanced d [] = (d = 0)"
| "balanced d (c # cs) =
     (if c = CHR ''<'' then balanced (Suc d) cs
      else if c = CHR ''>'' then 0 < d \<and> balanced (d - 1) cs
      else if c = CHR '','' then 0 < d \<and> balanced d cs
      else balanced d cs)"

lemma split_scan_balanced:
  "balanced d a \<Longrightarrow> split_scan (a @ r) (int d) cur parts = split_scan r 0 (cur @ a) parts"
proof (induction a arbitrary: d cur)
  case (Cons c a)
  show ?case
  proof (cases "c = CHR ''>''")
    case True
    then have "0 < d" "balanced (d - 1) a" using Cons.prems by auto
    then show ?thesis using Cons.IH [of "d - 1" "cur @ [c]"] True by (simp add: of_nat_diff)
  next
    case False
    then show ?thesis
      using Cons.IH [of "Suc d" "cur @ [c]"] Cons.IH [of d "cur @ [c]"] Cons.prems
      by (auto simp: add.commute split: if_splits)
  qed
qed simp

lemma trim_space: "trim (CHR '' '' # s) = trim s"
  by (simp add: trim_def js_space_def)

lemma parseTypeArg_parts:
  assumes "CHR ''<'' \<notin> set h"
  shows "parseTypeArg (h @ ''<'' @ inner @ ''>'') i
           = (case index (split_scan inner 0 [] []) i of Some p \<Rightarrow> p | None \<Rightarrow> [])"
proof -
  let ?s = "h @ ''<'' @ inner @ ''>''"
  have "takeWhile (\<lambda>x. x \<noteq> CHR ''<'') ?s = h"
    using assms by (subst takeWhile_append2) auto
  then have op: "index_of CHR ''<'' ?s = Some (length h)" by (simp add: index_of_def)
  have cl: "last_index_of CHR ''>'' ?s = Some (length h + 1 + length inner)"
    by (simp add: last_index_of_def index_of_def)
  have "slice (int (length h) + 1) (int (length h + 1 + length inner)) ?s
      = slice (int (length h + 1)) (int (length h + 1 + length inner)) ?s"
    by (simp add: add.commute [of _ 1])
  also have "\<dots> = inner" by (simp only: slice_nat) simp
  finally show ?thesis unfolding parseTypeArg_def op cl Let_def by simp
qed

text \<open>
  parseTypeArg reads back both type parameters of an escrow object type
  \<open>package::module::Escrow<A, B>\<close>, also when A or B is itself a generic type with commas.
\<close>

theorem parseTypeArg_escrow:
  assumes "CHR ''<'' \<notin> set h" "balanced 0 a" "balanced 0 b" "trim a = a" "trim b = b"
  shows "parseTypeArg (h @ ''<'' @ a @ '', '' @ b @ ''>'') 0 = a
       \<and> parseTypeArg (h @ ''<'' @ a @ '', '' @ b @ ''>'') 1 = b"
proof -
  have "split_scan (a @ '', '' @ b) 0 [] [] = [a, b]"
    using split_scan_balanced [OF assms(2), of "'', '' @ b" "[]" "[]"]
      split_scan_balanced [OF assms(3), of "[]" "'' ''" "[a]"] assms(4,5)
    by (simp add: trim_space)
  then show ?thesis
    using parseTypeArg_parts [OF assms(1), of "a @ '', '' @ b"] by (simp add: index_def)
qed

theorem parseTypeArg_escrow_witness:
  "parseTypeArg ''0x1::m::Escrow<0x2::p::Pair<A, B>, 0x3::d::DUSDC>'' 0 = ''0x2::p::Pair<A, B>'' \<and>
   parseTypeArg ''0x1::m::Escrow<0x2::p::Pair<A, B>, 0x3::d::DUSDC>'' 1 = ''0x3::d::DUSDC''"
  using parseTypeArg_escrow [of "''0x1::m::Escrow''" "''0x2::p::Pair<A, B>''" "''0x3::d::DUSDC''"]
  by (simp add: trim_def js_space_def)


section \<open>Escrow transactions spend exactly the agreed amounts\<close>

text \<open>
  The effect of an escrow transaction on the sender's coins: the call of the escrow module takes
  a coin of exactly \<open>amount\<close>, and every other unit stays in the first coin.
\<close>

definition pays_exactly :: "tx \<Rightarrow> nat \<Rightarrow> tx_arg \<Rightarrow> owned_coin list \<Rightarrow> int \<Rightarrow> bool" where
  "pays_exactly cmds k pay coins amount \<longleftrightarrow>
     (case run_tx 0 (take k cmds) (wallet coins) of
        None \<Rightarrow> False
      | Some m \<Rightarrow> m pay = Some amount \<and>
          m (ObjArg (coinObjectId (hd coins))) = Some (wallet_total coins - amount)) \<and>
     (case run_tx 0 cmds (wallet coins) of
        None \<Rightarrow> False
      | Some m \<Rightarrow> m pay = None \<and> m (ObjArg (coinObjectId (hd coins))) = Some (wallet_total coins - amount))"

lemma pays_exactlyI:
  assumes "distinct (map coinObjectId coins)" "balances_ok coins" "coins \<noteq> []"
    and "0 \<le> amount" "amount \<le> wallet_total coins"
    and "merge_and_split ct coins amount = Inr (tx0, Res k 0)"
    and "length tx0 = Suc k" "\<And>m. run_tx (Suc k) rest m = Some (\<lambda>a. if a \<in> taken then None else m a)"
    and "Res k 0 \<in> taken" "ObjArg (coinObjectId (hd coins)) \<notin> taken"
  shows "pays_exactly (tx0 @ rest) (Suc k) (Res k 0) coins amount"
proof -
  have "run_tx 0 tx0 (wallet coins)
      = Some [ObjArg (coinObjectId (hd coins)) \<mapsto> wallet_total coins - amount, Res k 0 \<mapsto> amount]"
    using merge_and_split_run [OF assms(1-5), of ct] assms(6) by auto
  then show ?thesis
    using assms(7-10) by (auto simp: pays_exactly_def run_tx_append)
qed


definition demo_coins :: "owned_coin list" where
  "demo_coins = [\<lparr>coinObjectId = ''0xa'', coin_balance = ''5''\<rparr>, \<lparr>coinObjectId = ''0xb'', coin_balance = ''7''\<rparr>]"

definition demo_lock :: lock_args where
  "demo_lock = \<lparr>sellerAddress = ''0x5'', la_deliverableType = ''HS'', la_payType = ''USD'',
                la_deliverableAmount = 9, la_payAmount = 4, la_buyer = ''0x6'', la_memo = []\<rparr>"

lemma demo_coins_ok:
  "distinct (map coinObjectId demo_coins)" "balances_ok demo_coins" "demo_coins \<noteq> []" "wallet_total demo_coins = 12"
  by code_simp+



definition demo_escrow :: EscrowState where
  "demo_escrow = \<lparr>escrowId = ''0xe'', deliverableAmount = 3, payAmount = 11, seller = ''0x5'',
     escrow_buyer = ''0x6'', deliverableType = ''HS'', payType = ''USD'', memo = []\<rparr>"


text \<open>
  useLockEscrow fails before any signature when the network has no escrow, the coins cannot be
  read, a balance is malformed or the coins do not cover the deliverable; otherwise it signs
  exactly one transaction, and returns the first created escrow object or reports that none was
  created.
\<close>

theorem useLockEscrow_outcomes:
  "useLockEscrow config client args =
     (case config of
        None \<Rightarrow> Inl (NotAvailable ''OTC escrow not available on this network'')
      | Some cfg \<Rightarrow>
          (case getCoins client (sellerAddress args) (la_deliverableType args) of
             Inl e \<Rightarrow> Inl e
           | Inr coins \<Rightarrow>
               if \<not> balances_ok coins then Inl (Spend BadBalance)
               else if wallet_total coins < la_deliverableAmount args
               then Inl (Spend (NotEnough (la_deliverableType args) (wallet_total coins) (la_deliverableAmount args)))
               else if coins = [] then Inl (Spend NoCoin)
               else (case signAndExecute client (projr (lock_tx cfg args coins)) of
                       Inl e \<Rightarrow> Inl e
                     | Inr full \<Rightarrow>
                         (case filter is_escrow_change (objectChanges full) of
                            [] \<Rightarrow> Inl EscrowNotFound
                          | c # _ \<Rightarrow> Inr (change_objectId c, digest full)))))"
proof -
  have find: "find P xs = (case filter P xs of [] \<Rightarrow> None | c # _ \<Rightarrow> Some c)" for P :: "object_change \<Rightarrow> bool" and xs
    by (induction xs) auto
  show ?thesis
    using coin_total_ok coin_total_bad
    by (auto simp: useLockEscrow_def lock_tx_def merge_and_split_def find Let_def
        split: option.split sum.split list.split)
qed

end
