(* ===== verification/Sui_Queries.thy ===== *)
theory Sui_Queries
  imports Hashprice Bitcoin_Utils Encoding Sui_Rpc
begin

text \<open>
  Model of the GraphQL reads: the client \<open>web/lib/sui-graphql.ts\<close> and the pool, template and
  miner queries of \<open>web/lib/sui-queries.ts\<close>. The indexer is the parameter \<open>server\<close>, a function of
  the query's name and variables (\<open>None\<close> is a rejected fetch or a body that is not JSON); whether
  \<open>Buffer\<close> is defined and \<open>Date.parse\<close> are parameters too. The loops bounded by \<open>MAX_PAGES\<close> are
  primitive recursive; the unbounded \<open>while (true)\<close> loops are partial functions, so that a loop that
  does not end is \<open>None\<close>, and they are proved to return for an indexer that serves a finite list.
\<close>

section \<open>The GraphQL client\<close>

datatype gql_error = FetchFailed | GqlHttp int | GqlErrors json | BadShape

type_synonym gql_server = "string \<Rightarrow> json \<Rightarrow> http_response option"

definition GRAPHQL_URLS :: "string \<Rightarrow> string option" where
  "GRAPHQL_URLS network =
     (if network = ''mainnet'' then Some ''https://graphql.mainnet.sui.io/graphql''
      else if network = ''testnet'' then Some ''https://graphql.testnet.sui.io/graphql''
      else if network = ''devnet'' then Some ''https://graphql.devnet.sui.io/graphql''
      else None)"

definition GRAPHQL_URL :: "string \<Rightarrow> string" where
  "GRAPHQL_URL network =
     (case GRAPHQL_URLS network of Some u \<Rightarrow> u | None \<Rightarrow> the (GRAPHQL_URLS ''testnet''))"

text \<open>A non-empty \<open>errors\<close> array makes the call throw its first message.\<close>

definition gql :: "gql_server \<Rightarrow> string \<Rightarrow> json \<Rightarrow> gql_error + json" where
  "gql server query variables =
     (case server query variables of
        None \<Rightarrow> Inl FetchFailed
      | Some resp \<Rightarrow>
          if \<not> http_ok resp then Inl (GqlHttp (http_status resp))
          else if nullish (http_body resp) then Inl BadShape
          else (case get (http_body resp) ''errors'' of
                  JArr (e # _) \<Rightarrow> Inl (GqlErrors (or_default (get e ''message'') (JStr ''GraphQL error'')))
                | _ \<Rightarrow> Inr (get (http_body resp) ''data'')))"

definition b64hex :: "bool \<Rightarrow> json \<Rightarrow> string" where
  "b64hex hasBuffer val =
     (case val of
        JStr s \<Rightarrow>
          (if hasBuffer then hex_of_binary (Buffer_from_base64 s)
           else case atob s of Some bin \<Rightarrow> hex_of_binary bin | None \<Rightarrow> [])
      | _ \<Rightarrow> [])"

definition b64hexArray :: "bool \<Rightarrow> json \<Rightarrow> string list" where
  "b64hexArray hasBuffer val =
     (case val of JArr xs \<Rightarrow> filter (\<lambda>s. length s > 0) (map (b64hex hasBuffer) xs) | _ \<Rightarrow> [])"

definition parseU64 :: "json \<Rightarrow> number" where
  "parseU64 val =
     (case val of
        JStr s \<Rightarrow> (case parseInt 10 s of Some n \<Rightarrow> Fin (of_int n) | None \<Rightarrow> 0)
      | JNum n \<Rightarrow> n
      | _ \<Rightarrow> 0)"

section \<open>Records\<close>

record TemplateData =
  td_id :: string
  td_height :: number
  prevBlockHash :: string
  coinbase1 :: string
  coinbase2 :: string
  merkleBranches :: "string list"
  version :: number
  td_nbits :: number
  ntime :: number
  isActive :: bool
  td_owner :: string
  createdAtMs :: number
  shareCount :: nat
  stakedAmount :: "number option"
  registrationDigest :: json
  lastShareDigest :: json

record PoolData =
  totalShares :: number
  totalBlocks :: number
  currentRound :: number
  globalMinDifficulty :: number
  chainHeight :: number
  poolHashrate :: "number option"
  poolHashrateAvg :: "number option"

record MinerStatsData =
  ms_address :: string
  ms_totalShares :: number
  blocksFound :: number
  registeredAtMs :: number
  currentRoundWork :: number
  currentRoundShares :: number
  estimatedHashrate :: number
  lastShareTimeMs :: number
  currentTemplateId :: "string option"
  templateOwner :: "string option"
  isSoloMiner :: bool
  miningMode :: string

definition ACTIVE_TEMPLATE_WINDOW :: nat where "ACTIVE_TEMPLATE_WINDOW = 3"
definition EVENT_PAGE_SIZE :: nat where "EVENT_PAGE_SIZE = 50"
definition MAX_PAGES :: nat where "MAX_PAGES = 20"

definition parseTemplateJson :: "bool \<Rightarrow> json \<Rightarrow> string \<Rightarrow> TemplateData" where
  "parseTemplateJson hasBuffer j tid =
     \<lparr>td_id = tid,
      td_height = parseU64 (get j ''height''),
      prevBlockHash = b64hex hasBuffer (get j ''prev_block_hash''),
      coinbase1 = b64hex hasBuffer (get j ''coinbase1''),
      coinbase2 = b64hex hasBuffer (get j ''coinbase2''),
      merkleBranches = map reverseHex (b64hexArray hasBuffer (get j ''merkle_branches'')),
      version = parseU64 (get j ''version''),
      td_nbits = parseU64 (get j ''nbits''),
      ntime = parseU64 (get j ''ntime''),
      isActive = False,
      td_owner = (case get j ''owner'' of JStr s \<Rightarrow> s | _ \<Rightarrow> []),
      createdAtMs = parseU64 (get j ''created_at_ms''),
      shareCount = 0,
      stakedAmount = None,
      registrationDigest = JUndef,
      lastShareDigest = JUndef\<rparr>"

section \<open>Pool and object reads\<close>

definition move_json :: "json \<Rightarrow> json" where
  "move_json obj = get (get (get obj ''asMoveObject'') ''contents'') ''json''"

definition fetchPoolStats :: "gql_server \<Rightarrow> string \<Rightarrow> PoolData option" where
  "fetchPoolStats server poolObjectId =
     (if poolObjectId = [] then None
      else case gql server ''Pool'' (JObj [(''id'', JStr poolObjectId)]) of
             Inl _ \<Rightarrow> None
           | Inr data \<Rightarrow>
               (let j = move_json (get data ''object'') in
                if \<not> truthy j then None
                else Some \<lparr>totalShares = parseU64 (get j ''total_shares''),
                           totalBlocks = parseU64 (get j ''total_blocks''),
                           currentRound = parseU64 (get j ''current_round''),
                           globalMinDifficulty = parseU64 (get j ''global_min_difficulty''),
                           chainHeight = 0, poolHashrate = None, poolHashrateAvg = None\<rparr>))"

definition fetchTemplateById :: "bool \<Rightarrow> gql_server \<Rightarrow> string \<Rightarrow> TemplateData option" where
  "fetchTemplateById hasBuffer server tid =
     (case gql server ''Template'' (JObj [(''id'', JStr tid)]) of
        Inl _ \<Rightarrow> None
      | Inr data \<Rightarrow>
          (let j = move_json (get data ''object'') in
           if \<not> truthy j then None else Some (parseTemplateJson hasBuffer j tid)))"

definition first_of :: "json \<Rightarrow> json" where
  "first_of x = (case x of JArr (y # _) \<Rightarrow> y | _ \<Rightarrow> JUndef)"

definition fetchMinerStats :: "gql_server \<Rightarrow> string \<Rightarrow> string \<Rightarrow> MinerStatsData option" where
  "fetchMinerStats server packageId address =
     (if packageId = [] \<or> address = [] then None
      else case gql server ''MinerStats''
                  (JObj [(''type'', JStr (packageId @ ''::miner::MinerStats'')), (''owner'', JStr address)]) of
             Inl _ \<Rightarrow> None
           | Inr data \<Rightarrow>
               (let j = move_json (first_of (get (get data ''objects'') ''nodes'')) in
                if \<not> truthy j then None
                else Some \<lparr>ms_address = address, ms_totalShares = parseU64 (get j ''total_shares''),
                           blocksFound = parseU64 (get j ''blocks_found''),
                           registeredAtMs = parseU64 (get j ''registered_at_ms''),
                           currentRoundWork = 0, currentRoundShares = 0, estimatedHashrate = 0,
                           lastShareTimeMs = 0, currentTemplateId = None, templateOwner = None,
                           isSoloMiner = False, miningMode = ''unknown''\<rparr>))"

section \<open>Pages\<close>

record gql_page =
  nodes :: "json list"
  has_more :: bool
  endCursor :: json

definition page_of :: "json \<Rightarrow> gql_error + gql_page" where
  "page_of page =
     (case get page ''nodes'' of
        JArr ns \<Rightarrow>
          (let info = get page ''pageInfo'' in
           if nullish info then Inl BadShape
           else Inr \<lparr>nodes = ns, has_more = truthy (get info ''hasNextPage''), endCursor = get info ''endCursor''\<rparr>)
      | _ \<Rightarrow> Inl BadShape)"

text \<open>
  The bounded event loops: a failed request and a missing page end the loop with what has been
  collected.
\<close>

primrec gwalk ::
  "nat \<Rightarrow> (json \<Rightarrow> gql_error + json) \<Rightarrow> ('a \<Rightarrow> json \<Rightarrow> 'a) \<Rightarrow> json \<Rightarrow> 'a \<Rightarrow> gql_error + 'a" where
  "gwalk 0 fetch step cursor acc = Inr acc"
| "gwalk (Suc n) fetch step cursor acc =
     (case fetch cursor of
        Inl _ \<Rightarrow> Inr acc
      | Inr data \<Rightarrow>
          (let evs = get data ''events'' in
           if \<not> truthy evs then Inr acc
           else sum_bind (page_of evs) (\<lambda>p.
                  let acc' = foldl step acc (nodes p) in
                  if \<not> has_more p then Inr acc' else gwalk n fetch step (endCursor p) acc')))"

definition event_json :: "json \<Rightarrow> json" where
  "event_json node = get (get node ''contents'') ''json''"

record PerTemplateShareInfo =
  share_count :: nat
  lastDigest :: json
  lastTimestampMs :: "number option"

definition node_time :: "(json \<Rightarrow> number) \<Rightarrow> json \<Rightarrow> number" where
  "node_time dateParse node =
     (if truthy (get node ''timestamp'') then dateParse (get node ''timestamp'') else NaN)"

definition node_digest :: "json \<Rightarrow> json" where
  "node_digest node = get (get node ''transaction'') ''digest''"

definition touch_info :: "(json \<Rightarrow> number) \<Rightarrow> PerTemplateShareInfo \<Rightarrow> json \<Rightarrow> PerTemplateShareInfo" where
  "touch_info dateParse cur node =
     (let digest = node_digest node;
          ts = node_time dateParse node;
          cur1 = cur\<lparr>share_count := share_count cur + 1\<rparr> in
      if truthy digest \<and>
         (case lastTimestampMs cur of None \<Rightarrow> True | Some l \<Rightarrow> isFinite ts \<and> ts > l)
      then cur1\<lparr>lastDigest := digest,
                lastTimestampMs := (if isFinite ts then Some ts else lastTimestampMs cur)\<rparr>
      else cur1)"

definition info0 :: PerTemplateShareInfo where
  "info0 = \<lparr>share_count = 0, lastDigest = JUndef, lastTimestampMs = None\<rparr>"

definition share_step ::
  "(json \<Rightarrow> number) \<Rightarrow> (string \<Rightarrow> PerTemplateShareInfo option) \<Rightarrow> json
     \<Rightarrow> (string \<Rightarrow> PerTemplateShareInfo option)" where
  "share_step dateParse out node =
     (case get (event_json node) ''template_id'' of
        JStr tid \<Rightarrow>
          (if tid = [] then out
           else out(tid \<mapsto> touch_info dateParse (case out tid of Some i \<Rightarrow> i | None \<Rightarrow> info0) node))
      | _ \<Rightarrow> out)"

definition event_query :: "gql_server \<Rightarrow> string \<Rightarrow> string \<Rightarrow> json \<Rightarrow> gql_error + json" where
  "event_query server name eventType cursor =
     gql server name
       (JObj [(''type'', JStr eventType), (''cursor'', cursor), (''first'', JNum (Fin (of_nat EVENT_PAGE_SIZE)))])"

definition fetchShareInfoByTemplate ::
  "(json \<Rightarrow> number) \<Rightarrow> gql_server \<Rightarrow> string \<Rightarrow> gql_error + (string \<Rightarrow> PerTemplateShareInfo option)" where
  "fetchShareInfoByTemplate dateParse server packageId =
     (if packageId = [] then Inr (\<lambda>_. None)
      else gwalk MAX_PAGES (event_query server ''ShareEventsForCount'' (packageId @ ''::pool::ShareSubmitted''))
             (share_step dateParse) JNull (\<lambda>_. None))"

definition registration_step ::
  "(string \<Rightarrow> json option) \<Rightarrow> json \<Rightarrow> (string \<Rightarrow> json option)" where
  "registration_step out node =
     (case get (event_json node) ''template_id'' of
        JStr tid \<Rightarrow> (if truthy (node_digest node) \<and> out tid = None then out(tid \<mapsto> node_digest node) else out)
      | _ \<Rightarrow> out)"

definition fetchTemplateRegistrationDigests ::
  "gql_server \<Rightarrow> string \<Rightarrow> gql_error + (string \<Rightarrow> json option)" where
  "fetchTemplateRegistrationDigests server packageId =
     (if packageId = [] then Inr (\<lambda>_. None)
      else gwalk MAX_PAGES (event_query server ''TemplateRegEvents'' (packageId @ ''::pool::TemplateRegistered''))
             registration_step JNull (\<lambda>_. None))"

section \<open>Template lists\<close>

definition node_address :: "json \<Rightarrow> string" where
  "node_address node = (case get node ''address'' of JStr s \<Rightarrow> s | _ \<Rightarrow> [])"

text \<open>The \<open>while (true)\<close> over the pages of template objects, \<open>entry\<close> being what a node contributes.\<close>

partial_function (option) object_loop ::
  "(json \<Rightarrow> gql_error + json) \<Rightarrow> (json \<Rightarrow> 'a list) \<Rightarrow> json \<Rightarrow> 'a list \<Rightarrow> (gql_error + 'a list) option"
where
  "object_loop fetch entry cursor acc =
     (case fetch cursor of
        Inl e \<Rightarrow> Some (Inl e)
      | Inr data \<Rightarrow>
          if \<not> truthy (get data ''objects'') then Some (Inr acc)
          else (case page_of (get data ''objects'') of
                  Inl e \<Rightarrow> Some (Inl e)
                | Inr p \<Rightarrow>
                    if \<not> has_more p then Some (Inr (acc @ concat (map entry (nodes p))))
                    else object_loop fetch entry (endCursor p) (acc @ concat (map entry (nodes p)))))"

definition template_entry ::
  "bool \<Rightarrow> (string \<Rightarrow> PerTemplateShareInfo option) \<Rightarrow> (string \<Rightarrow> json option) \<Rightarrow> json \<Rightarrow> TemplateData list" where
  "template_entry hasBuffer shareInfo regDigests node =
     (let j = move_json node; a = node_address node in
      if \<not> truthy j then []
      else [(parseTemplateJson hasBuffer j a)
              \<lparr>shareCount := (case shareInfo a of Some i \<Rightarrow> share_count i | None \<Rightarrow> 0),
               lastShareDigest := (case shareInfo a of Some i \<Rightarrow> lastDigest i | None \<Rightarrow> JUndef),
               registrationDigest := (case regDigests a of Some d \<Rightarrow> d | None \<Rightarrow> JUndef)\<rparr>])"

definition newest_first :: "TemplateData \<Rightarrow> TemplateData \<Rightarrow> number" where
  "newest_first a b =
     (if createdAtMs b \<noteq> createdAtMs a \<or> createdAtMs a = NaN then createdAtMs b - createdAtMs a
      else td_height b - td_height a)"

definition mark_active :: "TemplateData list \<Rightarrow> TemplateData list" where
  "mark_active ts = map (\<lambda>(i, t). t\<lparr>isActive := (i < ACTIVE_TEMPLATE_WINDOW)\<rparr>) (enumerate 0 ts)"

definition fetchActiveTemplates ::
  "bool \<Rightarrow> (json \<Rightarrow> number) \<Rightarrow> gql_server \<Rightarrow> string \<Rightarrow> TemplateData list option" where
  "fetchActiveTemplates hasBuffer dateParse server packageId =
     (if packageId = [] then Some []
      else case (fetchShareInfoByTemplate dateParse server packageId,
                 fetchTemplateRegistrationDigests server packageId) of
             (Inr shareInfo, Inr regDigests) \<Rightarrow>
               (case object_loop
                       (\<lambda>c. gql server ''Templates''
                              (JObj [(''type'', JStr (packageId @ ''::pool::Template'')), (''cursor'', c)]))
                       (template_entry hasBuffer shareInfo regDigests) JNull [] of
                  None \<Rightarrow> None
                | Some (Inl _) \<Rightarrow> Some []
                | Some (Inr templates) \<Rightarrow> Some (mark_active (js_sort newest_first templates)))
           | _ \<Rightarrow> Some [])"

definition owner_entry :: "bool \<Rightarrow> json \<Rightarrow> TemplateData list" where
  "owner_entry hasBuffer node =
     (if truthy (move_json node) then [parseTemplateJson hasBuffer (move_json node) (node_address node)] else [])"

definition fetchTemplatesByOwner ::
  "bool \<Rightarrow> gql_server \<Rightarrow> string \<Rightarrow> string \<Rightarrow> TemplateData list option" where
  "fetchTemplatesByOwner hasBuffer server packageId own =
     (if packageId = [] \<or> own = [] then Some []
      else case object_loop
                  (\<lambda>c. gql server ''TemplatesByOwner''
                         (JObj [(''type'', JStr (packageId @ ''::pool::Template'')), (''owner'', JStr own),
                                (''cursor'', c)]))
                  (owner_entry hasBuffer) JNull [] of
             None \<Rightarrow> None
           | Some (Inl _) \<Rightarrow> Some []
           | Some (Inr templates) \<Rightarrow> Some (js_sort (\<lambda>a b. createdAtMs b - createdAtMs a) templates))"


section \<open>Bytes of the chain\<close>

text \<open>The indexer gives a byte vector as its base64 text.\<close>

definition vector_json :: "bytes \<Rightarrow> json" where
  "vector_json bs = JStr (btoa (map (\<lambda>b. char_of (unat b)) bs))"

lemma b64hex_vector: "b64hex hasBuffer (vector_json bs) = bytes_hex bs"
  using web.hex_of_decoded [of "map (\<lambda>b. char_of (unat b)) bs"]
    node.hex_of_decoded [of "map (\<lambda>b. char_of (unat b)) bs"]
  by (auto simp: b64hex_def vector_json_def hex_of_binary_bytes split: option.split)

lemma b64hexArray_vector:
  "list_all (\<lambda>bs. bs \<noteq> []) bss \<Longrightarrow> b64hexArray hasBuffer (JArr (map vector_json bss)) = map bytes_hex bss"
  by (induction bss) (auto simp: b64hexArray_def b64hex_vector)

record chain_template =
  ct_height :: nat
  ct_prev :: bytes
  ct_cb1 :: bytes
  ct_cb2 :: bytes
  ct_branches :: "bytes list"
  ct_owner :: string
  ct_created :: nat

definition u64_json :: "nat \<Rightarrow> json" where
  "u64_json n = JStr (to_radix 10 n)"

definition template_json :: "chain_template \<Rightarrow> json" where
  "template_json t =
     JObj [(''height'', u64_json (ct_height t)), (''prev_block_hash'', vector_json (ct_prev t)),
           (''coinbase1'', vector_json (ct_cb1 t)), (''coinbase2'', vector_json (ct_cb2 t)),
           (''merkle_branches'', JArr (map vector_json (ct_branches t))),
           (''owner'', JStr (ct_owner t)), (''created_at_ms'', u64_json (ct_created t))]"

lemma parseU64_u64 [simp]: "parseU64 (u64_json n) = Fin (of_nat n)"
  using parseInt_digits [of "to_radix 10 n" 10] to_radix_digits [of 10 n]
  by (simp add: parseU64_def u64_json_def)

text \<open>
  C23: A template read from the indexer shows the bytes of the chain: with or without Buffer, the
  hash and both coinbase halves are the hex of the stored bytes, every merkle branch is the hex
  of its bytes in reverse (display) order, and the 64-bit numbers are exact as long as a double
  is.
\<close>

theorem parseTemplateJson_bytes:
  assumes "list_all (\<lambda>bs. bs \<noteq> []) (ct_branches t)"
  shows "prevBlockHash (parseTemplateJson hasBuffer (template_json t) tid) = bytes_hex (ct_prev t)
    \<and> coinbase1 (parseTemplateJson hasBuffer (template_json t) tid) = bytes_hex (ct_cb1 t)
    \<and> coinbase2 (parseTemplateJson hasBuffer (template_json t) tid) = bytes_hex (ct_cb2 t)
    \<and> merkleBranches (parseTemplateJson hasBuffer (template_json t) tid)
        = map (\<lambda>bs. bytes_hex (rev bs)) (ct_branches t)
    \<and> td_height (parseTemplateJson hasBuffer (template_json t) tid) = Fin (of_nat (ct_height t))
    \<and> createdAtMs (parseTemplateJson hasBuffer (template_json t) tid) = Fin (of_nat (ct_created t))
    \<and> td_owner (parseTemplateJson hasBuffer (template_json t) tid) = ct_owner t"
  using b64hexArray_vector [OF assms, of hasBuffer]
  by (simp add: parseTemplateJson_def template_json_def obj_get_def b64hex_vector reverseHex_bytes_hex)

theorem parseTemplateJson_bytes_witness:
  "merkleBranches (parseTemplateJson False (template_json
     \<lparr>ct_height = 3, ct_prev = [1], ct_cb1 = [2], ct_cb2 = [3], ct_branches = [[4, 5]], ct_owner = ''o'',
      ct_created = 9\<rparr>) ''0x1'') = [bytes_hex [5, 4]]"
  using parseTemplateJson_bytes [of "\<lparr>ct_height = 3, ct_prev = [1], ct_cb1 = [2], ct_cb2 = [3],
      ct_branches = [[4, 5]], ct_owner = ''o'', ct_created = 9\<rparr>" False "''0x1''"] by simp

section \<open>Served pages\<close>

definition page_json :: "string \<Rightarrow> json list \<Rightarrow> bool \<Rightarrow> json \<Rightarrow> json" where
  "page_json key ns next cursor =
     JObj [(key, JObj [(''nodes'', JArr ns),
                       (''pageInfo'', JObj [(''hasNextPage'', JBool next), (''endCursor'', cursor)])])]"

definition serves_nodes ::
  "(json \<Rightarrow> gql_error + json) \<Rightarrow> string \<Rightarrow> (nat \<Rightarrow> json) \<Rightarrow> nat \<Rightarrow> json list \<Rightarrow> bool" where
  "serves_nodes fetch key cur k ns \<longleftrightarrow>
     0 < k \<and> (\<forall>i. fetch (if i = 0 then JNull else cur i) =
        Inr (page_json key (take k (drop (i * k) ns)) (Suc i * k < length ns) (cur (Suc i))))"

lemma page_json_read [simp]:
  "truthy (get (page_json key ns next cursor) key)"
  "page_of (get (page_json key ns next cursor) key) = Inr \<lparr>nodes = ns, has_more = next, endCursor = cursor\<rparr>"
  by (simp_all add: page_json_def page_of_def obj_get_def)

lemma take_split: "take (Suc n * k) (drop (i * k) ns) = take k (drop (i * k) ns) @ take (n * k) (drop (Suc i * k) ns)"
  by (simp add: take_add drop_drop add.commute)

lemma gwalk_from:
  assumes "serves_nodes fetch ''events'' cur k ns"
  shows "gwalk n fetch step (if i = 0 then JNull else cur i) acc
           = Inr (foldl step acc (take (n * k) (drop (i * k) ns)))"
proof (induction n arbitrary: i acc)
  case (Suc n)
  have f: "fetch (if i = 0 then JNull else cur i) =
        Inr (page_json ''events'' (take k (drop (i * k) ns)) (Suc i * k < length ns) (cur (Suc i)))"
    using assms by (simp add: serves_nodes_def)
  show ?case
  proof (cases "Suc i * k < length ns")
    case True
    then show ?thesis using Suc.IH [of "Suc i"] by (simp only: gwalk.simps f take_split) simp
  next
    case False
    then have "drop (Suc i * k) ns = []" by simp
    then show ?thesis using False by (simp only: gwalk.simps f take_split) simp
  qed
qed simp

lemma gwalk_stream:
  "serves_nodes fetch ''events'' cur k ns \<Longrightarrow> gwalk n fetch step JNull acc = Inr (foldl step acc (take (n * k) ns))"
  using gwalk_from [of fetch cur k ns n step 0] by simp

lemma object_loop_from:
  assumes "serves_nodes fetch ''objects'' cur k ns"
  shows "object_loop fetch entry (if i = 0 then JNull else cur i) acc
           = Some (Inr (acc @ concat (map entry (drop (i * k) ns))))"
proof (induction "length ns - i * k" arbitrary: i acc rule: less_induct)
  case less
  have f: "fetch (if i = 0 then JNull else cur i) =
        Inr (page_json ''objects'' (take k (drop (i * k) ns)) (Suc i * k < length ns) (cur (Suc i)))"
    and k: "0 < k"
    using assms by (simp_all add: serves_nodes_def)
  have split: "drop (i * k) ns = take k (drop (i * k) ns) @ drop (Suc i * k) ns"
    by (metis append_take_drop_id drop_drop mult_Suc)
  show ?case
  proof (cases "Suc i * k < length ns")
    case True
    have "length ns - Suc i * k < length ns - i * k" using True k by simp
    from less [OF this, of "acc @ concat (map entry (take k (drop (i * k) ns)))"] True
    have "object_loop fetch entry (if i = 0 then JNull else cur i) acc
        = Some (Inr ((acc @ concat (map entry (take k (drop (i * k) ns)))) @ concat (map entry (drop (Suc i * k) ns))))"
      by (subst object_loop.simps) (simp only: f, simp)
    also have "\<dots> = Some (Inr (acc @ concat (map entry (drop (i * k) ns))))"
      by (metis split append_assoc concat_append map_append)
    finally show ?thesis .
  next
    case False
    then have "drop (Suc i * k) ns = []" by simp
    with split have "take k (drop (i * k) ns) = drop (i * k) ns" by simp
    then show ?thesis using False by (subst object_loop.simps) (simp only: f, simp)
  qed
qed

lemma object_loop_stream:
  "serves_nodes fetch ''objects'' cur k ns \<Longrightarrow> object_loop fetch entry JNull [] = Some (Inr (concat (map entry ns)))"
  using object_loop_from [of fetch cur k ns entry 0 "[]"] by simp


section \<open>Shares per template\<close>

definition template_events :: "string \<Rightarrow> json list \<Rightarrow> json list" where
  "template_events t ns = filter (\<lambda>n. get (event_json n) ''template_id'' = JStr t) ns"

lemma foldl_share_step:
  assumes "t \<noteq> []"
  shows "foldl (share_step dateParse) (\<lambda>_. None) ns t =
     (if template_events t ns = [] then None
      else Some (foldl (touch_info dateParse) info0 (template_events t ns)))"
proof (induction ns rule: rev_induct)
  case (snoc n ns)
  show ?case
  proof (cases "get (event_json n) ''template_id'' = JStr t")
    case True
    then show ?thesis using snoc assms by (simp add: share_step_def template_events_def)
  next
    case False
    then have "share_step dateParse m n t = m t" for m :: "string \<Rightarrow> PerTemplateShareInfo option"
      by (auto simp: share_step_def split: json.split)
    then show ?thesis using snoc False by (simp add: template_events_def)
  qed
qed (simp add: template_events_def)

lemma touch_count: "share_count (foldl (touch_info dateParse) i es) = share_count i + length es"
  by (induction es arbitrary: i) (simp_all add: touch_info_def Let_def)

definition dated :: "(json \<Rightarrow> number) \<Rightarrow> json \<Rightarrow> bool" where
  "dated dateParse n \<longleftrightarrow> truthy (node_digest n) \<and> isFinite (node_time dateParse n)"

lemma touch_latest:
  assumes "es \<noteq> []" "list_all (dated dateParse) es"
  shows "\<exists>e \<in> set es. lastDigest (foldl (touch_info dateParse) info0 es) = node_digest e
    \<and> lastTimestampMs (foldl (touch_info dateParse) info0 es) = Some (node_time dateParse e)
    \<and> (\<forall>e' \<in> set es. node_time dateParse e' \<le> node_time dateParse e)"
  using assms
proof (induction es rule: rev_induct)
  case (snoc n es)
  have n: "truthy (node_digest n)" "isFinite (node_time dateParse n)"
    using snoc.prems by (auto simp: dated_def)
  show ?case
  proof (cases "es = []")
    case True
    then show ?thesis using n by (auto simp: touch_info_def info0_def Let_def isFinite_iff)
  next
    case False
    define i where "i = foldl (touch_info dateParse) info0 es"
    have step: "foldl (touch_info dateParse) info0 (es @ [n]) = touch_info dateParse i n"
      by (simp add: i_def)
    obtain e where e: "e \<in> set es" "lastDigest i = node_digest e"
      "lastTimestampMs i = Some (node_time dateParse e)"
      "\<forall>e' \<in> set es. node_time dateParse e' \<le> node_time dateParse e"
      using snoc False by (auto simp: i_def)
    have fin: "isFinite (node_time dateParse x)" if "x \<in> set (es @ [n])" for x
      using that snoc.prems by (auto simp: dated_def list_all_iff)
    obtain a b where ab: "node_time dateParse n = Fin a" "node_time dateParse e = Fin b"
      using fin [of n] fin [of e] e(1) by (auto simp: isFinite_iff)
    show ?thesis
    proof (cases "b < a")
      case True
      have "\<forall>e' \<in> set es. node_time dateParse e' \<le> Fin a"
      proof
        fix x assume x: "x \<in> set es"
        then obtain c where "node_time dateParse x = Fin c" using fin [of x] by (auto simp: isFinite_iff)
        then show "node_time dateParse x \<le> Fin a" using e(4) x ab True by fastforce
      qed
      then show ?thesis
        using True n ab e unfolding step
        by (intro bexI [of _ n]) (auto simp: touch_info_def [of _ i] Let_def)
    next
      case no: False
      then show ?thesis
        using n ab e unfolding step
        by (intro bexI [of _ e]) (auto simp: touch_info_def [of _ i] Let_def)
    qed
  qed
qed simp


text \<open>An indexer that serves one list of nodes, its cursors being the offsets.\<close>

definition list_server :: "nat \<Rightarrow> string \<Rightarrow> json list \<Rightarrow> gql_server" where
  "list_server k key ns query variables =
     (let i = (case get variables ''cursor'' of JNum (Fin r) \<Rightarrow> nat \<lfloor>r\<rfloor> | _ \<Rightarrow> 0) in
      Some \<lparr>http_ok = True, http_status = 200,
            http_body = JObj [(''data'', page_json key (take k (drop (i * k) ns)) (Suc i * k < length ns)
                                           (JNum (Fin (of_nat (Suc i)))))]\<rparr>)"

lemma list_server_events:
  "0 < k \<Longrightarrow> serves_nodes (event_query (list_server k key ns) name ty) key (\<lambda>i. JNum (Fin (of_nat i))) k ns"
  by (auto simp: serves_nodes_def event_query_def gql_def list_server_def obj_get_def Let_def)

definition share_node :: "string \<Rightarrow> string \<Rightarrow> string \<Rightarrow> json" where
  "share_node tid dg time =
     JObj [(''contents'', JObj [(''json'', JObj [(''template_id'', JStr tid)])]),
           (''transaction'', JObj [(''digest'', JStr dg)]), (''timestamp'', JStr time)]"

definition demo_date :: "json \<Rightarrow> number" where
  "demo_date j = (case j of JStr s \<Rightarrow> Number_str s | _ \<Rightarrow> NaN)"

lemma demo_dated: "list_all (dated demo_date) [share_node ''0xa'' ''d1'' ''5'', share_node ''0xa'' ''d2'' ''7'']"
  by (simp add: dated_def share_node_def node_digest_def node_time_def demo_date_def obj_get_def) code_simp



section \<open>The active window\<close>

definition newer :: "TemplateData \<Rightarrow> TemplateData \<Rightarrow> bool" where
  "newer a b \<longleftrightarrow>
     createdAtMs b < createdAtMs a \<or> (createdAtMs b = createdAtMs a \<and> td_height b \<le> td_height a)"

definition finite_template :: "TemplateData \<Rightarrow> bool" where
  "finite_template t \<longleftrightarrow> isFinite (createdAtMs t) \<and> isFinite (td_height t)"

lemma sorted_newest_first:
  assumes "list_all finite_template ts"
  shows "sorted_wrt newer (js_sort newest_first ts)"
proof (rule js_sort_sorted_wrt)
  have fin: "\<exists>c h. createdAtMs t = Fin c \<and> td_height t = Fin h" if "t \<in> set ts" for t
    using assms that by (auto simp: list_all_iff finite_template_def isFinite_iff)
  fix a b assume a: "a \<in> set ts" and b: "b \<in> set ts"
  show "if 0 < newest_first a b then newer b a else newer a b"
    using fin [OF a] fin [OF b] by (auto simp: newest_first_def newer_def)
  fix c assume "c \<in> set ts" "newer a b" "newer b c"
  then show "newer a c" using fin [OF a] fin [OF b] fin [of c] by (auto simp: newer_def)
qed

lemma mark_active_fields:
  "map (\<lambda>t. t\<lparr>isActive := False\<rparr>) (mark_active ts) = map (\<lambda>t. t\<lparr>isActive := False\<rparr>) ts"
  "map isActive (mark_active ts) = map (\<lambda>i. i < 3) [0..<length ts]"
  by (auto simp: mark_active_def ACTIVE_TEMPLATE_WINDOW_def enumerate_eq_zip intro!: nth_equalityI)

lemma mark_active_length [simp]: "length (mark_active ts) = length ts"
  by (simp add: mark_active_def)

lemma mark_active_nth:
  "i < length ts \<Longrightarrow> mark_active ts ! i = (ts ! i)\<lparr>isActive := (i < 3)\<rparr>"
  by (simp add: mark_active_def ACTIVE_TEMPLATE_WINDOW_def nth_enumerate_eq)

lemma sorted_mark_active: "sorted_wrt newer ts \<Longrightarrow> sorted_wrt newer (mark_active ts)"
  by (simp add: sorted_wrt_iff_nth_less mark_active_nth newer_def)

lemma ids_mark_active: "map td_id (mark_active ts) = map td_id ts"
  by (rule nth_equalityI) (simp_all add: mark_active_nth)

definition listed_ids :: "json list \<Rightarrow> string list" where
  "listed_ids ns = map node_address (filter (\<lambda>n. truthy (move_json n)) ns)"

lemma template_entry_ids:
  "map td_id (concat (map (template_entry hasBuffer si rd) ns)) = listed_ids ns"
  by (induction ns) (auto simp: template_entry_def listed_ids_def parseTemplateJson_def Let_def)

text \<open>
  C19: For an indexer that serves the template objects in pages, fetchActiveTemplates returns (its
  unbounded loop ends), lists every template object that has contents exactly once, ordered by
  creation time and then height, the newest first, and marks exactly the first three as active.
\<close>

theorem fetchActiveTemplates_window:
  assumes "packageId \<noteq> []"
    and "serves_nodes (\<lambda>c. gql server ''Templates''
           (JObj [(''type'', JStr (packageId @ ''::pool::Template'')), (''cursor'', c)])) ''objects'' cur k ns"
    and "fetchShareInfoByTemplate dateParse server packageId = Inr shareInfo"
    and "fetchTemplateRegistrationDigests server packageId = Inr regDigests"
    and "list_all finite_template (concat (map (template_entry hasBuffer shareInfo regDigests) ns))"
  shows "\<exists>ts. fetchActiveTemplates hasBuffer dateParse server packageId = Some ts
    \<and> sorted_wrt newer ts
    \<and> mset (map td_id ts) = mset (listed_ids ns)
    \<and> map isActive ts = map (\<lambda>i. i < 3) [0..<length ts]"
proof -
  let ?raw = "concat (map (template_entry hasBuffer shareInfo regDigests) ns)"
  have run: "fetchActiveTemplates hasBuffer dateParse server packageId
      = Some (mark_active (js_sort newest_first ?raw))"
    using assms(1,3,4) object_loop_stream [OF assms(2), of "template_entry hasBuffer shareInfo regDigests"]
    by (simp add: fetchActiveTemplates_def)
  have "mset (map td_id (js_sort newest_first ?raw)) = mset (map td_id ?raw)"
    by (simp only: mset_map mset_js_sort)
  then have "mset (map td_id (mark_active (js_sort newest_first ?raw))) = mset (listed_ids ns)"
    by (simp only: ids_mark_active template_entry_ids)
  then show ?thesis
    using run sorted_mark_active [OF sorted_newest_first [OF assms(5)]] mark_active_fields(2)
    by auto
qed

definition template_node :: "string \<Rightarrow> nat \<Rightarrow> json" where
  "template_node a created =
     JObj [(''address'', JStr a),
           (''asMoveObject'', JObj [(''contents'', JObj [(''json'',
              JObj [(''created_at_ms'', u64_json created), (''height'', u64_json 7)])])])]"

definition split_server :: "json list \<Rightarrow> gql_server" where
  "split_server ns query =
     (if query = ''Templates'' then list_server 1 ''objects'' ns query else list_server 50 ''events'' [] query)"

lemma split_server_templates:
  "serves_nodes (\<lambda>c. gql (split_server ns) ''Templates'' (JObj [(''type'', ty), (''cursor'', c)])) ''objects''
     (\<lambda>i. JNum (Fin (of_nat i))) 1 ns"
  by (auto simp: serves_nodes_def gql_def split_server_def list_server_def obj_get_def Let_def)

lemma split_server_events:
  "name \<noteq> ''Templates'' \<Longrightarrow>
     serves_nodes (event_query (split_server ns) name ty) ''events'' (\<lambda>i. JNum (Fin (of_nat i))) 50 []"
  using list_server_events [of 50 "''events''" "[]" name ty]
  by (simp add: serves_nodes_def event_query_def gql_def split_server_def)

lemma split_server_walk:
  "name \<noteq> ''Templates'' \<Longrightarrow> gwalk n (event_query (split_server ns) name ty) step JNull acc = Inr acc"
  using gwalk_stream [OF split_server_events [of name ns ty], of n step acc] by simp

theorem fetchActiveTemplates_window_witness:
  "\<exists>ts. fetchActiveTemplates False demo_date
       (split_server [template_node ''0x1'' 1, template_node ''0x2'' 2, template_node ''0x3'' 3, template_node ''0x4'' 4])
       ''0x9'' = Some ts
    \<and> sorted_wrt newer ts
    \<and> mset (map td_id ts) = {#''0x1'', ''0x2'', ''0x3'', ''0x4''#}
    \<and> map isActive ts = map (\<lambda>i. i < 3) [0..<length ts]"
proof -
  let ?ns = "[template_node ''0x1'' 1, template_node ''0x2'' 2, template_node ''0x3'' 3, template_node ''0x4'' 4]"
  have si: "fetchShareInfoByTemplate demo_date (split_server ?ns) ''0x9'' = Inr (\<lambda>_. None)"
    by (simp add: fetchShareInfoByTemplate_def split_server_walk)
  have rd: "fetchTemplateRegistrationDigests (split_server ?ns) ''0x9'' = Inr (\<lambda>_. None)"
    by (simp add: fetchTemplateRegistrationDigests_def split_server_walk)
  have fin: "list_all finite_template (concat (map (template_entry False (\<lambda>_. None) (\<lambda>_. None)) ?ns))"
    by (simp add: template_entry_def template_node_def move_json_def node_address_def obj_get_def
        finite_template_def parseTemplateJson_def)
  have ids: "listed_ids ?ns = [''0x1'', ''0x2'', ''0x3'', ''0x4'']"
    by (simp add: listed_ids_def template_node_def move_json_def node_address_def obj_get_def)
  show ?thesis
    using fetchActiveTemplates_window [OF _ split_server_templates si rd fin] unfolding ids by simp
qed

end
