(* ===== verification/Sui_Shares.thy ===== *)
theory Sui_Shares
  imports Sui_Queries
begin

text \<open>
  Model of \<open>web/lib/sui-shares.ts\<close>: the recent shares of the three submission lanes merged into one
  list, and the shares of one template. The package identifiers, the indexer and \<open>Date.parse\<close> are
  parameters; the page loop over one template's shares is a partial function that is proved to
  return for an indexer that serves finite lists.
\<close>

section \<open>Share events\<close>

datatype share_mode = Full | Lightweight | BuyerV1 | BuyerV2

record ShareEvent =
  miner :: string
  se_templateId :: string
  se_roundId :: number
  shareHash :: string
  difficultyAchieved :: number
  targetDifficulty :: number
  se_isBlock :: bool
  se_timestampMs :: number
  se_txDigest :: string
  mode :: share_mode
  payoutMicro :: "number option"
  orderId :: "string option"
  derivedTemplateId :: "string option"

definition shareHashToHex :: "bool \<Rightarrow> json \<Rightarrow> string" where
  "shareHashToHex hasBuffer val =
     (case val of
        JStr s \<Rightarrow>
          (if s = [] then []
           else if hasBuffer then hex_of_binary (rev (Buffer_from_base64 s))
           else case atob s of Some bin \<Rightarrow> hex_of_binary (rev bin) | None \<Rightarrow> [])
      | _ \<Rightarrow> [])"

text \<open>\<open>(x as string) ?? ''\<close> of a member that the indexer gives as a string.\<close>

definition text_of :: "json \<Rightarrow> string" where
  "text_of x = (case x of JStr s \<Rightarrow> s | _ \<Rightarrow> [])"

definition nonempty :: "string \<Rightarrow> string option" where
  "nonempty s = (if s = [] then None else Some s)"

text \<open>The optional identifier comes as a string or as \<open>{ vec: [id] }\<close>.\<close>

definition derived_id :: "(number \<Rightarrow> string) \<Rightarrow> json \<Rightarrow> string option" where
  "derived_id numStr dt =
     (case dt of
        JStr s \<Rightarrow> nonempty s
      | JObj _ \<Rightarrow> (case get dt ''vec'' of JArr (x # _) \<Rightarrow> nonempty (js_string numStr x) | _ \<Rightarrow> None)
      | _ \<Rightarrow> None)"

definition nodeToShareEvent :: "bool \<Rightarrow> (number \<Rightarrow> string) \<Rightarrow> json \<Rightarrow> share_mode \<Rightarrow> ShareEvent" where
  "nodeToShareEvent hasBuffer numStr node md =
     (let j = or_default (event_json node) (JObj []);
          payout = parseU64 (or_default (get j ''payout'') (JNum 0)) in
      \<lparr>miner = text_of (get j ''miner''),
       se_templateId = text_of (get j ''template_id''),
       se_roundId = parseU64 (or_default (get j ''round_id'') (JNum 0)),
       shareHash = shareHashToHex hasBuffer (get j ''share_hash''),
       difficultyAchieved =
         parseU64 (or_default (or_default (get j ''difficulty'') (get j ''difficulty_achieved'')) (JNum 0)),
       targetDifficulty = parseU64 (or_default (get j ''target_difficulty'') (JNum 0)),
       se_isBlock = (get j ''is_block'' = JBool True),
       se_timestampMs = parseU64 (get j ''timestamp_ms''),
       se_txDigest = text_of (node_digest node),
       mode = md,
       payoutMicro = (if payout > 0 then Some payout else None),
       orderId = nonempty (text_of (get j ''order_id'')),
       derivedTemplateId = derived_id numStr (get j ''derived_template_id'')\<rparr>)"

section \<open>Recent shares\<close>

record share_packages =
  SH_ORIGINAL :: string
  SH_PACKAGE :: string
  SH_LANE_V1 :: string
  SH_LANE_V2 :: string

definition poolPackageIds :: "share_packages \<Rightarrow> string list" where
  "poolPackageIds pkgs =
     foldl js_set_add []
       (SH_ORIGINAL pkgs # (if SH_PACKAGE pkgs \<noteq> [] \<and> SH_PACKAGE pkgs \<noteq> SH_ORIGINAL pkgs
                            then [SH_PACKAGE pkgs] else []))"

definition v1LanePackageIds :: "share_packages \<Rightarrow> string list" where
  "v1LanePackageIds pkgs =
     foldl js_set_add [] (if SH_LANE_V1 pkgs \<noteq> [] then [SH_LANE_V1 pkgs] else poolPackageIds pkgs)"

definition v2LanePackageIds :: "share_packages \<Rightarrow> string list" where
  "v2LanePackageIds pkgs =
     foldl js_set_add [] (if SH_LANE_V2 pkgs \<noteq> [] then [SH_LANE_V2 pkgs] else poolPackageIds pkgs)"

definition queryEvent :: "gql_server \<Rightarrow> nat \<Rightarrow> string \<Rightarrow> string \<Rightarrow> json list" where
  "queryEvent server limit pkgId name =
     (case gql server ''RecentShareEvents''
             (JObj [(''type'', JStr (pkgId @ ''::pool::'' @ name)), (''limit'', JNum (Fin (of_nat limit)))]) of
        Inl _ \<Rightarrow> []
      | Inr d \<Rightarrow> (case get (get d ''events'') ''nodes'' of JArr ns \<Rightarrow> ns | _ \<Rightarrow> []))"

definition share_key :: "json \<Rightarrow> json" where
  "share_key n = or_default (node_digest n) (get n ''timestamp'')"

definition share_time :: "(json \<Rightarrow> number) \<Rightarrow> json \<Rightarrow> number" where
  "share_time dateParse n =
     (let t = dateParse (get n ''timestamp'') in if falsy t then 0 else t)"

type_synonym merged = "(json \<times> number \<times> share_mode) list"

definition collect_node ::
  "(json \<Rightarrow> number) \<Rightarrow> share_mode \<Rightarrow> json list \<times> merged \<Rightarrow> json \<Rightarrow> json list \<times> merged" where
  "collect_node dateParse md st n =
     (case st of (seen, merged) \<Rightarrow>
        if \<not> truthy (share_key n) \<or> share_key n \<in> set seen then st
        else (js_set_add seen (share_key n), merged @ [(n, share_time dateParse n, md)]))"

definition collect_lane ::
  "(json \<Rightarrow> number) \<Rightarrow> json list list \<Rightarrow> share_mode \<Rightarrow> json list \<times> merged \<Rightarrow> json list \<times> merged" where
  "collect_lane dateParse results md st = foldl (foldl (collect_node dateParse md)) st results"

definition merged_shares :: "(json \<Rightarrow> number) \<Rightarrow> gql_server \<Rightarrow> share_packages \<Rightarrow> nat \<Rightarrow> merged" where
  "merged_shares dateParse server pkgs limit =
     (let pool = map (\<lambda>p. queryEvent server limit p ''ShareSubmitted'') (poolPackageIds pkgs);
          v1 = map (\<lambda>p. queryEvent server limit p ''HashpowerShareFilled'') (v1LanePackageIds pkgs);
          v2 = map (\<lambda>p. queryEvent server limit p ''BuyerHashpowerShareFilled'') (v2LanePackageIds pkgs)
      in snd (collect_lane dateParse v2 BuyerV2
               (collect_lane dateParse v1 BuyerV1 (collect_lane dateParse pool Full ([], [])))))"

definition fetchRecentShares ::
  "bool \<Rightarrow> (number \<Rightarrow> string) \<Rightarrow> (json \<Rightarrow> number) \<Rightarrow> gql_server \<Rightarrow> share_packages \<Rightarrow> nat \<Rightarrow> ShareEvent list" where
  "fetchRecentShares hasBuffer numStr dateParse server pkgs limit =
     (if SH_ORIGINAL pkgs = [] then []
      else map (\<lambda>(n, _, md). nodeToShareEvent hasBuffer numStr n md)
             (take limit (js_sort (\<lambda>a b. fst (snd b) - fst (snd a)) (merged_shares dateParse server pkgs limit))))"

section \<open>Shares of a template\<close>

text \<open>One page: matching events are appended until the limit is reached.\<close>

fun take_nodes ::
  "(json \<Rightarrow> ShareEvent) \<Rightarrow> string \<Rightarrow> nat \<Rightarrow> ShareEvent list \<Rightarrow> json list \<Rightarrow> ShareEvent list" where
  "take_nodes conv tid limit shares [] = shares"
| "take_nodes conv tid limit shares (n # ns) =
     (if get (event_json n) ''template_id'' \<noteq> JStr tid then take_nodes conv tid limit shares ns
      else if length (shares @ [conv n]) \<ge> limit then shares @ [conv n]
      else take_nodes conv tid limit (shares @ [conv n]) ns)"

partial_function (option) share_loop ::
  "(json \<Rightarrow> gql_error + json) \<Rightarrow> (json \<Rightarrow> ShareEvent) \<Rightarrow> string \<Rightarrow> nat \<Rightarrow> json \<Rightarrow> ShareEvent list
     \<Rightarrow> (gql_error + ShareEvent list) option"
where
  "share_loop fetch conv tid limit cursor shares =
     (if \<not> length shares < limit then Some (Inr shares)
      else case fetch cursor of
        Inl e \<Rightarrow> Some (Inl e)
      | Inr data \<Rightarrow>
          if \<not> truthy (get data ''events'') then Some (Inr shares)
          else (case page_of (get data ''events'') of
                  Inl e \<Rightarrow> Some (Inl e)
                | Inr p \<Rightarrow>
                    if length (take_nodes conv tid limit shares (nodes p)) \<ge> limit \<or> \<not> has_more p
                    then Some (Inr (take_nodes conv tid limit shares (nodes p)))
                    else share_loop fetch conv tid limit (endCursor p)
                           (take_nodes conv tid limit shares (nodes p))))"

definition template_query :: "gql_server \<Rightarrow> string \<Rightarrow> string \<Rightarrow> json \<Rightarrow> gql_error + json" where
  "template_query server packageId suffix cursor =
     gql server ''SharesByTemplate''
       (JObj [(''type'', JStr (packageId @ ''::pool::'' @ suffix)), (''cursor'', cursor)])"

definition fetchSharesForTemplate ::
  "bool \<Rightarrow> (number \<Rightarrow> string) \<Rightarrow> gql_server \<Rightarrow> string \<Rightarrow> string \<Rightarrow> nat \<Rightarrow> ShareEvent list option" where
  "fetchSharesForTemplate hasBuffer numStr server packageId tid limit =
     (if packageId = [] then Some []
      else case share_loop (template_query server packageId ''ShareSubmitted'')
                  (\<lambda>n. nodeToShareEvent hasBuffer numStr n Full) tid limit JNull [] of
             None \<Rightarrow> None
           | Some (Inl _) \<Rightarrow> Some []
           | Some (Inr shares1) \<Rightarrow>
               (case share_loop (template_query server packageId ''ShareValidated'')
                       (\<lambda>n. nodeToShareEvent hasBuffer numStr n Lightweight) tid limit JNull shares1 of
                  None \<Rightarrow> None
                | Some (Inl _) \<Rightarrow> Some []
                | Some (Inr shares2) \<Rightarrow>
                    Some (take limit (js_sort (\<lambda>a b. se_timestampMs b - se_timestampMs a) shares2))))"


section \<open>Merging keeps one share per key\<close>

definition merge_inv :: "(json \<Rightarrow> number) \<Rightarrow> json list \<times> merged \<Rightarrow> bool" where
  "merge_inv dateParse st \<longleftrightarrow>
     fst st = map (\<lambda>e. share_key (fst e)) (snd st) \<and> distinct (fst st) \<and>
     list_all (\<lambda>e. fst (snd e) = share_time dateParse (fst e)) (snd st)"

definition truthy_keys :: "json list \<Rightarrow> json set" where
  "truthy_keys ns = {k \<in> share_key ` set ns. truthy k}"

lemma collect_node_inv:
  "merge_inv dateParse st \<Longrightarrow> merge_inv dateParse (collect_node dateParse md st n)"
  by (auto simp: merge_inv_def collect_node_def js_set_add_def split: prod.split)

lemma collect_node_seen:
  "set (fst (collect_node dateParse md st n)) = set (fst st) \<union> truthy_keys [n]"
  by (auto simp: collect_node_def truthy_keys_def split: prod.split)

lemma collect_nodes:
  assumes "merge_inv dateParse st"
  shows "merge_inv dateParse (foldl (collect_node dateParse md) st ns)
    \<and> set (fst (foldl (collect_node dateParse md) st ns)) = set (fst st) \<union> truthy_keys ns"
  using assms
proof (induction ns arbitrary: st)
  case (Cons n ns)
  then show ?case
    using collect_node_inv [OF Cons.prems, of md n] collect_node_seen [of dateParse md st n]
    by (auto simp: truthy_keys_def)
qed (auto simp: truthy_keys_def)

lemma collect_lane_props:
  assumes "merge_inv dateParse st"
  shows "merge_inv dateParse (collect_lane dateParse results md st)
    \<and> set (fst (collect_lane dateParse results md st)) = set (fst st) \<union> truthy_keys (concat results)"
  unfolding collect_lane_def using assms
proof (induction results arbitrary: st)
  case (Cons ns results)
  have "merge_inv dateParse (foldl (collect_node dateParse md) st ns)"
    "set (fst (foldl (collect_node dateParse md) st ns)) = set (fst st) \<union> truthy_keys ns"
    using collect_nodes [OF Cons.prems] by auto
  then show ?case
    using Cons.IH [of "foldl (collect_node dateParse md) st ns"] by (auto simp: truthy_keys_def)
qed (auto simp: truthy_keys_def)

definition queried :: "gql_server \<Rightarrow> share_packages \<Rightarrow> nat \<Rightarrow> json list" where
  "queried server pkgs limit =
     concat (map (\<lambda>p. queryEvent server limit p ''ShareSubmitted'') (poolPackageIds pkgs))
     @ concat (map (\<lambda>p. queryEvent server limit p ''HashpowerShareFilled'') (v1LanePackageIds pkgs))
     @ concat (map (\<lambda>p. queryEvent server limit p ''BuyerHashpowerShareFilled'') (v2LanePackageIds pkgs))"

lemma merged_shares_props:
  "distinct (map (\<lambda>e. share_key (fst e)) (merged_shares dateParse server pkgs limit))
   \<and> set (map (\<lambda>e. share_key (fst e)) (merged_shares dateParse server pkgs limit)) = truthy_keys (queried server pkgs limit)
   \<and> list_all (\<lambda>e. fst (snd e) = share_time dateParse (fst e)) (merged_shares dateParse server pkgs limit)"
proof -
  let ?pool = "map (\<lambda>p. queryEvent server limit p ''ShareSubmitted'') (poolPackageIds pkgs)"
  let ?v1 = "map (\<lambda>p. queryEvent server limit p ''HashpowerShareFilled'') (v1LanePackageIds pkgs)"
  let ?v2 = "map (\<lambda>p. queryEvent server limit p ''BuyerHashpowerShareFilled'') (v2LanePackageIds pkgs)"
  define s1 where "s1 = collect_lane dateParse ?pool Full ([], [])"
  define s2 where "s2 = collect_lane dateParse ?v1 BuyerV1 s1"
  define s3 where "s3 = collect_lane dateParse ?v2 BuyerV2 s2"
  have "merge_inv dateParse ([], [])" by (simp add: merge_inv_def)
  from collect_lane_props [OF this, of ?pool Full]
  have 1: "merge_inv dateParse s1" "set (fst s1) = truthy_keys (concat ?pool)" by (auto simp: s1_def)
  have 2: "merge_inv dateParse s2" "set (fst s2) = set (fst s1) \<union> truthy_keys (concat ?v1)"
    using collect_lane_props [OF 1(1), of ?v1 BuyerV1] by (auto simp: s2_def)
  have 3: "merge_inv dateParse s3" "set (fst s3) = set (fst s2) \<union> truthy_keys (concat ?v2)"
    using collect_lane_props [OF 2(1), of ?v2 BuyerV2] by (auto simp: s3_def)
  have m: "merged_shares dateParse server pkgs limit = snd s3"
    by (simp add: merged_shares_def s3_def s2_def s1_def)
  have "fst s3 = map (\<lambda>e. share_key (fst e)) (snd s3)" "distinct (fst s3)"
    "list_all (\<lambda>e. fst (snd e) = share_time dateParse (fst e)) (snd s3)"
    using 3(1) by (auto simp: merge_inv_def)
  moreover have "set (fst s3) = truthy_keys (queried server pkgs limit)"
    using 1(2) 2(2) 3(2) by (auto simp: queried_def truthy_keys_def)
  ultimately show ?thesis by (simp add: m)
qed

definition date_ok :: "number \<Rightarrow> bool" where
  "date_ok x \<longleftrightarrow> x = NaN \<or> isFinite x"

lemma share_time_finite: "(\<And>j. date_ok (dateParse j)) \<Longrightarrow> isFinite (share_time dateParse n)"
proof -
  assume "\<And>j. date_ok (dateParse j)"
  then have "date_ok (dateParse (get n ''timestamp''))" .
  then show ?thesis by (auto simp: date_ok_def share_time_def Let_def isFinite_iff falsy_def)
qed



definition demo_share_packages :: share_packages where
  "demo_share_packages = \<lparr>SH_ORIGINAL = ''0x1'', SH_PACKAGE = ''0x1'', SH_LANE_V1 = ''0x2'', SH_LANE_V2 = ''0x4''\<rparr>"

definition demo_date_ok :: "json \<Rightarrow> number" where
  "demo_date_ok j = (if j = JStr ''5'' then Fin 5 else if j = JStr ''7'' then Fin 7 else NaN)"

lemma demo_date_ok: "date_ok (demo_date_ok j)"
  by (simp add: demo_date_ok_def date_ok_def)


section \<open>The shares of a template\<close>

definition matching :: "string \<Rightarrow> json list \<Rightarrow> json list" where
  "matching tid ns = filter (\<lambda>n. get (event_json n) ''template_id'' = JStr tid) ns"

lemma take_nodes_take:
  "length shares < limit \<Longrightarrow>
     take_nodes conv tid limit shares ns = take limit (shares @ map conv (matching tid ns))"
proof (induction conv tid limit shares ns rule: take_nodes.induct)
  case (2 conv tid limit shares n ns)
  show ?case
  proof (cases "get (event_json n) ''template_id'' = JStr tid")
    case True
    show ?thesis
    proof (cases "length (shares @ [conv n]) \<ge> limit")
      case full: True
      then have "limit = Suc (length shares)" using 2 by simp
      then show ?thesis using True full by (simp add: matching_def)
    next
      case False
      then show ?thesis using True 2 by (simp add: matching_def)
    qed
  next
    case False
    then show ?thesis using 2 by (simp add: matching_def)
  qed
qed (simp add: matching_def)

lemma matching_append: "matching tid (xs @ ys) = matching tid xs @ matching tid ys"
  by (simp add: matching_def)

lemma share_loop_from:
  assumes "serves_nodes fetch ''events'' cur k ns" "length shares \<le> limit"
  shows "share_loop fetch conv tid limit (if i = 0 then JNull else cur i) shares
           = Some (Inr (take limit (shares @ map conv (matching tid (drop (i * k) ns)))))"
  using assms(2)
proof (induction "length ns - i * k" arbitrary: i shares rule: less_induct)
  case less
  show ?case
  proof (cases "length shares < limit")
    case False
    then show ?thesis using less.prems by (subst share_loop.simps) simp
  next
    case room: True
    have f: "fetch (if i = 0 then JNull else cur i) =
          Inr (page_json ''events'' (take k (drop (i * k) ns)) (Suc i * k < length ns) (cur (Suc i)))"
      and k: "0 < k"
      using assms(1) by (simp_all add: serves_nodes_def)
    define ms where "ms = map conv (matching tid (take k (drop (i * k) ns)))"
    define rest where "rest = map conv (matching tid (drop (Suc i * k) ns))"
    have "drop (i * k) ns = take k (drop (i * k) ns) @ drop (Suc i * k) ns"
      by (metis append_take_drop_id drop_drop mult_Suc)
    then have split: "map conv (matching tid (drop (i * k) ns)) = ms @ rest"
      by (metis map_append matching_append ms_def rest_def)
    have tn: "take_nodes conv tid limit shares (take k (drop (i * k) ns)) = take limit (shares @ ms)"
      using take_nodes_take [OF room] by (simp add: ms_def)
    show ?thesis
    proof (cases "limit \<le> length (shares @ ms) \<or> \<not> Suc i * k < length ns")
      case True
      then have "take limit (shares @ ms @ rest) = take limit (shares @ ms)"
        by (auto simp: rest_def matching_def)
      then show ?thesis
        using True room unfolding split by (subst share_loop.simps) (auto simp: f tn)
    next
      case False
      then have lt: "k + i * k < length ns" and sm: "length shares + length ms < limit" by simp_all
      have "length ns - Suc i * k < length ns - i * k" using k lt by (simp add: diff_less_mono2)
      from less.hyps [OF this, of "shares @ ms"] False room
      show ?thesis
        unfolding split by (subst share_loop.simps) (use sm lt in \<open>simp add: f tn rest_def min_def\<close>)
    qed
  qed
qed

lemma share_loop_stream:
  "serves_nodes fetch ''events'' cur k ns \<Longrightarrow> length shares \<le> limit \<Longrightarrow>
     share_loop fetch conv tid limit JNull shares = Some (Inr (take limit (shares @ map conv (matching tid ns))))"
  using share_loop_from [of fetch cur k ns shares limit conv tid 0] by simp

lemma nodeToShareEvent_template:
  "n \<in> set (matching tid ns) \<Longrightarrow> se_templateId (nodeToShareEvent hasBuffer numStr n md) = tid"
  by (auto simp: matching_def nodeToShareEvent_def Let_def text_of_def or_default_def split: json.splits)
     (metis get_simps(1,2) json.distinct(7) json.distinct(17) nullish_def)

text \<open>
  C21: For an indexer that serves both event streams in pages, fetchSharesForTemplate returns (its
  loops end) exactly the first \<open>limit\<close> events of the template, submitted shares before validated
  ones, reordered newest first; every row belongs to the template.
\<close>

theorem fetchSharesForTemplate_exact:
  assumes "packageId \<noteq> []"
    and "serves_nodes (template_query server packageId ''ShareSubmitted'') ''events'' cur k ns"
    and "serves_nodes (template_query server packageId ''ShareValidated'') ''events'' cur' k' ns'"
  shows "\<exists>shares. fetchSharesForTemplate hasBuffer numStr server packageId tid limit = Some shares
    \<and> mset shares = mset (take limit
        (map (\<lambda>n. nodeToShareEvent hasBuffer numStr n Full) (matching tid ns)
         @ map (\<lambda>n. nodeToShareEvent hasBuffer numStr n Lightweight) (matching tid ns')))
    \<and> list_all (\<lambda>e. se_templateId e = tid) shares
    \<and> (if list_all (\<lambda>e. isFinite (se_timestampMs e)) shares
       then sorted_wrt (\<lambda>a b. se_timestampMs b \<le> se_timestampMs a) shares else True)"
proof -
  let ?f = "\<lambda>n. nodeToShareEvent hasBuffer numStr n Full"
  let ?l = "\<lambda>n. nodeToShareEvent hasBuffer numStr n Lightweight"
  define s2 where "s2 = take limit (map ?f (matching tid ns) @ map ?l (matching tid ns'))"
  define shares where "shares = js_sort (\<lambda>a b. se_timestampMs b - se_timestampMs a) s2"
  have two: "share_loop (template_query server packageId ''ShareValidated'') ?l tid limit JNull
      (take limit (map ?f (matching tid ns))) = Some (Inr s2)"
    using share_loop_stream [OF assms(3), of "take limit (map ?f (matching tid ns))" limit ?l tid]
    by (auto simp: s2_def min_def)
  have run: "fetchSharesForTemplate hasBuffer numStr server packageId tid limit = Some shares"
    using assms(1) share_loop_stream [OF assms(2), of "[]" limit ?f tid] two
    by (simp add: fetchSharesForTemplate_def shares_def s2_def)
  have "list_all (\<lambda>e. se_templateId e = tid) s2"
    using nodeToShareEvent_template by (auto simp: s2_def list_all_iff dest!: in_set_takeD)
  then have all: "list_all (\<lambda>e. se_templateId e = tid) shares" by (simp add: shares_def list_all_iff)
  have "sorted_wrt (\<lambda>a b. se_timestampMs b \<le> se_timestampMs a) shares"
    if fin: "list_all (\<lambda>e. isFinite (se_timestampMs e)) shares"
    unfolding shares_def
    by (rule js_sort_desc_finite) (use fin in \<open>simp add: shares_def list_all_iff\<close>)
  then show ?thesis using run all by (auto simp: shares_def s2_def)
qed

lemma list_server_template:
  "0 < k \<Longrightarrow> serves_nodes (template_query (list_server k ''events'' ns) pkg suffix) ''events'' (\<lambda>i. JNum (Fin (of_nat i))) k ns"
  by (auto simp: serves_nodes_def template_query_def gql_def list_server_def obj_get_def Let_def)

theorem fetchSharesForTemplate_exact_witness:
  "\<exists>shares. fetchSharesForTemplate False (\<lambda>_. [])
       (list_server 1 ''events'' [share_node ''0xa'' ''d1'' ''5'', share_node ''0xb'' ''d2'' ''7'']) ''0x1'' ''0xa'' 50 = Some shares
    \<and> length shares = 2 \<and> list_all (\<lambda>e. se_templateId e = ''0xa'') shares"
proof -
  let ?ns = "[share_node ''0xa'' ''d1'' ''5'', share_node ''0xb'' ''d2'' ''7'']"
  have m: "matching ''0xa'' ?ns = [share_node ''0xa'' ''d1'' ''5'']"
    by (simp add: matching_def share_node_def event_json_def obj_get_def)
  show ?thesis
    using fetchSharesForTemplate_exact [OF _ list_server_template [of 1 ?ns "''0x1''" "''ShareSubmitted''"]
        list_server_template [of 1 ?ns "''0x1''" "''ShareValidated''"], of False "\<lambda>_. []" "''0xa''" 50] m
    by (auto dest: arg_cong [where f = size])
qed

end
