(* ===== verification/Wallet.thy ===== *)
theory Wallet
  imports Sui_Rpc Ptb
begin

text \<open>
  What the dashboard knows of a wallet: \<open>web/hooks/useQuoteCoins.ts\<close> (the coins of one type),
  \<open>web/hooks/useHashShareBalances.ts\<close> (the HashShare balances by slot), the slot bindings and
  redemption pools of \<open>web/hooks/useHashShareRedemptions.ts\<close> and the work records of
  \<open>web/hooks/useMinerWorkRecords.ts\<close>. The node is a parameter; text decoding of label bytes is
  the parameter \<open>decodeText\<close>.
\<close>

section \<open>Coins of one type\<close>

record quote_coins =
  qc_coinType :: string
  qc_ids :: "string list"
  qc_balance :: int

text \<open>
  The identifiers of the first page of coins and their total; a malformed balance throws
  (\<open>None\<close>). Before the query has data the list is empty.
\<close>

definition useQuoteCoins :: "string \<Rightarrow> owned_coin list \<Rightarrow> quote_coins option" where
  "useQuoteCoins coinType coins =
     (case coin_total 0 coins of
        None \<Rightarrow> None
      | Some b \<Rightarrow> Some \<lparr>qc_coinType = coinType, qc_ids = map coinObjectId coins, qc_balance = b\<rparr>)"

section \<open>HashShare balances\<close>

record HashShareBalance =
  typeName :: string
  fullType :: string
  slotIdx :: number
  balanceUnits :: int
  coinObjectIds :: "string list"

record typed_coin =
  coinType :: string
  tc_objectId :: string
  tc_balance :: string

record 'c coin_page =
  coins :: "typed_coin list"
  coin_hasNext :: bool
  coin_next :: "'c option"

text \<open>
  \<open>HS_TYPE_RE\<close>, the digits of the slot: \<open>^PKG::hs_(\d+)::HS_(\d+)$\<close>. The two digit groups
  need not be equal.
\<close>

definition HS_TYPE_RE :: "string \<Rightarrow> string \<Rightarrow> string option" where
  "HS_TYPE_RE pkg t =
     (let pre = pkg @ ''::hs_'' in
      if \<not> startsWith t pre then None
      else let r = drop (length pre) t; d = takeWhile (is_digit 10) r; r2 = dropWhile (is_digit 10) r in
           if d \<noteq> [] \<and> startsWith r2 ''::HS_'' \<and> all_digits (drop 5 r2) then Some d else None)"

text \<open>One coin of the listing: its entry is created on first sight and then extended.\<close>

definition coin_step ::
  "string \<Rightarrow> (string \<times> HashShareBalance) list \<Rightarrow> typed_coin \<Rightarrow> rpc_error + (string \<times> HashShareBalance) list" where
  "coin_step pkg acc c =
     (case HS_TYPE_RE pkg (coinType c) of
        None \<Rightarrow> Inr acc
      | Some d \<Rightarrow>
          (let entry = (case map_of acc (coinType c) of
                          Some e \<Rightarrow> e
                        | None \<Rightarrow> \<lparr>typeName = ''HS_'' @ d, fullType = coinType c, slotIdx = Number_str d,
                                    balanceUnits = 0, coinObjectIds = []\<rparr>)
           in sum_bind (of_opt BadBigInt (BigInt_str (tc_balance c))) (\<lambda>b.
                Inr (js_map_set acc (coinType c)
                       (entry\<lparr>balanceUnits := balanceUnits entry + b,
                              coinObjectIds := coinObjectIds entry @ [tc_objectId c]\<rparr>)))))"

text \<open>At most 20 pages; the cursor of a page is used whenever there is a next page.\<close>

primrec coin_walk ::
  "nat \<Rightarrow> ('c option \<Rightarrow> rpc_error + 'c coin_page) \<Rightarrow> ('a \<Rightarrow> typed_coin \<Rightarrow> rpc_error + 'a)
     \<Rightarrow> 'c option \<Rightarrow> 'a \<Rightarrow> rpc_error + 'a" where
  "coin_walk 0 getAllCoins step cursor acc = Inr acc"
| "coin_walk (Suc n) getAllCoins step cursor acc =
     sum_bind (getAllCoins cursor) (\<lambda>res.
       sum_bind (sum_fold step acc (coins res)) (\<lambda>acc'.
         if \<not> coin_hasNext res then Inr acc' else coin_walk n getAllCoins step (coin_next res) acc'))"

definition useHashShareBalances ::
  "string \<Rightarrow> (string \<Rightarrow> 'c option \<Rightarrow> rpc_error + 'c coin_page) \<Rightarrow> string \<Rightarrow> rpc_error + HashShareBalance list" where
  "useHashShareBalances pkg getAllCoins own =
     (if own = [] then Inr []
      else sum_bind (coin_walk 20 (getAllCoins own) (coin_step pkg) None []) (\<lambda>acc.
             Inr (js_sort (\<lambda>a b. slotIdx a - slotIdx b) (map snd acc))))"

section \<open>Bindings and redemption pools\<close>

record HashShareSlotBinding =
  hb_roundId :: int
  hb_capId :: string
  label :: string
  hb_fullType :: string

record HashShareRedemptionPool =
  redemptionId :: string
  rp_roundId :: int
  totalSats :: int
  supplyAtOpen :: int
  rp_capId :: string
  rp_fullType :: string
  deadlineMs :: int

definition labelBytesToString :: "(nat list \<Rightarrow> string) \<Rightarrow> json \<Rightarrow> string" where
  "labelBytesToString decodeText lab =
     (case lab of JStr s \<Rightarrow> s | JArr xs \<Rightarrow> decodeText (uint8_array xs) | _ \<Rightarrow> [])"

text \<open>\<open>/^HS_?(\d+)$/\<close>\<close>

definition labelToFullType :: "string \<Rightarrow> string \<Rightarrow> string" where
  "labelToFullType pkg lab =
     (let r = (if startsWith lab ''HS_'' then drop 3 lab else drop 2 lab) in
      if startsWith lab ''HS'' \<and> all_digits r then pkg @ ''::hs_'' @ r @ ''::HS_'' @ r else [])"

text \<open>One \<open>SlotBoundToRound\<close> event; without a round identifier it is skipped.\<close>

definition binding_of ::
  "(number \<Rightarrow> string) \<Rightarrow> (nat list \<Rightarrow> string) \<Rightarrow> string \<Rightarrow> sui_event \<Rightarrow> rpc_error + HashShareSlotBinding option" where
  "binding_of numStr decodeText pkg e =
     (let f = parsedJson e in
      if \<not> truthy (get f ''round_id'') then Inr None
      else let lab = labelBytesToString decodeText (get f ''label'') in
           sum_bind (of_opt BadBigInt (BigInt_str (js_string numStr (get f ''round_id'')))) (\<lambda>r.
             Inr (Some \<lparr>hb_roundId = r, hb_capId = str_or numStr (get f ''cap_id'') [], label = lab,
                        hb_fullType = labelToFullType pkg lab\<rparr>)))"

definition useHashShareBindings ::
  "(number \<Rightarrow> string) \<Rightarrow> (nat list \<Rightarrow> string) \<Rightarrow> 'c sui_client \<Rightarrow> string \<Rightarrow> string
     \<Rightarrow> rpc_error + HashShareSlotBinding list" where
  "useHashShareBindings numStr decodeText client pkg orig =
     (if orig = [] then Inr []
      else sum_bind (queryEvents client (orig @ ''::hash_share_registry::SlotBoundToRound'') 100 None) (\<lambda>events.
           sum_bind (sum_map (binding_of numStr decodeText pkg) (page_data events)) (\<lambda>out.
             Inr (some_values out))))"

record tx_change =
  tc_kind :: string
  tc_objectType :: string
  tc_created :: string

text \<open>The first created object of a redemption type; none gives the empty string.\<close>

definition redemption_object :: "tx_change list \<Rightarrow> string" where
  "redemption_object changes =
     (case find (\<lambda>c. tc_kind c = ''created'' \<and> js_includes ''::hash_share::Redemption<'' (tc_objectType c)) changes of
        Some c \<Rightarrow> tc_created c | None \<Rightarrow> [])"

definition redemption_of ::
  "(number \<Rightarrow> string) \<Rightarrow> (nat list \<Rightarrow> string) \<Rightarrow> (string \<Rightarrow> rpc_error + tx_change list) \<Rightarrow> string \<Rightarrow> sui_event
     \<Rightarrow> rpc_error + HashShareRedemptionPool option" where
  "redemption_of numStr decodeText getTx pkg e =
     (let f = parsedJson e in
      if \<not> truthy (get f ''round_id'') \<or> \<not> truthy (get f ''cap_id'') then Inr None
      else sum_bind (getTx (txDigest e)) (\<lambda>changes.
           if redemption_object changes = [] then Inr None
           else sum_bind (of_opt BadBigInt (BigInt_str (js_string numStr (get f ''round_id'')))) (\<lambda>r.
                sum_bind (big_or numStr (get f ''total_sats'')) (\<lambda>sats.
                sum_bind (big_or numStr (get f ''supply_at_open'')) (\<lambda>sup.
                sum_bind (big_or numStr (get f ''deadline_ms'')) (\<lambda>dl.
                  Inr (Some \<lparr>redemptionId = redemption_object changes, rp_roundId = r, totalSats = sats,
                             supplyAtOpen = sup, rp_capId = js_string numStr (get f ''cap_id''),
                             rp_fullType = labelToFullType pkg (labelBytesToString decodeText
                                             (or_default (get f ''label'') (JStr []))),
                             deadlineMs = dl\<rparr>)))))))"

definition useHashShareRedemptions ::
  "(number \<Rightarrow> string) \<Rightarrow> (nat list \<Rightarrow> string) \<Rightarrow> 'c sui_client \<Rightarrow> (string \<Rightarrow> rpc_error + tx_change list)
     \<Rightarrow> string \<Rightarrow> string \<Rightarrow> rpc_error + HashShareRedemptionPool list" where
  "useHashShareRedemptions numStr decodeText client getTx pkg orig =
     (if orig = [] then Inr []
      else sum_bind (queryEvents client (orig @ ''::hash_share::RedemptionOpened'') 100 None) (\<lambda>events.
           sum_bind (sum_map (redemption_of numStr decodeText getTx pkg) (page_data events)) (\<lambda>out.
             Inr (some_values out))))"

section \<open>Work records\<close>

record MinerWorkRecord =
  wr_objectId :: string
  wr_roundId :: int
  wr_miner :: string
  netWork :: int

definition work_record :: "(number \<Rightarrow> string) \<Rightarrow> sui_object option \<Rightarrow> rpc_error + MinerWorkRecord option" where
  "work_record numStr entry =
     (case entry of
        None \<Rightarrow> Inr None
      | Some obj \<Rightarrow>
          (case content obj of
             None \<Rightarrow> Inr None
           | Some c \<Rightarrow>
               if dataType c \<noteq> ''moveObject'' then Inr None
               else let f = content_fields c in
                    sum_bind (of_opt BadBigInt (BigInt_json numStr (or_default (get f ''round_id'') (JStr ''0'')))) (\<lambda>r.
                    sum_bind (of_opt BadBigInt (BigInt_json numStr (or_default (get f ''net_work'') (JStr ''0'')))) (\<lambda>w.
                      Inr (Some \<lparr>wr_objectId = objectId obj, wr_roundId = r,
                                 wr_miner = str_or numStr (get f ''miner'') [], netWork = w\<rparr>)))))"

definition useMinerWorkRecords ::
  "(number \<Rightarrow> string) \<Rightarrow> (string \<Rightarrow> string \<Rightarrow> rpc_error + sui_object option list) \<Rightarrow> string \<Rightarrow> string
     \<Rightarrow> rpc_error + MinerWorkRecord list" where
  "useMinerWorkRecords numStr getOwnedObjects pkg own =
     (if own = [] then Inr []
      else sum_bind (getOwnedObjects own (pkg @ ''::pool::MinerWorkRecord'')) (\<lambda>objs.
           sum_bind (sum_map (work_record numStr) objs) (\<lambda>out. Inr (some_values out))))"

section \<open>Types and labels\<close>

lemma HS_TYPE_RE_build:
  assumes "all_digits d" "all_digits e"
  shows "HS_TYPE_RE pkg (pkg @ ''::hs_'' @ d @ ''::HS_'' @ e) = Some d"
proof -
  have "\<not> is_digit 10 CHR '':''" by (simp add: char_defs)
  then show ?thesis
    using assms
    by (simp add: HS_TYPE_RE_def startsWith_def all_digits_def takeWhile_append list_all_iff dropWhile_append2)
qed

text \<open>
  Every type that a slot label gives is recognised by the balance reader, with the digits of the
  label as its slot; a label of any other form gives no type.
\<close>

theorem binding_type_recognised:
  "if labelToFullType pkg lab = [] then \<not> (\<exists>d. all_digits d \<and> (lab = ''HS'' @ d \<or> lab = ''HS_'' @ d))
   else \<exists>d. all_digits d \<and> (lab = ''HS'' @ d \<or> lab = ''HS_'' @ d)
              \<and> HS_TYPE_RE pkg (labelToFullType pkg lab) = Some d"
proof (cases "startsWith lab ''HS''")
  case True
  then obtain r where lab: "lab = ''HS'' @ r" by (metis append_take_drop_id startsWith_def)
  have u: "\<not> all_digits (CHR ''_'' # s)" for s by (simp add: all_digits_def char_defs)
  show ?thesis
  proof (cases r)
    case Nil
    then show ?thesis using lab by (auto simp: labelToFullType_def startsWith_def all_digits_def)
  next
    case (Cons c s)
    show ?thesis using lab Cons u HS_TYPE_RE_build [of r r pkg] HS_TYPE_RE_build [of s s pkg]
      by (cases "c = CHR ''_''") (auto simp: labelToFullType_def startsWith_def Let_def)
  qed
next
  case False
  then show ?thesis by (auto simp: labelToFullType_def startsWith_def)
qed

section \<open>Balances are sums\<close>

text \<open>The coins that at most \<open>n\<close> pages list.\<close>

primrec coin_listing ::
  "nat \<Rightarrow> ('c option \<Rightarrow> rpc_error + 'c coin_page) \<Rightarrow> 'c option \<Rightarrow> rpc_error + typed_coin list" where
  "coin_listing 0 getAllCoins cursor = Inr []"
| "coin_listing (Suc n) getAllCoins cursor =
     sum_bind (getAllCoins cursor) (\<lambda>res.
       if \<not> coin_hasNext res then Inr (coins res)
       else sum_bind (coin_listing n getAllCoins (coin_next res)) (\<lambda>cs. Inr (coins res @ cs)))"

lemma coin_walk_listing:
  "coin_listing n getAllCoins cursor = Inr cs \<Longrightarrow>
     coin_walk n getAllCoins step cursor acc = sum_fold step acc cs"
proof (induction n arbitrary: cursor acc cs)
  case (Suc n)
  then obtain res where res: "getAllCoins cursor = Inr res" by auto
  show ?case
  proof (cases "coin_hasNext res")
    case True
    then obtain cs2 where "coin_listing n getAllCoins (coin_next res) = Inr cs2" "cs = coins res @ cs2"
      using Suc.prems res by auto
    then show ?thesis using res True Suc.IH by (simp add: sum_fold_append)
  qed (use Suc.prems res in simp)
qed simp

definition slot_coins :: "string \<Rightarrow> typed_coin list \<Rightarrow> typed_coin list" where
  "slot_coins t cs = filter (\<lambda>c. coinType c = t) cs"

definition coin_value :: "typed_coin \<Rightarrow> int" where
  "coin_value c = the (BigInt_str (tc_balance c))"

definition slot_entry :: "string \<Rightarrow> typed_coin list \<Rightarrow> string \<Rightarrow> HashShareBalance option" where
  "slot_entry pkg cs t =
     (case HS_TYPE_RE pkg t of
        None \<Rightarrow> None
      | Some d \<Rightarrow>
          if slot_coins t cs = [] then None
          else Some \<lparr>typeName = ''HS_'' @ d, fullType = t, slotIdx = Number_str d,
                      balanceUnits = sum_list (map coin_value (slot_coins t cs)),
                      coinObjectIds = map tc_objectId (slot_coins t cs)\<rparr>)"

lemma slot_coins_simps [simp]:
  "slot_coins t [] = []"
  "slot_coins t (cs @ [c]) = slot_coins t cs @ (if coinType c = t then [c] else [])"
  by (simp_all add: slot_coins_def)

lemma slot_entry_Nil: "slot_entry pkg [] = Map.empty"
  by (auto simp: slot_entry_def split: option.split)

lemma slot_entry_other:
  "coinType c \<noteq> t \<or> HS_TYPE_RE pkg t = None \<Longrightarrow> slot_entry pkg (cs @ [c]) t = slot_entry pkg cs t"
  by (auto simp: slot_entry_def split: option.split)

lemma coin_step_entry:
  assumes "map_of acc = slot_entry pkg cs" "BigInt_str (tc_balance c) \<noteq> None"
  shows "\<exists>acc'. coin_step pkg acc c = Inr acc' \<and> map_of acc' = slot_entry pkg (cs @ [c])
           \<and> distinct (map fst acc') = distinct (map fst acc)"
proof (cases "HS_TYPE_RE pkg (coinType c)")
  case None
  then have "slot_entry pkg (cs @ [c]) = slot_entry pkg cs"
    by (intro ext slot_entry_other) auto
  then show ?thesis using None assms(1) by (simp add: coin_step_def)
next
  case (Some d)
  obtain b where b: "BigInt_str (tc_balance c) = Some b" using assms(2) by auto
  obtain e where "coin_step pkg acc c = Inr (js_map_set acc (coinType c) e)"
    "slot_entry pkg (cs @ [c]) (coinType c) = Some e"
    using Some b assms(1)
    by (cases "slot_coins (coinType c) cs = []")
       (auto simp: coin_step_def slot_entry_def coin_value_def Let_def)
  then show ?thesis
    using assms(1) slot_entry_other [of c _ pkg cs] by (auto simp: fun_eq_iff)
qed

lemma coin_fold_entry:
  assumes "list_all (\<lambda>c. BigInt_str (tc_balance c) \<noteq> None) cs'" "map_of acc = slot_entry pkg cs"
  shows "\<exists>acc'. sum_fold (coin_step pkg) acc cs' = Inr acc' \<and> map_of acc' = slot_entry pkg (cs @ cs')
           \<and> distinct (map fst acc') = distinct (map fst acc)"
  using assms
proof (induction cs' arbitrary: acc cs)
  case (Cons c cs')
  obtain acc1 where 1: "coin_step pkg acc c = Inr acc1" "map_of acc1 = slot_entry pkg (cs @ [c])"
    "distinct (map fst acc1) = distinct (map fst acc)"
    using coin_step_entry [OF Cons.prems(2), of c] Cons.prems(1) by auto
  from Cons.IH [OF _ 1(2)] Cons.prems(1) 1 show ?case by auto
qed simp

lemma HS_TYPE_RE_digits:
  assumes "HS_TYPE_RE pkg t = Some d"
  shows "all_digits d"
proof -
  obtain r where "d = takeWhile (is_digit 10) r" "d \<noteq> []"
    using assms by (auto simp: HS_TYPE_RE_def Let_def split: if_splits)
  then show ?thesis by (auto simp: all_digits_def list_all_iff dest: set_takeWhileD)
qed


definition demo_coin_page :: "string \<Rightarrow> unit option \<Rightarrow> rpc_error + unit coin_page" where
  "demo_coin_page own cursor = Inr
     (if cursor = None
      then \<lparr>coins = [\<lparr>coinType = ''0x1::hs_002::HS_002'', tc_objectId = ''a'', tc_balance = ''5''\<rparr>,
                     \<lparr>coinType = ''0x2::sui::SUI'', tc_objectId = ''b'', tc_balance = ''9''\<rparr>],
            coin_hasNext = True, coin_next = Some ()\<rparr>
      else \<lparr>coins = [\<lparr>coinType = ''0x1::hs_002::HS_002'', tc_objectId = ''c'', tc_balance = ''7''\<rparr>],
            coin_hasNext = False, coin_next = None\<rparr>)"


end
