(* ===== verification/Share_Market.thy ===== *)
theory Share_Market
  imports Orders Wallet Amounts
begin

text \<open>
  The HashShare market: the book walks and the order handlers of the public tab of
  \<open>web/app/marketplace/page.tsx\<close>, with the estimate and the limit form of
  \<open>web/components/market/SwapCard.tsx\<close> that call them. A handler builds one transaction (a list of
  commands) and hands it to the wallet, which is the parameter \<open>sign\<close>; it leaves a result for the
  status line and the queries it asks to be read again. The book, the coins and the inventory are
  what the hooks of \<open>Orders\<close> and \<open>Wallet\<close> return.
\<close>

section \<open>Walking the book\<close>

record leg =
  leg_order :: ShareMarketOrder
  leg_units :: int
  gross :: int

text \<open>
  One pass over the asks: as many units as the remaining payment affords, at most what the ask
  offers. Division by a zero price throws (\<open>None\<close>).
\<close>

fun walk_asks :: "int \<Rightarrow> ShareMarketOrder list \<Rightarrow> leg list option" where
  "walk_asks left [] = Some []"
| "walk_asks left (ask # asks) =
     (if left = 0 then Some []
      else if pricePerUnitMist ask = 0 then None
      else let affordable = bigint_div left (pricePerUnitMist ask);
               units = (if affordable > maxUnits ask then maxUnits ask else affordable)
           in if units = 0 then walk_asks left asks
              else let gr = units * pricePerUnitMist ask
                   in map_option (Cons \<lparr>leg_order = ask, leg_units = units, gross = gr\<rparr>)
                        (walk_asks (left - gr) asks))"

fun walk_bids :: "int \<Rightarrow> ShareMarketOrder list \<Rightarrow> leg list" where
  "walk_bids left [] = []"
| "walk_bids left (bid # bids) =
     (if left = 0 then []
      else let units = (if left > maxUnits bid then maxUnits bid else left)
           in if units = 0 then walk_bids left bids
              else \<lparr>leg_order = bid, leg_units = units, gross = units * pricePerUnitMist bid\<rparr>
                   # walk_bids (left - units) bids)"

definition sum_units :: "leg list \<Rightarrow> int" where
  "sum_units legs = foldl (\<lambda>s l. s + leg_units l) 0 legs"

definition sum_gross :: "leg list \<Rightarrow> int" where
  "sum_gross legs = foldl (\<lambda>s l. s + gross l) 0 legs"

definition walkBuy :: "int \<Rightarrow> ShareMarketOrder list \<Rightarrow> nat \<Rightarrow> (leg list \<times> int \<times> int) option" where
  "walkBuy payMist asks maxOrders =
     map_option (\<lambda>legs. (legs, sum_units legs, sum_gross legs)) (walk_asks payMist (take maxOrders asks))"

definition walkSell :: "int \<Rightarrow> ShareMarketOrder list \<Rightarrow> nat \<Rightarrow> leg list \<times> int \<times> int" where
  "walkSell payUnits bids maxOrders =
     (let legs = walk_bids payUnits (take maxOrders bids) in (legs, sum_units legs, sum_gross legs))"

section \<open>The swap tab\<close>

datatype swap_side = Buy | Sell

record Projection =
  pj_legs :: "leg list"
  totalUnits :: int
  totalQuote :: int

text \<open>The projection helpers of the card, a second implementation of the two walks.\<close>

fun project_asks :: "int \<Rightarrow> ShareMarketOrder list \<Rightarrow> leg list option" where
  "project_asks left [] = Some []"
| "project_asks left (ask # asks) =
     (if left = 0 then Some []
      else if pricePerUnitMist ask = 0 then None
      else let affordable = bigint_div left (pricePerUnitMist ask);
               units = (if affordable > maxUnits ask then maxUnits ask else affordable)
           in if units = 0 then project_asks left asks
              else let gr = units * pricePerUnitMist ask
                   in map_option (Cons \<lparr>leg_order = ask, leg_units = units, gross = gr\<rparr>)
                        (project_asks (left - gr) asks))"

fun project_bids :: "int \<Rightarrow> ShareMarketOrder list \<Rightarrow> leg list" where
  "project_bids left [] = []"
| "project_bids left (bid # bids) =
     (if left = 0 then []
      else let units = (if left > maxUnits bid then maxUnits bid else left)
           in if units = 0 then project_bids left bids
              else \<lparr>leg_order = bid, leg_units = units, gross = units * pricePerUnitMist bid\<rparr>
                   # project_bids (left - units) bids)"

definition to_projection :: "leg list \<Rightarrow> Projection" where
  "to_projection legs = \<lparr>pj_legs = legs, totalUnits = sum_units legs, totalQuote = sum_gross legs\<rparr>"

definition walkBuyProjection :: "int \<Rightarrow> ShareMarketOrder list \<Rightarrow> Projection option" where
  "walkBuyProjection payMist asks = map_option to_projection (project_asks payMist (take 8 asks))"

definition walkSellProjection :: "int \<Rightarrow> ShareMarketOrder list \<Rightarrow> Projection" where
  "walkSellProjection payUnits bids = to_projection (project_bids payUnits (take 8 bids))"

text \<open>What the card shows for a typed amount; any exception shows no projection.\<close>

definition swap_projection ::
  "swap_side \<Rightarrow> string \<Rightarrow> ShareMarketOrder list \<Rightarrow> ShareMarketOrder list \<Rightarrow> Projection option" where
  "swap_projection sd payAmount asks bids =
     (if payAmount = [] then None
      else case BigInt_str payAmount of
             None \<Rightarrow> None
           | Some pay \<Rightarrow>
               if pay = 0 then None
               else case sd of Buy \<Rightarrow> walkBuyProjection pay asks | Sell \<Rightarrow> Some (walkSellProjection pay bids))"

definition topPrice :: "swap_side \<Rightarrow> ShareMarketOrder list \<Rightarrow> ShareMarketOrder list \<Rightarrow> int" where
  "topPrice sd asks bids =
     (case (case sd of Buy \<Rightarrow> asks | Sell \<Rightarrow> bids) of [] \<Rightarrow> 0 | x # _ \<Rightarrow> pricePerUnitMist x)"

definition receiveEst :: "swap_side \<Rightarrow> Projection option \<Rightarrow> int" where
  "receiveEst sd pj =
     (case pj of None \<Rightarrow> 0 | Some p \<Rightarrow> (case sd of Buy \<Rightarrow> totalUnits p | Sell \<Rightarrow> totalQuote p))"

definition legCount :: "Projection option \<Rightarrow> nat" where
  "legCount pj = (case pj of None \<Rightarrow> 0 | Some p \<Rightarrow> length (pj_legs p))"

definition effectivePrice :: "Projection option \<Rightarrow> int" where
  "effectivePrice pj =
     (case pj of None \<Rightarrow> 0 | Some p \<Rightarrow> if totalUnits p > 0 then bigint_div (totalQuote p) (totalUnits p) else 0)"

text \<open>The note under the estimate, by its variable parts.\<close>

datatype swap_note = NoNote | BookTooThin | QuoteUnfilled int string | UnitsUnfilled int

definition swap_helper :: "QuoteToken \<Rightarrow> swap_side \<Rightarrow> string \<Rightarrow> Projection option \<Rightarrow> swap_note" where
  "swap_helper quote sd payAmount pj =
     (case pj of
        None \<Rightarrow> NoNote
      | Some p \<Rightarrow>
          if payAmount = [] then NoNote
          else if legCount pj = 0 then BookTooThin
          else case BigInt_str payAmount of
                 None \<Rightarrow> NoNote
               | Some pay \<Rightarrow>
                   if sd = Buy \<and> totalQuote p < pay
                   then QuoteUnfilled (pay - totalQuote p) (baseUnitLabel quote)
                   else if sd = Sell \<and> totalUnits p < pay then UnitsUnfilled (pay - totalUnits p)
                   else NoNote)"

datatype swap_action = SwapBuy int | SwapSell int

text \<open>The button: nothing without a leg, else the handler of the page with the typed amount.\<close>

definition swap_execute :: "swap_side \<Rightarrow> string \<Rightarrow> Projection option \<Rightarrow> swap_action option" where
  "swap_execute sd payAmount pj =
     (if \<not> legCount pj > 0 then None
      else map_option (case sd of Buy \<Rightarrow> SwapBuy | Sell \<Rightarrow> SwapSell) (BigInt_str payAmount))"

definition GAS_BUFFER_MIST :: int where "GAS_BUFFER_MIST = 50000000"

definition maxFromBalance :: "swap_side \<Rightarrow> int option \<Rightarrow> string" where
  "maxFromBalance sd payBalance =
     (case payBalance of
        None \<Rightarrow> []
      | Some b \<Rightarrow>
          (case sd of
             Buy \<Rightarrow> int_to_string (if b > GAS_BUFFER_MIST then b - GAS_BUFFER_MIST else 0)
           | Sell \<Rightarrow> int_to_string b))"

text \<open>\<open>SwapDetails\<close>: the slippage against the top of the book, in percent.\<close>

definition slippageBps :: "swap_side \<Rightarrow> int \<Rightarrow> int \<Rightarrow> number option" where
  "slippageBps sd tp ep =
     (if tp = 0 \<or> ep = 0 then None
      else let diff = (case sd of Buy \<Rightarrow> ep - tp | Sell \<Rightarrow> tp - ep) in
           if diff \<le> 0 then Some 0 else Some (Fin (of_int (bigint_div (diff * 10000) tp)) / 100))"

section \<open>The limit tab\<close>

text \<open>The hashprice reference, only for SUI; \<open>Inl\<close> is the RangeError of \<open>BigInt(Infinity)\<close>.\<close>

definition referenceBase :: "number option \<Rightarrow> QuoteToken \<Rightarrow> unit + int option" where
  "referenceBase fair quote =
     (case fair of
        None \<Rightarrow> Inr None
      | Some f \<Rightarrow>
          if falsy f \<or> symbol quote \<noteq> ''SUI'' then Inr None
          else case Math_max 1 (Math_round f) of Fin x \<Rightarrow> Inr (Some \<lfloor>x\<rfloor>) | _ \<Rightarrow> Inl ())"

text \<open>The decimal text that the reference button fills in.\<close>

definition prefill_price :: "int \<Rightarrow> QuoteToken \<Rightarrow> string" where
  "prefill_price base quote =
     (let dec = decimals quote;
          factor = 10 ^ dec;
          whole = bigint_div base factor;
          fracPart = bigint_mod base factor;
          fracStr = strip_zeros (padStart dec CHR ''0'' (int_to_string fracPart))
      in if fracStr \<noteq> [] then int_to_string whole @ ''.'' @ fracStr else int_to_string whole)"

definition notional :: "int option \<Rightarrow> string \<Rightarrow> int" where
  "notional priceBaseUnits qty =
     (case priceBaseUnits of
        None \<Rightarrow> 0
      | Some p \<Rightarrow> (case BigInt_str (if qty = [] then ''0'' else qty) of None \<Rightarrow> 0 | Some q \<Rightarrow> p * q))"

datatype limit_action = PlaceBid int int | PlaceAsk int int

definition limit_place :: "swap_side \<Rightarrow> int option \<Rightarrow> string \<Rightarrow> limit_action option" where
  "limit_place sd priceBaseUnits qty =
     (case priceBaseUnits of
        None \<Rightarrow> None
      | Some p \<Rightarrow>
          if qty = [] then None
          else case BigInt_str qty of
                 None \<Rightarrow> None
               | Some q \<Rightarrow>
                   if p = 0 \<or> q = 0 then None
                   else Some (case sd of Buy \<Rightarrow> PlaceBid p (p * q) | Sell \<Rightarrow> PlaceAsk p q))"

definition slippageVsHashprice :: "int option \<Rightarrow> int option \<Rightarrow> number option" where
  "slippageVsHashprice refBase priceBaseUnits =
     (case (refBase, priceBaseUnits) of
        (Some r, Some p) \<Rightarrow>
          if r = 0 \<or> p = 0 then None
          else Some ((Fin (of_int p) - Fin (of_int r)) / Fin (of_int r) * 100)
      | _ \<Rightarrow> None)"

section \<open>Handlers of the public tab\<close>

datatype tx_result = TxOk string | TxErr string

datatype market_query = OrdersQ | SharesQ | QuoteCoinsQ

type_synonym handled = "tx_result \<times> market_query list"

text \<open>
  The state that the handlers read. \<open>undefinedObject\<close> is the message of the exception that the
  SDK raises for an undefined object identifier; an unset fee pool is the empty string.
\<close>

record market =
  mk_package :: string
  mk_coin :: string
  mk_quote :: QuoteToken
  feePoolId :: string
  mk_quoteCoins :: quote_coins
  myInventory :: "HashShareBalance option"
  mk_asks :: "ShareMarketOrder list"
  mk_bids :: "ShareMarketOrder list"
  undefinedObject :: string

text \<open>Signing: \<open>Inl\<close> is the message of a rejected transaction, \<open>Inr\<close> the digest.\<close>

definition submit :: "(tx \<Rightarrow> string + string) \<Rightarrow> tx \<Rightarrow> market_query list \<Rightarrow> handled" where
  "submit sign t qs = (case sign t of Inl msg \<Rightarrow> (TxErr msg, []) | Inr digest \<Rightarrow> (TxOk digest, qs))"

definition fail :: "string \<Rightarrow> handled" where
  "fail msg = (TxErr msg, [])"

definition market_call :: "market \<Rightarrow> string \<Rightarrow> tx_arg list \<Rightarrow> command" where
  "market_call mk name args =
     MoveCall (mk_package mk @ ''::hash_share_market::'' @ name) [mk_coin mk, coin_type (mk_quote mk)] args"

text \<open>\<open>const [first, ...rest] = ids; if (rest.length > 0) tx.mergeCoins(first, rest)\<close>\<close>

definition merge_ids :: "string \<Rightarrow> string list \<Rightarrow> tx" where
  "merge_ids first rest = (if length rest > 0 then [MergeCoins (ObjArg first) (map ObjArg rest)] else [])"

definition merge_split :: "string \<Rightarrow> string list \<Rightarrow> int \<Rightarrow> tx \<times> tx_arg" where
  "merge_split first rest amount =
     (let t = merge_ids first rest in (t @ [SplitCoins (ObjArg first) [amount]], Res (length t) 0))"

definition splitQuote :: "string list \<Rightarrow> int \<Rightarrow> string + tx \<times> tx_arg" where
  "splitQuote ids amount =
     (case ids of
        [] \<Rightarrow> Inl ''No quote coins in wallet''
      | first # rest \<Rightarrow> Inr (merge_split first rest amount))"

definition placeBid :: "market \<Rightarrow> (tx \<Rightarrow> string + string) \<Rightarrow> int \<Rightarrow> int \<Rightarrow> handled" where
  "placeBid mk sign price bud =
     (if price = 0 \<or> bud = 0 then fail ''Price and budget must be > 0''
      else if qc_balance (mk_quoteCoins mk) < bud
      then fail (''Insufficient '' @ symbol (mk_quote mk) @ '' balance'')
      else case splitQuote (qc_ids (mk_quoteCoins mk)) bud of
             Inl msg \<Rightarrow> fail msg
           | Inr (t, payment) \<Rightarrow>
               submit sign (t @ [market_call mk ''place_buy_order'' [PureU64 price, PureU64 0, payment]])
                 [OrdersQ, QuoteCoinsQ])"

definition placeAsk :: "market \<Rightarrow> (tx \<Rightarrow> string + string) \<Rightarrow> int \<Rightarrow> int \<Rightarrow> handled" where
  "placeAsk mk sign price units =
     (if price = 0 \<or> units = 0 then fail ''Price and units must be > 0''
      else case myInventory mk of
             None \<Rightarrow> fail ''No HashShare inventory in wallet''
           | Some iv \<Rightarrow>
               (case coinObjectIds iv of
                  [] \<Rightarrow> fail ''No HashShare inventory in wallet''
                | first # rest \<Rightarrow>
                    if units > balanceUnits iv then fail ''Insufficient inventory''
                    else case merge_split first rest units of (t, invCoin) \<Rightarrow>
                      submit sign (t @ [market_call mk ''place_sell_order'' [PureU64 price, PureU64 0, invCoin]])
                        [OrdersQ, SharesQ]))"

definition fee_pool_unset :: string where
  "fee_pool_unset = ''NEXT_PUBLIC_HASH_SHARE_MARKET_FEE_POOL_ID not set''"

definition fillAsk :: "market \<Rightarrow> (tx \<Rightarrow> string + string) \<Rightarrow> ShareMarketOrder \<Rightarrow> int \<Rightarrow> handled" where
  "fillAsk mk sign order units =
     (let buyUnits = (if units > maxUnits order then maxUnits order else units) in
      if buyUnits = 0 then fail ''Computed fill quantity = 0''
      else let gr = buyUnits * pricePerUnitMist order in
      if feePoolId mk = [] then fail fee_pool_unset
      else if qc_balance (mk_quoteCoins mk) < gr
      then fail (''Insufficient '' @ symbol (mk_quote mk) @ '' for fill'')
      else case splitQuote (qc_ids (mk_quoteCoins mk)) gr of
             Inl msg \<Rightarrow> fail msg
           | Inr (t, payment) \<Rightarrow>
               submit sign (t @ [market_call mk ''fill_sell_order''
                                   [ObjArg (so_objectId order), ObjArg (feePoolId mk), payment, PureU64 buyUnits]])
                 [OrdersQ, SharesQ, QuoteCoinsQ])"

definition fillBid :: "market \<Rightarrow> (tx \<Rightarrow> string + string) \<Rightarrow> ShareMarketOrder \<Rightarrow> int \<Rightarrow> handled" where
  "fillBid mk sign order units =
     (case myInventory mk of
        None \<Rightarrow> fail ''No HashShare inventory to sell''
      | Some iv \<Rightarrow>
          (case coinObjectIds iv of
             [] \<Rightarrow> fail ''No HashShare inventory to sell''
           | first # rest \<Rightarrow>
               (let u1 = (if units > maxUnits order then maxUnits order else units);
                    sellUnits = (if u1 > balanceUnits iv then balanceUnits iv else u1) in
                if sellUnits = 0 then fail ''Computed fill quantity = 0''
                else case merge_split first rest sellUnits of (t, payment) \<Rightarrow>
                  if feePoolId mk = [] then fail fee_pool_unset
                  else submit sign (t @ [market_call mk ''fill_buy_order''
                                           [ObjArg (so_objectId order), ObjArg (feePoolId mk), payment]])
                         [OrdersQ, SharesQ, QuoteCoinsQ])))"

text \<open>
  One split and one fill per leg, from command \<open>n\<close> on: \<open>amt\<close> is what a leg pays and \<open>pures\<close> the
  plain arguments after the payment.
\<close>

fun fill_legs ::
  "(leg \<Rightarrow> int) \<Rightarrow> (leg \<Rightarrow> int list) \<Rightarrow> market \<Rightarrow> string \<Rightarrow> string \<Rightarrow> nat \<Rightarrow> leg list \<Rightarrow> tx" where
  "fill_legs amt pures mk name first n [] = []"
| "fill_legs amt pures mk name first n (l # ls) =
     SplitCoins (ObjArg first) [amt l]
     # market_call mk name ([ObjArg (so_objectId (leg_order l)), ObjArg (feePoolId mk), Res n 0] @ map PureU64 (pures l))
     # fill_legs amt pures mk name first (n + 2) ls"

definition swapBuy :: "market \<Rightarrow> (tx \<Rightarrow> string + string) \<Rightarrow> int \<Rightarrow> handled" where
  "swapBuy mk sign payMist =
     (if feePoolId mk = [] then fail fee_pool_unset
      else case walkBuy payMist (mk_asks mk) 8 of
             None \<Rightarrow> fail ''Division by zero''
           | Some (legs, _, _) \<Rightarrow>
               if legs = [] then fail (''Couldn'' @ [CHR 0x27] @ ''t fill any asks for that pay amount'')
               else let totalCost = sum_gross legs in
               if qc_balance (mk_quoteCoins mk) < totalCost
               then fail (''Insufficient '' @ symbol (mk_quote mk) @ '' for full walk'')
               else case qc_ids (mk_quoteCoins mk) of
                      [] \<Rightarrow> fail (undefinedObject mk)
                    | first # rest \<Rightarrow>
                        (let t = merge_ids first rest in
                         submit sign (t @ fill_legs gross (\<lambda>l. [leg_units l]) mk ''fill_sell_order'' first (length t) legs)
                           [OrdersQ, SharesQ, QuoteCoinsQ]))"

definition swapSell :: "market \<Rightarrow> (tx \<Rightarrow> string + string) \<Rightarrow> int \<Rightarrow> handled" where
  "swapSell mk sign payUnits =
     (if feePoolId mk = [] then fail fee_pool_unset
      else case myInventory mk of
             None \<Rightarrow> fail ''No HashShare inventory to sell''
           | Some iv \<Rightarrow>
               (case coinObjectIds iv of
                  [] \<Rightarrow> fail ''No HashShare inventory to sell''
                | first # rest \<Rightarrow>
                    (let cap = (if payUnits > balanceUnits iv then balanceUnits iv else payUnits);
                         legs = fst (walkSell cap (mk_bids mk) 8) in
                     if legs = [] then fail ''No bids on the book to sell into''
                     else let t = merge_ids first rest in
                          submit sign (t @ fill_legs leg_units (\<lambda>_. []) mk ''fill_buy_order'' first (length t) legs)
                            [OrdersQ, SharesQ, QuoteCoinsQ])))"

definition cancel_share_order :: "market \<Rightarrow> (tx \<Rightarrow> string + string) \<Rightarrow> ShareMarketOrder \<Rightarrow> handled" where
  "cancel_share_order mk sign order =
     submit sign
       [market_call mk (if side order = Bid then ''cancel_buy_order'' else ''cancel_sell_order'')
          [ObjArg (so_objectId order)]]
       [OrdersQ]"

section \<open>The round shown\<close>

definition round_step :: "(string \<times> int) list \<Rightarrow> HashShareSlotBinding \<Rightarrow> (string \<times> int) list" where
  "round_step m b =
     (case map_of m (hb_fullType b) of
        None \<Rightarrow> js_map_set m (hb_fullType b) (hb_roundId b)
      | Some cur \<Rightarrow>
          if cur = 0 \<or> cur < hb_roundId b then js_map_set m (hb_fullType b) (hb_roundId b) else m)"

definition latestCoin :: "HashShareSlotBinding list \<Rightarrow> string" where
  "latestCoin bindings =
     (case js_sort (\<lambda>a b. Fin (of_int (snd b - snd a))) (foldl round_step [] bindings) of
        [] \<Rightarrow> [] | (t, _) # _ \<Rightarrow> t)"

definition activeLabel :: "HashShareSlotBinding list \<Rightarrow> string \<Rightarrow> string" where
  "activeLabel bindings cn =
     (case js_sort (\<lambda>a b. Fin (of_int (hb_roundId b - hb_roundId a)))
             (filter (\<lambda>x. hb_fullType x = cn) bindings) of
        [] \<Rightarrow> take 6 cn | b # _ \<Rightarrow> label b)"

section \<open>The walks are the best fills\<close>

lemma sum_units_eq: "sum_units legs = sum_list (map leg_units legs)"
  by (simp add: sum_units_def foldl_plus_sum_list)

lemma sum_gross_eq: "sum_gross legs = sum_list (map gross legs)"
  by (simp add: sum_gross_def foldl_plus_sum_list)

text \<open>
  An allocation takes from each order a number of units that it offers; its value is what these
  units cost at the prices of the orders.
\<close>

definition allocation :: "ShareMarketOrder list \<Rightarrow> int list \<Rightarrow> bool" where
  "allocation os us \<longleftrightarrow> list_all2 (\<lambda>u x. 0 \<le> u \<and> u \<le> maxUnits x) us os"

fun alloc_value :: "ShareMarketOrder list \<Rightarrow> int list \<Rightarrow> int" where
  "alloc_value (x # os) (u # us) = u * pricePerUnitMist x + alloc_value os us"
| "alloc_value _ _ = 0"

lemma allocation_Cons:
  "allocation (x # os) us \<longleftrightarrow> (\<exists>u us'. us = u # us' \<and> 0 \<le> u \<and> u \<le> maxUnits x \<and> allocation os us')"
  by (auto simp: allocation_def list_all2_Cons2)

lemma allocation_Nil [simp]: "allocation [] us \<longleftrightarrow> us = []"
  by (simp add: allocation_def)

lemma allocation_nonneg: "allocation os us \<Longrightarrow> 0 \<le> sum_list us"
  by (induction os arbitrary: us) (auto simp: allocation_Cons)

lemma allocation_zero:
  "list_all (\<lambda>x. 0 \<le> maxUnits x) os \<Longrightarrow>
     allocation os (replicate (length os) 0) \<and> alloc_value os (replicate (length os) 0) = 0"
  by (induction os) (auto simp: allocation_Cons)

lemma allocation_single:
  assumes "list_all (\<lambda>x. 0 \<le> maxUnits x) os" "x \<in> set os" "0 < maxUnits x"
  shows "\<exists>us. allocation os us \<and> sum_list us = 1 \<and> alloc_value os us = pricePerUnitMist x"
  using assms
proof (induction os)
  case (Cons y os)
  show ?case
  proof (cases "x = y")
    case True
    then show ?thesis using Cons.prems allocation_zero [of os]
      by (intro exI [of _ "1 # replicate (length os) 0"]) (auto simp: allocation_Cons sum_list_replicate)
  next
    case False
    then obtain us where "allocation os us" "sum_list us = 1" "alloc_value os us = pricePerUnitMist x"
      using Cons by auto
    then show ?thesis using Cons.prems(1) by (intro exI [of _ "0 # us"]) (auto simp: allocation_Cons)
  qed
qed simp

text \<open>Units can be taken out of an allocation at a value between two bounds of the prices.\<close>

lemma allocation_shrink:
  assumes "allocation os us" "0 \<le> k" "k \<le> sum_list us"
  obtains us' where "allocation os us'" "sum_list us' = sum_list us - k"
    "\<And>p. list_all (\<lambda>x. p \<le> pricePerUnitMist x) os \<Longrightarrow> alloc_value os us' \<le> alloc_value os us - k * p"
    "\<And>p. list_all (\<lambda>x. pricePerUnitMist x \<le> p) os \<Longrightarrow> alloc_value os us - k * p \<le> alloc_value os us'"
  using assms
proof (induction os arbitrary: us k thesis)
  case Nil
  from Nil(1) [of "[]"] Nil(2-4) show ?case by simp
next
  case (Cons x os)
  obtain u us1 where us: "us = u # us1" "0 \<le> u" "u \<le> maxUnits x" "allocation os us1"
    using Cons.prems(2) by (auto simp: allocation_Cons)
  define j where "j = min u k"
  have j: "0 \<le> j" "j \<le> u" "0 \<le> k - j" "k - j \<le> sum_list us1"
    using us Cons.prems(3,4) allocation_nonneg [OF us(4)] by (auto simp: j_def)
  obtain us2 where us2: "allocation os us2" "sum_list us2 = sum_list us1 - (k - j)"
    "\<And>p. list_all (\<lambda>x. p \<le> pricePerUnitMist x) os \<Longrightarrow> alloc_value os us2 \<le> alloc_value os us1 - (k - j) * p"
    "\<And>p. list_all (\<lambda>x. pricePerUnitMist x \<le> p) os \<Longrightarrow> alloc_value os us1 - (k - j) * p \<le> alloc_value os us2"
    using Cons.IH [OF _ us(4) j(3,4)] by blast
  show ?case
  proof (rule Cons.prems(1) [of "(u - j) # us2"])
    show "allocation (x # os) ((u - j) # us2)" using us j us2(1) by (auto simp: allocation_Cons)
    show "sum_list ((u - j) # us2) = sum_list us - k" using us us2(2) by simp
    fix p :: int
    show "alloc_value (x # os) ((u - j) # us2) \<le> alloc_value (x # os) us - k * p"
      if "list_all (\<lambda>x. p \<le> pricePerUnitMist x) (x # os)"
    proof -
      have "j * p \<le> j * pricePerUnitMist x" using that j(1) by (intro mult_left_mono) auto
      then show ?thesis using us2(3) [of p] that us by (simp add: algebra_simps)
    qed
    show "alloc_value (x # os) us - k * p \<le> alloc_value (x # os) ((u - j) # us2)"
      if "list_all (\<lambda>x. pricePerUnitMist x \<le> p) (x # os)"
    proof -
      have "j * pricePerUnitMist x \<le> j * p" using that j(1) by (intro mult_left_mono) auto
      then show ?thesis using us2(4) [of p] that us by (simp add: algebra_simps)
    qed
  qed
qed

lemma alloc_value_bounds:
  assumes "allocation os us"
  shows "list_all (\<lambda>x. p \<le> pricePerUnitMist x) os \<Longrightarrow> sum_list us * p \<le> alloc_value os us"
    and "list_all (\<lambda>x. pricePerUnitMist x \<le> p) os \<Longrightarrow> alloc_value os us \<le> sum_list us * p"
  using assms
  by (induction os arbitrary: us) (auto simp: allocation_Cons distrib_right intro!: add_mono mult_left_mono)

definition live_order :: "ShareMarketOrder \<Rightarrow> bool" where
  "live_order x \<longleftrightarrow> 0 < pricePerUnitMist x \<and> 0 \<le> maxUnits x"

definition leg_ok :: "ShareMarketOrder list \<Rightarrow> leg \<Rightarrow> bool" where
  "leg_ok os l \<longleftrightarrow> leg_order l \<in> set os \<and> 0 < leg_units l \<and> leg_units l \<le> maxUnits (leg_order l)
     \<and> gross l = leg_units l * pricePerUnitMist (leg_order l)"

text \<open>What one ask contributes: the affordable units, and the payment that is left.\<close>

definition ask_units :: "int \<Rightarrow> ShareMarketOrder \<Rightarrow> int" where
  "ask_units left x = min (left div pricePerUnitMist x) (maxUnits x)"

lemma ask_units_facts:
  assumes "live_order x" "0 \<le> left"
  shows "0 \<le> ask_units left x" "ask_units left x \<le> maxUnits x" "ask_units left x * pricePerUnitMist x \<le> left"
    and "0 \<le> u \<Longrightarrow> u \<le> maxUnits x \<Longrightarrow> u * pricePerUnitMist x \<le> left \<Longrightarrow> u \<le> ask_units left x"
proof -
  have p: "0 < pricePerUnitMist x" and m: "0 \<le> maxUnits x" using assms(1) by (simp_all add: live_order_def)
  have q: "0 \<le> left div pricePerUnitMist x" using p assms(2) by (simp add: pos_imp_zdiv_nonneg_iff)
  show "0 \<le> ask_units left x" "ask_units left x \<le> maxUnits x" using q m by (simp_all add: ask_units_def)
  have "ask_units left x * pricePerUnitMist x \<le> left div pricePerUnitMist x * pricePerUnitMist x"
    using p by (intro mult_right_mono) (auto simp: ask_units_def)
  also have "\<dots> \<le> left" using p by (metis div_mult_mod_eq le_add_same_cancel1 pos_mod_sign)
  finally show "ask_units left x * pricePerUnitMist x \<le> left" .
  show "u \<le> ask_units left x" if "0 \<le> u" "u \<le> maxUnits x" "u * pricePerUnitMist x \<le> left"
    using that zdiv_mono1 [OF that(3) p] p by (simp add: ask_units_def)
qed

lemma walk_asks_0 [simp]: "walk_asks 0 os = Some []"
  by (cases os) auto

lemma walk_asks_Cons:
  assumes "live_order x" "0 \<le> left"
  shows "walk_asks left (x # os) =
    (if ask_units left x = 0 then walk_asks left os
     else map_option (Cons \<lparr>leg_order = x, leg_units = ask_units left x, gross = ask_units left x * pricePerUnitMist x\<rparr>)
            (walk_asks (left - ask_units left x * pricePerUnitMist x) os))"
  using assms by (cases "left = 0") (auto simp: live_order_def ask_units_def min_def Let_def)

declare walk_asks.simps(2) [simp del]

lemma leg_ok_mono: "leg_ok os l \<Longrightarrow> leg_ok (x # os) l"
  by (simp add: leg_ok_def)

lemma leg_ok_new:
  "0 < u \<Longrightarrow> u \<le> maxUnits x \<Longrightarrow> leg_ok (x # os) \<lparr>leg_order = x, leg_units = u, gross = u * pricePerUnitMist x\<rparr>"
  by (simp add: leg_ok_def)

lemma list_all_leg_ok: "list_all (leg_ok os) legs \<Longrightarrow> list_all (leg_ok (x # os)) legs"
  by (auto simp: list_all_iff intro: leg_ok_mono)

lemma walk_asks_legs:
  assumes "list_all live_order os" "0 \<le> left"
  obtains legs where "walk_asks left os = Some legs" "list_all (leg_ok os) legs" "length legs \<le> length os"
    "sum_list (map gross legs) \<le> left"
  using assms
proof (induction os arbitrary: left thesis)
  case (Cons x os)
  have x: "live_order x" and os: "list_all live_order os" using Cons.prems(2) by simp_all
  note f = ask_units_facts [OF x Cons.prems(3)]
  let ?u = "ask_units left x"
  obtain legs where l: "walk_asks (left - ?u * pricePerUnitMist x) os = Some legs" "list_all (leg_ok os) legs"
    "length legs \<le> length os" "sum_list (map gross legs) \<le> left - ?u * pricePerUnitMist x"
    using Cons.IH [OF _ os, of "left - ?u * pricePerUnitMist x"] f(3) by auto
  show ?case
  proof (cases "?u = 0")
    case True
    show ?thesis
      by (rule Cons.prems(1) [of legs])
         (use True l walk_asks_Cons [OF x Cons.prems(3), of os] in \<open>simp_all add: list_all_leg_ok\<close>)
  next
    case False
    show ?thesis
      by (rule Cons.prems(1) [of "\<lparr>leg_order = x, leg_units = ?u, gross = ?u * pricePerUnitMist x\<rparr> # legs"])
         (use False l f walk_asks_Cons [OF x Cons.prems(3), of os] in \<open>simp_all add: list_all_leg_ok leg_ok_new\<close>)
  qed
qed simp

lemma walk_asks_best:
  assumes "list_all live_order os" "0 \<le> left"
    and "sorted_wrt (\<lambda>a b. pricePerUnitMist a \<le> pricePerUnitMist b) os"
    and "walk_asks left os = Some legs" "allocation os us" "alloc_value os us \<le> left"
  shows "sum_list us \<le> sum_list (map leg_units legs)"
  using assms
proof (induction os arbitrary: left legs us)
  case (Cons x os)
  have x: "live_order x" and os: "list_all live_order os" using Cons.prems(1) by simp_all
  note f = ask_units_facts [OF x Cons.prems(2)]
  let ?g = "ask_units left x" and ?p = "pricePerUnitMist x"
  obtain rest where rest: "walk_asks (left - ?g * ?p) os = Some rest"
    and units: "sum_list (map leg_units legs) = ?g + sum_list (map leg_units rest)"
    using Cons.prems(4) walk_asks_Cons [OF x Cons.prems(2), of os] by (cases "?g = 0") auto
  obtain u us1 where us: "us = u # us1" "0 \<le> u" "u \<le> maxUnits x" "allocation os us1"
    using Cons.prems(5) by (auto simp: allocation_Cons)
  have dear: "list_all (\<lambda>y. ?p \<le> pricePerUnitMist y) os" using Cons.prems(3) by (simp add: list_all_iff)
  have pos: "0 \<le> ?p" using x by (simp add: live_order_def)
  have "list_all (\<lambda>y. 0 \<le> pricePerUnitMist y) os"
    using os by (auto simp: live_order_def list_all_iff less_imp_le)
  then have "0 \<le> alloc_value os us1" using alloc_value_bounds(1) [OF us(4), of 0] by simp
  then have ug: "u \<le> ?g" using f(4) [OF us(2,3)] Cons.prems(6) us(1) by simp
  have r0: "0 \<le> left - ?g * ?p" using f(3) by simp
  have best: "allocation os vs \<Longrightarrow> alloc_value os vs \<le> left - ?g * ?p \<Longrightarrow>
      sum_list vs \<le> sum_list (map leg_units rest)" for vs
    using Cons.IH [OF os r0 _ rest] Cons.prems(3) by simp
  show ?case
  proof (cases "?g - u \<le> sum_list us1")
    case True
    obtain vs where vs: "allocation os vs" "sum_list vs = sum_list us1 - (?g - u)"
      "alloc_value os vs \<le> alloc_value os us1 - (?g - u) * ?p"
      using allocation_shrink [OF us(4) _ True] ug dear by (metis diff_ge_0_iff_ge)
    have "alloc_value os us1 - (?g - u) * ?p \<le> left - ?g * ?p"
      using Cons.prems(6) us(1) by (simp add: algebra_simps)
    then have "sum_list vs \<le> sum_list (map leg_units rest)" using best [OF vs(1)] vs(3) by simp
    then show ?thesis using units us(1) vs(2) by simp
  next
    case False
    have "0 \<le> sum_list (map leg_units rest)"
      using walk_asks_legs [OF os r0] rest
      by (intro sum_list_nonneg) (auto simp: list_all_iff leg_ok_def intro: less_imp_le)
    then show ?thesis using False units us(1) by simp
  qed
qed simp

text \<open>
  C10: The walk over the asks spends at most the payment on at most 8 legs, each within what its ask
  offers and at its price, and for a book sorted from the cheapest ask it is the best fill: no
  choice of units from these asks that costs at most the payment gives more units.
\<close>

theorem walkBuy_optimal:
  assumes "list_all live_order asks" "0 \<le> payMist"
    and "sorted_wrt (\<lambda>a b. pricePerUnitMist a \<le> pricePerUnitMist b) asks"
  shows "\<exists>legs units spend. walkBuy payMist asks 8 = Some (legs, units, spend)
    \<and> spend = sum_list (map gross legs) \<and> spend \<le> payMist \<and> length legs \<le> 8
    \<and> list_all (leg_ok (take 8 asks)) legs
    \<and> (\<forall>us. allocation (take 8 asks) us \<and> alloc_value (take 8 asks) us \<le> payMist \<longrightarrow> sum_list us \<le> units)"
proof -
  have live: "list_all live_order (take 8 asks)"
    using assms(1) by (auto simp: list_all_iff dest: in_set_takeD)
  obtain legs where l: "walk_asks payMist (take 8 asks) = Some legs" "list_all (leg_ok (take 8 asks)) legs"
    "length legs \<le> length (take 8 asks)" "sum_list (map gross legs) \<le> payMist"
    by (rule walk_asks_legs [OF live assms(2)])
  have "sum_list us \<le> sum_list (map leg_units legs)"
    if "allocation (take 8 asks) us" "alloc_value (take 8 asks) us \<le> payMist" for us
    by (rule walk_asks_best [OF live assms(2) sorted_wrt_take [OF assms(3)] l(1) that])
  then show ?thesis using l by (auto simp: walkBuy_def sum_units_eq sum_gross_eq)
qed

definition demo_order :: "string \<Rightarrow> int \<Rightarrow> int \<Rightarrow> ShareMarketOrder" where
  "demo_order oid price units =
     \<lparr>side = Ask, so_objectId = oid, so_owner = ''0xs'', pricePerUnitMist = price, remaining = units,
      maxUnits = units, so_expiresEpoch = None\<rparr>"

definition demo_asks :: "ShareMarketOrder list" where
  "demo_asks = [demo_order ''0x1'' 3 4, demo_order ''0x2'' 5 10]"

lemma demo_walk:
  "walk_asks 25 demo_asks = Some [\<lparr>leg_order = demo_order ''0x1'' 3 4, leg_units = 4, gross = 12\<rparr>,
                                  \<lparr>leg_order = demo_order ''0x2'' 5 10, leg_units = 2, gross = 10\<rparr>]"
  by (simp add: demo_asks_def walk_asks.simps demo_order_def)

theorem walkBuy_optimal_witness:
  "\<exists>legs units spend. walkBuy 25 demo_asks 8 = Some (legs, units, spend) \<and> spend \<le> 25 \<and> 6 \<le> units"
proof -
  have "allocation (take 8 demo_asks) [4, 2]" "alloc_value (take 8 demo_asks) [4, 2] \<le> 25"
    by (simp_all add: demo_asks_def demo_order_def allocation_Cons)
  moreover have "list_all live_order demo_asks"
    "sorted_wrt (\<lambda>a b. pricePerUnitMist a \<le> pricePerUnitMist b) demo_asks"
    by (simp_all add: demo_asks_def demo_order_def live_order_def)
  ultimately show ?thesis using walkBuy_optimal [of demo_asks 25] by fastforce
qed

lemma walk_bids_0 [simp]: "walk_bids 0 os = []"
  by (cases os) auto

lemma walk_bids_Cons:
  assumes "live_order x" "0 \<le> left"
  shows "walk_bids left (x # os) =
    (if min left (maxUnits x) = 0 then walk_bids left os
     else \<lparr>leg_order = x, leg_units = min left (maxUnits x), gross = min left (maxUnits x) * pricePerUnitMist x\<rparr>
          # walk_bids (left - min left (maxUnits x)) os)"
  using assms by (cases "left = 0") (auto simp: live_order_def min_def Let_def)

declare walk_bids.simps(2) [simp del]

lemma walk_bids_legs:
  assumes "list_all live_order os" "0 \<le> left"
  shows "list_all (leg_ok os) (walk_bids left os) \<and> length (walk_bids left os) \<le> length os
    \<and> sum_list (map leg_units (walk_bids left os)) \<le> left"
  using assms
proof (induction os arbitrary: left)
  case (Cons x os)
  have x: "live_order x" and os: "list_all live_order os" using Cons.prems(1) by simp_all
  then have m: "0 \<le> min left (maxUnits x)" using Cons.prems(2) by (simp add: live_order_def)
  show ?case
  proof (cases "min left (maxUnits x) = 0")
    case True
    then show ?thesis
      using Cons.IH [OF os Cons.prems(2)] by (simp add: walk_bids_Cons [OF x Cons.prems(2)] list_all_leg_ok)
  next
    case False
    then have pos: "0 < min left (maxUnits x)" using m by linarith
    have step: "walk_bids left (x # os) = \<lparr>leg_order = x, leg_units = min left (maxUnits x),
          gross = min left (maxUnits x) * pricePerUnitMist x\<rparr> # walk_bids (left - min left (maxUnits x)) os"
      by (subst walk_bids_Cons [OF x Cons.prems(2)]) (rule if_not_P [OF False])
    show ?thesis
      unfolding step using Cons.IH [OF os, of "left - min left (maxUnits x)"] leg_ok_new [OF pos, of x os]
      by (simp add: list_all_leg_ok)
  qed
qed simp

lemma walk_bids_best:
  assumes "list_all live_order os" "0 \<le> left"
    and "sorted_wrt (\<lambda>a b. pricePerUnitMist b \<le> pricePerUnitMist a) os"
    and "allocation os us" "sum_list us \<le> left"
  shows "alloc_value os us \<le> sum_list (map gross (walk_bids left os))"
  using assms
proof (induction os arbitrary: left us)
  case (Cons x os)
  have x: "live_order x" and os: "list_all live_order os" using Cons.prems(1) by simp_all
  let ?g = "min left (maxUnits x)" and ?p = "pricePerUnitMist x"
  have r0: "0 \<le> left - ?g" by simp
  have value_walk: "sum_list (map gross (walk_bids left (x # os)))
      = ?g * ?p + sum_list (map gross (walk_bids (left - ?g) os))"
    by (auto simp: walk_bids_Cons [OF x Cons.prems(2)])
  obtain u us1 where us: "us = u # us1" "0 \<le> u" "u \<le> maxUnits x" "allocation os us1"
    using Cons.prems(4) by (auto simp: allocation_Cons)
  have cheap: "list_all (\<lambda>y. pricePerUnitMist y \<le> ?p) os" using Cons.prems(3) by (simp add: list_all_iff)
  have s1: "0 \<le> sum_list us1" by (rule allocation_nonneg [OF us(4)])
  then have ug: "u \<le> ?g" using us Cons.prems(5) by simp
  have best: "allocation os vs \<Longrightarrow> sum_list vs \<le> left - ?g \<Longrightarrow>
      alloc_value os vs \<le> sum_list (map gross (walk_bids (left - ?g) os))" for vs
    using Cons.IH [OF os r0] Cons.prems(3) by simp
  define k where "k = min (?g - u) (sum_list us1)"
  have k: "0 \<le> k" "k \<le> sum_list us1" "k \<le> ?g - u" using ug s1 by (auto simp: k_def)
  obtain vs where vs: "allocation os vs" "sum_list vs = sum_list us1 - k"
    "alloc_value os us1 - k * ?p \<le> alloc_value os vs"
    using allocation_shrink [OF us(4) k(1,2)] cheap by metis
  have "sum_list vs \<le> left - ?g" using vs(2) Cons.prems(5) us(1) by (auto simp: k_def)
  then have "alloc_value os us1 \<le> k * ?p + sum_list (map gross (walk_bids (left - ?g) os))"
    using best [OF vs(1)] vs(3) by simp
  moreover have "(u + k) * ?p \<le> ?g * ?p" using k(3) x by (intro mult_right_mono) (auto simp: live_order_def)
  ultimately show ?case unfolding value_walk using us(1) by (simp add: distrib_right)
qed simp

text \<open>
  The walk over the bids sells at most the given units on at most 8 legs, each within what its bid
  takes and at its price, and for a book sorted from the highest bid it is the best sale: no choice
  of at most that many units into these bids brings more.
\<close>

theorem walkSell_optimal:
  assumes "list_all live_order bids" "0 \<le> payUnits"
    and "sorted_wrt (\<lambda>a b. pricePerUnitMist b \<le> pricePerUnitMist a) bids"
  shows "case walkSell payUnits bids 8 of (legs, units, receive) \<Rightarrow>
      units = sum_list (map leg_units legs) \<and> units \<le> payUnits \<and> length legs \<le> 8
    \<and> list_all (leg_ok (take 8 bids)) legs
    \<and> (\<forall>us. allocation (take 8 bids) us \<and> sum_list us \<le> payUnits \<longrightarrow> alloc_value (take 8 bids) us \<le> receive)"
proof -
  have live: "list_all live_order (take 8 bids)"
    using assms(1) by (auto simp: list_all_iff dest: in_set_takeD)
  from walk_bids_legs [OF live assms(2)] walk_bids_best [OF live assms(2) sorted_wrt_take [OF assms(3)]]
  show ?thesis by (auto simp: walkSell_def Let_def sum_units_eq sum_gross_eq)
qed

theorem walkSell_optimal_witness:
  "\<exists>legs units receive. walkSell 12 (rev demo_asks) 8 = (legs, units, receive) \<and> units \<le> 12 \<and> 56 \<le> receive"
proof -
  obtain legs units receive where w: "walkSell 12 (rev demo_asks) 8 = (legs, units, receive)" by (metis surj_pair)
  have "allocation (take 8 (rev demo_asks)) [10, 2]" "alloc_value (take 8 (rev demo_asks)) [10, 2] = 56"
    by (simp_all add: demo_asks_def demo_order_def allocation_Cons)
  moreover have "list_all live_order (rev demo_asks)"
    "sorted_wrt (\<lambda>a b. pricePerUnitMist b \<le> pricePerUnitMist a) (rev demo_asks)"
    by (simp_all add: demo_asks_def demo_order_def live_order_def)
  ultimately show ?thesis using walkSell_optimal [of "rev demo_asks" 12] w by fastforce
qed

section \<open>The swap transactions\<close>

text \<open>
  What the two swaps share: a walk whose legs are within their orders and cost at most what is
  given, and a positive cost of every leg. The transaction of the legs then runs on the wallet,
  every fill receives exactly the cost of its leg, and the rest stays in the first coin.
\<close>

definition fill_view :: "(leg \<Rightarrow> int) \<Rightarrow> (leg \<Rightarrow> int list) \<Rightarrow> market \<Rightarrow> string \<Rightarrow> leg \<Rightarrow> call_view" where
  "fill_view cost pures mk name l =
     \<lparr>cv_target = mk_package mk @ ''::hash_share_market::'' @ name,
      cv_types = [mk_coin mk, coin_type (mk_quote mk)],
      cv_objects = [so_objectId (leg_order l), feePoolId mk], cv_numbers = pures l, cv_paid = [cost l]\<rparr>"

definition apart :: "market \<Rightarrow> ShareMarketOrder list \<Rightarrow> string \<Rightarrow> bool" where
  "apart mk os first \<longleftrightarrow> feePoolId mk \<noteq> first \<and> list_all (\<lambda>x. so_objectId x \<noteq> first) os"

lemma fill_legs_run:
  assumes "list_all (\<lambda>l. 0 \<le> cost l \<and> so_objectId (leg_order l) \<noteq> first) legs" "feePoolId mk \<noteq> first"
    and "sum_list (map cost legs) \<le> v"
  shows "run_tx n (fill_legs cost pures mk name first n legs) [ObjArg first \<mapsto> v]
           = Some [ObjArg first \<mapsto> v - sum_list (map cost legs)]
    \<and> call_trace n (fill_legs cost pures mk name first n legs) [ObjArg first \<mapsto> v]
           = Some (map (fill_view cost pures mk name) legs)"
  using assms
proof (induction legs arbitrary: n v)
  case (Cons l legs)
  have nn: "0 \<le> sum_list (map cost legs)"
    using Cons.prems(1) by (intro sum_list_nonneg) (auto simp: list_all_iff)
  let ?oid = "so_objectId (leg_order l)"
  let ?args = "[ObjArg ?oid, ObjArg (feePoolId mk), Res n 0] @ map PureU64 (pures l)"
  have d: "?oid \<noteq> first" "feePoolId mk \<noteq> first" "0 \<le> cost l" using Cons.prems(1,2) by auto
  have 1: "run_command n (SplitCoins (ObjArg first) [cost l]) [ObjArg first \<mapsto> v]
      = Some [ObjArg first \<mapsto> v - cost l, Res n 0 \<mapsto> cost l]"
    using Cons.prems nn by (auto simp: run_command_def fun_eq_iff split: tx_arg.split)
  have 2: "run_command (Suc n) (market_call mk name ?args) [ObjArg first \<mapsto> v - cost l, Res n 0 \<mapsto> cost l]
      = Some [ObjArg first \<mapsto> v - cost l]"
    using d by (auto simp: run_command_def market_call_def fun_eq_iff)
  have 3: "view_call t tys ?args [ObjArg first \<mapsto> v - cost l, Res n 0 \<mapsto> cost l] =
      \<lparr>cv_target = t, cv_types = tys, cv_objects = [?oid, feePoolId mk], cv_numbers = pures l, cv_paid = [cost l]\<rparr>"
    for t tys using d by (simp add: view_call_def o_def)
  have run: "run_tx n (fill_legs cost pures mk name first n (l # legs)) [ObjArg first \<mapsto> v]
      = run_tx (n + 2) (fill_legs cost pures mk name first (n + 2) legs) [ObjArg first \<mapsto> v - cost l]"
    by (simp only: fill_legs.simps run_tx.simps 1 2 option.case add_2_eq_Suc')
  have tr: "call_trace n (fill_legs cost pures mk name first n (l # legs)) [ObjArg first \<mapsto> v]
      = map_option (Cons (fill_view cost pures mk name l))
          (call_trace (n + 2) (fill_legs cost pures mk name first (n + 2) legs) [ObjArg first \<mapsto> v - cost l])"
    by (simp only: fill_legs.simps call_trace.simps 1 2 option.case add_2_eq_Suc' command.case)
       (simp add: market_call_def 3 [simplified] fill_view_def option.map_comp o_def)
  have ih: "list_all (\<lambda>l. 0 \<le> cost l \<and> so_objectId (leg_order l) \<noteq> first) legs" "sum_list (map cost legs) \<le> v - cost l"
    using Cons.prems by auto
  show ?case
    unfolding run tr using Cons.IH [OF ih(1) d(2) ih(2), of "n + 2"]
    by (simp only: list.map sum_list.Cons option.map diff_diff_add simp_thms)
qed simp

lemma merge_ids_run:
  assumes "distinct (map coinObjectId cs)" "map coinObjectId cs = first # rest"
  shows "run_tx 0 (merge_ids first rest) (wallet cs) = Some [ObjArg first \<mapsto> wallet_total cs]"
    and "call_trace 0 (merge_ids first rest) (wallet cs) = Some []"
proof -
  obtain p ps where cs: "cs = p # ps" "first = coinObjectId p" "rest = map coinObjectId ps"
    using assms(2) by (cases cs) auto
  show run: "run_tx 0 (merge_ids first rest) (wallet cs) = Some [ObjArg first \<mapsto> wallet_total cs]"
  proof -
    have "merge_ids first rest = (if length ps > 0
        then [MergeCoins (ObjArg (coinObjectId p)) (map (\<lambda>c. ObjArg (coinObjectId c)) ps)] else [])"
      by (simp add: merge_ids_def cs)
    then show ?thesis using run_merge_prefix [of p ps] assms(1) unfolding cs by (simp only:)
  qed
  then show "call_trace 0 (merge_ids first rest) (wallet cs) = Some []"
    by (auto simp: merge_ids_def split: option.splits if_splits)
qed

locale book_walk =
  fixes walk_book :: "int \<Rightarrow> ShareMarketOrder list \<Rightarrow> leg list option"
    and cost :: "leg \<Rightarrow> int"
  assumes walk_ok: "list_all live_order os \<Longrightarrow> 0 \<le> left \<Longrightarrow>
      \<exists>legs. walk_book left os = Some legs \<and> list_all (leg_ok os) legs \<and> sum_list (map cost legs) \<le> left"
    and cost_pos: "leg_ok os l \<Longrightarrow> live_order (leg_order l) \<Longrightarrow> 0 < cost l"
begin

lemma legs_cost:
  assumes "list_all live_order os" "0 \<le> left" "walk_book left os = Some legs"
  shows "sum_list (map cost legs) \<le> left" "list_all (\<lambda>l. 0 < cost l \<and> leg_order l \<in> set os) legs"
proof -
  have ok: "list_all (leg_ok os) legs" "sum_list (map cost legs) \<le> left"
    using walk_ok [OF assms(1,2)] assms(3) by auto
  then show "sum_list (map cost legs) \<le> left" by simp
  show "list_all (\<lambda>l. 0 < cost l \<and> leg_order l \<in> set os) legs"
    using ok(1) cost_pos assms(1) by (auto simp: list_all_iff leg_ok_def)
qed

lemma legs_sum_pos:
  assumes "list_all live_order os" "0 \<le> left" "walk_book left os = Some legs" "legs \<noteq> []"
  shows "0 < sum_list (map cost legs)"
  using legs_cost(2) [OF assms(1-3)] assms(4)
  by (cases legs) (auto simp: list_all_iff less_imp_le intro!: add_pos_nonneg sum_list_nonneg)

lemma walk_run:
  assumes "list_all live_order os" "0 \<le> left" "walk_book left os = Some legs"
    and "distinct (map coinObjectId cs)" "map coinObjectId cs = first # rest"
    and "apart mk os first" "sum_list (map cost legs) \<le> wallet_total cs"
  shows "run_tx 0 (merge_ids first rest @ fill_legs cost pures mk name first (length (merge_ids first rest)) legs) (wallet cs)
           = Some [ObjArg first \<mapsto> wallet_total cs - sum_list (map cost legs)]
    \<and> call_trace 0 (merge_ids first rest @ fill_legs cost pures mk name first (length (merge_ids first rest)) legs) (wallet cs)
           = Some (map (fill_view cost pures mk name) legs)"
proof -
  have "list_all (\<lambda>l. 0 \<le> cost l \<and> so_objectId (leg_order l) \<noteq> first) legs"
    using legs_cost(2) [OF assms(1-3)] assms(6) by (auto simp: list_all_iff apart_def less_imp_le)
  from fill_legs_run [OF this _ assms(7)] assms(6) merge_ids_run [OF assms(4,5)]
  show ?thesis by (simp add: run_tx_append call_trace_append apart_def)
qed

end

interpretation buy: book_walk walk_asks gross
proof
  fix os :: "ShareMarketOrder list" and left :: int
  assume "list_all live_order os" "0 \<le> left"
  then show "\<exists>legs. walk_asks left os = Some legs \<and> list_all (leg_ok os) legs \<and> sum_list (map gross legs) \<le> left"
    using walk_asks_legs by metis
qed (auto simp: leg_ok_def live_order_def)

interpretation sell: book_walk "\<lambda>left os. Some (walk_bids left os)" leg_units
  by standard (use walk_bids_legs in \<open>auto simp: leg_ok_def\<close>)

lemma project_asks_walk: "project_asks left os = walk_asks left os"
  by (induction left os rule: project_asks.induct) (auto simp: walk_asks.simps Let_def)

lemma project_bids_walk: "project_bids left os = walk_bids left os"
  by (induction left os rule: project_bids.induct) (auto simp: walk_bids.simps Let_def)

lemma live_take: "list_all live_order os \<Longrightarrow> list_all live_order (take k os)"
  by (auto simp: list_all_iff dest: in_set_takeD)

lemma apart_take: "apart mk os first \<Longrightarrow> apart mk (take k os) first"
  by (auto simp: apart_def list_all_iff dest: in_set_takeD)

lemma useQuoteCoins_facts:
  assumes "useQuoteCoins ct cs = Some qc"
  shows "qc_ids qc = map coinObjectId cs" "qc_balance qc = wallet_total cs"
  using assms coin_total_ok [of cs 0] coin_total_bad [of cs 0]
  by (cases "balances_ok cs"; auto simp: useQuoteCoins_def split: option.splits)+

text \<open>
  A swap buy does what the card shows. When the projection of the card has legs and the wallet
  covers it, swapBuy submits one transaction that runs on the wallet: it fills exactly the orders
  of the projection, in order, each with a coin of exactly the amount shown and for the units
  shown, and leaves the wallet total less the projected cost in the first coin.
\<close>

lemma swapBuy_run:
  assumes "distinct (map coinObjectId cs)" "useQuoteCoins ct cs = Some (mk_quoteCoins mk)"
    and "list_all live_order (mk_asks mk)" "0 \<le> payMist" "feePoolId mk \<noteq> []"
    and "list_all (\<lambda>c. apart mk (mk_asks mk) (coinObjectId c)) cs"
    and "walkBuyProjection payMist (mk_asks mk) = Some pj" "pj_legs pj \<noteq> []" "totalQuote pj \<le> wallet_total cs"
  shows "\<exists>t. swapBuy mk sign payMist = submit sign t [OrdersQ, SharesQ, QuoteCoinsQ]
    \<and> call_trace 0 t (wallet cs) = Some (map (fill_view gross (\<lambda>l. [leg_units l]) mk ''fill_sell_order'') (pj_legs pj))
    \<and> run_tx 0 t (wallet cs) = Some [ObjArg (coinObjectId (hd cs)) \<mapsto> wallet_total cs - totalQuote pj]"
proof -
  have w: "walk_asks payMist (take 8 (mk_asks mk)) = Some (pj_legs pj)"
    and tq: "totalQuote pj = sum_list (map gross (pj_legs pj))"
    using assms(7) by (auto simp: walkBuyProjection_def project_asks_walk to_projection_def sum_gross_eq)
  note live = live_take [OF assms(3), of 8]
  have "cs \<noteq> []"
    using buy.legs_sum_pos [OF live assms(4) w assms(8)] assms(9) tq by (auto simp: wallet_total_def)
  then obtain first rest where ids: "map coinObjectId cs = first # rest" "first = coinObjectId (hd cs)"
    by (cases cs) auto
  have ap: "apart mk (take 8 (mk_asks mk)) first"
    using assms(6) ids \<open>cs \<noteq> []\<close> by (intro apart_take) (cases cs; simp)
  note qc = useQuoteCoins_facts [OF assms(2)]
  let ?t = "merge_ids first rest @ fill_legs gross (\<lambda>l. [leg_units l]) mk ''fill_sell_order'' first
              (length (merge_ids first rest)) (pj_legs pj)"
  have "swapBuy mk sign payMist = submit sign ?t [OrdersQ, SharesQ, QuoteCoinsQ]"
    using assms(5,8,9) qc ids(1) tq by (simp add: swapBuy_def walkBuy_def w sum_gross_eq Let_def)
  then show ?thesis
    using buy.walk_run [OF live assms(4) w assms(1) ids(1) ap, of "\<lambda>l. [leg_units l]" "''fill_sell_order''"]
      assms(9) ids(2) tq by (intro exI [of _ ?t]) simp
qed

text \<open>
  C5: A swap sell takes at most the inventory: for an inventory that lists the coins of the wallet,
  swapSell submits one transaction that fills the bids of the projection of the capped amount,
  each with a coin of exactly its units, and leaves the other units in the first coin.
\<close>

theorem swapSell_exact:
  assumes "distinct (map coinObjectId cs)" "cs \<noteq> []" "0 \<le> wallet_total cs"
    and "myInventory mk = Some iv" "coinObjectIds iv = map coinObjectId cs" "balanceUnits iv = wallet_total cs"
    and "list_all live_order (mk_bids mk)" "0 \<le> payUnits" "feePoolId mk \<noteq> []"
    and "list_all (\<lambda>c. apart mk (mk_bids mk) (coinObjectId c)) cs"
    and "pj = walkSellProjection (min payUnits (wallet_total cs)) (mk_bids mk)" "pj_legs pj \<noteq> []"
  shows "\<exists>t. swapSell mk sign payUnits = submit sign t [OrdersQ, SharesQ, QuoteCoinsQ]
    \<and> call_trace 0 t (wallet cs) = Some (map (fill_view leg_units (\<lambda>_. []) mk ''fill_buy_order'') (pj_legs pj))
    \<and> run_tx 0 t (wallet cs) = Some [ObjArg (coinObjectId (hd cs)) \<mapsto> wallet_total cs - totalUnits pj]
    \<and> totalUnits pj \<le> payUnits"
proof -
  let ?cap = "min payUnits (wallet_total cs)"
  have cap: "0 \<le> ?cap" using assms(3,8) by simp
  have w: "pj_legs pj = walk_bids ?cap (take 8 (mk_bids mk))" and tu: "totalUnits pj = sum_list (map leg_units (pj_legs pj))"
    by (simp_all add: assms(11) walkSellProjection_def project_bids_walk to_projection_def sum_units_eq)
  note live = live_take [OF assms(7), of 8]
  have le: "sum_list (map leg_units (pj_legs pj)) \<le> ?cap" using walk_bids_legs [OF live cap] w by simp
  obtain first rest where ids: "map coinObjectId cs = first # rest" "first = coinObjectId (hd cs)"
    using assms(2) by (cases cs) auto
  have ap: "apart mk (take 8 (mk_bids mk)) first"
    using assms(10) ids assms(2) by (intro apart_take) (cases cs; simp)
  let ?t = "merge_ids first rest @ fill_legs leg_units (\<lambda>_. []) mk ''fill_buy_order'' first
              (length (merge_ids first rest)) (pj_legs pj)"
  have "(if payUnits > balanceUnits iv then balanceUnits iv else payUnits) = ?cap" using assms(6) by (simp add: min_def)
  then have "swapSell mk sign payUnits = submit sign ?t [OrdersQ, SharesQ, QuoteCoinsQ]"
    using assms(4-6,9,12) ids(1) w by (simp add: swapSell_def walkSell_def Let_def)
  then show ?thesis
    using sell.walk_run [OF live cap _ assms(1) ids(1) ap, of "pj_legs pj" "\<lambda>_. []" "''fill_buy_order''"]
      w le ids(2) tu by (intro exI [of _ ?t]) simp
qed

definition demo_market :: market where
  "demo_market =
     \<lparr>mk_package = ''0x9'', mk_coin = ''HS'', mk_quote = hd MAINNET_QUOTES, feePoolId = ''0xf'',
      mk_quoteCoins = \<lparr>qc_coinType = ''USDC'', qc_ids = [''0xa'', ''0xb''], qc_balance = 27\<rparr>,
      myInventory = Some \<lparr>typeName = ''HS_000'', fullType = ''HS'', slotIdx = 0, balanceUnits = 27,
                          coinObjectIds = [''0xa'', ''0xb'']\<rparr>,
      mk_asks = demo_asks, mk_bids = rev demo_asks, undefinedObject = []\<rparr>"

definition market_coins :: "owned_coin list" where
  "market_coins = [\<lparr>coinObjectId = ''0xa'', coin_balance = ''20''\<rparr>, \<lparr>coinObjectId = ''0xb'', coin_balance = ''7''\<rparr>]"

lemma market_coins_ok:
  "distinct (map coinObjectId market_coins)" "wallet_total market_coins = 27"
  "useQuoteCoins ''USDC'' market_coins = Some (mk_quoteCoins demo_market)"
  "list_all (\<lambda>c. apart demo_market (mk_asks demo_market) (coinObjectId c)) market_coins"
  "list_all (\<lambda>c. apart demo_market (mk_bids demo_market) (coinObjectId c)) market_coins"
  by code_simp+

theorem swapSell_exact_witness:
  "\<exists>t. swapSell demo_market (\<lambda>_. Inr ''d'') 12 = submit (\<lambda>_. Inr ''d'') t [OrdersQ, SharesQ, QuoteCoinsQ]
    \<and> run_tx 0 t (wallet market_coins) = Some [ObjArg ''0xa'' \<mapsto> 15]"
proof -
  let ?pj = "walkSellProjection 12 (rev demo_asks)"
  have p: "pj_legs ?pj \<noteq> []" "totalUnits ?pj = 12"
    by (simp_all add: walkSellProjection_def to_projection_def sum_units_def demo_asks_def demo_order_def)
  have "list_all live_order (rev demo_asks)" by (simp add: demo_asks_def demo_order_def live_order_def)
  with p show ?thesis
    using swapSell_exact [where cs = market_coins and mk = demo_market and payUnits = 12 and sign = "\<lambda>_. Inr ''d''"
        and pj = ?pj, OF market_coins_ok(1)] market_coins_ok(2,5)
    by (auto simp: market_coins_def demo_market_def)
qed

section \<open>The limit form and the round shown\<close>

lemma prefill_formatAmount: "0 \<le> b \<Longrightarrow> prefill_price b q = formatAmount b (decimals q)"
  using strip_zeros_zero [of 0]
  by (cases "decimals q = 0") (auto simp: prefill_price_def formatAmount_def Let_def)

text \<open>
  The reference button of the limit form fills in a price that the form reads back as exactly the
  reference, a positive number of base units.
\<close>

theorem limit_reference_prefill:
  "case referenceBase fair quote of
     Inr (Some r) \<Rightarrow> 1 \<le> r \<and> parseQuoteAmount (prefill_price r quote) quote = Some r
   | _ \<Rightarrow> True"
proof (cases "referenceBase fair quote")
  case (Inr x)
  show ?thesis
  proof (cases x)
    case (Some r)
    obtain f y where y: "Math_max 1 (Math_round f) = Fin y" "r = \<lfloor>y\<rfloor>"
      using Inr Some by (auto simp: referenceBase_def split: option.splits if_splits number.splits)
    have "1 \<le> y" using y(1) by (cases f) (auto simp: Math_max_def split: if_splits)
    then have r: "1 \<le> r" using y(2) by (simp add: le_floor_iff)
    then obtain n where "r = int n" by (metis nonneg_int_cases order_trans zero_le_one)
    then show ?thesis
      using parseQuoteAmount_formatAmount [of n quote] prefill_formatAmount [of r quote] Inr Some r by simp
  qed (simp add: Inr)
qed simp

definition round_known :: "HashShareSlotBinding list \<Rightarrow> (string \<times> int) list \<Rightarrow> bool" where
  "round_known bs m \<longleftrightarrow>
     distinct (map fst m)
     \<and> (\<forall>t r. map_of m t = Some r \<longrightarrow> (\<exists>b \<in> set bs. hb_fullType b = t \<and> hb_roundId b = r))
     \<and> (\<forall>b \<in> set bs. \<exists>r. map_of m (hb_fullType b) = Some r \<and> hb_roundId b \<le> r)"

lemma round_known_step:
  assumes "round_known bs m" "0 \<le> hb_roundId b"
  shows "round_known (bs @ [b]) (round_step m b)"
proof -
  have d: "distinct (map fst m)"
    and a: "map_of m t = Some r \<Longrightarrow> \<exists>b \<in> set bs. hb_fullType b = t \<and> hb_roundId b = r"
    and c: "x \<in> set bs \<Longrightarrow> \<exists>r. map_of m (hb_fullType x) = Some r \<and> hb_roundId x \<le> r" for t r x
    using assms(1) unfolding round_known_def by blast+
  show ?thesis
  proof (cases "\<exists>r. map_of m (hb_fullType b) = Some r \<and> r \<noteq> 0 \<and> hb_roundId b \<le> r")
    case True
    then have "round_step m b = m" by (auto simp: round_step_def)
    then show ?thesis using d a c True unfolding round_known_def by (auto simp del: map_of_eq_Some_iff)
  next
    case False
    have m': "map_of (round_step m b) = (map_of m)(hb_fullType b \<mapsto> hb_roundId b)"
      and d': "distinct (map fst (round_step m b))"
      using False d by (auto simp: round_step_def simp del: map_of_eq_Some_iff split: option.splits)
    have old: "hb_roundId x \<le> hb_roundId b" if "x \<in> set bs" "hb_fullType x = hb_fullType b" for x
      using c [OF that(1)] that(2) False assms(2) by (auto simp del: map_of_eq_Some_iff)
    show ?thesis
      unfolding round_known_def m' using d' a c old by (auto simp del: map_of_eq_Some_iff)
  qed
qed

lemma round_known_fold:
  "list_all (\<lambda>b. 0 \<le> hb_roundId b) bs \<Longrightarrow> round_known bs (foldl round_step [] bs)"
proof (induction bs rule: rev_induct)
  case Nil
  show ?case by (simp add: round_known_def)
next
  case (snoc b bs)
  then show ?case using round_known_step [of bs "foldl round_step [] bs" b] by simp
qed

text \<open>
  The market opens on the type of a binding with the highest round of all bindings.
\<close>

theorem latestCoin_newest:
  assumes "list_all (\<lambda>b. 0 \<le> hb_roundId b) bindings" "bindings \<noteq> []"
  shows "\<exists>b \<in> set bindings. hb_fullType b = latestCoin bindings
    \<and> list_all (\<lambda>b'. hb_roundId b' \<le> hb_roundId b) bindings"
proof -
  let ?m = "foldl round_step [] bindings"
  let ?s = "js_sort (\<lambda>a b. Fin (of_int (snd b - snd a))) ?m"
  have k: "round_known bindings ?m" by (rule round_known_fold [OF assms(1)])
  have sd: "sorted_wrt (\<lambda>a b. snd b \<le> snd a) ?s" by (rule js_sort_int_desc)
  obtain b0 where "b0 \<in> set bindings" using assms(2) by (cases bindings) auto
  then obtain r0 where "map_of ?m (hb_fullType b0) = Some r0"
    using k unfolding round_known_def by blast
  then have "?m \<noteq> []" by (metis map_of.simps(1) option.distinct(1))
  then have "?s \<noteq> []" using length_js_sort [of _ ?m] by (metis length_0_conv)
  then obtain t r rest where s: "?s = (t, r) # rest" by (metis neq_Nil_conv surj_pair)
  have "set ?s = set ?m" by simp
  then have m: "(t, r) \<in> set ?m" unfolding s by auto
  have "distinct (map fst ?m)" using k by (simp add: round_known_def)
  then have "map_of ?m t = Some r" using m by (rule map_of_is_SomeI)
  then obtain b where b: "b \<in> set bindings" "hb_fullType b = t" "hb_roundId b = r"
    using k unfolding round_known_def by blast
  have "hb_roundId b' \<le> r" if b': "b' \<in> set bindings" for b'
  proof -
    obtain r' where "map_of ?m (hb_fullType b') = Some r'" "hb_roundId b' \<le> r'"
      using k b' unfolding round_known_def by blast
    moreover from this(1) have "(hb_fullType b', r') \<in> set ?s" by (auto dest: map_of_SomeD)
    ultimately show ?thesis using sd unfolding s by auto
  qed
  then show ?thesis using b s by (auto simp: latestCoin_def list_all_iff)
qed

theorem latestCoin_newest_witness:
  "latestCoin [\<lparr>hb_roundId = 3, hb_capId = [], label = ''HS_000'', hb_fullType = ''A''\<rparr>,
               \<lparr>hb_roundId = 7, hb_capId = [], label = ''HS_001'', hb_fullType = ''B''\<rparr>] = ''B''"
  using latestCoin_newest [of "[\<lparr>hb_roundId = 3, hb_capId = [], label = ''HS_000'', hb_fullType = ''A''\<rparr>,
               \<lparr>hb_roundId = 7, hb_capId = [], label = ''HS_001'', hb_fullType = ''B''\<rparr>]"] by auto

end
