(* ===== verification/Private_Market.thy ===== *)
theory Private_Market
  imports Share_Market
begin

text \<open>
  The private tab of \<open>web/app/marketplace/page.tsx\<close>: the management of hashpower orders
  (cancel, re-price, top up), the figures over the open orders and the inputs of the order rows.
  A handler reports results to the status line one after the other; \<open>sign\<close> is the wallet.
\<close>

section \<open>Move entries by order kind\<close>

datatype entry_base = CancelBase | UpdatePriceBase | TopUpBase

fun entryName :: "HashpowerOrder \<Rightarrow> entry_base \<Rightarrow> string" where
  "entryName order b =
     (if kind order = V2
      then (case b of CancelBase \<Rightarrow> ''cancel_buyer_order''
                    | UpdatePriceBase \<Rightarrow> ''update_buyer_order_price''
                    | TopUpBase \<Rightarrow> ''top_up_buyer_order'')
      else (case b of CancelBase \<Rightarrow> ''cancel_hashpower_order''
                    | UpdatePriceBase \<Rightarrow> ''update_hashpower_order_price''
                    | TopUpBase \<Rightarrow> ''top_up_hashpower_order''))"

definition pool_call :: "string \<Rightarrow> HashpowerOrder \<Rightarrow> entry_base \<Rightarrow> tx_arg list \<Rightarrow> command" where
  "pool_call pkg order b args =
     MoveCall (pkg @ ''::pool::'' @ entryName order b) [quoteCoinType order] args"

section \<open>Handlers\<close>

type_synonym reported = "tx_result list \<times> market_query list"

definition report :: "handled \<Rightarrow> reported" where
  "report h = ([fst h], snd h)"

text \<open>The status line is cleared by an empty success before the cancellation.\<close>

definition cancelOrder :: "string \<Rightarrow> (tx \<Rightarrow> string + string) \<Rightarrow> string option \<Rightarrow> HashpowerOrder \<Rightarrow> reported" where
  "cancelOrder pkg sign account order =
     (case (case account of
              None \<Rightarrow> fail ''Connect wallet first''
            | Some a \<Rightarrow>
                submit sign [pool_call pkg order CancelBase [ObjArg (order_objectId order)],
                             TransferObjects [Res 0 0] a]
                  [OrdersQ, QuoteCoinsQ]) of
        (r, qs) \<Rightarrow> ([TxOk [], r], qs))"

definition updatePrice ::
  "string \<Rightarrow> (tx \<Rightarrow> string + string) \<Rightarrow> string option \<Rightarrow> HashpowerOrder \<Rightarrow> int \<Rightarrow> reported" where
  "updatePrice pkg sign account order newPrice =
     report (if account = None then fail ''Connect wallet first''
             else if newPrice \<le> 0 then fail ''Price must be > 0''
             else submit sign [pool_call pkg order UpdatePriceBase [ObjArg (order_objectId order), PureU64 newPrice]]
                    [OrdersQ])"

text \<open>\<open>s.split("::")\<close>, and its last part\<close>

fun split_colons :: "string \<Rightarrow> string list" where
  "split_colons [] = [[]]"
| "split_colons [c] = [[c]]"
| "split_colons (c # d # s) =
     (if c = CHR '':'' \<and> d = CHR '':'' then [] # split_colons s
      else case split_colons (d # s) of
             [] \<Rightarrow> [[c]]
           | w # ws \<Rightarrow> (c # w) # ws)"

definition topUp ::
  "string \<Rightarrow> (tx \<Rightarrow> string + string) \<Rightarrow> string \<Rightarrow> string option \<Rightarrow> quote_coins \<Rightarrow> HashpowerOrder \<Rightarrow> int \<Rightarrow> reported" where
  "topUp pkg sign undefObj account qc order addAmount =
     report (if account = None then fail ''Connect wallet first''
             else if addAmount \<le> 0 then fail ''Amount must be > 0''
             else if quoteCoinType order \<noteq> qc_coinType qc
             then fail (''Switch the marketplace quote to '' @ last (split_colons (quoteCoinType order))
                        @ '' before topping up'')
             else if qc_balance qc < addAmount then fail ''Insufficient balance for top-up''
             else case qc_ids qc of
                    [] \<Rightarrow> fail undefObj
                  | first # rest \<Rightarrow>
                      (case merge_split first rest addAmount of (t, payment) \<Rightarrow>
                         submit sign (t @ [pool_call pkg order TopUpBase [ObjArg (order_objectId order), payment]])
                           [OrdersQ, QuoteCoinsQ]))"

section \<open>Figures and rows\<close>

definition quoteLookup :: "QuoteToken list \<Rightarrow> string \<Rightarrow> QuoteToken option" where
  "quoteLookup tokens t = map_of (rev (map (\<lambda>q. (coin_type q, q)) tokens)) t"

text \<open>\<open>toUpperCase\<close> on the ASCII letters that type names are made of.\<close>

definition upper_char :: "char \<Rightarrow> char" where
  "upper_char c =
     (let n = of_char c :: nat in if 97 \<le> n \<and> n \<le> 122 then char_of (n - 32) else c)"

definition quoteForCoinType :: "string \<Rightarrow> (string \<Rightarrow> QuoteToken option) \<Rightarrow> QuoteToken" where
  "quoteForCoinType t table =
     (case table t of
        Some q \<Rightarrow> q
      | None \<Rightarrow> \<lparr>symbol = map upper_char (last (split_colons t)), coin_type = t, decimals = 6,
                 route = M1n3Market, quote_note = []\<rparr>)"

definition filtered_orders :: "HashpowerOrder list \<Rightarrow> bool \<Rightarrow> string option \<Rightarrow> HashpowerOrder list" where
  "filtered_orders xs showMineOnly account =
     (case account of
        Some a \<Rightarrow> if showMineOnly \<and> a \<noteq> [] then filter (\<lambda>x. buyer x = a) xs else xs
      | None \<Rightarrow> xs)"

record order_kpis =
  openCount :: nat
  totalBudget :: int
  mineCount :: nat

definition kpis :: "HashpowerOrder list \<Rightarrow> string option \<Rightarrow> order_kpis" where
  "kpis xs account =
     \<lparr>openCount = length xs, totalBudget = foldl (\<lambda>s x. s + budget x) 0 xs,
      mineCount = (case account of
                     Some a \<Rightarrow> if a \<noteq> [] then length (filter (\<lambda>x. buyer x = a) xs) else 0
                   | None \<Rightarrow> 0)\<rparr>"

definition tplId :: "HashpowerOrder \<Rightarrow> string option" where
  "tplId order = (if kind order = V2 then latestTemplateId order else templateId order)"

text \<open>\<open>raw.replace(/[^0-9.]/g, "").replace(/(\..*)\./g, "$1")\<close>: the second pass removes the last point of several.\<close>

definition drop_last_dot :: "string \<Rightarrow> string" where
  "drop_last_dot s = rev (takeWhile (\<lambda>c. \<not> is_dot c) (rev s) @ tl (dropWhile (\<lambda>c. \<not> is_dot c) (rev s)))"

definition clean_decimal :: "string \<Rightarrow> string" where
  "clean_decimal raw =
     (let s = filter (\<lambda>c. is_digit 10 c \<or> is_dot c) raw in
      if 2 \<le> length (filter is_dot s) then drop_last_dot s else s)"

text \<open>The submit buttons of a row: nothing happens unless the text is a positive amount.\<close>

definition submit_amount :: "string \<Rightarrow> QuoteToken \<Rightarrow> int option" where
  "submit_amount str quote =
     (case parseQuoteAmount str quote of
        None \<Rightarrow> None
      | Some p \<Rightarrow> if p \<le> 0 then None else Some p)"

text \<open>Relative time; \<open>isoDate\<close> is \<open>toISOString().slice(0, 10)\<close>.\<close>

definition relativeTime :: "(int \<Rightarrow> string) \<Rightarrow> int \<Rightarrow> int \<Rightarrow> string" where
  "relativeTime isoDate now ts =
     (let ms = now - ts in
      if ms < 0 then ''just now''
      else let sec = ms div 1000 in
      if sec < 60 then int_to_string sec @ ''s ago''
      else let mins = sec div 60 in
      if mins < 60 then int_to_string mins @ ''m ago''
      else let hr = mins div 60 in
      if hr < 24 then int_to_string hr @ ''h ago''
      else let day = hr div 24 in
      if day < 7 then int_to_string day @ ''d ago''
      else isoDate ts)"

section \<open>Top up\<close>

text \<open>
  C25: A top up pays the order in its own coin: with a wallet of distinct coins of the order's quote
  type that covers the amount, topUp submits one transaction whose only call is the top up entry of
  the order's kind with a coin of exactly the amount, the rest staying in the first coin. A wallet
  read for another coin type is refused before anything is signed.
\<close>

theorem topUp_exact:
  assumes "distinct (map coinObjectId cs)" "useQuoteCoins ct cs = Some qc"
    and "0 < addAmount" "addAmount \<le> wallet_total cs" "order_objectId order \<notin> set (map coinObjectId cs)"
  shows "if quoteCoinType order = ct
    then \<exists>t. topUp pkg sign undefObj (Some a) qc order addAmount = report (submit sign t [OrdersQ, QuoteCoinsQ])
      \<and> call_trace 0 t (wallet cs) =
          Some [\<lparr>cv_target = pkg @ ''::pool::'' @ entryName order TopUpBase, cv_types = [ct],
                 cv_objects = [order_objectId order], cv_numbers = [], cv_paid = [addAmount]\<rparr>]
      \<and> run_tx 0 t (wallet cs) = Some [ObjArg (coinObjectId (hd cs)) \<mapsto> wallet_total cs - addAmount]
    else \<exists>msg. topUp pkg sign undefObj (Some a) qc order addAmount = ([TxErr msg], [])"
proof -
  note qc = useQuoteCoins_facts [OF assms(2)]
  have ct: "qc_coinType qc = ct" using assms(2) by (auto simp: useQuoteCoins_def split: option.splits)
  show ?thesis
  proof (cases "quoteCoinType order = ct")
    case False
    then show ?thesis using assms(3) ct by (simp add: topUp_def report_def fail_def)
  next
    case True
    have "cs \<noteq> []" using assms(3,4) by (auto simp: wallet_total_def)
    then obtain first rest where ids: "map coinObjectId cs = first # rest" "first = coinObjectId (hd cs)"
      by (cases cs) auto
    have ne: "order_objectId order \<noteq> first" using assms(5) ids(1) by simp
    let ?n = "length (merge_ids first rest)"
    let ?call = "pool_call pkg order TopUpBase [ObjArg (order_objectId order), Res ?n 0]"
    let ?t = "merge_ids first rest @ [SplitCoins (ObjArg first) [addAmount], ?call]"
    have run: "topUp pkg sign undefObj (Some a) qc order addAmount = report (submit sign ?t [OrdersQ, QuoteCoinsQ])"
      using True ct qc ids(1) assms(3,4) by (simp add: topUp_def merge_split_def Let_def)
    have 1: "run_command ?n (SplitCoins (ObjArg first) [addAmount]) [ObjArg first \<mapsto> wallet_total cs]
        = Some [ObjArg first \<mapsto> wallet_total cs - addAmount, Res ?n 0 \<mapsto> addAmount]"
      using assms(3,4) by (auto simp: run_command_def fun_eq_iff split: tx_arg.split)
    have 2: "run_command (Suc ?n) ?call [ObjArg first \<mapsto> wallet_total cs - addAmount, Res ?n 0 \<mapsto> addAmount]
        = Some [ObjArg first \<mapsto> wallet_total cs - addAmount]"
      using ne by (auto simp: run_command_def pool_call_def fun_eq_iff)
    have tail: "run_tx ?n [SplitCoins (ObjArg first) [addAmount], ?call] [ObjArg first \<mapsto> wallet_total cs]
        = Some [ObjArg first \<mapsto> wallet_total cs - addAmount]"
      by (simp only: run_tx.simps 1 2 option.case)
    have "call_trace ?n [SplitCoins (ObjArg first) [addAmount], ?call] [ObjArg first \<mapsto> wallet_total cs]
        = Some [\<lparr>cv_target = pkg @ ''::pool::'' @ entryName order TopUpBase, cv_types = [ct],
                 cv_objects = [order_objectId order], cv_numbers = [], cv_paid = [addAmount]\<rparr>]"
      by (simp only: call_trace.simps 1 2 option.case) (simp add: pool_call_def view_call_def ne True)
    then have "call_trace 0 ?t (wallet cs) =
        Some [\<lparr>cv_target = pkg @ ''::pool::'' @ entryName order TopUpBase, cv_types = [ct],
               cv_objects = [order_objectId order], cv_numbers = [], cv_paid = [addAmount]\<rparr>]"
      using merge_ids_run [OF assms(1) ids(1)]
      by (simp only: call_trace_append option.case add_0 option.map append.left_neutral)
    moreover have "run_tx 0 ?t (wallet cs) = Some [ObjArg first \<mapsto> wallet_total cs - addAmount]"
      using tail merge_ids_run(1) [OF assms(1) ids(1)] by (simp only: run_tx_append option.case add_0)
    ultimately show ?thesis unfolding if_P [OF True] ids(2) [symmetric] using run by blast
  qed
qed

definition demo_hashpower_order :: HashpowerOrder where
  "demo_hashpower_order =
     \<lparr>kind = V2, order_objectId = ''0xo'', buyer = ''0xme'', templateId = None, latestTemplateId = None,
      latestTemplateAtMs = None, recentFills = [], pricePerDifficulty = 3, budget = 10, expiresEpoch = None,
      isDynamic = True, quoteCoinType = ''USDC''\<rparr>"

theorem topUp_exact_witness:
  "\<exists>t. topUp ''0x9'' (\<lambda>_. Inr ''d'') [] (Some ''0xme'') (mk_quoteCoins demo_market) demo_hashpower_order 21
      = report (submit (\<lambda>_. Inr ''d'') t [OrdersQ, QuoteCoinsQ])
    \<and> run_tx 0 t (wallet market_coins) = Some [ObjArg ''0xa'' \<mapsto> 6]"
proof -
  have o: "order_objectId demo_hashpower_order = ''0xo''" "quoteCoinType demo_hashpower_order = ''USDC''"
    by (simp_all add: demo_hashpower_order_def)
  have "''0xo'' \<notin> set (map coinObjectId market_coins)" by (simp add: market_coins_def)
  then show ?thesis
    using topUp_exact [OF market_coins_ok(1,3), of 21 demo_hashpower_order "''0x9''" "\<lambda>_. Inr ''d''" "[]" "''0xme''"]
      o market_coins_ok(2)
    by (auto simp: market_coins_def)
qed

section \<open>Decimal inputs\<close>

lemma drop_last_dot_dots:
  assumes "filter is_dot s \<noteq> []"
  shows "length (filter is_dot (drop_last_dot s)) = length (filter is_dot s) - 1"
    and "set (drop_last_dot s) \<subseteq> set s"
proof -
  have "dropWhile (\<lambda>c. \<not> is_dot c) (rev s) \<noteq> []" using assms by (auto simp: filter_empty_conv)
  then obtain d r where d: "dropWhile (\<lambda>c. \<not> is_dot c) (rev s) = d # r" by (cases "dropWhile (\<lambda>c. \<not> is_dot c) (rev s)") auto
  then have dot: "is_dot d" by (metis dropWhile_eq_Cons_conv)
  have s: "rev s = takeWhile (\<lambda>c. \<not> is_dot c) (rev s) @ d # r" using d by (metis takeWhile_dropWhile_id)
  have none: "filter is_dot (takeWhile (\<lambda>c. \<not> is_dot c) (rev s)) = []"
    by (auto simp: filter_empty_conv dest: set_takeWhileD)
  have "length (filter is_dot s) = length (filter is_dot (rev s))" by (simp add: rev_filter [symmetric])
  also have "\<dots> = Suc (length (filter is_dot r))" by (subst s) (simp add: none dot)
  finally show "length (filter is_dot (drop_last_dot s)) = length (filter is_dot s) - 1"
    by (simp add: drop_last_dot_def d rev_filter [symmetric] none)
  have "set s = set (takeWhile (\<lambda>c. \<not> is_dot c) (rev s) @ d # r)" using s by (metis set_rev)
  then show "set (drop_last_dot s) \<subseteq> set s" by (auto simp: drop_last_dot_def d)
qed

text \<open>
  The decimal inputs keep digits and points only, and one point less than was typed when there are
  several: a second point is refused, but a pasted text with three keeps two.
\<close>

theorem clean_decimal_dots:
  "list_all (\<lambda>c. is_digit 10 c \<or> is_dot c) (clean_decimal raw)
   \<and> length (filter is_dot (clean_decimal raw)) =
       (if 2 \<le> length (filter is_dot raw) then length (filter is_dot raw) - 1 else length (filter is_dot raw))
   \<and> filter is_dot (clean_decimal ''1.2.3.4'') = ''..''"
proof -
  let ?s = "filter (\<lambda>c. is_digit 10 c \<or> is_dot c) raw"
  have f: "filter is_dot ?s = filter is_dot raw" by (simp add: filter_filter) (rule filter_cong, auto)
  have "filter is_dot (clean_decimal ''1.2.3.4'') = ''..''" by code_simp
  moreover have "list_all (\<lambda>c. is_digit 10 c \<or> is_dot c) (clean_decimal raw)
     \<and> length (filter is_dot (clean_decimal raw)) =
       (if 2 \<le> length (filter is_dot raw) then length (filter is_dot raw) - 1 else length (filter is_dot raw))"
  proof (cases "2 \<le> length (filter is_dot raw)")
    case True
    then have "filter is_dot ?s \<noteq> []" unfolding f by auto
    note d = drop_last_dot_dots [OF this]
    have "clean_decimal raw = drop_last_dot ?s" unfolding clean_decimal_def Let_def f using True by simp
    then show ?thesis using d True unfolding f by (auto simp: list_all_iff)
  next
    case False
    then have "clean_decimal raw = ?s" unfolding clean_decimal_def Let_def f by simp
    then show ?thesis using False f by (simp add: list_all_iff)
  qed
  ultimately show ?thesis by blast
qed

end
