(* ===== verification/DeepBook.thy ===== *)
theory DeepBook
  imports Private_Market Bitcoin_Template
begin

text \<open>
  The DeepBook route: the transaction builders of \<open>web/lib/deepbook.ts\<close>, the client registry of
  \<open>web/lib/deepbook-client.ts\<close>, the pool lookup of \<open>web/hooks/useDeepBookPool.ts\<close>, the balance
  managers of \<open>web/hooks/useBalanceManager.ts\<close> and the handlers of
  \<open>web/components/market/DeepBookSwapPanel.tsx\<close>. The DeepBook SDK is not part of the repository:
  its bundled maps, its reads and its transaction builders are parameters.
\<close>

section \<open>Builders\<close>

definition deepTypeForNetwork :: "string \<Rightarrow> string" where
  "deepTypeForNetwork SUI_NETWORK =
     (if activeNetwork SUI_NETWORK = ''mainnet''
      then ''0xdeeb7a4662eec9f2f3def03fb937a663dddaa2e215b8078a284d026b7946c270::deep::DEEP''
      else ''0x36dbef866a1d62bf7328989a10fb2f07d769f4ee587c0de4a0a256e57e0a58a8::deep::DEEP'')"

definition mustHaveDeepBook :: "string \<Rightarrow> string + DeepBookConfig" where
  "mustHaveDeepBook SUI_NETWORK =
     (case activeDeepBookConfig SUI_NETWORK of
        None \<Rightarrow> Inl (''DeepBookV3 is not deployed on '' @ activeNetwork SUI_NETWORK
                     @ ''. Switch the dapp to mainnet or testnet.'')
      | Some cfg \<Rightarrow> Inr cfg)"

text \<open>The DEEP coin of a swap: the given object, or a zero coin made in the transaction.\<close>

definition deep_coin :: "string \<Rightarrow> tx \<Rightarrow> string \<Rightarrow> tx \<times> tx_arg" where
  "deep_coin SUI_NETWORK t deepCoinId =
     (if deepCoinId \<noteq> [] then (t, ObjArg deepCoinId)
      else (t @ [MoveCall ''0x2::coin::zero'' [deepTypeForNetwork SUI_NETWORK] []], Res (length t) 0))"

record swap_outs =
  baseOut :: tx_arg
  quoteOut :: tx_arg
  deepLeft :: tx_arg

definition swap_call ::
  "string \<Rightarrow> string \<Rightarrow> tx \<Rightarrow> string \<Rightarrow> string \<Rightarrow> string \<Rightarrow> tx_arg \<Rightarrow> int \<Rightarrow> string \<Rightarrow> string + tx \<times> swap_outs" where
  "swap_call entry SUI_NETWORK t pool baseType quoteType coinArg minOut deepCoinId =
     sum_bind (mustHaveDeepBook SUI_NETWORK) (\<lambda>cfg.
       case deep_coin SUI_NETWORK t deepCoinId of (t1, deep) \<Rightarrow>
         Inr (t1 @ [MoveCall (db_packageId cfg @ ''::pool::'' @ entry) [baseType, quoteType]
                      [ObjArg pool, coinArg, deep, PureU64 minOut, ObjArg ''0x6'']],
              \<lparr>baseOut = Res (length t1) 0, quoteOut = Res (length t1) 1, deepLeft = Res (length t1) 2\<rparr>))"

definition swapBuyBase ::
  "string \<Rightarrow> tx \<Rightarrow> string \<Rightarrow> string \<Rightarrow> string \<Rightarrow> tx_arg \<Rightarrow> int \<Rightarrow> string \<Rightarrow> string + tx \<times> swap_outs" where
  "swapBuyBase = swap_call ''swap_exact_quote_for_base''"

definition swapSellBase ::
  "string \<Rightarrow> tx \<Rightarrow> string \<Rightarrow> string \<Rightarrow> string \<Rightarrow> tx_arg \<Rightarrow> int \<Rightarrow> string \<Rightarrow> string + tx \<times> swap_outs" where
  "swapSellBase = swap_call ''swap_exact_base_for_quote''"

definition createPermissionlessPool ::
  "string \<Rightarrow> tx \<Rightarrow> string \<Rightarrow> string \<Rightarrow> int \<Rightarrow> int \<Rightarrow> int \<Rightarrow> string \<Rightarrow> string + tx" where
  "createPermissionlessPool SUI_NETWORK t baseType quoteType tickSize lotSize minSize deepFeeCoinId =
     sum_bind (mustHaveDeepBook SUI_NETWORK) (\<lambda>cfg.
       Inr (t @ [MoveCall (db_packageId cfg @ ''::pool::create_permissionless_pool'') [baseType, quoteType]
                   [ObjArg (db_registryId cfg), PureU64 tickSize, PureU64 lotSize, PureU64 minSize,
                    ObjArg deepFeeCoinId]]))"

text \<open>\<open>a < b\<close> on strings compares code units.\<close>

fun str_less :: "string \<Rightarrow> string \<Rightarrow> bool" where
  "str_less [] t = (t \<noteq> [])"
| "str_less s [] = False"
| "str_less (c # s) (d # t) =
     ((of_char c :: nat) < of_char d \<or> c = d \<and> str_less s t)"

definition sortTypePair :: "string \<Rightarrow> string \<Rightarrow> string \<times> string" where
  "sortTypePair a b = (if str_less a b then (a, b) else (b, a))"

definition pairLabel :: "string \<Rightarrow> QuoteToken \<Rightarrow> string" where
  "pairLabel hs q = hs @ '' '' @ [CHR 0xB7] @ '' '' @ symbol q"

section \<open>The client registry\<close>

record db_pool =
  pool_address :: string
  baseCoin :: string
  quoteCoin :: string

record db_coin =
  coin_address :: string
  db_coinType :: string
  scalar :: int

text \<open>The two module maps, in insertion order.\<close>

record db_registry =
  customPools :: "(string \<times> db_pool) list"
  customCoins :: "(string \<times> db_coin) list"

definition registerCustomPool :: "string \<Rightarrow> string \<Rightarrow> string \<Rightarrow> string \<Rightarrow> db_registry \<Rightarrow> db_registry" where
  "registerCustomPool poolKey poolId baseCoinKey quoteCoinKey reg =
     reg\<lparr>customPools := js_map_set (customPools reg) poolKey
            \<lparr>pool_address = poolId, baseCoin = baseCoinKey, quoteCoin = quoteCoinKey\<rparr>\<rparr>"

definition registerCustomCoin :: "string \<Rightarrow> db_coin \<Rightarrow> db_registry \<Rightarrow> db_registry" where
  "registerCustomCoin coinKey c reg = reg\<lparr>customCoins := js_map_set (customCoins reg) coinKey c\<rparr>"

definition pool_key :: "string \<Rightarrow> QuoteToken \<Rightarrow> string" where
  "pool_key hashShareLabel quote = map upper_char hashShareLabel @ ''_'' @ map upper_char (symbol quote)"

definition registerHashSharePool ::
  "string \<Rightarrow> string \<Rightarrow> string \<Rightarrow> QuoteToken \<Rightarrow> db_registry \<Rightarrow> string \<times> db_registry" where
  "registerHashSharePool poolId hashShareTypeTag hashShareLabel quote reg =
     (let baseKey = map upper_char hashShareLabel;
          quoteKey = map upper_char (symbol quote);
          poolKey = pool_key hashShareLabel quote;
          reg1 = registerCustomCoin baseKey
                   \<lparr>coin_address = hd (split_colons hashShareTypeTag), db_coinType = hashShareTypeTag, scalar = 1\<rparr> reg;
          reg2 = registerCustomCoin quoteKey
                   \<lparr>coin_address = hd (split_colons (coin_type quote)), db_coinType = coin_type quote,
                    scalar = 10 ^ decimals quote\<rparr> reg1
      in (poolKey, registerCustomPool poolKey poolId baseKey quoteKey reg2))"

text \<open>
  A client of the SDK: its own copies of the coin and pool maps and its balance manager map.
  \<open>sdkCoins\<close> and \<open>sdkPools\<close> are the maps that the SDK bundles for a network and \<open>managers0\<close> the
  managers of a client that is built without any.
\<close>

record db_client =
  dc_address :: string
  dc_network :: string
  dc_coins :: "string \<Rightarrow> db_coin option"
  dc_pools :: "string \<Rightarrow> db_pool option"
  dc_config :: DeepBookConfig
  balanceManagers :: "string \<Rightarrow> string option"

record db_sdk =
  sdkCoins :: "string \<Rightarrow> string \<Rightarrow> db_coin option"
  sdkPools :: "string \<Rightarrow> string \<Rightarrow> db_pool option"
  managers0 :: "string \<Rightarrow> string option"

definition baseCoinMap :: "db_sdk \<Rightarrow> string \<Rightarrow> string \<Rightarrow> db_coin option" where
  "baseCoinMap sdk SUI_NETWORK =
     (let net = activeNetwork SUI_NETWORK in
      if net = ''mainnet'' then sdkCoins sdk ''mainnet''
      else if net = ''testnet'' then sdkCoins sdk ''testnet'' else Map.empty)"

definition basePoolMap :: "db_sdk \<Rightarrow> string \<Rightarrow> string \<Rightarrow> db_pool option" where
  "basePoolMap sdk SUI_NETWORK =
     (let net = activeNetwork SUI_NETWORK in
      if net = ''mainnet'' then sdkPools sdk ''mainnet''
      else if net = ''testnet'' then sdkPools sdk ''testnet'' else Map.empty)"

text \<open>
  Objects are compared by identity: \<open>next_ident\<close> is the identity of the next object that is made,
  \<open>clients\<close> the clients by their identity, and \<open>cached\<close> the WeakMap from the identity of a key object
  to that of a client.
\<close>

record client_heap =
  next_ident :: nat
  clients :: "nat \<Rightarrow> db_client option"
  cached :: "nat \<Rightarrow> nat option"

definition build_client :: "db_sdk \<Rightarrow> string \<Rightarrow> string \<Rightarrow> DeepBookConfig \<Rightarrow> db_registry \<Rightarrow> db_client" where
  "build_client sdk SUI_NETWORK address cfg reg =
     \<lparr>dc_address = address,
      dc_network = (if activeNetwork SUI_NETWORK = ''mainnet'' then ''mainnet'' else ''testnet''),
      dc_coins = baseCoinMap sdk SUI_NETWORK ++ map_of (customCoins reg),
      dc_pools = basePoolMap sdk SUI_NETWORK ++ map_of (customPools reg),
      dc_config = cfg, balanceManagers = managers0 sdk\<rparr>"

definition useDeepBookClient ::
  "db_sdk \<Rightarrow> string \<Rightarrow> string \<Rightarrow> db_registry \<Rightarrow> client_heap \<Rightarrow> nat option \<times> client_heap" where
  "useDeepBookClient sdk SUI_NETWORK address reg h =
     (if address = [] then (None, h)
      else case DEEPBOOK_V3 (activeNetwork SUI_NETWORK) of
             None \<Rightarrow> (None, h)
           | Some cfg \<Rightarrow>
               (let key = next_ident h; h1 = h\<lparr>next_ident := Suc key\<rparr> in
                case cached h1 key of
                  Some r \<Rightarrow> (Some r, h1)
                | None \<Rightarrow>
                    (let r = next_ident h1
                     in (Some r, h1\<lparr>next_ident := Suc r,
                                    clients := (clients h1)(r \<mapsto> build_client sdk SUI_NETWORK address cfg reg),
                                    cached := (cached h1)(key \<mapsto> r)\<rparr>))))"

section \<open>Pool lookup\<close>

text \<open>\<open>replace(/^0x0*/i, "")\<close>\<close>

definition strip_0x :: "string \<Rightarrow> string" where
  "strip_0x a =
     (if startsWith a ''0x'' \<or> startsWith a ''0X'' then dropWhile (\<lambda>c. c = CHR ''0'') (drop 2 a) else a)"

text \<open>\<open>s.indexOf("::")\<close>\<close>

fun index_colons :: "string \<Rightarrow> nat option" where
  "index_colons (c # d # s) =
     (if c = CHR '':'' \<and> d = CHR '':'' then Some 0 else map_option Suc (index_colons (d # s)))"
| "index_colons _ = None"

definition normaliseAddr :: "string \<Rightarrow> string" where
  "normaliseAddr t =
     (case index_colons t of
        None \<Rightarrow> map to_lower t
      | Some i \<Rightarrow> map to_lower (''0x'' @ strip_0x (take i t) @ drop i t))"

text \<open>One \<open>PoolCreated\<close> event: the first match is kept; a type that is not a string throws.\<close>

definition pool_step :: "string \<Rightarrow> string \<Rightarrow> json option \<Rightarrow> sui_event \<Rightarrow> rpc_error + json option" where
  "pool_step baseType quoteType acc e =
     (let p = parsedJson e in
      if acc \<noteq> None then Inr acc
      else if \<not> truthy (get p ''base_type'') \<or> \<not> truthy (get p ''quote_type'') \<or> \<not> truthy (get p ''pool_id'')
      then Inr None
      else case (get p ''base_type'', get p ''quote_type'') of
             (JStr b, JStr q) \<Rightarrow>
               Inr (if normaliseAddr b = normaliseAddr baseType \<and> normaliseAddr q = normaliseAddr quoteType
                    then Some (get p ''pool_id'') else None)
           | _ \<Rightarrow> Inl NoMember)"

definition useDeepBookPool ::
  "string \<Rightarrow> 'c sui_client \<Rightarrow> (string \<Rightarrow> string \<Rightarrow> rpc_error + json) option \<Rightarrow> string \<Rightarrow> QuoteToken option
     \<Rightarrow> rpc_error + json" where
  "useDeepBookPool SUI_NETWORK client getPoolIdByAssets baseType quote =
     (case (activeDeepBookConfig SUI_NETWORK, quote) of
        (Some cfg, Some q) \<Rightarrow>
          if baseType = [] then Inr JNull
          else (let slow = sum_bind (walk 5 (queryEvents client (db_packageId cfg @ ''::pool::PoolCreated'') 50)
                                       (\<lambda>acc. acc \<noteq> None) (pool_step baseType (coin_type q)) None None)
                             (\<lambda>acc. Inr (case acc of Some pid \<Rightarrow> pid | None \<Rightarrow> JNull))
                in case getPoolIdByAssets of
                     None \<Rightarrow> slow
                   | Some getPool \<Rightarrow>
                       (case getPool baseType (coin_type q) of
                          Inl _ \<Rightarrow> slow
                        | Inr pid \<Rightarrow> if truthy pid then Inr pid else slow))
      | _ \<Rightarrow> Inr JNull)"

section \<open>Balance managers\<close>

definition ACTIVE_BM_KEY :: string where "ACTIVE_BM_KEY = ''MANAGER_1''"

text \<open>\<open>bm_storage\<close> is the entry of the browser's local storage.\<close>

record bm_state =
  managerIds :: "string list"
  activeOverride :: "string option"
  bm_storage :: "string option"

definition initial_bm :: "bool \<Rightarrow> string option \<Rightarrow> bm_state" where
  "initial_bm hasWindow stored =
     \<lparr>managerIds = [], activeOverride = (if hasWindow then stored else None), bm_storage = stored\<rparr>"

definition activeManagerId :: "bm_state \<Rightarrow> string option" where
  "activeManagerId st =
     (let first = (case managerIds st of [] \<Rightarrow> None | i # _ \<Rightarrow> Some i) in
      case activeOverride st of
        None \<Rightarrow> first
      | Some i \<Rightarrow> if i \<noteq> [] \<and> i \<in> set (managerIds st) then Some i else first)"

definition setActiveManagerId :: "bool \<Rightarrow> string option \<Rightarrow> bm_state \<Rightarrow> bm_state" where
  "setActiveManagerId hasWindow i st =
     (let st1 = st\<lparr>activeOverride := i\<rparr> in
      if hasWindow
      then st1\<lparr>bm_storage := (case i of Some x \<Rightarrow> if x \<noteq> [] then Some x else None | None \<Rightarrow> None)\<rparr>
      else st1)"

definition registerBmOnClient :: "string \<Rightarrow> string \<Rightarrow> db_client \<Rightarrow> db_client" where
  "registerBmOnClient key managerId c = c\<lparr>balanceManagers := (balanceManagers c)(key \<mapsto> managerId)\<rparr>"

text \<open>
  The builders of the SDK: what a call appends to a transaction, or the message of its exception.
\<close>

record limit_order =
  lo_poolKey :: string
  lo_managerKey :: string
  lo_clientOrderId :: string
  lo_price :: number
  lo_quantity :: number
  lo_isBid :: bool

record sdk_builders =
  createAndShare :: tx
  depositInto :: "db_client \<Rightarrow> string \<Rightarrow> string \<Rightarrow> number \<Rightarrow> string + tx"
  withdrawFrom :: "db_client \<Rightarrow> string \<Rightarrow> string \<Rightarrow> number \<Rightarrow> string \<Rightarrow> string + tx"
  placeLimit :: "db_client \<Rightarrow> limit_order \<Rightarrow> string + tx"
  cancelLimit :: "db_client \<Rightarrow> string \<Rightarrow> string \<Rightarrow> string \<Rightarrow> string + tx"

definition no_deepbook :: string where "no_deepbook = ''DeepBook not available on this network''"

text \<open>Two messages with a dash outside Latin-1, which is left out.\<close>

definition no_manager :: string where
  "no_manager = ''No active BalanceManager  create or select one''"

definition no_manager_panel :: string where
  "no_manager_panel = ''No DeepBook balance manager  create one first''"

definition createBalanceManager ::
  "sdk_builders \<Rightarrow> (tx \<Rightarrow> string + string) \<Rightarrow> db_client option \<Rightarrow> string + string" where
  "createBalanceManager sdk sign db = (case db of None \<Rightarrow> Inl no_deepbook | Some _ \<Rightarrow> sign (createAndShare sdk))"

definition deposit ::
  "sdk_builders \<Rightarrow> (tx \<Rightarrow> string + string) \<Rightarrow> bm_state \<Rightarrow> string \<Rightarrow> number \<Rightarrow> db_client option
     \<Rightarrow> (string + string) \<times> db_client option" where
  "deposit sdk sign st coinKey amount db =
     (case db of
        None \<Rightarrow> (Inl no_deepbook, None)
      | Some c \<Rightarrow>
          (case activeManagerId st of
             None \<Rightarrow> (Inl no_manager, db)
           | Some mid \<Rightarrow>
               (let c1 = registerBmOnClient ACTIVE_BM_KEY mid c
                in (sum_bind (depositInto sdk c1 ACTIVE_BM_KEY coinKey amount) sign, Some c1))))"

definition withdraw ::
  "sdk_builders \<Rightarrow> (tx \<Rightarrow> string + string) \<Rightarrow> bm_state \<Rightarrow> string \<Rightarrow> number \<Rightarrow> string option \<Rightarrow> string option
     \<Rightarrow> db_client option \<Rightarrow> (string + string) \<times> db_client option" where
  "withdraw sdk sign st coinKey amount recipient address db =
     (case db of
        None \<Rightarrow> (Inl no_deepbook, None)
      | Some c \<Rightarrow>
          (case activeManagerId st of
             None \<Rightarrow> (Inl no_manager, db)
           | Some mid \<Rightarrow>
               (case address of
                  None \<Rightarrow> (Inl ''No wallet connected'', db)
                | Some own \<Rightarrow>
                    (let to_addr = (case recipient of Some r \<Rightarrow> r | None \<Rightarrow> own);
                         c1 = registerBmOnClient ACTIVE_BM_KEY mid c
                     in (sum_bind (withdrawFrom sdk c1 ACTIVE_BM_KEY coinKey amount to_addr) sign, Some c1)))))"

section \<open>The panel\<close>

datatype panel_mode = Swap | Limit

record panel =
  pn_network :: string
  pn_account :: "string option"
  pn_poolId :: "string option"
  pn_quote :: QuoteToken
  pn_label :: string
  pn_hsType :: string
  pn_hsBalance :: int
  pn_hsIds :: "string list"
  pn_quoteCoins :: quote_coins
  pn_side :: swap_side
  pn_mode :: panel_mode
  pn_amount :: string
  pn_price :: string

text \<open>\<open>BigInt(raw.replace(/[^0-9]/g, "") || "0")\<close>\<close>

definition panel_parseAmount :: "string \<Rightarrow> int" where
  "panel_parseAmount raw =
     (let d = filter (is_digit 10) raw in
      case BigInt_str (if d = [] then ''0'' else d) of Some v \<Rightarrow> v | None \<Rightarrow> 0)"

definition panel_poolKey :: "panel \<Rightarrow> string option" where
  "panel_poolKey p = map_option (\<lambda>_. pool_key (pn_label p) (pn_quote p)) (pn_poolId p)"

text \<open>
  The coin that pays: split off the gas coin for SUI, else merged and split from the wallet's coins
  after the two checks.
\<close>

definition pay_quote :: "panel \<Rightarrow> int \<Rightarrow> string + tx \<times> tx_arg" where
  "pay_quote p spend =
     (if symbol (pn_quote p) = ''SUI'' then Inr ([SplitCoins GasCoin [spend]], Res 0 0)
      else case qc_ids (pn_quoteCoins p) of
             [] \<Rightarrow> Inl (''No Coin<'' @ symbol (pn_quote p) @ ''> in your wallet'')
           | first # rest \<Rightarrow>
               if spend > qc_balance (pn_quoteCoins p)
               then Inl (''Spending '' @ pn_amount p @ '' '' @ symbol (pn_quote p) @ '' but wallet only holds ''
                         @ int_to_string (bigint_div (qc_balance (pn_quoteCoins p)) (10 ^ decimals (pn_quote p))))
               else Inr (merge_split first rest spend))"

definition pay_shares :: "panel \<Rightarrow> int \<Rightarrow> string + tx \<times> tx_arg" where
  "pay_shares p amt =
     (case pn_hsIds p of
        [] \<Rightarrow> Inl ''No HashShare inventory''
      | first # rest \<Rightarrow>
          if amt > pn_hsBalance p then Inl ''Exceeds your HashShare balance''
          else Inr (merge_split first rest (amt * 1)))"

text \<open>The transaction of the swap mode, or the message it stops with.\<close>

definition panel_swap_tx :: "panel \<Rightarrow> string \<Rightarrow> string \<Rightarrow> string + tx" where
  "panel_swap_tx p account pid =
     (let amt = panel_parseAmount (pn_amount p); q = pn_quote p in
      if amt = 0 then Inl ''Enter an amount''
      else case pn_side p of
             Buy \<Rightarrow>
               sum_bind (pay_quote p (amt * 10 ^ decimals q)) (\<lambda>(t, coinArg).
               sum_bind (swapBuyBase (pn_network p) t pid (pn_hsType p) (coin_type q) coinArg 0 []) (\<lambda>(t1, outs).
                 Inr (t1 @ [TransferObjects [baseOut outs] account])))
           | Sell \<Rightarrow>
               sum_bind (pay_shares p amt) (\<lambda>(t, coinArg).
               sum_bind (swapSellBase (pn_network p) t pid (pn_hsType p) (coin_type q) coinArg 0 []) (\<lambda>(t1, outs).
                 Inr (t1 @ [TransferObjects [quoteOut outs] account]))))"

definition to_result :: "string + string \<Rightarrow> tx_result" where
  "to_result r = (case r of Inl msg \<Rightarrow> TxErr msg | Inr digest \<Rightarrow> TxOk digest)"

text \<open>\<open>None\<close> is a handler that returns with an empty status line.\<close>

definition placeLimitOrder ::
  "sdk_builders \<Rightarrow> (tx \<Rightarrow> string + string) \<Rightarrow> string \<Rightarrow> db_client option \<Rightarrow> bm_state \<Rightarrow> panel \<Rightarrow> tx_result option" where
  "placeLimitOrder sdk sign nowStr db st p =
     (case (pn_account p, panel_poolKey p, db) of
        (Some _, Some key, Some c) \<Rightarrow>
          (if activeManagerId st = None then Some (TxErr no_manager_panel)
           else let qty = Number_str (pn_amount p); price = Number_str (pn_price p) in
                if \<not> isFinite qty \<or> qty \<le> 0 then Some (TxErr ''Enter a quantity'')
                else if \<not> isFinite price \<or> price \<le> 0 then Some (TxErr ''Enter a price'')
                else Some (to_result (sum_bind (placeLimit sdk c
                       \<lparr>lo_poolKey = key, lo_managerKey = ACTIVE_BM_KEY, lo_clientOrderId = nowStr,
                        lo_price = price, lo_quantity = qty, lo_isBid = (pn_side p = Buy)\<rparr>) sign)))
      | _ \<Rightarrow> None)"

definition cancel_limit_order ::
  "sdk_builders \<Rightarrow> (tx \<Rightarrow> string + string) \<Rightarrow> db_client option \<Rightarrow> panel \<Rightarrow> string \<Rightarrow> tx_result option" where
  "cancel_limit_order sdk sign db p orderId =
     (case (pn_account p, panel_poolKey p, db) of
        (Some _, Some key, Some c) \<Rightarrow>
          Some (to_result (sum_bind (cancelLimit sdk c key ACTIVE_BM_KEY orderId) sign))
      | _ \<Rightarrow> None)"

definition panel_execute ::
  "sdk_builders \<Rightarrow> (tx \<Rightarrow> string + string) \<Rightarrow> string \<Rightarrow> db_client option \<Rightarrow> bm_state \<Rightarrow> panel \<Rightarrow> tx_result option" where
  "panel_execute sdk sign nowStr db st p =
     (if pn_mode p = Limit then placeLimitOrder sdk sign nowStr db st p
      else case (pn_account p, pn_poolId p) of
             (Some a, Some pid) \<Rightarrow> Some (to_result (sum_bind (panel_swap_tx p a pid) sign))
           | _ \<Rightarrow> None)"

text \<open>
  The session: what the page does to the registry, the clients and the managers. The panel and the
  manager hook each call \<open>useDeepBookClient\<close>, which runs again when the wallet changes; the hook's
  deposits and withdrawals write the manager into the client that the hook holds.
\<close>

record session =
  s_reg :: db_registry
  s_heap :: client_heap
  s_panel :: "nat option"
  s_hook :: "nat option"
  s_bm :: bm_state

definition session0 :: "bm_state \<Rightarrow> session" where
  "session0 bm =
     \<lparr>s_reg = \<lparr>customPools = [], customCoins = []\<rparr>,
      s_heap = \<lparr>next_ident = 0, clients = Map.empty, cached = Map.empty\<rparr>,
      s_panel = None, s_hook = None, s_bm = bm\<rparr>"

definition client_at :: "session \<Rightarrow> nat option \<Rightarrow> db_client option" where
  "client_at s ref = (case ref of None \<Rightarrow> None | Some r \<Rightarrow> clients (s_heap s) r)"

definition put_client :: "nat \<Rightarrow> db_client \<Rightarrow> session \<Rightarrow> session" where
  "put_client r c s = s\<lparr>s_heap := (s_heap s)\<lparr>clients := (clients (s_heap s))(r \<mapsto> c)\<rparr>\<rparr>"

inductive ui_step :: "db_sdk \<Rightarrow> sdk_builders \<Rightarrow> string \<Rightarrow> session \<Rightarrow> session \<Rightarrow> bool" for sdk b net where
  panel_client: "useDeepBookClient sdk net address (s_reg s) (s_heap s) = (ref, h) \<Longrightarrow>
     ui_step sdk b net s (s\<lparr>s_panel := ref, s_heap := h\<rparr>)"
| hook_client: "useDeepBookClient sdk net address (s_reg s) (s_heap s) = (ref, h) \<Longrightarrow>
     ui_step sdk b net s (s\<lparr>s_hook := ref, s_heap := h\<rparr>)"
| register: "registerHashSharePool pid tag lab q (s_reg s) = (key, reg) \<Longrightarrow>
     ui_step sdk b net s (s\<lparr>s_reg := reg\<rparr>)"
| managers: "ui_step sdk b net s (s\<lparr>s_bm := (s_bm s)\<lparr>managerIds := ids\<rparr>\<rparr>)"
| select: "ui_step sdk b net s (s\<lparr>s_bm := setActiveManagerId hasWindow i (s_bm s)\<rparr>)"
| deposit_into: "s_hook s = Some r \<Longrightarrow> deposit b sign (s_bm s) coinKey amount (client_at s (Some r)) = (res, Some c) \<Longrightarrow>
     ui_step sdk b net s (put_client r c s)"
| withdraw_from: "s_hook s = Some r \<Longrightarrow>
     withdraw b sign (s_bm s) coinKey amount recipient address (client_at s (Some r)) = (res, Some c) \<Longrightarrow>
     ui_step sdk b net s (put_client r c s)"

inductive_cases ui_stepE: "ui_step sdk b net s s'"

section \<open>The clients of a session\<close>

definition fresh_heap :: "client_heap \<Rightarrow> bool" where
  "fresh_heap h \<longleftrightarrow> (\<forall>k \<ge> next_ident h. cached h k = None)"

text \<open>
  The cache is never hit, because its key is a new object every time: every call makes a new client,
  apart from all earlier ones, from the registry of that moment.
\<close>

lemma useDeepBookClient_never_cached:
  assumes "fresh_heap h" "useDeepBookClient sdk net address reg h = (ref, h')"
  shows "fresh_heap h' \<and> next_ident h \<le> next_ident h' \<and> (\<forall>r < next_ident h. clients h' r = clients h r)
    \<and> (\<forall>r. ref = Some r \<longrightarrow> next_ident h < r \<and> r < next_ident h'
         \<and> (\<exists>cfg. clients h' r = Some (build_client sdk net address cfg reg)))"
  using assms by (auto simp: useDeepBookClient_def fresh_heap_def Let_def split: if_splits option.splits)

text \<open>
  The invariant of a session: the panel and the hook never hold the same client, and the panel's
  client has the managers that the SDK gave it.
\<close>

definition session_inv :: "db_sdk \<Rightarrow> session \<Rightarrow> bool" where
  "session_inv sdk s \<longleftrightarrow> fresh_heap (s_heap s)
     \<and> (\<forall>r. s_hook s = Some r \<longrightarrow> r < next_ident (s_heap s) \<and> s_panel s \<noteq> Some r)
     \<and> (\<forall>r. s_panel s = Some r \<longrightarrow> r < next_ident (s_heap s)
          \<and> (\<exists>c. clients (s_heap s) r = Some c \<and> balanceManagers c = managers0 sdk))"

lemma session_inv_put:
  "session_inv sdk s \<Longrightarrow> s_hook s = Some r \<Longrightarrow> session_inv sdk (put_client r c s)"
  by (auto simp: session_inv_def put_client_def fresh_heap_def)

lemma session_inv_step:
  assumes "session_inv sdk s" "ui_step sdk b net s s'"
  shows "session_inv sdk s'"
  using assms(2)
proof cases
  case (panel_client address ref h)
  then show ?thesis
    using assms(1) useDeepBookClient_never_cached [OF _ panel_client(2)]
    by (auto simp: session_inv_def build_client_def)
next
  case (hook_client address ref h)
  then show ?thesis
    using assms(1) useDeepBookClient_never_cached [OF _ hook_client(2)]
    by (auto simp: session_inv_def)
next
  case (deposit_into r sign coinKey amount res c)
  then show ?thesis using session_inv_put [OF assms(1)] by simp
next
  case (withdraw_from r sign coinKey amount recipient address res c)
  then show ?thesis using session_inv_put [OF assms(1)] by simp
qed (use assms(1) in \<open>auto simp: session_inv_def\<close>)

lemma session_inv_reachable:
  "(ui_step sdk b net)\<^sup>*\<^sup>* (session0 bm) s \<Longrightarrow> session_inv sdk s"
proof (induction rule: rtranclp_induct)
  case base
  show ?case by (simp add: session_inv_def session0_def fresh_heap_def)
next
  case (step s s')
  then show ?case using session_inv_step by blast
qed

text \<open>
  C28: In every session of the page no limit order succeeds: the manager key that the panel passes to the
  SDK is registered by deposits and withdrawals, but on the client of the hook, which is never the
  client of the panel because the cache of clients is never hit; so an SDK that refuses an unknown
  manager key refuses every order.
\<close>

theorem limit_orders_rejected:
  assumes "(ui_step sdk b net)\<^sup>*\<^sup>* (session0 bm) s" "managers0 sdk ACTIVE_BM_KEY = None"
    and "\<And>c x. balanceManagers c (lo_managerKey x) = None \<Longrightarrow> \<exists>msg. placeLimit b c x = Inl msg"
  shows "case placeLimitOrder b sign nowStr (client_at s (s_panel s)) (s_bm s) p of
           Some (TxOk digest) \<Rightarrow> False
         | _ \<Rightarrow> True"
proof (cases "client_at s (s_panel s)")
  case (Some c)
  then have "balanceManagers c ACTIVE_BM_KEY = None"
    using session_inv_reachable [OF assms(1)] assms(2)
    by (auto simp: session_inv_def client_at_def split: option.splits)
  then have "\<exists>msg. placeLimit b c x = Inl msg" if "lo_managerKey x = ACTIVE_BM_KEY" for x
    using assms(3) that by simp
  then have "\<exists>msg. placeLimit b c \<lparr>lo_poolKey = k, lo_managerKey = ACTIVE_BM_KEY, lo_clientOrderId = i, lo_price = pr,
      lo_quantity = q, lo_isBid = d\<rparr> = Inl msg" for k i pr q d by simp
  then obtain msg where "\<And>k i pr q d. placeLimit b c \<lparr>lo_poolKey = k, lo_managerKey = ACTIVE_BM_KEY,
      lo_clientOrderId = i, lo_price = pr, lo_quantity = q, lo_isBid = d\<rparr> = Inl (msg k i pr q d)" by metis
  then show ?thesis
    using Some by (auto simp: placeLimitOrder_def to_result_def Let_def split: option.split)
qed (auto simp: placeLimitOrder_def split: option.split)

definition demo_sdk :: db_sdk where
  "demo_sdk = \<lparr>sdkCoins = \<lambda>_. Map.empty, sdkPools = \<lambda>_. Map.empty, managers0 = Map.empty\<rparr>"

definition demo_builders :: sdk_builders where
  "demo_builders =
     \<lparr>createAndShare = [], depositInto = \<lambda>_ _ _ _. Inr [], withdrawFrom = \<lambda>_ _ _ _ _. Inr [],
      placeLimit = (\<lambda>c x. if balanceManagers c (lo_managerKey x) = None then Inl ''unknown manager'' else Inr []),
      cancelLimit = \<lambda>_ _ _ _. Inr []\<rparr>"

definition demo_panel :: panel where
  "demo_panel =
     \<lparr>pn_network = ''testnet'', pn_account = Some ''0xme'', pn_poolId = Some ''0xp'', pn_quote = hd (tl TESTNET_QUOTES),
      pn_label = ''HS_000'', pn_hsType = ''0x1::hs_000::HS_000'', pn_hsBalance = 27, pn_hsIds = [''0xa'', ''0xb''],
      pn_quoteCoins = \<lparr>qc_coinType = coin_type (hd (tl TESTNET_QUOTES)), qc_ids = [''0xa''], qc_balance = 5000000\<rparr>,
      pn_side = Buy, pn_mode = Limit, pn_amount = ''4'', pn_price = ''2''\<rparr>"

lemma demo_connected:
  "\<exists>r h. useDeepBookClient demo_sdk ''testnet'' ''0xme'' reg0 h0 = (Some r, h)"
  by (cases "cached h0 (next_ident h0)")
     (auto simp: useDeepBookClient_def activeNetwork_def DEEPBOOK_V3_def Let_def)

theorem limit_orders_rejected_witness:
  "\<exists>s. (ui_step demo_sdk demo_builders ''testnet'')\<^sup>*\<^sup>* (session0 (initial_bm True None)) s \<and> client_at s (s_panel s) \<noteq> None
     \<and> activeManagerId (s_bm s) = Some ''0xbm''
     \<and> (case placeLimitOrder demo_builders (\<lambda>_. Inr ''d'') ''0'' (client_at s (s_panel s)) (s_bm s) demo_panel of
          Some (TxOk digest) \<Rightarrow> False | _ \<Rightarrow> True)"
proof -
  let ?s0 = "session0 (initial_bm True None)" and ?step = "ui_step demo_sdk demo_builders ''testnet''"
  obtain r h where u: "useDeepBookClient demo_sdk ''testnet'' ''0xme'' (s_reg ?s0) (s_heap ?s0) = (Some r, h)"
    using demo_connected by blast
  define s1 where "s1 = ?s0\<lparr>s_panel := Some r, s_heap := h\<rparr>"
  define s2 where "s2 = s1\<lparr>s_bm := (s_bm s1)\<lparr>managerIds := [''0xbm'']\<rparr>\<rparr>"
  have "?step ?s0 s1" unfolding s1_def by (rule ui_step.panel_client [OF u])
  moreover have "?step s1 s2" unfolding s2_def by (rule ui_step.managers)
  ultimately have r: "?step\<^sup>*\<^sup>* ?s0 s2"
    by (rule rtranclp.rtrancl_into_rtrancl [OF r_into_rtranclp])
  have p: "s_panel s2 = Some r" by (simp add: s2_def s1_def)
  have a: "activeManagerId (s_bm s2) = Some ''0xbm''"
    by (simp add: s2_def s1_def session0_def initial_bm_def activeManagerId_def)
  have c: "client_at s2 (s_panel s2) \<noteq> None"
    using session_inv_reachable [OF r] p by (auto simp: session_inv_def client_at_def)
  have "case placeLimitOrder demo_builders (\<lambda>_. Inr ''d'') ''0'' (client_at s2 (s_panel s2)) (s_bm s2) demo_panel of
      Some (TxOk digest) \<Rightarrow> False | _ \<Rightarrow> True"
    by (rule limit_orders_rejected [OF r]) (simp_all add: demo_sdk_def demo_builders_def)
  then show ?thesis using r a c by blast
qed

text \<open>
  The active manager is always one of the wallet's managers, a selected manager becomes active, and
  the selection survives a reload of the page.
\<close>

theorem activeManager_selection:
  "(case activeManagerId st of Some i \<Rightarrow> i \<in> set (managerIds st) | None \<Rightarrow> managerIds st = [])
   \<and> (if i \<noteq> [] \<and> i \<in> set (managerIds st)
      then activeManagerId (setActiveManagerId True (Some i) st) = Some i
        \<and> activeManagerId ((initial_bm True (bm_storage (setActiveManagerId True (Some i) st)))\<lparr>managerIds := managerIds st\<rparr>)
            = Some i
      else activeManagerId (setActiveManagerId True (Some i) st) = activeManagerId (st\<lparr>activeOverride := None\<rparr>))"
  by (cases "managerIds st")
     (auto simp: activeManagerId_def setActiveManagerId_def initial_bm_def Let_def split: option.split)

section \<open>What the swap leaves behind\<close>

fun command_args :: "command \<Rightarrow> tx_arg list" where
  "command_args (MergeCoins d srcs) = d # srcs"
| "command_args (SplitCoins c _) = [c]"
| "command_args (MoveCall _ _ args) = args"
| "command_args (TransferObjects xs _) = xs"

definition used :: "tx \<Rightarrow> tx_arg set" where
  "used t = set (concat (map command_args t))"

lemma used_append [simp]: "used (xs @ ys) = used xs \<union> used ys"
  by (simp add: used_def)

lemma used_Cons [simp]: "used (c # t) = set (command_args c) \<union> used t"
  by (simp add: used_def)

lemma used_Nil [simp]: "used [] = {}"
  by (simp add: used_def)

lemma merge_split_used:
  "merge_split first rest n = (t, a) \<Longrightarrow> used t \<subseteq> range ObjArg \<and> a = Res (length t - 1) 0 \<and> t \<noteq> []"
  by (auto simp: merge_split_def merge_ids_def Let_def split: if_splits)

lemma pay_quote_used:
  "pay_quote p n = Inr (t, a) \<Longrightarrow> used t \<subseteq> insert GasCoin (range ObjArg) \<and> a = Res (length t - 1) 0 \<and> t \<noteq> []"
  using merge_split_used by (fastforce simp: pay_quote_def split: if_splits list.splits)

lemma pay_shares_used:
  "pay_shares p n = Inr (t, a) \<Longrightarrow> used t \<subseteq> insert GasCoin (range ObjArg) \<and> a = Res (length t - 1) 0 \<and> t \<noteq> []"
  using merge_split_used by (fastforce simp: pay_shares_def split: if_splits list.splits)

lemmas pay_used = pay_quote_used pay_shares_used

lemma swap_call_shape:
  assumes "swap_call entry net t pool bt qt c minOut [] = Inr (t1, outs)"
  shows "\<exists>cfg. activeDeepBookConfig net = Some cfg
    \<and> t1 = t @ [MoveCall ''0x2::coin::zero'' [deepTypeForNetwork net] [],
               MoveCall (db_packageId cfg @ ''::pool::'' @ entry) [bt, qt]
                 [ObjArg pool, c, Res (length t) 0, PureU64 minOut, ObjArg ''0x6'']]
    \<and> baseOut outs = Res (Suc (length t)) 0 \<and> quoteOut outs = Res (Suc (length t)) 1"
  using assms
  by (auto simp: swap_call_def mustHaveDeepBook_def deep_coin_def sum_bind_def split: option.splits sum.splits)

text \<open>The transaction of a swap: a payment prefix, the zero DEEP coin, the swap, the transfer.\<close>

lemma panel_swap_tx_shape:
  assumes "panel_swap_tx p account pid = Inr t"
  obtains pay cfg entry out where "activeDeepBookConfig (pn_network p) = Some cfg"
    "used pay \<subseteq> insert GasCoin (range ObjArg)" "pay \<noteq> []"
    "(pn_side p, entry, out) \<in> {(Buy, ''swap_exact_quote_for_base'', 0), (Sell, ''swap_exact_base_for_quote'', 1)}"
    "t = pay @ [MoveCall ''0x2::coin::zero'' [deepTypeForNetwork (pn_network p)] [],
                MoveCall (db_packageId cfg @ ''::pool::'' @ entry) [pn_hsType p, coin_type (pn_quote p)]
                  [ObjArg pid, Res (length pay - 1) 0, Res (length pay) 0, PureU64 0, ObjArg ''0x6''],
                TransferObjects [Res (Suc (length pay)) out] account]"
proof (cases "pn_side p")
  case Buy
  then obtain pay a t1 outs where pay: "pay_quote p (panel_parseAmount (pn_amount p) * 10 ^ decimals (pn_quote p)) = Inr (pay, a)"
      and sw: "swap_call ''swap_exact_quote_for_base'' (pn_network p) pay pid (pn_hsType p) (coin_type (pn_quote p)) a 0 []
                 = Inr (t1, outs)"
      and t: "t = t1 @ [TransferObjects [baseOut outs] account]"
    using assms by (auto simp: panel_swap_tx_def swapBuyBase_def Let_def sum_bind_def split: if_splits sum.splits prod.splits)
  from swap_call_shape [OF sw] pay_used(1) [OF pay] t Buy show ?thesis
    by (auto intro: that [of _ pay "''swap_exact_quote_for_base''" 0])
next
  case Sell
  then obtain pay a t1 outs where pay: "pay_shares p (panel_parseAmount (pn_amount p)) = Inr (pay, a)"
      and sw: "swap_call ''swap_exact_base_for_quote'' (pn_network p) pay pid (pn_hsType p) (coin_type (pn_quote p)) a 0 []
                 = Inr (t1, outs)"
      and t: "t = t1 @ [TransferObjects [quoteOut outs] account]"
    using assms by (auto simp: panel_swap_tx_def swapSellBase_def Let_def sum_bind_def split: if_splits sum.splits prod.splits)
  from swap_call_shape [OF sw] pay_used(2) [OF pay] t Sell show ?thesis
    by (auto intro: that [of _ pay "''swap_exact_base_for_quote''" 1])
qed



section \<open>Type names\<close>

lemma index_colons_append:
  "CHR '':'' \<notin> set a \<Longrightarrow> index_colons (a @ CHR '':'' # CHR '':'' # s) = Some (length a)"
proof (induction a)
  case (Cons c a)
  then show ?case by (cases a) auto
qed simp

lemma strip_0x_prefix:
  assumes "a = [] \<or> hd a \<noteq> CHR ''0''"
  shows "strip_0x (''0x'' @ replicate n (CHR ''0'') @ a) = a"
proof -
  have "dropWhile (\<lambda>c. c = CHR ''0'') (replicate n (CHR ''0'') @ a) = a"
    using assms by (induction n) (cases a, auto)+
  then show ?thesis by (simp add: strip_0x_def startsWith_def)
qed

lemma strip_0x_bare:
  assumes "\<forall>c \<in> set a. is_digit 16 c"
  shows "strip_0x a = a"
proof -
  have "\<not> is_digit 16 (CHR ''x'')" "\<not> is_digit 16 (CHR ''X'')" by code_simp+
  then have "\<not> startsWith a ''0x''" "\<not> startsWith a ''0X''"
    using assms by (cases a; cases "tl a"; auto simp: startsWith_def)+
  then show ?thesis by (simp add: strip_0x_def)
qed

lemma normaliseAddr_type:
  assumes "CHR '':'' \<notin> set a"
  shows "normaliseAddr (a @ ''::'' @ s) = map to_lower (''0x'' @ strip_0x a @ ''::'' @ s)"
  using index_colons_append [OF assms, of s] by (simp add: normaliseAddr_def)

lemma hex_no_colon: "\<forall>c \<in> set a. is_digit 16 c \<Longrightarrow> CHR '':'' \<notin> set a"
proof -
  have "\<not> is_digit 16 (CHR '':'')" by code_simp
  then show "\<forall>c \<in> set a. is_digit 16 c \<Longrightarrow> CHR '':'' \<notin> set a" by blast
qed

text \<open>
  Normalised type names: two names that start with 0x compare equal whatever zeros pad their
  address, but a name without the 0x, as Move itself prints type names, only matches when its
  address has no padding; the padded address of SUI never does.
\<close>

theorem normaliseAddr_canonical:
  assumes "list_all (is_digit 16) a" "a \<noteq> []" "hd a \<noteq> CHR ''0''"
  shows "normaliseAddr (''0x'' @ replicate n (CHR ''0'') @ a @ ''::'' @ s) = map to_lower (''0x'' @ a @ ''::'' @ s)
    \<and> (normaliseAddr (replicate n (CHR ''0'') @ a @ ''::'' @ s) = normaliseAddr (''0x'' @ a @ ''::'' @ s) \<longleftrightarrow> n = 0)"
proof -
  have z: "is_digit 16 (CHR ''0'')" by code_simp
  have hex: "\<forall>c \<in> set (replicate k (CHR ''0'') @ a). is_digit 16 c" for k
    using assms(1) z by (auto simp: list_all_iff)
  have prefixed: "normaliseAddr (''0x'' @ replicate k (CHR ''0'') @ a @ ''::'' @ s) = map to_lower (''0x'' @ a @ ''::'' @ s)" for k
    using normaliseAddr_type [of "''0x'' @ replicate k (CHR ''0'') @ a" s] hex_no_colon [OF hex [of k]]
      strip_0x_prefix [of a k] assms(3) by simp
  have bare: "normaliseAddr (replicate n (CHR ''0'') @ a @ ''::'' @ s)
      = map to_lower (''0x'' @ (replicate n (CHR ''0'') @ a) @ ''::'' @ s)"
    using normaliseAddr_type [OF hex_no_colon [OF hex [of n]], of s] strip_0x_bare [OF hex [of n]] by simp
  have "length (normaliseAddr (replicate n (CHR ''0'') @ a @ ''::'' @ s))
      = n + length (normaliseAddr (''0x'' @ a @ ''::'' @ s))"
    using bare prefixed [of 0] by simp
  then show ?thesis using prefixed [of n] prefixed [of 0] bare by auto
qed

theorem normaliseAddr_canonical_witness:
  "normaliseAddr ''0x0002::sui::SUI'' = ''0x2::sui::sui'' \<and> normaliseAddr ''0002::sui::SUI'' \<noteq> normaliseAddr ''0x2::sui::SUI''"
proof -
  have c: "list_all (is_digit 16) ''2''" "map to_lower ''0x2::sui::SUI'' = ''0x2::sui::sui''" by code_simp+
  show ?thesis
    using normaliseAddr_canonical [OF c(1), of 3 "''sui::SUI''"] c(2) by (simp add: numeral_3_eq_3)
qed

section \<open>The pool scan\<close>

definition pool_match :: "string \<Rightarrow> string \<Rightarrow> sui_event \<Rightarrow> bool" where
  "pool_match baseType quoteType e =
     (let p = parsedJson e in
      truthy (get p ''pool_id'')
      \<and> (case (get p ''base_type'', get p ''quote_type'') of
           (JStr b, JStr q) \<Rightarrow> b \<noteq> [] \<and> q \<noteq> [] \<and> normaliseAddr b = normaliseAddr baseType
                               \<and> normaliseAddr q = normaliseAddr quoteType
         | _ \<Rightarrow> False))"

definition first_pool :: "string \<Rightarrow> string \<Rightarrow> sui_event list \<Rightarrow> json option" where
  "first_pool baseType quoteType es =
     map_option (\<lambda>e. get (parsedJson e) ''pool_id'') (List.find (pool_match baseType quoteType) es)"

definition good_pool :: "sui_event \<Rightarrow> bool" where
  "good_pool e =
     (case (get (parsedJson e) ''base_type'', get (parsedJson e) ''quote_type'') of
        (JStr _, JStr _) \<Rightarrow> True | _ \<Rightarrow> False)"

lemma pool_step_good:
  "good_pool e \<Longrightarrow> pool_step bt qt None e
     = Inr (if pool_match bt qt e then Some (get (parsedJson e) ''pool_id'') else None)"
  by (auto simp: good_pool_def pool_step_def pool_match_def Let_def split: json.splits)

interpretation pools: aggregator "pool_step bt qt" "first_pool bt qt" good_pool
  for bt qt
proof unfold_locales
  fix es e
  assume "good_pool e"
  then show "pool_step bt qt (first_pool bt qt es) e = Inr (first_pool bt qt (es @ [e]))"
    using pool_step_good
    by (cases "List.find (pool_match bt qt) es") (auto simp: first_pool_def find_snoc pool_step_def Let_def)
qed

text \<open>
  The pool of a pair: the answer of the SDK when it has one; otherwise, whether the SDK fails, answers
  nothing or is not connected, the pool of the newest creation event of that pair among the 250
  newest ones, and null when there is none.
\<close>

theorem useDeepBookPool_scan:
  assumes "activeDeepBookConfig net = Some cfg" "baseType \<noteq> []"
    and "serves_stream (queryEvents client (db_packageId cfg @ ''::pool::PoolCreated'') 50) cur 50 es"
    and "list_all good_pool es"
  shows "useDeepBookPool net client sdk baseType (Some q) =
     (case sdk of
        Some getPool \<Rightarrow>
          (case getPool baseType (coin_type q) of
             Inr pid \<Rightarrow> if truthy pid then Inr pid
                        else Inr (case_option JNull id (first_pool baseType (coin_type q) (take 250 es)))
           | Inl _ \<Rightarrow> Inr (case_option JNull id (first_pool baseType (coin_type q) (take 250 es))))
      | None \<Rightarrow> Inr (case_option JNull id (first_pool baseType (coin_type q) (take 250 es))))"
proof -
  let ?bt = baseType and ?qt = "coin_type q"
  have "delivered 5 (queryEvents client (db_packageId cfg @ ''::pool::PoolCreated'') 50) None = Inr (take 250 es)"
    using delivered_stream [OF assms(3), of 5] by simp
  moreover have "list_all good_pool (take 250 es)"
    using assms(4) by (metis append_take_drop_id list_all_append)
  moreover have "first_pool ?bt ?qt (xs @ [e]) = first_pool ?bt ?qt xs" if "first_pool ?bt ?qt xs \<noteq> None" for xs e
    using that by (auto simp: first_pool_def find_snoc split: option.split)
  ultimately have "walk 5 (queryEvents client (db_packageId cfg @ ''::pool::PoolCreated'') 50) (\<lambda>acc. acc \<noteq> None)
      (pool_step ?bt ?qt) None (first_pool ?bt ?qt []) = Inr (first_pool ?bt ?qt (take 250 es))"
    by (intro pools.walk_stop_meaning) auto
  then show ?thesis
    using assms(1,2)
    by (auto simp: useDeepBookPool_def first_pool_def Let_def split: option.split sum.split)
qed

definition demo_pool_event :: sui_event where
  "demo_pool_event =
     \<lparr>parsedJson = JObj [(''base_type'', JStr ''ab::hs_000::HS_000''), (''quote_type'', JStr ''0x0002::sui::SUI''),
        (''pool_id'', JStr ''0xp'')], timestampMs = JUndef, txDigest = ''t''\<rparr>"

theorem useDeepBookPool_scan_witness:
  "useDeepBookPool ''testnet'' (stream_client (\<lambda>_. replicate 60 demo_pool_event)) (Some (\<lambda>_ _. Inl RequestFailed))
     ''0xab::hs_000::HS_000'' (Some ((hd TESTNET_QUOTES)\<lparr>coin_type := ''0x2::sui::SUI''\<rparr>)) = Inr (JStr ''0xp'')"
proof -
  obtain cfg where cfg: "activeDeepBookConfig ''testnet'' = Some cfg"
    by (auto simp: activeDeepBookConfig_def activeNetwork_def DEEPBOOK_V3_def)
  have "list_all good_pool (replicate 60 demo_pool_event)"
    by (simp add: list_all_iff good_pool_def demo_pool_event_def obj_get_def)
  note scan = useDeepBookPool_scan [OF cfg _ stream_client_serves this]
  have norm: "normaliseAddr ''ab::hs_000::HS_000'' = normaliseAddr ''0xab::hs_000::HS_000''"
    "normaliseAddr ''0x0002::sui::SUI'' = normaliseAddr ''0x2::sui::SUI''" by code_simp+
  have hit: "pool_match ''0xab::hs_000::HS_000'' ''0x2::sui::SUI'' demo_pool_event"
    by (simp add: pool_match_def demo_pool_event_def obj_get_def norm)
  have "first_pool ''0xab::hs_000::HS_000'' ''0x2::sui::SUI'' (replicate 60 demo_pool_event) = Some (JStr ''0xp'')"
    using hit by (simp add: first_pool_def numeral_eq_Suc) (simp add: demo_pool_event_def obj_get_def)
  then show ?thesis
    using scan [of "''0xab::hs_000::HS_000''" "Some (\<lambda>_ _. Inl RequestFailed)"
        "(hd TESTNET_QUOTES)\<lparr>coin_type := ''0x2::sui::SUI''\<rparr>"] by simp
qed

end
