(* ===== verification/Miner_Flow.thy ===== *)
theory Miner_Flow
  imports Sui_Shares Utils
begin

text \<open>
  The flow diagram of \<open>web/hooks/useMinerFlow.ts\<close>: recent shares are counted per miner and template,
  and the counts become links from miners to templates and from templates to their owners. The
  theorem is conservation of the flow: what a template receives is what it passes on, and the
  total is the number of shares on known templates.
\<close>

section \<open>The model\<close>

record SankeyNodeData =
  node_name :: string
  category :: string
  fullAddress :: "string option"
  node_shares :: "nat option"
  node_staked :: "number option"

record SankeyLinkData =
  link_source :: nat
  link_target :: nat
  link_value :: nat

record flow_agg =
  agg_count :: nat
  totalDifficulty :: number

text \<open>\<open>s.split("|")\<close>\<close>

fun split_bars :: "string \<Rightarrow> string list" where
  "split_bars [] = [[]]"
| "split_bars (c # s) =
     (if c = CHR ''|'' then [] # split_bars s
      else case split_bars s of [] \<Rightarrow> [[c]] | p # ps \<Rightarrow> (c # p) # ps)"

definition flow_key :: "ShareEvent \<Rightarrow> string" where
  "flow_key share = miner share @ ''|'' @ se_templateId share"

definition count_share :: "(string \<times> flow_agg) list \<Rightarrow> ShareEvent \<Rightarrow> (string \<times> flow_agg) list" where
  "count_share m share =
     js_map_set m (flow_key share)
       (case map_of m (flow_key share) of
          Some a \<Rightarrow> \<lparr>agg_count = agg_count a + 1, totalDifficulty = totalDifficulty a + difficultyAchieved share\<rparr>
        | None \<Rightarrow> \<lparr>agg_count = 1, totalDifficulty = difficultyAchieved share\<rparr>)"

definition minerTemplateAgg :: "ShareEvent list \<Rightarrow> (string \<times> flow_agg) list" where
  "minerTemplateAgg shares = foldl count_share [] shares"

definition minerTotalShares :: "(string \<times> flow_agg) list \<Rightarrow> (string \<times> nat) list" where
  "minerTotalShares aggs =
     foldl (\<lambda>m (compositeKey, agg).
              let mi = hd (split_bars compositeKey)
              in js_map_set m mi ((case map_of m mi of Some n \<Rightarrow> n | None \<Rightarrow> 0) + agg_count agg))
       [] aggs"

text \<open>A Map built from entries: a later entry replaces an earlier one.\<close>

definition templateMap :: "TemplateData list \<Rightarrow> string \<Rightarrow> TemplateData option" where
  "templateMap templates = map_of (rev (map (\<lambda>t. (td_id t, t)) templates))"

record flow =
  nodeMap :: "(string \<times> nat) list"
  nodes :: "SankeyNodeData list"
  minerLinks :: "SankeyLinkData list"
  templateOwnerLinks :: "(string \<times> SankeyLinkData) list"

definition flow0 :: flow where
  "flow0 = \<lparr>nodeMap = [], nodes = [], minerLinks = [], templateOwnerLinks = []\<rparr>"

definition getOrCreateNode :: "string \<Rightarrow> SankeyNodeData \<Rightarrow> flow \<Rightarrow> nat \<times> flow" where
  "getOrCreateNode key node f =
     (case map_of (nodeMap f) key of
        Some i \<Rightarrow> (i, f)
      | None \<Rightarrow> (length (nodes f),
                 f\<lparr>nodeMap := js_map_set (nodeMap f) key (length (nodes f)), nodes := nodes f @ [node]\<rparr>))"

definition owner_key :: "nat \<Rightarrow> nat \<Rightarrow> string" where
  "owner_key templateIdx ownerIdx = int_to_string (int templateIdx) @ ''|'' @ int_to_string (int ownerIdx)"

definition add_links :: "nat \<Rightarrow> nat \<Rightarrow> nat \<Rightarrow> nat \<Rightarrow> flow \<Rightarrow> flow" where
  "add_links minerIdx templateIdx ownerIdx n f =
     (let toKey = owner_key templateIdx ownerIdx in
      f\<lparr>minerLinks := minerLinks f @ [\<lparr>link_source = minerIdx, link_target = templateIdx, link_value = n\<rparr>],
        templateOwnerLinks := js_map_set (templateOwnerLinks f) toKey
          (case map_of (templateOwnerLinks f) toKey of
             Some l \<Rightarrow> l\<lparr>link_value := link_value l + n\<rparr>
           | None \<Rightarrow> \<lparr>link_source = templateIdx, link_target = ownerIdx, link_value = n\<rparr>)\<rparr>)"

definition flow_step ::
  "(number \<Rightarrow> string) \<Rightarrow> (string \<Rightarrow> TemplateData option) \<Rightarrow> (string \<times> nat) list \<Rightarrow> flow \<Rightarrow> string \<times> flow_agg \<Rightarrow> flow" where
  "flow_step numStr tmap totals f entry =
     (let parts = split_bars (fst entry); mi = hd parts; templateId = parts ! 1 in
      case tmap templateId of
        None \<Rightarrow> f
      | Some tmpl \<Rightarrow>
          (case getOrCreateNode (''miner:'' @ mi)
                  \<lparr>node_name = truncateAddress mi 6, category = ''miner'', fullAddress = Some mi,
                   node_shares = Some (case map_of totals mi of Some n \<Rightarrow> n | None \<Rightarrow> 0), node_staked = None\<rparr> f of
             (minerIdx, f1) \<Rightarrow>
           case getOrCreateNode (''template:'' @ templateId)
                  \<lparr>node_name = ''H:'' @ numStr (td_height tmpl), category = ''template'', fullAddress = None,
                   node_shares = Some (shareCount tmpl), node_staked = stakedAmount tmpl\<rparr> f1 of
             (templateIdx, f2) \<Rightarrow>
           case getOrCreateNode (''owner:'' @ td_owner tmpl)
                  \<lparr>node_name = truncateAddress (td_owner tmpl) 6, category = ''owner'',
                   fullAddress = Some (td_owner tmpl), node_shares = None, node_staked = None\<rparr> f2 of
             (ownerIdx, f3) \<Rightarrow> add_links minerIdx templateIdx ownerIdx (agg_count (snd entry)) f3))"

definition useMinerFlow ::
  "(number \<Rightarrow> string) \<Rightarrow> ShareEvent list \<Rightarrow> TemplateData list \<Rightarrow> SankeyNodeData list \<times> SankeyLinkData list" where
  "useMinerFlow numStr shares templates =
     (if shares = [] \<or> templates = [] then ([], [])
      else let aggs = minerTemplateAgg shares;
               f = foldl (flow_step numStr (templateMap templates) (minerTotalShares aggs)) flow0 aggs
           in (nodes f, minerLinks f @ map snd (templateOwnerLinks f)))"

section \<open>Counting\<close>

lemma js_map_set_sum:
  fixes g :: "'k \<Rightarrow> 'v \<Rightarrow> nat"
  shows "sum_list (map (\<lambda>(k, v). g k v) (js_map_set m k v)) + (case map_of m k of Some w \<Rightarrow> g k w | None \<Rightarrow> 0)
    = sum_list (map (\<lambda>(k, v). g k v) m) + g k v"
  by (induction m k v rule: js_map_set.induct) auto

lemma split_bars_plain: "CHR ''|'' \<notin> set s \<Longrightarrow> split_bars s = [s]"
  by (induction s) auto

lemma split_bars_pair:
  "CHR ''|'' \<notin> set s \<Longrightarrow> CHR ''|'' \<notin> set t \<Longrightarrow> split_bars (s @ ''|'' @ t) = [s, t]"
  by (induction s) (auto simp: split_bars_plain)

definition plain_share :: "ShareEvent \<Rightarrow> bool" where
  "plain_share x \<longleftrightarrow> CHR ''|'' \<notin> set (miner x) \<and> CHR ''|'' \<notin> set (se_templateId x)"

lemma split_flow_key: "plain_share x \<Longrightarrow> split_bars (flow_key x) = [miner x, se_templateId x]"
  using split_bars_pair by (simp add: plain_share_def flow_key_def)

text \<open>The shares counted under the keys that satisfy a predicate.\<close>

lemma count_share_sum:
  "(\<Sum>(k, a) \<leftarrow> count_share m x. if P k then agg_count a else 0)
     = (\<Sum>(k, a) \<leftarrow> m. if P k then agg_count a else 0) + (if P (flow_key x) then 1 else 0)"
  using js_map_set_sum [of "\<lambda>k a. if P k then agg_count a else 0" m "flow_key x"
      "case map_of m (flow_key x) of
         Some a \<Rightarrow> \<lparr>agg_count = agg_count a + 1, totalDifficulty = totalDifficulty a + difficultyAchieved x\<rparr>
       | None \<Rightarrow> \<lparr>agg_count = 1, totalDifficulty = difficultyAchieved x\<rparr>"]
  by (auto simp: count_share_def split: option.splits)

lemma minerTemplateAgg_sum:
  "(\<Sum>(k, a) \<leftarrow> minerTemplateAgg shares. if P k then agg_count a else 0) = length (filter (\<lambda>x. P (flow_key x)) shares)"
proof -
  have "(\<Sum>(k, a) \<leftarrow> foldl count_share m shares. if P k then agg_count a else 0)
      = (\<Sum>(k, a) \<leftarrow> m. if P k then agg_count a else 0) + length (filter (\<lambda>x. P (flow_key x)) shares)" for m
    by (induction shares arbitrary: m) (auto simp: count_share_sum)
  then show ?thesis by (simp add: minerTemplateAgg_def)
qed

section \<open>The invariant of the graph\<close>

definition node_of :: "SankeyNodeData list \<Rightarrow> string \<Rightarrow> nat \<Rightarrow> bool" where
  "node_of ns cat i \<longleftrightarrow> i < length ns \<and> category (ns ! i) = cat"

definition joins :: "SankeyNodeData list \<Rightarrow> string \<Rightarrow> string \<Rightarrow> SankeyLinkData \<Rightarrow> bool" where
  "joins ns a b l \<longleftrightarrow> node_of ns a (link_source l) \<and> node_of ns b (link_target l)"

definition into :: "nat \<Rightarrow> SankeyLinkData list \<Rightarrow> nat" where
  "into i ls = sum_list (map link_value (filter (\<lambda>l. link_target l = i) ls))"

definition out_of :: "nat \<Rightarrow> SankeyLinkData list \<Rightarrow> nat" where
  "out_of i ls = sum_list (map link_value (filter (\<lambda>l. link_source l = i) ls))"

definition flow_inv :: "flow \<Rightarrow> bool" where
  "flow_inv f \<longleftrightarrow>
     list_all (\<lambda>(k, i). node_of (nodes f) (takeWhile (\<lambda>c. c \<noteq> CHR '':'') k) i) (nodeMap f)
     \<and> list_all (joins (nodes f) ''miner'' ''template'') (minerLinks f)
     \<and> list_all (\<lambda>(k, l). joins (nodes f) ''template'' ''owner'' l \<and> k = owner_key (link_source l) (link_target l))
         (templateOwnerLinks f)
     \<and> (\<forall>i. into i (minerLinks f) = out_of i (map snd (templateOwnerLinks f)))"

lemma node_of_append: "node_of ns c i \<Longrightarrow> node_of (ns @ [n]) c i"
  by (simp add: node_of_def nth_append)

lemma joins_append: "joins ns a b l \<Longrightarrow> joins (ns @ [n]) a b l"
  by (simp add: joins_def node_of_append)

lemma set_js_map_set: "x \<in> set (js_map_set m k v) \<Longrightarrow> x = (k, v) \<or> x \<in> set m"
  by (induction m k v rule: js_map_set.induct) (auto split: if_splits)

lemma getOrCreateNode_inv:
  assumes "flow_inv f" "getOrCreateNode key node f = (i, f')"
    and "takeWhile (\<lambda>c. c \<noteq> CHR '':'') key = category node"
  shows "flow_inv f' \<and> node_of (nodes f') (category node) i
    \<and> (\<forall>c j. node_of (nodes f) c j \<longrightarrow> node_of (nodes f') c j)
    \<and> minerLinks f' = minerLinks f \<and> templateOwnerLinks f' = templateOwnerLinks f"
proof (cases "map_of (nodeMap f) key")
  case None
  then have f': "i = length (nodes f)"
    "f' = f\<lparr>nodeMap := js_map_set (nodeMap f) key (length (nodes f)), nodes := nodes f @ [node]\<rparr>"
    using assms(2) by (auto simp: getOrCreateNode_def)
  have new: "node_of (nodes f @ [node]) (category node) (length (nodes f))" by (simp add: node_of_def)
  have "flow_inv f'"
    using assms(1,3) new
    by (auto simp: flow_inv_def f' list_all_iff joins_append node_of_append dest!: set_js_map_set)
  then show ?thesis using new by (simp add: f' node_of_append)
next
  case (Some j)
  then have "i = j" "f' = f" using assms(2) by (simp_all add: getOrCreateNode_def)
  moreover have "node_of (nodes f) (category node) j"
    using map_of_SomeD [OF Some] assms(1,3) by (auto simp: flow_inv_def list_all_iff)
  ultimately show ?thesis using assms(1) by simp
qed

lemma owner_key_inj: "owner_key a b = owner_key c d \<Longrightarrow> a = c \<and> b = d"
proof -
  have bar: "\<not> is_digit 10 (CHR ''|'')" by code_simp
  then have plain: "CHR ''|'' \<notin> set (to_radix 10 n)" for n using to_radix_digits [of 10 n] by auto
  assume "owner_key a b = owner_key c d"
  then have "split_bars (owner_key a b) = split_bars (owner_key c d)" by simp
  then show ?thesis
    using split_bars_pair [OF plain plain] by (auto simp: owner_key_def dest!: to_radix_inj)
qed

lemma owner_link_sum:
  fixes l :: SankeyLinkData
  assumes "list_all (\<lambda>(k, l). k = owner_key (link_source l) (link_target l)) m"
  shows "out_of i (map snd (js_map_set m (owner_key b c)
       (case map_of m (owner_key b c) of
          Some l \<Rightarrow> l\<lparr>link_value := link_value l + n\<rparr>
        | None \<Rightarrow> \<lparr>link_source = b, link_target = c, link_value = n\<rparr>)))
     = out_of i (map snd m) + (if b = i then n else 0)"
proof -
  let ?g = "\<lambda>k l. if link_source l = i then link_value l else 0"
  have out: "out_of i (map snd m') = (\<Sum>(k, l) \<leftarrow> m'. ?g k l)" for m' :: "(string \<times> SankeyLinkData) list"
    by (induction m') (auto simp: out_of_def)
  have src: "link_source l = b" if "map_of m (owner_key b c) = Some l" for l
    using map_of_SomeD [OF that] assms owner_key_inj by (fastforce simp: list_all_iff)
  show ?thesis
    unfolding out using js_map_set_sum [of ?g m "owner_key b c"] src
    by (cases "map_of m (owner_key b c)") (fastforce split: if_splits)+
qed

lemma add_links_inv:
  assumes "flow_inv f" "node_of (nodes f) ''miner'' a" "node_of (nodes f) ''template'' b" "node_of (nodes f) ''owner'' c"
  shows "flow_inv (add_links a b c n f)"
proof -
  let ?f = "add_links a b c n f"
  have inv: "list_all (\<lambda>(k, i). node_of (nodes f) (takeWhile (\<lambda>c. c \<noteq> CHR '':'') k) i) (nodeMap f)"
    "list_all (joins (nodes f) ''miner'' ''template'') (minerLinks f)"
    "list_all (\<lambda>(k, l). joins (nodes f) ''template'' ''owner'' l \<and> k = owner_key (link_source l) (link_target l))
         (templateOwnerLinks f)"
    "\<And>i. into i (minerLinks f) = out_of i (map snd (templateOwnerLinks f))"
    using assms(1) by (simp_all add: flow_inv_def)
  have keys: "list_all (\<lambda>(k, l). k = owner_key (link_source l) (link_target l)) (templateOwnerLinks f)"
    using inv(3) by (auto simp: list_all_iff)
  have old: "joins (nodes f) ''template'' ''owner'' l \<and> k = owner_key (link_source l) (link_target l)"
    if "map_of (templateOwnerLinks f) k = Some l" for k l
    using map_of_SomeD [OF that] inv(3) by (auto simp: list_all_iff)
  have "joins (nodes f) ''miner'' ''template'' \<lparr>link_source = a, link_target = b, link_value = n\<rparr>"
    "joins (nodes f) ''template'' ''owner'' \<lparr>link_source = b, link_target = c, link_value = n\<rparr>"
    using assms(2-4) by (simp_all add: joins_def)
  then have "list_all (joins (nodes ?f) ''miner'' ''template'') (minerLinks ?f)"
    "list_all (\<lambda>(k, l). joins (nodes ?f) ''template'' ''owner'' l \<and> k = owner_key (link_source l) (link_target l))
         (templateOwnerLinks ?f)"
    using inv(2,3) old
    by (auto simp: add_links_def Let_def list_all_iff joins_def split: option.splits dest!: set_js_map_set)
  moreover have "into i (minerLinks ?f) = out_of i (map snd (templateOwnerLinks ?f))" for i
    using inv(4) [of i] owner_link_sum [OF keys, of i b c n]
    by (simp add: add_links_def Let_def into_def)
  ultimately show ?thesis using inv(1) by (simp add: flow_inv_def add_links_def Let_def)
qed

definition known :: "(string \<Rightarrow> TemplateData option) \<Rightarrow> string \<Rightarrow> bool" where
  "known tmap key \<longleftrightarrow> tmap (split_bars key ! 1) \<noteq> None"

lemma flow_step_inv:
  assumes "flow_inv f"
  shows "flow_inv (flow_step numStr tmap totals f e)
    \<and> sum_list (map link_value (minerLinks (flow_step numStr tmap totals f e)))
        = sum_list (map link_value (minerLinks f)) + (if known tmap (fst e) then agg_count (snd e) else 0)"
proof (cases "tmap (split_bars (fst e) ! 1)")
  case None
  then show ?thesis using assms by (simp add: flow_step_def known_def Let_def)
next
  case (Some tmpl)
  define mi where "mi = hd (split_bars (fst e))"
  define ti where "ti = split_bars (fst e) ! 1"
  let ?m = "\<lparr>node_name = truncateAddress mi 6, category = ''miner'', fullAddress = Some mi,
              node_shares = Some (case map_of totals mi of Some n \<Rightarrow> n | None \<Rightarrow> 0), node_staked = None\<rparr>"
  let ?t = "\<lparr>node_name = ''H:'' @ numStr (td_height tmpl), category = ''template'', fullAddress = None,
              node_shares = Some (shareCount tmpl), node_staked = stakedAmount tmpl\<rparr>"
  let ?o = "\<lparr>node_name = truncateAddress (td_owner tmpl) 6, category = ''owner'',
              fullAddress = Some (td_owner tmpl), node_shares = None, node_staked = None\<rparr>"
  obtain a f1 where 1: "getOrCreateNode (''miner:'' @ mi) ?m f = (a, f1)" by fastforce
  obtain b f2 where 2: "getOrCreateNode (''template:'' @ ti) ?t f1 = (b, f2)" by fastforce
  obtain c f3 where 3: "getOrCreateNode (''owner:'' @ td_owner tmpl) ?o f2 = (c, f3)" by fastforce
  note i1 = getOrCreateNode_inv [OF assms 1, simplified]
  note i2 = getOrCreateNode_inv [OF conjunct1 [OF i1] 2, simplified]
  note i3 = getOrCreateNode_inv [OF conjunct1 [OF i2] 3, simplified]
  have step: "flow_step numStr tmap totals f e = add_links a b c (agg_count (snd e)) f3"
    using Some 1 2 3 by (simp add: flow_step_def Let_def mi_def ti_def)
  have "flow_inv (add_links a b c (agg_count (snd e)) f3)"
    using i1 i2 i3 by (intro add_links_inv) auto
  then show ?thesis using Some i1 i2 i3 by (simp add: step known_def add_links_def Let_def)
qed

lemma flow_fold_inv:
  assumes "flow_inv f"
  shows "flow_inv (foldl (flow_step numStr tmap totals) f es)
    \<and> sum_list (map link_value (minerLinks (foldl (flow_step numStr tmap totals) f es)))
        = sum_list (map link_value (minerLinks f)) + (\<Sum>(k, a) \<leftarrow> es. if known tmap k then agg_count a else 0)"
  using assms
proof (induction es arbitrary: f)
  case (Cons e es)
  then show ?case using flow_step_inv [OF Cons.prems, of numStr tmap totals e] by (auto split: prod.splits)
qed simp

section \<open>Conservation\<close>

lemma flow_links_template:
  assumes "flow_inv f" "node_of (nodes f) ''template'' i"
  shows "into i (minerLinks f @ map snd (templateOwnerLinks f)) = out_of i (minerLinks f @ map snd (templateOwnerLinks f))"
proof -
  have "filter (\<lambda>l. link_target l = i) (map snd (templateOwnerLinks f)) = []"
    "filter (\<lambda>l. link_source l = i) (minerLinks f) = []"
    using assms by (auto simp: flow_inv_def filter_empty_conv list_all_iff joins_def node_of_def)
  then have "into i (map snd (templateOwnerLinks f)) = 0" "out_of i (minerLinks f) = 0"
    by (simp_all only: into_def out_of_def list.map sum_list.Nil)
  moreover have "into i (xs @ ys) = into i xs + into i ys" "out_of i (xs @ ys) = out_of i xs + out_of i ys" for xs ys
    by (simp_all add: into_def out_of_def)
  moreover have "into i (minerLinks f) = out_of i (map snd (templateOwnerLinks f))"
    using assms(1) by (simp add: flow_inv_def)
  ultimately show ?thesis by simp
qed

lemma templateMap_dom: "(\<exists>t. templateMap ts k = Some t) \<longleftrightarrow> k \<in> td_id ` set ts"
proof -
  have "(\<exists>t. templateMap ts k = Some t) \<longleftrightarrow> k \<in> dom (map_of (rev (map (\<lambda>t. (td_id t, t)) ts)))"
    by (simp add: templateMap_def dom_def)
  then show ?thesis by (simp add: dom_map_of_conv_image_fst image_image)
qed

lemma sum_miner_links:
  assumes "flow_inv f"
  shows "sum_list (map link_value (filter (\<lambda>l. node_of (nodes f) ''miner'' (link_source l))
           (minerLinks f @ map snd (templateOwnerLinks f)))) = sum_list (map link_value (minerLinks f))"
proof -
  have "filter (\<lambda>l. node_of (nodes f) ''miner'' (link_source l)) (minerLinks f) = minerLinks f"
    "filter (\<lambda>l. node_of (nodes f) ''miner'' (link_source l)) (map snd (templateOwnerLinks f)) = []"
    using assms by (auto simp: flow_inv_def filter_empty_conv filter_id_conv list_all_iff joins_def node_of_def)
  then show ?thesis by simp
qed

text \<open>
  C33: The diagram conserves the flow. Every link joins two existing nodes, from a miner to a template or
  from a template to an owner; every template passes on exactly what it receives; and what leaves the
  miners is the number of the shares whose template is known. Miners and templates are assumed to
  have no bar in their identifiers.
\<close>

theorem useMinerFlow_conserves:
  assumes "list_all plain_share shares" "useMinerFlow numStr shares templates = (ns, ls)"
  shows "list_all (\<lambda>l. joins ns ''miner'' ''template'' l \<or> joins ns ''template'' ''owner'' l) ls
    \<and> (\<forall>i. node_of ns ''template'' i \<longrightarrow> into i ls = out_of i ls)
    \<and> sum_list (map link_value (filter (\<lambda>l. node_of ns ''miner'' (link_source l)) ls))
        = length (filter (\<lambda>x. se_templateId x \<in> td_id ` set templates) shares)"
proof (cases "shares = [] \<or> templates = []")
  case True
  then show ?thesis using assms(2) by (auto simp: useMinerFlow_def node_of_def)
next
  case False
  let ?tm = "templateMap templates"
  define f where "f = foldl (flow_step numStr ?tm (minerTotalShares (minerTemplateAgg shares))) flow0 (minerTemplateAgg shares)"
  have res: "ns = nodes f" "ls = minerLinks f @ map snd (templateOwnerLinks f)"
    using assms(2) False by (simp_all add: useMinerFlow_def f_def Let_def)
  have "flow_inv flow0" by (simp add: flow_inv_def flow0_def into_def out_of_def)
  from flow_fold_inv [OF this, of numStr ?tm "minerTotalShares (minerTemplateAgg shares)" "minerTemplateAgg shares"]
  have inv: "flow_inv f" and tot: "sum_list (map link_value (minerLinks f))
      = (\<Sum>(k, a) \<leftarrow> minerTemplateAgg shares. if known ?tm k then agg_count a else 0)"
    by (simp_all add: f_def flow0_def)
  have "filter (\<lambda>x. known ?tm (flow_key x)) shares = filter (\<lambda>x. se_templateId x \<in> td_id ` set templates) shares"
    using assms(1) by (intro filter_cong) (auto simp: known_def split_flow_key list_all_iff templateMap_dom)
  then have "sum_list (map link_value (minerLinks f)) = length (filter (\<lambda>x. se_templateId x \<in> td_id ` set templates) shares)"
    using tot minerTemplateAgg_sum [of "known ?tm" shares] by simp
  moreover have "list_all (\<lambda>l. joins ns ''miner'' ''template'' l \<or> joins ns ''template'' ''owner'' l) ls"
    using inv by (auto simp: res flow_inv_def list_all_iff)
  ultimately show ?thesis using flow_links_template [OF inv] sum_miner_links [OF inv] res by simp
qed

definition demo_flow_share :: "string \<Rightarrow> string \<Rightarrow> ShareEvent" where
  "demo_flow_share who tid =
     \<lparr>miner = who, se_templateId = tid, se_roundId = 0, shareHash = [], difficultyAchieved = 1, targetDifficulty = 1,
      se_isBlock = False, se_timestampMs = 0, se_txDigest = [], mode = Full, payoutMicro = None, orderId = None,
      derivedTemplateId = None\<rparr>"

definition demo_flow_template :: "string \<Rightarrow> TemplateData" where
  "demo_flow_template tid =
     \<lparr>td_id = tid, td_height = 5, prevBlockHash = [], coinbase1 = [], coinbase2 = [], merkleBranches = [], version = 0,
      td_nbits = 0, ntime = 0, isActive = True, td_owner = ''0xo'', createdAtMs = 0, shareCount = 2, stakedAmount = None,
      registrationDigest = JNull, lastShareDigest = JNull\<rparr>"

theorem useMinerFlow_conserves_witness:
  "\<exists>ns ls. useMinerFlow (\<lambda>_. []) [demo_flow_share ''a'' ''t'', demo_flow_share ''b'' ''t'', demo_flow_share ''a'' ''u'']
       [demo_flow_template ''t''] = (ns, ls)
     \<and> length ls = 3
     \<and> sum_list (map link_value (filter (\<lambda>l. node_of ns ''miner'' (link_source l)) ls)) = 2"
proof -
  let ?shares = "[demo_flow_share ''a'' ''t'', demo_flow_share ''b'' ''t'', demo_flow_share ''a'' ''u'']"
  obtain ns ls where r: "useMinerFlow (\<lambda>_. []) ?shares [demo_flow_template ''t''] = (ns, ls)" by fastforce
  have "length (snd (useMinerFlow (\<lambda>_. []) ?shares [demo_flow_template ''t''])) = 3" by code_simp
  moreover have "list_all plain_share ?shares" by code_simp
  ultimately show ?thesis
    using useMinerFlow_conserves [OF _ r] r by (auto simp: demo_flow_share_def demo_flow_template_def)
qed

end
