(* ===== verification/Otc_Page.thy ===== *)
theory Otc_Page
  imports Otc_Escrow Amounts Bitcoin_Template
begin

text \<open>
  The over-the-counter page: the seller's form \<open>web/components/otc/OtcDraft.tsx\<close>, the landing page of
  a share link \<open>web/components/otc/OtcCounterSign.tsx\<close> and the shell \<open>web/app/otc/OtcShell.tsx\<close> that
  chooses between them. The last section follows a trade from the form through the link to the buyer.
\<close>

section \<open>The seller's form\<close>

record draft =
  dr_account :: "string option"
  dr_sellAsset :: "OtcAsset option"
  dr_payAsset :: "OtcAsset option"
  dr_buyer :: string
  dr_sellAmount :: string
  dr_payAmount :: string
  dr_memo :: code_points

definition first_asset :: "OtcAsset list \<Rightarrow> OtcAsset option" where
  "first_asset xs = (case xs of [] \<Rightarrow> None | a # _ \<Rightarrow> Some a)"

definition initial_draft :: "OtcAsset list \<Rightarrow> string option \<Rightarrow> draft" where
  "initial_draft assets account =
     \<lparr>dr_account = account, dr_sellAsset = first_asset (filter (\<lambda>a. \<not> isQuote a) assets),
      dr_payAsset = first_asset (filter isQuote assets), dr_buyer = [], dr_sellAmount = [], dr_payAmount = [],
      dr_memo = []\<rparr>"

text \<open>\<open>/^0x[0-9a-fA-F]{64}$/\<close>\<close>

definition is_sui_address :: "string \<Rightarrow> bool" where
  "is_sui_address s \<longleftrightarrow> startsWith s ''0x'' \<and> length s = 66 \<and> list_all (is_digit 16) (drop 2 s)"

text \<open>\<open>!s || Number(s) <= 0\<close> rejects; a comparison with NaN is false.\<close>

definition amount_entered :: "string \<Rightarrow> bool" where
  "amount_entered s \<longleftrightarrow> s \<noteq> [] \<and> \<not> Number_str s \<le> 0"

definition truthy_text :: "string option \<Rightarrow> bool" where
  "truthy_text a \<longleftrightarrow> (case a of None \<Rightarrow> False | Some s \<Rightarrow> s \<noteq> [])"

definition draft_valid :: "draft \<Rightarrow> bool" where
  "draft_valid d \<longleftrightarrow> truthy_text (dr_account d) \<and> dr_sellAsset d \<noteq> None \<and> dr_payAsset d \<noteq> None
     \<and> dr_buyer d \<noteq> [] \<and> is_sui_address (trim (dr_buyer d))
     \<and> amount_entered (dr_sellAmount d) \<and> amount_entered (dr_payAmount d)"

datatype draft_error = InvalidAmount | LockFailed escrow_error | LinkFailed

record draft_state =
  ds_busy :: bool
  ds_error :: "draft_error option"
  shareUrl :: "string option"
  shareEscrowId :: "string option"
  copied :: bool

text \<open>\<open>new TextEncoder().encode(memo)\<close>: a lone surrogate becomes U+FFFD.\<close>

definition encodeText :: "code_points \<Rightarrow> nat list" where
  "encodeText t = concat (map (\<lambda>c. utf8_char (if surrogate c then 0xFFFD else c)) t)"

definition lock_request :: "string \<Rightarrow> OtcAsset \<Rightarrow> OtcAsset \<Rightarrow> int \<Rightarrow> int \<Rightarrow> draft \<Rightarrow> lock_args" where
  "lock_request account sell pay sellRaw payRaw d =
     \<lparr>sellerAddress = account, la_deliverableType = coinType sell, la_payType = coinType pay,
      la_deliverableAmount = sellRaw, la_payAmount = payRaw, la_buyer = trim (dr_buyer d),
      la_memo = encodeText (dr_memo d)\<rparr>"

definition onLock ::
  "OtcEscrowConfig option \<Rightarrow> escrow_client \<Rightarrow> (json \<Rightarrow> code_points) \<Rightarrow> string \<Rightarrow> draft \<Rightarrow> draft_state \<Rightarrow> draft_state" where
  "onLock config client stringify origin d st =
     (case (dr_account d, dr_sellAsset d, dr_payAsset d, config) of
        (Some account, Some sell, Some pay, Some _) \<Rightarrow>
          (if account = [] then st
           else let st1 = st\<lparr>ds_error := None\<rparr>;
                    failed = (\<lambda>e s. s\<lparr>ds_error := Some e, ds_busy := False\<rparr>) in
             case (parseAmount (dr_sellAmount d) (asset_decimals sell), parseAmount (dr_payAmount d) (asset_decimals pay)) of
               (Some sellRaw, Some payRaw) \<Rightarrow>
                 (case useLockEscrow config client (lock_request account sell pay sellRaw payRaw d) of
                    Inl e \<Rightarrow> failed (LockFailed e) st1
                  | Inr (eid, _) \<Rightarrow>
                      (let st2 = st1\<lparr>shareEscrowId := Some eid\<rparr> in
                       case encodeOtcLink stringify
                              \<lparr>link_escrowId = eid, sellAsset = coinType sell, payAsset = coinType pay\<rparr> of
                         None \<Rightarrow> failed LinkFailed st2
                       | Some link \<Rightarrow>
                           st2\<lparr>shareUrl := Some (origin @ ''/otc?link='' @ link), copied := False, ds_busy := False\<rparr>))
             | _ \<Rightarrow> failed InvalidAmount st1)
      | _ \<Rightarrow> st)"

definition onFaucet :: "OtcEscrowConfig option \<Rightarrow> escrow_client \<Rightarrow> draft_state \<Rightarrow> draft_state" where
  "onFaucet config client st =
     (case useDusdcFaucet config client of
        Inl e \<Rightarrow> st\<lparr>ds_error := Some (LockFailed e), ds_busy := False\<rparr>
      | Inr _ \<Rightarrow> st\<lparr>ds_error := None, ds_busy := False\<rparr>)"

text \<open>The lock button does nothing while the form is not valid or a request is running.\<close>

definition press_lock ::
  "OtcEscrowConfig option \<Rightarrow> escrow_client \<Rightarrow> (json \<Rightarrow> code_points) \<Rightarrow> string \<Rightarrow> draft \<Rightarrow> draft_state \<Rightarrow> draft_state" where
  "press_lock config client stringify origin d st =
     (if \<not> draft_valid d \<or> ds_busy st then st else onLock config client stringify origin d st)"

section \<open>The landing page\<close>

definition lookupAsset :: "OtcAsset list \<Rightarrow> string \<Rightarrow> OtcAsset option" where
  "lookupAsset assets ct = find (\<lambda>a. coinType a = ct) assets"

definition same_wallet :: "string option \<Rightarrow> string \<Rightarrow> bool" where
  "same_wallet w a = (case w of None \<Rightarrow> False | Some x \<Rightarrow> map to_lower x = map to_lower a)"

definition isBuyer :: "string option \<Rightarrow> EscrowState \<Rightarrow> bool" where
  "isBuyer w esc = same_wallet w (escrow_buyer esc)"

definition isSeller :: "string option \<Rightarrow> EscrowState \<Rightarrow> bool" where
  "isSeller w esc = same_wallet w (seller esc)"

datatype counter_panel = SettlePanel | CancelPanel | StrangerNote

definition counter_panels :: "string option \<Rightarrow> EscrowState \<Rightarrow> counter_panel list" where
  "counter_panels w esc =
     (if \<not> truthy_text w then []
      else (if isBuyer w esc then [SettlePanel] else [])
           @ (if isSeller w esc then [CancelPanel] else [])
           @ (if \<not> isBuyer w esc \<and> \<not> isSeller w esc then [StrangerNote] else []))"

definition onSettle ::
  "OtcEscrowConfig option \<Rightarrow> escrow_client \<Rightarrow> string option \<Rightarrow> EscrowState \<Rightarrow> (escrow_error + string) option" where
  "onSettle config client w esc =
     (case w of
        None \<Rightarrow> None
      | Some x \<Rightarrow> if x = [] then None else Some (useSettleEscrow config client esc x))"

definition onCancel ::
  "OtcEscrowConfig option \<Rightarrow> escrow_client \<Rightarrow> string option \<Rightarrow> EscrowState \<Rightarrow> (escrow_error + string) option" where
  "onCancel config client w esc =
     (case w of
        None \<Rightarrow> None
      | Some x \<Rightarrow> if x = [] then None else Some (useCancelEscrow config client esc x))"

definition shown_price :: "OtcAsset list \<Rightarrow> EscrowState \<Rightarrow> string" where
  "shown_price assets esc =
     (let meta = lookupAsset assets (payType esc) in
      formatAmount (payAmount esc) (case meta of Some a \<Rightarrow> asset_decimals a | None \<Rightarrow> 0) @ '' ''
      @ (case meta of Some a \<Rightarrow> asset_symbol a | None \<Rightarrow> payType esc))"

section \<open>The shell\<close>

datatype otc_view = DevnetOnly | Settlement EscrowState string | CounterSign string | Draft

definition otc_shell ::
  "OtcEscrowConfig option \<Rightarrow> (code_points \<Rightarrow> json option) \<Rightarrow> string option \<Rightarrow> (EscrowState \<times> string) option \<Rightarrow> otc_view" where
  "otc_shell config parse linkParam settled =
     (case config of
        None \<Rightarrow> DevnetOnly
      | Some _ \<Rightarrow>
          (case settled of
             Some (esc, dg) \<Rightarrow> Settlement esc dg
           | None \<Rightarrow>
               (case (if truthy_text linkParam then decodeOtcLink parse (the linkParam) else None) of
                  Some decoded \<Rightarrow> CounterSign (str_member (get decoded ''escrowId''))
                | None \<Rightarrow> Draft)))"

section \<open>Prices below the smallest unit\<close>

lemma digits_val_pos:
  "list_all (is_digit 10) f \<Longrightarrow> list_ex (\<lambda>c. c \<noteq> CHR ''0'') f \<Longrightarrow> 0 < digits_val 10 f"
proof (induction f)
  case (Cons c f)
  show ?case
  proof (cases "c = CHR ''0''")
    case True
    then show ?thesis using Cons by (simp add: digits_val_Cons)
  next
    case False
    then have "of_char c \<noteq> (48 :: nat)" using of_char_eq_iff [of c "CHR ''0''", where ?'a = nat] by auto
    then have "0 < the (digit_val c)"
      using Cons.prems(1) by (auto simp: is_digit_def digit_val_def Let_def split: if_splits)
    then show ?thesis by (simp add: digits_val_Cons)
  qed
qed simp

lemma Number_str_fraction:
  assumes "list_all (is_digit 10) f" "f \<noteq> []"
  shows "Number_str (''0.'' @ f) = Fin (real (digits_val 10 f) / 10 ^ length f)"
proof -
  have nd: "x \<noteq> c" if "x \<in> set f" "\<not> is_digit 10 c" for x c using assms(1) that by (auto simp: list_all_iff)
  have nc: "\<not> is_digit 10 CHR ''e''" "\<not> is_digit 10 CHR ''E''" "\<not> is_digit 10 CHR ''.''" "is_digit 10 CHR ''0''"
    by (simp_all add: char_defs)
  have "\<not> js_space (last f)" using assms is_digit_not_space [of 10] last_in_set [of f] by (auto simp: list_all_iff)
  then have tr: "trim (''0.'' @ f) = ''0.'' @ f"
    using assms(2) by (cases f rule: rev_cases) (simp_all add: trim_def js_space_def)
  have e: "split_at (\<lambda>c. c = CHR ''e'' \<or> c = CHR ''E'') (''0.'' @ f) = (''0.'' @ f, None)"
    using nd nc by (intro split_at_None) auto
  have d: "split_at (\<lambda>c. c = CHR ''.'') (''0.'' @ f) = (''0'', Some f)"
    by (simp add: split_at_def)
  have "all_digits (''0'' @ f)" using assms nc by (simp add: all_digits_def)
  then show ?thesis
    unfolding Number_str_def Let_def tr
    using e d by (simp add: startsWith_def strip_sign_def mantissa_value_def exponent_value_def digits_val_Cons)
qed


definition demo_draft :: draft where
  "demo_draft =
     \<lparr>dr_account = Some ''0x5'', dr_sellAsset = Some (hash_share_asset ''0x1'' 0),
      dr_payAsset = Some \<lparr>asset_symbol = ''DUSDC'', asset_decimals = 6, coinType = ''0x1::dusdc::DUSDC'', isQuote = True\<rparr>,
      dr_buyer = ''0x'' @ replicate 64 (CHR ''6''), dr_sellAmount = ''7'', dr_payAmount = ''4'', dr_memo = [72, 105]\<rparr>"

lemma demo_draft_valid: "draft_valid demo_draft"
proof -
  have "amount_entered ''7''" "amount_entered ''4''"
    by (simp_all add: amount_entered_def Number_str_digits all_digits_def char_defs digits_val_def)
  moreover have "is_sui_address (trim (''0x'' @ replicate 64 (CHR ''6'')))" by code_simp
  ultimately show ?thesis by (simp add: draft_valid_def demo_draft_def truthy_text_def)
qed


section \<open>A trade from the form to the buyer\<close>

text \<open>
  The escrow object that the node shows after a lock: the type parameters of the call, the coin that
  was handed over, and the agreed terms.
\<close>

definition locked_object :: "OtcEscrowConfig \<Rightarrow> lock_args \<Rightarrow> escrow_object" where
  "locked_object cfg args =
     \<lparr>eo_dataType = Some ''moveObject'',
      eo_type = Some (packageId cfg @ ''::m1n3_confidential_otc::Escrow'' @ ''<'' @ la_deliverableType args @ '', ''
                      @ la_payType args @ ''>''),
      eo_fields = JObj
        [(''deliverable'', JObj [(''fields'', JObj [(''balance'', JStr (int_to_string (la_deliverableAmount args)))])]),
         (''pay_amount'', JStr (int_to_string (la_payAmount args))), (''seller'', JStr (sellerAddress args)),
         (''buyer'', JStr (la_buyer args)), (''memo'', JArr (map (\<lambda>b. JNum (Fin (real b))) (la_memo args)))]\<rparr>"

definition plain_type :: "string \<Rightarrow> bool" where
  "plain_type t \<longleftrightarrow> balanced 0 t \<and> trim t = t"

text \<open>A character that a query parameter carries unchanged.\<close>

definition query_char :: "char \<Rightarrow> bool" where
  "query_char c \<longleftrightarrow> c \<notin> {CHR ''+'', CHR ''%'', CHR ''&'', CHR ''#'', CHR ''='', CHR '' ''}"

lemma utf8_char_nonempty: "utf8_char c \<noteq> []"
  by (simp add: utf8_char_def)

lemma sextets_nonempty: "bs \<noteq> [] \<Longrightarrow> sextets bs \<noteq> []"
  by (cases bs rule: sextets.cases) auto

lemma link_query_chars:
  "list_all query_char (strip_equals (map url_safe (btoa bin)))" "bin \<noteq> [] \<Longrightarrow> strip_equals (map url_safe (btoa bin)) \<noteq> []"
proof -
  let ?bs = "map of_char bin :: nat list"
  let ?cs = "map b64_char (sextets ?bs)"
  have q: "query_char (url_safe (b64_char v))" if "v < 64" for v
  proof -
    have "of_char (b64_char v) \<in> {43, 47} \<union> {48..57} \<union> {65..90} \<union> {97..122 :: nat}"
      using that by (auto simp: b64_char_def)
    then show ?thesis by (auto simp: query_char_def url_safe_def)
  qed
  then have all: "\<forall>c \<in> set (map url_safe ?cs). query_char c" using sextets_bound [of ?bs] by auto
  then have "CHR ''='' \<notin> set (map url_safe ?cs)" by (auto simp: query_char_def)
  moreover have "map url_safe (btoa bin) = map url_safe ?cs @ padding ?bs" "set (padding ?bs) \<subseteq> {CHR ''=''}"
    by (auto simp: btoa_def b64_encode_sextets padding_def url_safe_def)
  ultimately have "strip_equals (map url_safe (btoa bin)) = map url_safe ?cs" by (metis strip_equals_encode)
  then show "list_all query_char (strip_equals (map url_safe (btoa bin)))"
    "bin \<noteq> [] \<Longrightarrow> strip_equals (map url_safe (btoa bin)) \<noteq> []"
    using all sextets_nonempty by (auto simp: list_all_iff)
qed

lemma BigInt_int_to_string: "0 \<le> v \<Longrightarrow> BigInt_str (int_to_string v) = Some v"
proof -
  assume "0 \<le> v"
  then obtain n where "v = int n" using nonneg_int_cases by blast
  moreover have "BigInt_str (to_radix 10 n) = Some (int (digits_val 10 (to_radix 10 n)))"
    by (rule BigInt_str_digits [OF to_radix_all_digits])
  moreover have "digits_val 10 (to_radix 10 n) = n" by (rule digits_val_to_radix) simp_all
  ultimately show ?thesis by simp
qed

lemma read_locked:
  assumes "eid \<noteq> []" "getObject eid = Inr (Some (locked_object cfg args))" "CHR ''<'' \<notin> set (packageId cfg)"
    and "plain_type (la_deliverableType args)" "plain_type (la_payType args)"
    and "0 \<le> la_deliverableAmount args" "0 \<le> la_payAmount args"
  obtains esc where "useEscrow decodeText getObject eid = Inr (Some esc)" "escrowId esc = eid"
    "deliverableAmount esc = la_deliverableAmount args" "payAmount esc = la_payAmount args"
    "deliverableType esc = la_deliverableType args" "payType esc = la_payType args"
    "seller esc = sellerAddress args" "escrow_buyer esc = la_buyer args"
proof -
  have "parseTypeArg (packageId cfg @ ''::m1n3_confidential_otc::Escrow'' @ ''<'' @ la_deliverableType args @ '', ''
      @ la_payType args @ ''>'') 0 = la_deliverableType args"
    "parseTypeArg (packageId cfg @ ''::m1n3_confidential_otc::Escrow'' @ ''<'' @ la_deliverableType args @ '', ''
      @ la_payType args @ ''>'') 1 = la_payType args"
    using parseTypeArg_escrow [of "packageId cfg @ ''::m1n3_confidential_otc::Escrow''" "la_deliverableType args"
        "la_payType args"] assms(3-5) by (simp_all add: plain_type_def)
  then show ?thesis
    using assms(1,2,6,7) BigInt_int_to_string
    by (intro that) (auto simp: useEscrow_def locked_object_def Let_def big_member_def or_default_def obj_get_def str_member_def)
qed

text \<open>
  C7: A trade reaches its buyer. When the seller presses the button on a valid form and the lock
  succeeds, the page shows a link whose parameter survives the address bar unchanged; opening it
  shows the landing page of exactly the escrow that was created, which reads back the amounts and
  the coin types of the form; the buyer of the form is offered the settlement and the seller the
  cancellation.
\<close>

theorem otc_trade_reaches_buyer:
  assumes "draft_valid d" "\<not> ds_busy st"
    and "dr_account d = Some account" "dr_sellAsset d = Some sell" "dr_payAsset d = Some pay"
    and "parseAmount (dr_sellAmount d) (asset_decimals sell) = Some s" "0 \<le> s"
    and "parseAmount (dr_payAmount d) (asset_decimals pay) = Some p" "0 \<le> p"
    and "useLockEscrow (Some cfg) client (lock_request account sell pay s p d) = Inr (eid, dg)" "eid \<noteq> []"
    and "getObject eid = Inr (Some (locked_object cfg (lock_request account sell pay s p d)))"
    and "CHR ''<'' \<notin> set (packageId cfg)" "plain_type (coinType sell)" "plain_type (coinType pay)"
    and "t = \<lparr>link_escrowId = eid, sellAsset = coinType sell, payAsset = coinType pay\<rparr>"
    and "parse (stringify (link_json t)) = Some (link_json t)"
    and "list_all scalar_value (stringify (link_json t))" "stringify (link_json t) \<noteq> []"
  shows "\<exists>link esc. shareUrl (press_lock (Some cfg) client stringify origin d st) = Some (origin @ ''/otc?link='' @ link)
    \<and> list_all query_char link
    \<and> otc_shell (Some cfg) parse (Some link) None = CounterSign eid
    \<and> useEscrow decodeText getObject eid = Inr (Some esc)
    \<and> deliverableAmount esc = s \<and> payAmount esc = p
    \<and> deliverableType esc = coinType sell \<and> payType esc = coinType pay
    \<and> SettlePanel \<in> set (counter_panels (Some (trim (dr_buyer d))) esc)
    \<and> CancelPanel \<in> set (counter_panels (Some account) esc)"
proof -
  let ?args = "lock_request account sell pay s p d"
  obtain c cs where "stringify (link_json t) = c # cs" using assms(19) by (cases "stringify (link_json t)") auto
  then obtain bin where bin: "utf8_encode (stringify (link_json t)) = Some bin" "bin \<noteq> []"
    using assms(18) utf8_char_nonempty by (auto simp: utf8_encode_def)
  define link where "link = strip_equals (map url_safe (btoa bin))"
  have enc: "encodeOtcLink stringify t = Some link" using bin by (simp add: encodeOtcLink_def link_def)
  have dec: "decodeOtcLink parse link = Some (link_json t)"
    using decode_link_text [of stringify t bin parse] bin(1) assms(17) by (simp add: link_def)
  have link: "list_all query_char link" "link \<noteq> []" using link_query_chars [of bin] bin(2) by (simp_all add: link_def)
  have acc: "account \<noteq> []" and buyer: "trim (dr_buyer d) \<noteq> []"
    using assms(1,3) by (auto simp: draft_valid_def truthy_text_def is_sui_address_def startsWith_def)
  obtain esc where esc: "useEscrow decodeText getObject eid = Inr (Some esc)"
    "deliverableAmount esc = s" "payAmount esc = p" "deliverableType esc = coinType sell" "payType esc = coinType pay"
    "seller esc = account" "escrow_buyer esc = trim (dr_buyer d)"
    by (rule read_locked [of eid getObject cfg ?args decodeText]) (use assms(7,9,11-15) in \<open>simp_all add: lock_request_def\<close>)
  have "otc_shell (Some cfg) parse (Some link) None = CounterSign eid"
    using dec link(2) assms(16) by (simp add: otc_shell_def truthy_text_def link_json_def obj_get_def str_member_def)
  moreover have "shareUrl (press_lock (Some cfg) client stringify origin d st) = Some (origin @ ''/otc?link='' @ link)"
    using assms(1-6,8,10,16) acc enc by (simp add: press_lock_def onLock_def Let_def)
  moreover have "SettlePanel \<in> set (counter_panels (Some (trim (dr_buyer d))) esc)"
    "CancelPanel \<in> set (counter_panels (Some account) esc)"
    using buyer acc esc(6,7) by (simp_all add: counter_panels_def truthy_text_def isBuyer_def isSeller_def same_wallet_def)
  ultimately show ?thesis using link(1) esc by blast
qed

definition demo_otc_client :: escrow_client where
  "demo_otc_client =
     \<lparr>getCoins = \<lambda>_ _. Inr demo_coins,
      signAndExecute = \<lambda>_. Inr \<lparr>digest = ''d'', objectChanges =
        [\<lparr>change_type = ''created'', objectType = Some ''0x1::m1n3_confidential_otc::Escrow<A, B>'',
          change_objectId = ''0xe''\<rparr>]\<rparr>\<rparr>"

theorem otc_trade_reaches_buyer_witness:
  "\<exists>parse stringify link esc.
     shareUrl (press_lock (Some \<lparr>packageId = ''0x1'', dusdcCoinType = [], dusdcCapId = []\<rparr>) demo_otc_client stringify
       ''https://m1n3'' demo_draft \<lparr>ds_busy = False, ds_error = None, shareUrl = None, shareEscrowId = None, copied = False\<rparr>)
         = Some (''https://m1n3'' @ ''/otc?link='' @ link)
     \<and> otc_shell (Some \<lparr>packageId = ''0x1'', dusdcCoinType = [], dusdcCapId = []\<rparr>) parse (Some link) None = CounterSign ''0xe''
     \<and> deliverableAmount esc = 7 \<and> payAmount esc = 4000000
     \<and> SettlePanel \<in> set (counter_panels (Some (dr_buyer demo_draft)) esc)"
proof -
  let ?cfg = "\<lparr>packageId = ''0x1'', dusdcCoinType = [], dusdcCapId = []\<rparr>" and ?sell = "hash_share_asset ''0x1'' 0"
    and ?pay = "\<lparr>asset_symbol = ''DUSDC'', asset_decimals = 6, coinType = ''0x1::dusdc::DUSDC'', isQuote = True\<rparr>"
  let ?args = "lock_request ''0x5'' ?sell ?pay 7 4000000 demo_draft"
  let ?t = "\<lparr>link_escrowId = ''0xe'', sellAsset = coinType ?sell, payAsset = coinType ?pay\<rparr>"
  have d: "dr_account demo_draft = Some ''0x5''" "dr_sellAsset demo_draft = Some ?sell" "dr_payAsset demo_draft = Some ?pay"
    "trim (dr_buyer demo_draft) = dr_buyer demo_draft"
    by (simp_all add: demo_draft_def trim_def js_space_def numeral_eq_Suc)
  have s: "parseAmount (dr_sellAmount demo_draft) (asset_decimals ?sell) = Some 7"
    using parseAmount_parts [OF split_decimal_whole, of "''7''" 0 "[]"]
    by (simp add: demo_draft_def hash_share_asset_def Let_def char_defs digits_val_def)
  have "replicate 6 (CHR ''0'') = ''000000''" by (simp add: numeral_eq_Suc)
  then have p: "parseAmount (dr_payAmount demo_draft) (asset_decimals ?pay) = Some 4000000"
    using parseAmount_parts [OF split_decimal_whole, of "''4''" 6 "''000000''"]
    by (simp add: demo_draft_def char_defs digits_val_def)
  have l: "useLockEscrow (Some ?cfg) demo_otc_client ?args = Inr (''0xe'', ''d'')"
    using coin_total_ok [OF demo_coins_ok(2), of 0]
    by (simp add: useLockEscrow_def demo_otc_client_def lock_tx_def merge_and_split_def demo_coins_ok(4) lock_request_def
        Let_def) (simp add: demo_coins_def is_escrow_change_def startsWith_def)
  have pt: "plain_type (coinType ?sell)" "plain_type (coinType ?pay)" by code_simp+
  let ?st = "\<lparr>ds_busy = False, ds_error = None, shareUrl = None, shareEscrowId = None, copied = False\<rparr>"
  have pre: "\<not> ds_busy ?st" "(0 :: int) \<le> 7" "(0 :: int) \<le> 4000000" "''0xe'' \<noteq> ([] :: string)" "CHR ''<'' \<notin> set (packageId ?cfg)"
    "list_all scalar_value [1]" "[1] \<noteq> ([] :: nat list)" by (simp_all add: scalar_value_def surrogate_def)
  obtain link esc where "shareUrl (press_lock (Some ?cfg) demo_otc_client (\<lambda>_. [1]) ''https://m1n3'' demo_draft ?st)
      = Some (''https://m1n3'' @ ''/otc?link='' @ link)"
    "otc_shell (Some ?cfg) (\<lambda>_. Some (link_json ?t)) (Some link) None = CounterSign ''0xe''"
    "deliverableAmount esc = 7" "payAmount esc = 4000000"
    "SettlePanel \<in> set (counter_panels (Some (trim (dr_buyer demo_draft))) esc)"
    using otc_trade_reaches_buyer [where getObject = "\<lambda>_. Inr (Some (locked_object ?cfg ?args))" and stringify = "\<lambda>_. [1]"
        and parse = "\<lambda>_. Some (link_json ?t)" and origin = "''https://m1n3''" and decodeText = "\<lambda>_. []",
        OF demo_draft_valid pre(1) d(1-3) s pre(2) p pre(3) l pre(4) refl pre(5) pt refl refl pre(6,7)] by blast
  then show ?thesis unfolding d(4) by blast
qed

end
