(* ===== verification/Hedge_Page.thy ===== *)
theory Hedge_Page
  imports Miner_Hedge Share_Market
begin

text \<open>
  Model of the hedge page: \<open>components/hedge/HedgeDashboard.tsx\<close> (the drop band of the simulator,
  the figures of the result panel, the placement of a strip and the summary of the open positions),
  \<open>components/hedge/PositionLadder.tsx\<close> and the manager creation of
  \<open>hooks/usePredictManager.ts\<close>. The wallet's signature is the parameter \<open>sign\<close>; the tooltip, the
  chart and the layout are not modelled.
\<close>

section \<open>The simulator\<close>

record band_choice =
  dropLo :: number
  dropHi :: number

definition initial_band :: band_choice where
  "initial_band = \<lparr>dropLo = Fin (2 / 1000), dropHi = Fin (8 / 1000)\<rparr>"

text \<open>The effect that runs when the suggestion changes: it replaces an untouched choice only.\<close>

definition on_suggestion :: "drop_band option \<Rightarrow> band_choice \<Rightarrow> band_choice" where
  "on_suggestion sug b =
     (case sug of
        Some s \<Rightarrow> if dropLo b = Fin (2 / 1000) \<and> dropHi b = Fin (8 / 1000)
                  then \<lparr>dropLo = band_lo s, dropHi = band_hi s\<rparr> else b
      | None \<Rightarrow> b)"

text \<open>The memoised result: \<open>None\<close> while the oracle state is not ready.\<close>

definition simulator_result :: "(nat \<Rightarrow> number) \<Rightarrow> hedge_env \<Rightarrow> band_choice \<Rightarrow> HedgeBuild option" where
  "simulator_result rnd e b =
     (if build_ready e
      then (case (env_state e, env_svi e) of
              (Some st, Some svi) \<Rightarrow> build_hedge rnd e st svi (dropLo b) (dropHi b)
            | _ \<Rightarrow> None)
      else None)"

datatype simulator_view = ResultPanels HedgeSummary | BandOutOfRange | WaitingForOracle

definition simulator_view_of :: "HedgeBuild option \<Rightarrow> simulator_view" where
  "simulator_view_of r =
     (case r of
        None \<Rightarrow> WaitingForOracle
      | Some b \<Rightarrow>
          (case hb_summary b of
             Some sm \<Rightarrow> ResultPanels sm
           | None \<Rightarrow> if length (hb_strip b) = 0 then BandOutOfRange else WaitingForOracle))"

text \<open>The figures of the result panel and the two checks it displays.\<close>

definition sigmaReductionPct :: "SimulationSummary \<Rightarrow> number" where
  "sigmaReductionPct s =
     (if 0 < unhedgedStdev s then ((unhedgedStdev s - hedgedStdev s) / unhedgedStdev s) * 100 else 0)"

definition tailLiftUsd :: "SimulationSummary \<Rightarrow> number" where
  "tailLiftUsd s = hedgedP05 s - unhedgedP05 s"

definition variancePass :: "SimulationSummary \<Rightarrow> bool" where
  "variancePass s = (hedgedStdev s < unhedgedStdev s)"

definition tailPass :: "SimulationSummary \<Rightarrow> bool" where
  "tailPass s = (unhedgedP05 s < hedgedP05 s)"

section \<open>The manager\<close>

datatype manager_error = ManagerNotDeployed | NoWallet | ManagerRejected string

definition create_manager_tx :: "PredictConfig \<Rightarrow> tx" where
  "create_manager_tx cfg = [MoveCall (packageId cfg @ ''::predict::create_manager'') [] []]"

text \<open>The digest, and the transactions handed to the wallet.\<close>

definition createManager ::
  "PredictConfig option \<Rightarrow> string option \<Rightarrow> (tx \<Rightarrow> string + string) \<Rightarrow> (manager_error + string) \<times> tx list"
where
  "createManager cfg address sign =
     (case cfg of
        None \<Rightarrow> (Inl ManagerNotDeployed, [])
      | Some c \<Rightarrow>
          (case address of
             None \<Rightarrow> (Inl NoWallet, [])
           | Some a \<Rightarrow>
               if a = [] then (Inl NoWallet, [])
               else let t = create_manager_tx c
                    in (case sign t of Inl msg \<Rightarrow> Inl (ManagerRejected msg) | Inr d \<Rightarrow> Inr d, [t])))"

section \<open>Placing a hedge\<close>

text \<open>The premium with the slippage buffer, in base units of the quote coin.\<close>

definition hedge_cost :: "number \<Rightarrow> number" where
  "hedge_cost premium = Math_ceil (Math_max (premium * Fin (115 / 100)) premium * 1000000)"

definition dusdc_token :: "string \<Rightarrow> QuoteToken option" where
  "dusdc_token net =
     (case activePredictQuote (findQuoteToken (activeNetwork net)) net of
        Some q \<Rightarrow> findQuoteToken (activeNetwork net) (symbol q)
      | None \<Rightarrow> None)"

text \<open>\<open>BigInt\<close> of a number, also the first step of \<open>tx.pure.u64\<close>: it throws for a fraction.\<close>

definition u64_of :: "number \<Rightarrow> int option" where
  "u64_of x = BigInt_json (\<lambda>_. []) (JNum x)"

definition range_key_call :: "PredictConfig \<Rightarrow> string \<Rightarrow> int \<Rightarrow> int \<Rightarrow> int \<Rightarrow> command" where
  "range_key_call cfg oracle ex lo hi =
     MoveCall (packageId cfg @ ''::range_key::new'') []
       [PureAddress oracle, PureU64 ex, PureU64 lo, PureU64 hi]"

definition mint_range_call :: "PredictConfig \<Rightarrow> string \<Rightarrow> string \<Rightarrow> string \<Rightarrow> tx_arg \<Rightarrow> int \<Rightarrow> command" where
  "mint_range_call cfg quoteType managerId oracle key units =
     MoveCall (packageId cfg @ ''::predict::mint_range'') [quoteType]
       [ObjArg (predictObjectId cfg), ObjArg managerId, ObjArg oracle, key, PureU64 units, ObjArg ''0x6'']"

text \<open>The loop over the strip; \<open>n\<close> is the position of the next command.\<close>

fun mint_calls ::
  "PredictConfig \<Rightarrow> string \<Rightarrow> string \<Rightarrow> string \<Rightarrow> number \<Rightarrow> nat \<Rightarrow> HedgeRange list \<Rightarrow> tx option"
where
  "mint_calls cfg quoteType managerId oracle expiryMs n [] = Some []"
| "mint_calls cfg quoteType managerId oracle expiryMs n (r # rs) =
     (case (u64_of expiryMs, u64_of (lowerStrikeRaw r), u64_of (higherStrikeRaw r),
            u64_of (Math_ceil (quantity r * 1000000))) of
        (Some ex, Some lo, Some hi, Some units) \<Rightarrow>
          map_option (\<lambda>t. range_key_call cfg oracle ex lo hi # mint_range_call cfg quoteType managerId oracle (Res n 0) units # t)
            (mint_calls cfg quoteType managerId oracle expiryMs (n + 2) rs)
      | _ \<Rightarrow> None)"

datatype place_error =
    NotReady
  | StripEmpty
  | ManagerCreated
  | ManagerFailed manager_error
  | NeedFunds int int
  | NoQuoteCoin
  | BadInteger
  | Rejected string

definition deposit_call :: "PredictConfig \<Rightarrow> string \<Rightarrow> string \<Rightarrow> tx_arg \<Rightarrow> command" where
  "deposit_call cfg quoteType managerId premiumCoin =
     MoveCall (packageId cfg @ ''::predict_manager::deposit'') [quoteType] [ObjArg managerId, premiumCoin]"

definition place_tx ::
  "PredictConfig \<Rightarrow> string \<Rightarrow> string list \<Rightarrow> int \<Rightarrow> string \<Rightarrow> string \<Rightarrow> number \<Rightarrow> HedgeRange list \<Rightarrow> place_error + tx"
where
  "place_tx cfg quoteType ids cost managerId oracle expiryMs strip =
     (case ids of
        [] \<Rightarrow> Inl NoQuoteCoin
      | first # rest \<Rightarrow>
          (case merge_split first rest cost of (t, premiumCoin) \<Rightarrow>
             let t1 = t @ [deposit_call cfg quoteType managerId premiumCoin] in
             (case mint_calls cfg quoteType managerId oracle expiryMs (length t1) strip of
                None \<Rightarrow> Inl BadInteger
              | Some ms \<Rightarrow> Inr (t1 @ ms))))"

record placement =
  pl_strip :: "HedgeRange list"
  pl_premiumUsd :: number
  pl_expiryMs :: number
  pl_account :: "string option"
  pl_managerId :: "string option"
  pl_oracleId :: "string option"
  pl_coins :: quote_coins

record placed =
  submitted :: "tx list"
  placed_last :: "place_error + string"
  refetched :: bool

definition place_fail :: "place_error \<Rightarrow> placed" where
  "place_fail err = \<lparr>submitted = [], placed_last = Inl err, refetched = False\<rparr>"

definition truthy_id :: "string option \<Rightarrow> string option" where
  "truthy_id x = (case x of Some s \<Rightarrow> if s = [] then None else Some s | None \<Rightarrow> None)"

definition place :: "string \<Rightarrow> (tx \<Rightarrow> string + string) \<Rightarrow> placement \<Rightarrow> placed" where
  "place net sign p =
     (case (activePredictConfig net, dusdc_token net, pl_account p, truthy_id (pl_oracleId p)) of
        (Some cfg, Some dusdc, Some addr, Some oracle) \<Rightarrow>
          if length (pl_strip p) = 0 then place_fail StripEmpty
          else (case truthy_id (pl_managerId p) of
            None \<Rightarrow>
              (case createManager (Some cfg) (Some addr) sign of
                 (Inl err, ts) \<Rightarrow> \<lparr>submitted = ts, placed_last = Inl (ManagerFailed err), refetched = False\<rparr>
               | (Inr _, ts) \<Rightarrow> \<lparr>submitted = ts, placed_last = Inl ManagerCreated, refetched = True\<rparr>)
          | Some managerId \<Rightarrow>
              (case u64_of (hedge_cost (pl_premiumUsd p)) of
                 None \<Rightarrow> place_fail BadInteger
               | Some cost \<Rightarrow>
                   if qc_balance (pl_coins p) < cost
                   then place_fail (NeedFunds cost (qc_balance (pl_coins p)))
                   else (case place_tx cfg (coin_type dusdc) (qc_ids (pl_coins p)) cost managerId oracle
                                (pl_expiryMs p) (pl_strip p) of
                           Inl err \<Rightarrow> place_fail err
                         | Inr t \<Rightarrow>
                             (case sign t of
                                Inl msg \<Rightarrow> \<lparr>submitted = [t], placed_last = Inl (Rejected msg), refetched = False\<rparr>
                              | Inr digest \<Rightarrow> \<lparr>submitted = [t], placed_last = Inr digest, refetched = True\<rparr>))))
      | _ \<Rightarrow> place_fail NotReady)"

datatype place_label = ConnectWallet | CreateAndPlace | PlaceHedge number

definition ctaLabel :: "placement \<Rightarrow> PredictManagerSummary option \<Rightarrow> place_label" where
  "ctaLabel p manager =
     (case pl_account p of
        None \<Rightarrow> ConnectWallet
      | Some _ \<Rightarrow> if manager = None then CreateAndPlace else PlaceHedge (hedge_cost (pl_premiumUsd p) / 1000000))"

definition place_disabled :: "bool \<Rightarrow> placement \<Rightarrow> bool" where
  "place_disabled isPending p = (isPending \<or> length (pl_strip p) = 0 \<or> pl_account p = None)"

section \<open>Open positions\<close>

record range_position =
  rp_oracle_id :: string
  lower_strike :: number
  higher_strike :: number
  rp_quantity :: string

definition in_money :: "number \<Rightarrow> number \<Rightarrow> number \<Rightarrow> bool" where
  "in_money sp lo hi = (lo \<le> sp \<and> sp < hi)"

definition position_step :: "number \<Rightarrow> number \<times> number \<Rightarrow> range_position \<Rightarrow> number \<times> number" where
  "position_step sp acc r =
     (let lo = strikeToUsd (JNum (lower_strike r));
          hi = strikeToUsd (JNum (higher_strike r));
          q = Number_str (rp_quantity r) / 1000000;
          totalQty = snd acc + q
      in (if in_money sp lo hi then fst acc + q else fst acc, totalQty))"

text \<open>The live payoff and the total quantity shown above the ladder.\<close>

definition positions_totals :: "number \<Rightarrow> range_position list \<Rightarrow> number \<times> number" where
  "positions_totals sp ranges = foldl (position_step sp) (0, 0) ranges"

definition position_strip :: "range_position list \<Rightarrow> HedgeRange list" where
  "position_strip ranges =
     map (\<lambda>r. \<lparr>lowerStrikeRaw = lower_strike r, higherStrikeRaw = higher_strike r,
               quantity = Number_str (rp_quantity r) / 1000000\<rparr>) ranges"

definition positions_curve :: "number \<Rightarrow> number \<Rightarrow> range_position list \<Rightarrow> PayoffPoint list" where
  "positions_curve q sp ranges =
     (if 0 < q \<and> 0 < sp
      then buildPayoffCurve (position_strip ranges) q 0 sp (Fin (12 / 100)) (Fin (6 / 100)) 140 else [])"

section \<open>The ladder\<close>

record Rung =
  rung_lo :: number
  rung_hi :: number
  rung_qty :: number
  inMoney :: bool

definition ladder_rung :: "number \<Rightarrow> number \<Rightarrow> range_position \<Rightarrow> Rung" where
  "ladder_rung sp scale x =
     (let lo = strikeToUsd (JNum (lower_strike x)); hi = strikeToUsd (JNum (higher_strike x))
      in \<lparr>rung_lo = lo, rung_hi = hi, rung_qty = Number_str (rp_quantity x) / scale, inMoney = in_money sp lo hi\<rparr>)"

definition ladder_rungs :: "number \<Rightarrow> number \<Rightarrow> range_position list \<Rightarrow> Rung list" where
  "ladder_rungs sp scale ranges = js_sort (\<lambda>a b. rung_hi b - rung_hi a) (map (ladder_rung sp scale) ranges)"

definition ladder_max :: "Rung list \<Rightarrow> number" where
  "ladder_max r = (let m = foldl (\<lambda>m x. Math_max m (rung_qty x)) 0 r in if falsy m then 1 else m)"

text \<open>The index of the first rung that lies below the spot, or the length of the ladder.\<close>

fun spot_scan :: "number \<Rightarrow> nat \<Rightarrow> Rung list \<Rightarrow> nat" where
  "spot_scan sp i [] = i"
| "spot_scan sp i (x # xs) = (if rung_hi x \<le> sp then i else spot_scan sp (i + 1) xs)"

definition spotIndex :: "number \<Rightarrow> Rung list \<Rightarrow> nat" where
  "spotIndex sp r = spot_scan sp 0 r"

definition bar_width :: "number \<Rightarrow> Rung \<Rightarrow> number" where
  "bar_width maxQty rung = Math_max 4 ((rung_qty rung / maxQty) * 100)"

section \<open>What a placement mints\<close>

text \<open>
  The ranges a transaction mints: every \<open>mint_range\<close> call with the key that the named earlier
  command creates.
\<close>

record minted_range =
  mr_oracle :: string
  mr_expiry :: int
  mr_lower :: int
  mr_higher :: int
  mr_units :: int

definition key_of :: "PredictConfig \<Rightarrow> command \<Rightarrow> (string \<times> int \<times> int \<times> int) option" where
  "key_of cfg c =
     (case c of
        MoveCall tgt _ [PureAddress oracle, PureU64 ex, PureU64 lo, PureU64 hi] \<Rightarrow>
          if tgt = packageId cfg @ ''::range_key::new'' then Some (oracle, ex, lo, hi) else None
      | _ \<Rightarrow> None)"

definition minted_at :: "PredictConfig \<Rightarrow> tx \<Rightarrow> command \<Rightarrow> minted_range list" where
  "minted_at cfg full c =
     (case c of
        MoveCall tgt _ [_, _, _, Res i _, PureU64 units, _] \<Rightarrow>
          if tgt = packageId cfg @ ''::predict::mint_range'' \<and> i < length full
          then (case key_of cfg (full ! i) of
                  Some (oracle, ex, lo, hi) \<Rightarrow>
                    [\<lparr>mr_oracle = oracle, mr_expiry = ex, mr_lower = lo, mr_higher = hi, mr_units = units\<rparr>]
                | None \<Rightarrow> [])
          else []
      | _ \<Rightarrow> [])"

definition minted :: "PredictConfig \<Rightarrow> tx \<Rightarrow> minted_range list" where
  "minted cfg t = concat (map (minted_at cfg t) t)"

definition range_units :: "HedgeRange \<Rightarrow> int" where
  "range_units r = the (u64_of (Math_ceil (quantity r * 1000000)))"

definition ordered_range :: "string \<Rightarrow> int \<Rightarrow> HedgeRange \<Rightarrow> minted_range" where
  "ordered_range oracle ex r =
     \<lparr>mr_oracle = oracle, mr_expiry = ex, mr_lower = the (u64_of (lowerStrikeRaw r)),
      mr_higher = the (u64_of (higherStrikeRaw r)), mr_units = range_units r\<rparr>"

definition whole_range :: "HedgeRange \<Rightarrow> bool" where
  "whole_range r =
     (u64_of (lowerStrikeRaw r) \<noteq> None \<and> u64_of (higherStrikeRaw r) \<noteq> None \<and> isFinite (quantity r))"

lemma u64_of_int [simp]: "u64_of (Fin (of_int n)) = Some n"
  by (simp add: u64_of_def)

lemma u64_of_SomeE:
  assumes "u64_of x = Some n" obtains "x = Fin (of_int n)"
  using assms by (cases x) (auto simp: u64_of_def split: if_splits)

lemma u64_of_units: "isFinite (quantity r) \<Longrightarrow> u64_of (Math_ceil (quantity r * 1000000)) = Some (range_units r)"
  by (auto simp: isFinite_iff range_units_def)

lemma mint_calls_Cons:
  assumes "whole_range r" "u64_of expiryMs = Some ex"
  shows "mint_calls cfg qt mid oracle expiryMs n (r # rs) =
    map_option (\<lambda>t. range_key_call cfg oracle ex (the (u64_of (lowerStrikeRaw r))) (the (u64_of (higherStrikeRaw r)))
        # mint_range_call cfg qt mid oracle (Res n 0) (range_units r) # t)
      (mint_calls cfg qt mid oracle expiryMs (n + 2) rs)"
  using assms u64_of_units [of r] by (auto simp: whole_range_def)

lemma mint_calls_exact:
  assumes "list_all whole_range strip" "u64_of expiryMs = Some ex"
  shows "\<exists>ms. mint_calls cfg qt mid oracle expiryMs (length pre) strip = Some ms
    \<and> concat (map (minted_at cfg (pre @ ms)) ms) = map (ordered_range oracle ex) strip
    \<and> (\<forall>n m. (\<forall>a \<in> {ObjArg (predictObjectId cfg), ObjArg mid, ObjArg oracle, ObjArg ''0x6''}. m a = None)
           \<longrightarrow> (\<forall>i j. m (Res i j) = None) \<longrightarrow> m \<circ> PureU64 = Map.empty \<longrightarrow> m \<circ> PureAddress = Map.empty
           \<longrightarrow> run_tx n ms m = Some m \<and> (\<exists>tr. call_trace n ms m = Some tr \<and> list_all (\<lambda>v. cv_paid v = []) tr))"
  using assms(1)
proof (induction strip arbitrary: pre)
  case Nil
  show ?case by simp
next
  case (Cons r rs)
  let ?k = "range_key_call cfg oracle ex (the (u64_of (lowerStrikeRaw r))) (the (u64_of (higherStrikeRaw r)))"
  let ?c = "mint_range_call cfg qt mid oracle (Res (length pre) 0) (range_units r)"
  have r: "whole_range r" "list_all whole_range rs" using Cons.prems by auto
  obtain ms where ms: "mint_calls cfg qt mid oracle expiryMs (length (pre @ [?k, ?c])) rs = Some ms"
    "concat (map (minted_at cfg ((pre @ [?k, ?c]) @ ms)) ms) = map (ordered_range oracle ex) rs"
    and run: "\<And>n m. (\<forall>a \<in> {ObjArg (predictObjectId cfg), ObjArg mid, ObjArg oracle, ObjArg ''0x6''}. m a = None)
           \<Longrightarrow> (\<forall>i j. m (Res i j) = None) \<Longrightarrow> m \<circ> PureU64 = Map.empty \<Longrightarrow> m \<circ> PureAddress = Map.empty
           \<Longrightarrow> run_tx n ms m = Some m \<and> (\<exists>tr. call_trace n ms m = Some tr \<and> list_all (\<lambda>v. cv_paid v = []) tr)"
    using Cons.IH [OF r(2), of "pre @ [?k, ?c]"] by blast
  have at: "minted_at cfg (pre @ ?k # ?c # ms) ?k = []"
    "minted_at cfg (pre @ ?k # ?c # ms) ?c = [ordered_range oracle ex r]"
    by (simp_all add: minted_at_def range_key_call_def mint_range_call_def key_of_def ordered_range_def nth_append)
  show ?case
  proof (intro exI [of _ "?k # ?c # ms"] conjI allI impI)
    show "mint_calls cfg qt mid oracle expiryMs (length pre) (r # rs) = Some (?k # ?c # ms)"
      using ms(1) by (simp add: mint_calls_Cons [OF r(1) assms(2)] del: mint_calls.simps(2))
    show "concat (map (minted_at cfg (pre @ ?k # ?c # ms)) (?k # ?c # ms)) = map (ordered_range oracle ex) (r # rs)"
      using ms(2) by (simp add: at)
    fix n and m :: purse
    assume m: "\<forall>a \<in> {ObjArg (predictObjectId cfg), ObjArg mid, ObjArg oracle, ObjArg ''0x6''}. m a = None"
      "\<forall>i j. m (Res i j) = None" "m \<circ> PureU64 = Map.empty" "m \<circ> PureAddress = Map.empty"
    have none: "m (PureU64 x) = None" "m (PureAddress y) = None" for x y
      using m(3,4) by (metis comp_apply)+
    have k: "run_command i ?k m = Some m" "run_command i ?c m = Some m" for i
      using m none by (auto simp: run_command_def range_key_call_def mint_range_call_def fun_eq_iff)
    have v: "cv_paid (view_call t ty args m) = []"
      if "MoveCall t ty args \<in> {?k, ?c}" for t ty args
      using that m none by (auto simp: view_call_def range_key_call_def mint_range_call_def)
    show "run_tx n (?k # ?c # ms) m = Some m"
      using run [OF m] k by simp
    obtain tr where tr: "call_trace (Suc (Suc n)) ms m = Some tr" "list_all (\<lambda>v. cv_paid v = []) tr"
      using run [OF m] by blast
    show "\<exists>tr. call_trace n (?k # ?c # ms) m = Some tr \<and> list_all (\<lambda>v. cv_paid v = []) tr"
      using tr k v by (simp add: range_key_call_def mint_range_call_def)
  qed
qed

lemma minted_prefix:
  assumes "list_all (\<lambda>c. case c of MoveCall tgt _ _ \<Rightarrow> tgt \<noteq> packageId cfg @ ''::predict::mint_range'' | _ \<Rightarrow> True) pre"
  shows "minted cfg (pre @ ms) = concat (map (minted_at cfg (pre @ ms)) ms)"
proof -
  have "minted_at cfg full c = []" if "c \<in> set pre" for c full
    using assms that by (fastforce simp: list_all_iff minted_at_def split: command.splits list.splits tx_arg.splits)
  then show ?thesis by (simp add: minted_def)
qed


section \<open>Whole strikes\<close>

lemma Ints_whole: "x \<in> \<int> \<Longrightarrow> u64_of (Fin x) \<noteq> None"
  by (auto elim: Ints_cases)

lemma strip_bins_whole:
  assumes "b \<in> \<int>" "t \<in> \<int>" "l \<in> \<int>"
  shows "list_all whole_range (strip_bins q b t l n)"
proof -
  have "l + real i * b \<in> \<int>" for i using assms by (intro Ints_add Ints_mult) auto
  moreover have "min (l + real (Suc i) * b) t \<in> \<int>" for i
    using assms by (auto simp: min_def simp del: of_nat_Suc intro!: Ints_add Ints_mult)
  ultimately show ?thesis
    by (auto simp: strip_bins_def strip_range_def whole_range_def list_all_iff dest!: Ints_whole simp del: of_nat_Suc)
qed

lemma strip_bounds_whole:
  assumes "spot i = Fin s" "dropBandLo i = Fin l" "dropBandHi i = Fin h"
    and "tickSizeRaw i = Fin k" "0 < k" "minStrikeRaw i = Fin (of_int ms)"
  obtains t f where "strip_top i = Fin t" "strip_floor i = Fin f" "t \<in> \<int>" "f \<in> \<int>"
  using assms
  by (auto simp: strip_top_def strip_floor_def Let_def usdToStrike_def spotToTick_def STRIKE_SCALAR_def min_def max_def
        split: if_splits)

lemma built_strip:
  assumes "buildHedgeStrip i = Some strip" "strip \<noteq> []"
    and "qBtc i = Fin q" "spot i = Fin s" "dropBandLo i = Fin l" "dropBandHi i = Fin h"
    and "tickSizeRaw i = Fin (of_int k)" "0 < k" "minStrikeRaw i = Fin (of_int ms)"
  shows "\<exists>f t. tiles q f t strip \<and> 0 < q \<and> list_all whole_range strip"
proof -
  obtain t f where tf: "strip_top i = Fin t" "strip_floor i = Fin f" "t \<in> \<int>" "f \<in> \<int>"
    using strip_bounds_whole [OF assms(4-7) _ assms(9)] assms(8) by auto
  have g: "0 < q" "0 < s" "0 \<le> l" "l < h" "f < t"
    using assms tf by (auto simp: buildHedgeStrip_def Let_def split: if_splits)
  let ?b = "max (of_int k) (of_int \<lfloor>(t - f) / 8 / of_int k\<rfloor> * of_int k) :: real"
  have k: "0 < real_of_int k" using assms(8) by simp
  have b: "0 < ?b" "?b \<in> \<int>" using k by (auto simp: max_def)
  have "buildHedgeStrip i = Some (strip_bins q ?b t f (nat \<lceil>(t - f) / ?b\<rceil>))"
    using assms tf g k strip_loop_closed_form [OF b(1) g(1), of t f "[]"]
    by (simp add: buildHedgeStrip_def Let_def min_bin_finite)
  with assms(1) have "strip = strip_bins q ?b t f (nat \<lceil>(t - f) / ?b\<rceil>)" by (simp only: option.inject)
  then have "list_all whole_range strip" using strip_bins_whole [OF b(2) tf(3,4)] by (simp only:)
  moreover have "tiles q f t strip"
    using buildHedgeStrip_tiles [OF assms(3) g(1) assms(4) g(2) assms(5,6) g(3,4) assms(7) k tf(1,2) g(5)] assms(1) by auto
  ultimately show ?thesis using g(1) by blast
qed

section \<open>A placement is exact\<close>

lemma hedge_cost_Fin: "0 \<le> p \<Longrightarrow> hedge_cost (Fin p) = Fin (of_int \<lceil>p * (115 / 100) * 1000000\<rceil>)"
  by (simp add: hedge_cost_def max_def)

lemma place_tx_run:
  assumes "distinct (map coinObjectId cs)" "cs \<noteq> []" "0 \<le> cost" "cost \<le> wallet_total cs"
    and "list_all whole_range strip" "u64_of expiryMs = Some ex"
    and "list_all (\<lambda>c. coinObjectId c \<notin> {predictObjectId cfg, mid, oracle, ''0x6''}) cs"
  shows "\<exists>t tr. place_tx cfg qt (map coinObjectId cs) cost mid oracle expiryMs strip = Inr t
    \<and> run_tx 0 t (wallet cs) = Some [ObjArg (coinObjectId (hd cs)) \<mapsto> wallet_total cs - cost]
    \<and> call_trace 0 t (wallet cs) = Some (\<lparr>cv_target = packageId cfg @ ''::predict_manager::deposit'',
         cv_types = [qt], cv_objects = [mid], cv_numbers = [], cv_paid = [cost]\<rparr> # tr)
    \<and> list_all (\<lambda>v. cv_paid v = []) tr
    \<and> minted cfg t = map (ordered_range oracle ex) strip"
proof -
  obtain first rest where ids: "map coinObjectId cs = first # rest" and first: "first = coinObjectId (hd cs)"
    using assms(2) by (cases cs) auto
  have free: "first \<notin> {predictObjectId cfg, mid, oracle, ''0x6''}"
    using assms(2,7) first by (cases cs) auto
  then have "mid \<noteq> first" by auto
  let ?n = "length (merge_ids first rest)"
  let ?pre = "merge_ids first rest @ [SplitCoins (ObjArg first) [cost], deposit_call cfg qt mid (Res ?n 0)]"
  let ?m = "[ObjArg first \<mapsto> wallet_total cs - cost]"
  obtain ms where ms: "mint_calls cfg qt mid oracle expiryMs (length ?pre) strip = Some ms"
    "concat (map (minted_at cfg (?pre @ ms)) ms) = map (ordered_range oracle ex) strip"
    and run: "\<And>n m. (\<forall>a \<in> {ObjArg (predictObjectId cfg), ObjArg mid, ObjArg oracle, ObjArg ''0x6''}. m a = None)
           \<Longrightarrow> (\<forall>i j. m (Res i j) = None) \<Longrightarrow> m \<circ> PureU64 = Map.empty \<Longrightarrow> m \<circ> PureAddress = Map.empty
           \<Longrightarrow> run_tx n ms m = Some m \<and> (\<exists>tr. call_trace n ms m = Some tr \<and> list_all (\<lambda>v. cv_paid v = []) tr)"
    using mint_calls_exact [OF assms(5,6), of cfg qt mid "oracle" "?pre"] by blast
  have rest_run: "run_tx n ms ?m = Some ?m" "\<exists>tr. call_trace n ms ?m = Some tr \<and> list_all (\<lambda>v. cv_paid v = []) tr" for n
    using run [of ?m n] free by (auto simp: fun_eq_iff)
  let ?dep = "\<lparr>cv_target = packageId cfg @ ''::predict_manager::deposit'', cv_types = [qt], cv_objects = [mid],
    cv_numbers = [], cv_paid = [cost]\<rparr>"
  have split: "run_command ?n (SplitCoins (ObjArg first) [cost]) [ObjArg first \<mapsto> wallet_total cs]
      = Some [ObjArg first \<mapsto> wallet_total cs - cost, Res ?n 0 \<mapsto> cost]"
    using assms(3,4) by (auto simp: run_command_def fun_eq_iff split: tx_arg.split)
  have dep: "run_command k (deposit_call cfg qt mid (Res ?n 0)) [ObjArg first \<mapsto> wallet_total cs - cost, Res ?n 0 \<mapsto> cost] = Some ?m" for k
    using free by (auto simp: run_command_def deposit_call_def fun_eq_iff)
  have prefix_run: "run_tx 0 ?pre (wallet cs) = Some ?m" "call_trace 0 ?pre (wallet cs) = Some [?dep]"
    using merge_ids_run [OF assms(1) ids] split dep \<open>mid \<noteq> first\<close>
    by (simp_all add: run_tx_append call_trace_append deposit_call_def view_call_def)
  have "place_tx cfg qt (map coinObjectId cs) cost mid oracle expiryMs strip = Inr (?pre @ ms)"
    using ms(1) by (simp add: place_tx_def ids merge_split_def Let_def)
  moreover have "minted cfg (?pre @ ms) = map (ordered_range oracle ex) strip"
    using ms(2) by (subst minted_prefix) (auto simp: merge_ids_def deposit_call_def)
  ultimately show ?thesis
    using rest_run [of "length ?pre"] prefix_run unfolding first [symmetric]
    by (auto simp: run_tx_append call_trace_append simp del: append_assoc intro!: exI [of _ "?pre @ ms"])
qed


lemma dusdc_testnet: "\<exists>tok. dusdc_token ''testnet'' = Some tok"
proof -
  have "dusdc_token ''testnet'' \<noteq> None" by code_simp
  then show ?thesis by auto
qed

text \<open>
  C6: placing a simulated hedge is exact. For a strip the simulator built from whole-number oracle
  data, a wallet whose coins are distinct and cover the cost, and a manager and oracle that are not
  coins of the wallet, one click hands one transaction to the wallet. It deposits exactly the
  buffered premium, rounded up to a base unit and so at least 1.15 times the premium, leaves the
  rest in the first coin, spends nothing else, and mints exactly the ranges of the strip, in order,
  each with its own strikes and its quantity rounded up to a base unit.
\<close>

theorem placed_hedge_exact:
  assumes "simulator_result rnd e b = Some hb" "hb_strip hb \<noteq> []" "env_state e = Some st"
    and "mp_qBtc (revenue_projection e) = Fin q" "env_spot e = Fin s" "dropLo b = Fin l" "dropHi b = Fin h"
    and "tick_size (st_oracle st) = Fin (of_int k)" "0 < k" "min_strike (st_oracle st) = Fin (of_int ms)"
    and "expiry (st_oracle st) = Fin (of_int ex)"
    and "pl_strip p = hb_strip hb" "pl_premiumUsd p = totalPremiumUsd (hb_pricing hb)" "pl_expiryMs p = env_expiry e"
    and "pl_account p = Some a" "pl_managerId p = Some mid" "mid \<noteq> []" "pl_oracleId p = Some oid" "oid \<noteq> []"
    and "useQuoteCoins ct cs = Some (pl_coins p)" "distinct (map coinObjectId cs)" "cs \<noteq> []"
    and "hedge_cost (pl_premiumUsd p) \<le> Fin (of_int (wallet_total cs))"
    and "list_all (\<lambda>c. coinObjectId c \<notin> {predictObjectId TESTNET_PREDICT, mid, oid, ''0x6''}) cs"
  shows "\<exists>t c prem qt tr. submitted (place ''testnet'' sign p) = [t]
    \<and> placed_last (place ''testnet'' sign p) = (case sign t of Inl msg \<Rightarrow> Inl (Rejected msg) | Inr d \<Rightarrow> Inr d)
    \<and> pl_premiumUsd p = Fin prem \<and> 115 / 100 * prem \<le> of_int c / 1000000 \<and> of_int c / 1000000 < 115 / 100 * prem + 1 / 1000000
    \<and> run_tx 0 t (wallet cs) = Some [ObjArg (coinObjectId (hd cs)) \<mapsto> wallet_total cs - c]
    \<and> call_trace 0 t (wallet cs) = Some (\<lparr>cv_target = packageId TESTNET_PREDICT @ ''::predict_manager::deposit'',
         cv_types = [qt], cv_objects = [mid], cv_numbers = [], cv_paid = [c]\<rparr> # tr)
    \<and> list_all (\<lambda>v. cv_paid v = []) tr
    \<and> minted TESTNET_PREDICT t = map (ordered_range oid ex) (hb_strip hb)"
proof -
  obtain svi where svi: "env_svi e = Some svi" and bh: "build_hedge rnd e st svi (dropLo b) (dropHi b) = Some hb"
    using assms(1,3) by (auto simp: simulator_result_def build_ready_def split: if_splits)
  let ?i = "strip_inputs e st (dropLo b) (dropHi b)"
  have strip: "buildHedgeStrip ?i = Some (hb_strip hb)"
    and pricing: "hb_pricing hb = priceStripFromSvi (hb_strip hb) svi (env_forward e) (env_expiry e) (env_now e)"
    using bh assms(2) by (auto simp: build_hedge_def Let_def split: option.splits if_splits)
  obtain f t where tl: "tiles q f t (hb_strip hb)" "0 < q" "list_all whole_range (hb_strip hb)"
    using built_strip [OF strip assms(2), of q s l h k ms] assms(4-10) by (auto simp: strip_inputs_def)
  obtain prem where prem: "pl_premiumUsd p = Fin prem" "0 \<le> prem"
    using premium_bounds [OF tl(1)] tl(2) assms(13) pricing by fastforce
  let ?c = "\<lceil>prem * (115 / 100) * 1000000\<rceil>"
  note cost = hedge_cost_Fin [OF prem(2)]
  have c: "0 \<le> ?c" "?c \<le> wallet_total cs"
    using prem assms(23) by (simp_all add: cost del: ceiling_le_iff)
  have ex: "u64_of (pl_expiryMs p) = Some ex" using assms(3,11,14) by (simp add: env_expiry_def)
  obtain tok where tok: "dusdc_token ''testnet'' = Some tok" using dusdc_testnet by blast
  obtain tx tr where tx: "place_tx TESTNET_PREDICT (coin_type tok) (map coinObjectId cs) ?c mid oid (pl_expiryMs p) (pl_strip p) = Inr tx"
    and run: "run_tx 0 tx (wallet cs) = Some [ObjArg (coinObjectId (hd cs)) \<mapsto> wallet_total cs - ?c]"
    "call_trace 0 tx (wallet cs) = Some (\<lparr>cv_target = packageId TESTNET_PREDICT @ ''::predict_manager::deposit'',
         cv_types = [coin_type tok], cv_objects = [mid], cv_numbers = [], cv_paid = [?c]\<rparr> # tr)"
    "list_all (\<lambda>v. cv_paid v = []) tr" "minted TESTNET_PREDICT tx = map (ordered_range oid ex) (hb_strip hb)"
    using place_tx_run [OF assms(21,22) c tl(3) ex assms(24), of "coin_type tok"] unfolding assms(12) by blast
  have "submitted (place ''testnet'' sign p) = [tx]
      \<and> placed_last (place ''testnet'' sign p) = (case sign tx of Inl msg \<Rightarrow> Inl (Rejected msg) | Inr d \<Rightarrow> Inr d)"
    using assms(2,12,15-19) tok tx c useQuoteCoins_facts [OF assms(20)] prem cost
    by (simp add: place_def activePredictConfig_def truthy_id_def split: sum.split)
  moreover have "115 / 100 * prem \<le> of_int ?c / 1000000" "of_int ?c / 1000000 < 115 / 100 * prem + 1 / 1000000"
    using ceiling_correct [of "prem * (115 / 100) * 1000000"] by simp_all
  ultimately show ?thesis using prem(1) run by blast
qed

definition demo_hedge_coins :: "owned_coin list" where
  "demo_hedge_coins = [\<lparr>coinObjectId = ''0xc'', coin_balance = ''600000''\<rparr>, \<lparr>coinObjectId = ''0xd'', coin_balance = ''400000''\<rparr>]"

definition demo_placement :: "HedgeBuild \<Rightarrow> placement" where
  "demo_placement hb = \<lparr>pl_strip = hb_strip hb, pl_premiumUsd = totalPremiumUsd (hb_pricing hb),
     pl_expiryMs = env_expiry sample_env, pl_account = Some ''0xa'', pl_managerId = Some ''0xb'', pl_oracleId = Some ''0xe'',
     pl_coins = \<lparr>qc_coinType = ''DUSDC'', qc_ids = [''0xc'', ''0xd''], qc_balance = 1000000\<rparr>\<rparr>"

definition demo_band :: band_choice where
  "demo_band = \<lparr>dropLo = Fin 0, dropHi = Fin (15 / 100)\<rparr>"

lemma demo_coin_balances: "BigInt_str ''600000'' = Some 600000" "BigInt_str ''400000'' = Some 400000"
proof -
  have "BigInt_str s = Some (int (digits_val 10 s))" if "s \<in> {''600000'', ''400000''}" for s
    by (rule BigInt_str_digits) (use that in \<open>auto simp: all_digits_def is_digit_def digit_val_def\<close>)
  then show "BigInt_str ''600000'' = Some 600000" "BigInt_str ''400000'' = Some 400000"
    by (auto simp: digits_val_def digit_val_def)
qed

lemma demo_env:
  "env_state sample_env = Some sample_state" "env_svi sample_env = Some sample_svi" "env_spot sample_env = Fin 100"
  "tick_size (st_oracle sample_state) = Fin (of_int 1000000000)" "min_strike (st_oracle sample_state) = Fin (of_int 1000000000)"
  "expiry (st_oracle sample_state) = Fin (of_int 1800000)" "build_ready sample_env"
  by (simp_all add: env_svi_def env_spot_def sample_env_def sample_state_def sample_oracle_def build_ready_def)

lemma demo_build:
  obtains hb p where "simulator_result (\<lambda>_. Fin 0) sample_env demo_band = Some hb" "hb_strip hb \<noteq> []"
    "totalPremiumUsd (hb_pricing hb) = Fin p" "0 \<le> p" "p \<le> 1 / 2"
proof -
  let ?i = "strip_inputs sample_env sample_state (Fin 0) (Fin (15 / 100))"
  let ?q = "703125 / 67108864 :: real"
  have i: "qBtc ?i = Fin ?q" "spot ?i = Fin 100" "dropBandLo ?i = Fin 0" "dropBandHi ?i = Fin (15 / 100)"
    "tickSizeRaw ?i = Fin 1000000000" "minStrikeRaw ?i = Fin 1000000000"
    using demo_env sample_qBtc by (simp_all add: strip_inputs_def)
  have tf: "strip_top ?i = Fin 100000000000" "strip_floor ?i = Fin 85000000000"
    using i by (simp_all add: strip_top_def strip_floor_def usdToStrike_def spotToTick_def STRIKE_SCALAR_def Let_def)
  obtain strip where strip: "buildHedgeStrip ?i = Some strip" "tiles ?q 85000000000 100000000000 strip"
    using buildHedgeStrip_tiles [OF i(1) _ i(2) _ i(3,4) _ _ i(5) _ tf] by auto
  then have "strip \<noteq> []" by auto
  obtain p m where pm: "totalPremiumUsd (priceStripFromSvi strip sample_svi (env_forward sample_env) (env_expiry sample_env) (env_now sample_env)) = Fin p"
    "sum_num quantity strip = Fin m" "0 \<le> p" "p \<le> m"
    using premium_bounds [OF strip(2)] by fastforce
  have "m = ?q * 15" using sum_num_quantity_tiles [OF strip(2), of 0] pm(2) by (simp add: sum_num_def)
  then have "p \<le> 1 / 2" using pm(4) by simp
  moreover obtain hb where "simulator_result (\<lambda>_. Fin 0) sample_env demo_band = Some hb" "hb_strip hb = strip"
    "hb_pricing hb = priceStripFromSvi strip sample_svi (env_forward sample_env) (env_expiry sample_env) (env_now sample_env)"
    using strip(1) \<open>strip \<noteq> []\<close> demo_env by (simp add: simulator_result_def demo_band_def build_hedge_def Let_def)
  ultimately show ?thesis using pm \<open>strip \<noteq> []\<close> that by metis
qed

theorem placed_hedge_exact_witness:
  "\<exists>hb t c. simulator_result (\<lambda>_. Fin 0) sample_env demo_band = Some hb \<and> hb_strip hb \<noteq> []
     \<and> submitted (place ''testnet'' (\<lambda>_. Inr ''d'') (demo_placement hb)) = [t]
     \<and> placed_last (place ''testnet'' (\<lambda>_. Inr ''d'') (demo_placement hb)) = Inr ''d''
     \<and> run_tx 0 t (wallet demo_hedge_coins) = Some [ObjArg ''0xc'' \<mapsto> 1000000 - c]
     \<and> minted TESTNET_PREDICT t = map (ordered_range ''0xe'' 1800000) (hb_strip hb)"
proof -
  obtain hb p where hb: "simulator_result (\<lambda>_. Fin 0) sample_env demo_band = Some hb" "hb_strip hb \<noteq> []"
    "totalPremiumUsd (hb_pricing hb) = Fin p" "0 \<le> p" "p \<le> 1 / 2" by (rule demo_build)
  let ?p = "demo_placement hb"
  have w: "useQuoteCoins ''DUSDC'' demo_hedge_coins = Some (pl_coins ?p)" "distinct (map coinObjectId demo_hedge_coins)"
    "demo_hedge_coins \<noteq> []"
    by (simp_all add: demo_placement_def demo_hedge_coins_def useQuoteCoins_def demo_coin_balances)
  have w2: "wallet_total demo_hedge_coins = 1000000"
    "list_all (\<lambda>c. coinObjectId c \<notin> {predictObjectId TESTNET_PREDICT, ''0xb'', ''0xe'', ''0x6''}) demo_hedge_coins"
    by (simp_all add: wallet_total_def demo_hedge_coins_def demo_coin_balances TESTNET_PREDICT_def)
  have "\<lceil>p * (115 / 100) * 1000000\<rceil> \<le> 1000000" using hb(5) by (simp add: ceiling_le_iff)
  then have cost: "hedge_cost (pl_premiumUsd ?p) \<le> Fin (of_int (wallet_total demo_hedge_coins))"
    using hb(3,4) w2(1) hedge_cost_Fin [OF hb(4)] by (simp add: demo_placement_def del: ceiling_le_iff of_int_le_iff)
  have "\<exists>t c prem qt tr. submitted (place ''testnet'' (\<lambda>_. Inr ''d'') ?p) = [t]
    \<and> placed_last (place ''testnet'' (\<lambda>_. Inr ''d'') ?p) = (case Inr ''d'' of Inl msg \<Rightarrow> Inl (Rejected msg) | Inr d \<Rightarrow> Inr d)
    \<and> pl_premiumUsd ?p = Fin prem \<and> 115 / 100 * prem \<le> of_int c / 1000000 \<and> of_int c / 1000000 < 115 / 100 * prem + 1 / 1000000
    \<and> run_tx 0 t (wallet demo_hedge_coins) = Some [ObjArg (coinObjectId (hd demo_hedge_coins)) \<mapsto> wallet_total demo_hedge_coins - c]
    \<and> call_trace 0 t (wallet demo_hedge_coins) = Some (\<lparr>cv_target = packageId TESTNET_PREDICT @ ''::predict_manager::deposit'',
         cv_types = [qt], cv_objects = [''0xb''], cv_numbers = [], cv_paid = [c]\<rparr> # tr)
    \<and> list_all (\<lambda>v. cv_paid v = []) tr
    \<and> minted TESTNET_PREDICT t = map (ordered_range ''0xe'' 1800000) (hb_strip hb)"
    by (rule placed_hedge_exact [OF hb(1,2) demo_env(1) sample_qBtc demo_env(3) _ _ demo_env(4) _ demo_env(5,6) _ _ _ _ _ _ _ _ w cost w2(2),
          where l = 0 and h = "15 / 100" and a = "''0xa''"])
      (simp_all add: demo_band_def demo_placement_def)
  moreover have "coinObjectId (hd demo_hedge_coins) = ''0xc''" by (simp add: demo_hedge_coins_def)
  ultimately show ?thesis using hb(1,2) unfolding w2(1) sum.case by metis
qed

section \<open>What the page shows of it\<close>

text \<open>A minted range as the server lists it, with its quantity as decimal text.\<close>

definition listed_position :: "minted_range \<Rightarrow> range_position" where
  "listed_position m =
     \<lparr>rp_oracle_id = mr_oracle m, lower_strike = Fin (of_int (mr_lower m)), higher_strike = Fin (of_int (mr_higher m)),
      rp_quantity = int_to_string (mr_units m)\<rparr>"

lemma Number_str_int: "0 \<le> n \<Longrightarrow> Number_str (int_to_string n) = Fin (of_int n)"
proof -
  assume "0 \<le> n"
  then obtain k where k: "n = int k" by (rule nonneg_int_cases)
  have "all_digits (to_radix 10 k)" using to_radix_digits [of 10 k] by (simp add: all_digits_def list_all_iff)
  then show ?thesis by (simp add: k Number_str_digits)
qed

lemma listed_range:
  assumes "whole_range r" "lowerStrikeRaw r = Fin f" "higherStrikeRaw r = Fin m" "quantity r = Fin x" "0 < x"
  shows "position_step (Fin s) (Fin a, Fin b) (listed_position (ordered_range oid ex r))
      = (Fin (if f / 1000000000 \<le> s \<and> s < m / 1000000000 then a + of_int (range_units r) / 1000000 else a),
         Fin (b + of_int (range_units r) / 1000000))"
    and "x \<le> of_int (range_units r) / 1000000" "of_int (range_units r) / 1000000 < x + 1 / 1000000"
proof -
  have u: "range_units r = \<lceil>x * 1000000\<rceil>" using assms by (simp add: range_units_def)
  have pos: "0 < range_units r" using assms(5) by (simp add: u)
  obtain lo hi where lh: "f = of_int lo" "m = of_int hi" "u64_of (lowerStrikeRaw r) = Some lo" "u64_of (higherStrikeRaw r) = Some hi"
    using assms(1-3) by (auto simp: whole_range_def elim!: u64_of_SomeE)
  show "position_step (Fin s) (Fin a, Fin b) (listed_position (ordered_range oid ex r))
      = (Fin (if f / 1000000000 \<le> s \<and> s < m / 1000000000 then a + of_int (range_units r) / 1000000 else a),
         Fin (b + of_int (range_units r) / 1000000))"
    using pos lh by (simp add: position_step_def listed_position_def ordered_range_def Number_str_int in_money_def Let_def)
  show "x \<le> of_int (range_units r) / 1000000" "of_int (range_units r) / 1000000 < x + 1 / 1000000"
    using ceiling_correct [of "x * 1000000"] by (simp_all add: u field_simps)
qed

lemma positions_totals_tiles:
  assumes "tiles q f t strip" "0 < q" "list_all whole_range strip"
  shows "\<exists>x y z. foldl (position_step (Fin s)) (Fin a, Fin b) (map (\<lambda>r. listed_position (ordered_range oid ex r)) strip)
        = (Fin (a + x), Fin (b + y))
    \<and> settlement_payoff strip (Fin s) = Fin z \<and> z \<le> x \<and> x < z + 1 / 1000000
    \<and> (s < f / 1000000000 \<longrightarrow> x = 0) \<and> 0 \<le> y \<and> x \<le> y \<and> (strip \<noteq> [] \<longrightarrow> 0 < y) \<and> (2 \<le> length strip \<longrightarrow> x < y)"
  using assms(1,3)
proof (induction strip arbitrary: f a b)
  case Nil
  show ?case by (intro exI [of _ 0]) simp
next
  case (Cons r rs)
  from Cons.prems(1) obtain m where m: "lowerStrikeRaw r = Fin f" "higherStrikeRaw r = Fin m" "f < m"
    "quantity r = Fin (q * ((m - f) / 1000000000))" "tiles q m t rs" by (elim tiles_ConsE)
  have w: "whole_range r" "list_all whole_range rs" using Cons.prems(2) by auto
  let ?x = "q * ((m - f) / 1000000000)" and ?u = "of_int (range_units r) / 1000000 :: real"
  have x: "0 < ?x" using assms(2) m(3) by simp
  note step = listed_range [OF w(1) m(1,2,4) x]
  let ?in = "f / 1000000000 \<le> s \<and> s < m / 1000000000"
  obtain x' y' z' where ih: "foldl (position_step (Fin s)) (Fin (if ?in then a + ?u else a), Fin (b + ?u))
        (map (\<lambda>r. listed_position (ordered_range oid ex r)) rs) = (Fin ((if ?in then a + ?u else a) + x'), Fin (b + ?u + y'))"
    "settlement_payoff rs (Fin s) = Fin z'" "z' \<le> x'" "x' < z' + 1 / 1000000" "s < m / 1000000000 \<longrightarrow> x' = 0"
    "0 \<le> y'" "x' \<le> y'" "rs \<noteq> [] \<longrightarrow> 0 < y'"
    using Cons.IH [OF m(5) w(2)] by blast
  have u: "0 < ?u" using step(2) x by linarith
  have fold: "foldl (position_step (Fin s)) (Fin a, Fin b) (map (\<lambda>r. listed_position (ordered_range oid ex r)) (r # rs))
      = (Fin ((if ?in then a + ?u else a) + x'), Fin (b + ?u + y'))"
    using ih(1) step(1) by simp
  show ?case
  proof (cases ?in)
    case True
    then have "settlement_payoff (r # rs) (Fin s) = Fin ?x" using m by simp
    moreover have "x' = 0" using ih(5) True by simp
    ultimately show ?thesis
      using fold True step(2,3) ih(6,8) u
      by (intro exI [of _ "?u"] exI [of _ "?u + y'"] exI [of _ "?x"]) (auto simp: add.assoc)
  next
    case False
    then have "settlement_payoff (r # rs) (Fin s) = Fin z'" using m ih(2) by auto
    moreover have "s < f / 1000000000 \<longrightarrow> x' = 0" using ih(5) m(3) by auto
    ultimately show ?thesis
      using fold False ih(3,4,6,7) u
      by (intro exI [of _ x'] exI [of _ "?u + y'"] exI [of _ z']) (auto simp: add.assoc)
  qed
qed



lemma spot_scan_shift: "spot_scan sp (Suc i) r = Suc (spot_scan sp i r)"
  by (induction r arbitrary: i) simp_all

lemma spot_scan_split:
  assumes "sorted_wrt (\<lambda>a b. rung_hi b \<le> rung_hi a) r" "list_all (\<lambda>x. isFinite (rung_hi x)) r"
  shows "list_all (\<lambda>x. Fin s < rung_hi x) (take (spot_scan (Fin s) 0 r) r)
    \<and> list_all (\<lambda>x. rung_hi x \<le> Fin s) (drop (spot_scan (Fin s) 0 r) r)"
  using assms
proof (induction r)
  case (Cons x xs)
  show ?case
  proof (cases "rung_hi x \<le> Fin s")
    case True
    moreover have "rung_hi y \<le> Fin s" if "y \<in> set xs" for y
      using that Cons.prems True by (force simp: list_all_iff isFinite_iff)
    ultimately show ?thesis by (simp add: list_all_iff)
  next
    case False
    then have "Fin s < rung_hi x" using Cons.prems by (auto simp: isFinite_iff)
    then show ?thesis using Cons False by (simp add: spot_scan_shift)
  qed
qed simp

text \<open>
  the ladder shows every position once, from the highest strike down, and threads the spot marker
  at the right place: every rung above it ends above the spot, every rung below it ends at or
  below the spot, and so the rungs below the marker are never live.
\<close>

theorem ladder_marker:
  assumes "list_all (\<lambda>x. isFinite (lower_strike x) \<and> isFinite (higher_strike x)) ranges"
  shows "mset (ladder_rungs (Fin s) scale ranges) = mset (map (ladder_rung (Fin s) scale) ranges)
    \<and> sorted_wrt (\<lambda>a b. rung_hi b \<le> rung_hi a) (ladder_rungs (Fin s) scale ranges)
    \<and> list_all (\<lambda>x. Fin s < rung_hi x) (take (spotIndex (Fin s) (ladder_rungs (Fin s) scale ranges)) (ladder_rungs (Fin s) scale ranges))
    \<and> list_all (\<lambda>x. rung_hi x \<le> Fin s \<and> \<not> inMoney x)
        (drop (spotIndex (Fin s) (ladder_rungs (Fin s) scale ranges)) (ladder_rungs (Fin s) scale ranges))"
proof -
  let ?r = "ladder_rungs (Fin s) scale ranges"
  have usd: "isFinite (strikeToUsd (JNum k))" if "isFinite k" for k
    using that by (cases k) simp_all
  have fin: "list_all (\<lambda>x. isFinite (rung_hi x)) ?r"
    using assms usd by (auto simp: ladder_rungs_def list_all_iff ladder_rung_def Let_def)
  have live: "inMoney x \<longleftrightarrow> in_money (Fin s) (rung_lo x) (rung_hi x)" if "x \<in> set ?r" for x
    using that by (auto simp: ladder_rungs_def ladder_rung_def Let_def)
  have sorted: "sorted_wrt (\<lambda>a b. rung_hi b \<le> rung_hi a) ?r"
    unfolding ladder_rungs_def
    by (rule js_sort_desc_finite) (use fin in \<open>auto simp: ladder_rungs_def list_all_iff\<close>)
  note split = spot_scan_split [OF sorted fin]
  have "\<not> inMoney x" if x: "x \<in> set (drop (spotIndex (Fin s) ?r) ?r)" for x
  proof -
    have "rung_hi x \<le> Fin s" using x split [of s] by (simp add: spotIndex_def list_all_iff)
    moreover have "x \<in> set ?r" by (rule in_set_dropD [OF x])
    ultimately show ?thesis using live [of x] fin by (auto simp: in_money_def list_all_iff isFinite_iff)
  qed
  then show ?thesis using split [of s] sorted by (auto simp: ladder_rungs_def spotIndex_def list_all_iff)
qed

theorem ladder_marker_witness:
  "\<exists>ranges. list_all (\<lambda>x. isFinite (lower_strike x) \<and> isFinite (higher_strike x)) ranges
     \<and> 2 \<le> length ranges \<and> sorted_wrt (\<lambda>a b. rung_hi b \<le> rung_hi a) (ladder_rungs (Fin 86) 1000000 ranges)"
proof -
  let ?r = "[\<lparr>rp_oracle_id = ''0xe'', lower_strike = Fin 85000000000, higher_strike = Fin 86000000000, rp_quantity = ''5''\<rparr>,
     \<lparr>rp_oracle_id = ''0xe'', lower_strike = Fin 86000000000, higher_strike = Fin 87000000000, rp_quantity = ''7''\<rparr>]"
  have "list_all (\<lambda>x. isFinite (lower_strike x) \<and> isFinite (higher_strike x)) ?r" by simp
  from ladder_marker [OF this, of 86 1000000] this show ?thesis by (intro exI [of _ ?r]) simp
qed

end
