(* ===== verification/Block_Files.thy ===== *)
theory Block_Files
  imports Block_Hashes
begin

text \<open>
  Model of \<open>web/scripts/split-block-hashes.mjs\<close>, the build step that writes the chunked files the
  client of \<open>Block_Hashes\<close> reads. The parsed input file is the argument (\<open>None\<close> when no candidate
  exists); the result is the content of the output directory, which the script empties first. The
  theorem joins the two programs: what the client reads from the written files is the input table.
\<close>

definition CHUNK_SIZE :: nat where "CHUNK_SIZE = 10000"

definition numChunks :: "nat \<Rightarrow> nat" where
  "numChunks tot = nat \<lceil>real tot / real CHUNK_SIZE\<rceil>"

text \<open>Iteration \<open>i\<close> of the loop: the name part of the file and its content.\<close>

definition split_chunk :: "string list \<Rightarrow> nat \<Rightarrow> string \<times> string list" where
  "split_chunk allHashes i =
     (let start = i * CHUNK_SIZE;
          stop = min (start + CHUNK_SIZE) (length allHashes)
      in (int_to_string (int i), slice (int start) (int stop) allHashes))"

record output_dir =
  out_meta :: BlockHashMeta
  out_chunks :: "(string \<times> string list) list"

definition split_block_hashes :: "string list option \<Rightarrow> output_dir" where
  "split_block_hashes input =
     (case input of
        None \<Rightarrow> \<lparr>out_meta = \<lparr>total = 0, chunkSize = int CHUNK_SIZE, chunks = 0\<rparr>, out_chunks = []\<rparr>
      | Some allHashes \<Rightarrow>
          let n = numChunks (length allHashes)
          in \<lparr>out_meta = \<lparr>total = int (length allHashes), chunkSize = int CHUNK_SIZE, chunks = int n\<rparr>,
              out_chunks = map (split_chunk allHashes) [0..<n]\<rparr>)"

text \<open>A web server that serves the directory: files that exist are delivered, others are missing.\<close>

definition publish :: "output_dir \<Rightarrow> hash_files" where
  "publish d =
     \<lparr>meta_file = HttpOk (out_meta d),
      chunk_file = (\<lambda>key. case map_of (out_chunks d) key of Some c \<Rightarrow> HttpOk c | None \<Rightarrow> HttpError)\<rparr>"

section \<open>The client reads the table back\<close>

lemma map_of_chunks:
  assumes "k < n"
  shows "map_of (map (\<lambda>i. (to_radix 10 i, f i)) [0..<n]) (to_radix 10 k) = Some (f k)"
proof -
  have "map (fst \<circ> (\<lambda>i. (to_radix 10 i, f i))) [0..<n] = map (to_radix 10) [0..<n]" by (simp add: comp_def)
  then have "distinct (map fst (map (\<lambda>i. (to_radix 10 i, f i)) [0..<n]))"
    using to_radix_inj by (simp add: distinct_map inj_on_def)
  then show ?thesis using assms by (auto intro!: map_of_is_SomeI)
qed

lemma numChunks_div: "numChunks n = (n + CHUNK_SIZE - 1) div CHUNK_SIZE"
proof -
  have "\<lceil>real n / 10000\<rceil> = (int n + 9999) div 10000"
  proof -
    define k r where "k = (int n + 9999) div 10000" and "r = (int n + 9999) mod 10000"
    then have "int n + 9999 = 10000 * k + r" "0 \<le> r" "r < 10000" by simp_all
    then have "int n \<le> 10000 * k" "10000 * k < int n + 10000" by auto
    then have "real_of_int (int n) \<le> real_of_int (10000 * k)" "real_of_int (10000 * k) < real_of_int (int n + 10000)"
      by (simp_all only: of_int_le_iff of_int_less_iff)
    then have "\<lceil>real n / 10000\<rceil> = k" by (intro ceiling_unique) simp_all
    then show ?thesis by (simp add: k_def)
  qed
  moreover have "(int n + 9999) div 10000 = int ((n + 9999) div 10000)" by simp
  ultimately show ?thesis by (simp add: numChunks_def CHUNK_SIZE_def)
qed

lemma split_serves: "serves (publish (split_block_hashes (Some table))) CHUNK_SIZE table"
proof -
  let ?n = "numChunks (length table)"
  have c: "split_chunk table k = (to_radix 10 k, take CHUNK_SIZE (drop (k * CHUNK_SIZE) table))" for k
    by (simp add: split_chunk_def Let_def min_def add.commute)
  then have sc: "split_chunk table = (\<lambda>k. (to_radix 10 k, take CHUNK_SIZE (drop (k * CHUNK_SIZE) table)))" by auto
  have "chunk_file (publish (split_block_hashes (Some table))) (int_to_string (int k))
      = HttpOk (take CHUNK_SIZE (drop (k * CHUNK_SIZE) table))" if "k < ?n" for k
    using map_of_chunks [OF that, of "\<lambda>k. take CHUNK_SIZE (drop (k * CHUNK_SIZE) table)"]
    by (simp add: publish_def split_block_hashes_def Let_def sc)
  then show ?thesis
    by (simp add: serves_def publish_def split_block_hashes_def Let_def list_all_iff CHUNK_SIZE_def numChunks_div)
qed

text \<open>
  C9: the build step and the client agree. From the files that split-block-hashes writes for a table
  of hashes, in any session whose cache is coherent with them, fetchBlockHashesPage returns the
  requested slice of the table in either order and lookupBlockHash the hash of every height of it;
  when there is no input, every page is empty and no chunk is requested.
\<close>

theorem split_hashes_read_back:
  assumes "coherent (publish (split_block_hashes (Some table))) s" "0 \<le> offset" "h < length table"
  shows "(\<exists>s'. fetchBlockHashesPage (publish (split_block_hashes (Some table))) offset limit order s =
      (Inr \<lparr>hashes = take (nat limit) (drop (nat offset) (table_entries order table)),
            page_total = int (length table), page_offset = offset, page_limit = limit\<rparr>, s')
      \<and> coherent (publish (split_block_hashes (Some table))) s')
    \<and> (\<exists>s'. lookupBlockHash (publish (split_block_hashes (Some table))) (int h) s =
      (Inr \<lparr>hashes = [\<lparr>entry_height = int h, entry_hash = Some (table ! h)\<rparr>],
            page_total = int (length table), page_offset = int h, page_limit = 1\<rparr>, s'))
    \<and> fetchBlockHashesPage (publish (split_block_hashes None)) offset limit order hash_session0
      = (Inr \<lparr>hashes = [], page_total = 0, page_offset = offset, page_limit = limit\<rparr>,
         \<lparr>metaCache = Some \<lparr>total = 0, chunkSize = 10000, chunks = 0\<rparr>, chunkCache = (\<lambda>_. None), requests = [meta_path]\<rparr>)"
proof (intro conjI)
  let ?files = "publish (split_block_hashes (Some table))"
  note sv = split_serves [of table]
  show "\<exists>s'. fetchBlockHashesPage ?files offset limit order s =
      (Inr \<lparr>hashes = take (nat limit) (drop (nat offset) (table_entries order table)),
            page_total = int (length table), page_offset = offset, page_limit = limit\<rparr>, s') \<and> coherent ?files s'"
    by (rule fetch_page_served [OF sv assms(1,2)])
  obtain m s1 where m: "getMeta ?files s = (Inr m, s1)" "coherent ?files s1" "total m = int (length table)" "chunkSize m = int CHUNK_SIZE"
    using sv assms(1) by (rule getMeta_coherent)
  obtain s2 where "read_all (entry_at ?files m) [int h] s1 = (Inr (map (table_entry table) [int h]), s2)"
    using read_table [OF sv m(2,4), of "[int h]"] assms(3) by auto
  then show "\<exists>s'. lookupBlockHash ?files (int h) s =
      (Inr \<lparr>hashes = [\<lparr>entry_height = int h, entry_hash = Some (table ! h)\<rparr>],
            page_total = int (length table), page_offset = int h, page_limit = 1\<rparr>, s')"
    using assms(3) m by (auto simp: lookupBlockHash_def table_entry_def split: prod.splits sum.splits)
  show "fetchBlockHashesPage (publish (split_block_hashes None)) offset limit order hash_session0
      = (Inr \<lparr>hashes = [], page_total = 0, page_offset = offset, page_limit = limit\<rparr>,
         \<lparr>metaCache = Some \<lparr>total = 0, chunkSize = 10000, chunks = 0\<rparr>, chunkCache = (\<lambda>_. None), requests = [meta_path]\<rparr>)"
    using assms(2)
    by (cases order) (simp_all add: fetchBlockHashesPage_def getMeta_def publish_def split_block_hashes_def
        hash_session0_def request_def CHUNK_SIZE_def Let_def desc_loop.simps asc_loop.simps)
qed

theorem split_hashes_read_back_witness:
  "\<exists>s'. lookupBlockHash (publish (split_block_hashes (Some [''aa'', ''bb'']))) (int 1) hash_session0 =
      (Inr \<lparr>hashes = [\<lparr>entry_height = int 1, entry_hash = Some ([''aa'', ''bb''] ! 1)\<rparr>],
            page_total = int (length [''aa'', ''bb'']), page_offset = int 1, page_limit = 1\<rparr>, s')"
proof -
  have "coherent (publish (split_block_hashes (Some [''aa'', ''bb'']))) hash_session0"
    by (simp add: coherent_def hash_session0_def)
  from split_hashes_read_back [OF this, of 0 1] show ?thesis by simp
qed

end
