(* ===== verification/Static_Server.thy ===== *)
theory Static_Server
  imports Encoding Sui_Rpc
begin

text \<open>
  Model of \<open>scripts/serve-web-static.mjs\<close>, the server of the exported site: the resolution of a
  request to a file (with the functions of \<open>node:path\<close> and \<open>decodeURIComponent\<close> it uses), the
  handler, and the two JSON endpoints. Paths are lists of code points, as decoding can produce any
  of them. The file system is the record \<open>fs\<close>, the Sui node the parameter \<open>rpc\<close>; a thrown error
  that no handler catches is a value of the outcome.
\<close>

section \<open>Paths\<close>

abbreviation slash :: nat where "slash \<equiv> 47"
abbreviation dot :: nat where "dot \<equiv> 46"
abbreviation backslash :: nat where "backslash \<equiv> 92"

text \<open>The parts of a path between its slashes.\<close>

fun segments :: "code_points \<Rightarrow> code_points list" where
  "segments [] = [[]]"
| "segments (c # p) =
     (if c = slash then [] # segments p
      else case segments p of [] \<Rightarrow> [[c]] | s # ss \<Rightarrow> (c # s) # ss)"

fun join_segments :: "code_points list \<Rightarrow> code_points" where
  "join_segments [] = []"
| "join_segments [s] = s"
| "join_segments (s # t # ss) = s @ slash # join_segments (t # ss)"

text \<open>
  \<open>normalizeString\<close> of \<open>node:path\<close>: empty and single-dot parts are dropped, a double dot removes
  the part before it. With nothing to remove it is kept in a relative path and dropped in an
  absolute one. The accumulator is the result so far, in reverse.
\<close>

fun norm_segments :: "bool \<Rightarrow> code_points list \<Rightarrow> code_points list \<Rightarrow> code_points list" where
  "norm_segments up acc [] = rev acc"
| "norm_segments up acc (s # ss) =
     (if s = [] \<or> s = [dot] then norm_segments up acc ss
      else if s = [dot, dot]
      then (case acc of
              [] \<Rightarrow> norm_segments up (if up then [s] else []) ss
            | a # as \<Rightarrow> if a = [dot, dot] then norm_segments up (if up then s # acc else acc) ss
                        else norm_segments up as ss)
      else norm_segments up (s # acc) ss)"

definition is_abs :: "code_points \<Rightarrow> bool" where
  "is_abs p = (case p of c # _ \<Rightarrow> c = slash | [] \<Rightarrow> False)"

definition path_normalize :: "code_points \<Rightarrow> code_points" where
  "path_normalize p =
     (if p = [] then [dot]
      else let q = join_segments (norm_segments (\<not> is_abs p) [] (segments p));
               trailing = (last p = slash)
           in if q = []
              then (if is_abs p then [slash] else if trailing then [dot, slash] else [dot])
              else (if is_abs p then [slash] else []) @ q @ (if trailing then [slash] else []))"

text \<open>\<open>join(a, b)\<close>: empty arguments are ignored.\<close>

definition path_join :: "code_points \<Rightarrow> code_points \<Rightarrow> code_points" where
  "path_join a b =
     (if a = [] \<and> b = [] then [dot]
      else path_normalize (if a = [] then b else if b = [] then a else a @ slash # b))"

text \<open>\<open>resolve(p)\<close>, with the working directory for a relative path.\<close>

definition path_resolve :: "code_points \<Rightarrow> code_points \<Rightarrow> code_points" where
  "path_resolve cwd p =
     slash # join_segments (norm_segments False [] (segments (if is_abs p then p else cwd @ slash # p)))"

text \<open>
  \<open>extname\<close>: from the last dot of the last part on, unless that dot starts the part; trailing
  slashes are ignored and a double dot has no extension.
\<close>

definition path_extname :: "code_points \<Rightarrow> code_points" where
  "path_extname p =
     (let part = (case dropWhile (\<lambda>s. s = []) (rev (segments p)) of [] \<Rightarrow> [] | s # _ \<Rightarrow> s);
          tail = takeWhile (\<lambda>c. c \<noteq> dot) (rev part)
      in if part = [dot, dot] \<or> length tail + 1 \<ge> length part then []
         else dot # rev tail)"

section \<open>Decoding a request\<close>

definition hex_pair :: "char \<Rightarrow> char \<Rightarrow> nat option" where
  "hex_pair a b =
     (case (digit_val a, digit_val b) of
        (Some x, Some y) \<Rightarrow> if x < 16 \<and> y < 16 then Some (x * 16 + y) else None
      | _ \<Rightarrow> None)"

text \<open>The bytes of the percent escapes at the front, and the rest; \<open>None\<close> for a malformed escape.\<close>

fun escape_run :: "string \<Rightarrow> (nat list \<times> string) option" where
  "escape_run (c # a # b # s) =
     (if c \<noteq> CHR ''%'' then Some ([], c # a # b # s)
      else case hex_pair a b of
             None \<Rightarrow> None
           | Some n \<Rightarrow> map_option (\<lambda>(ns, r). (n # ns, r)) (escape_run s))"
| "escape_run s = (if s \<noteq> [] \<and> hd s = CHR ''%'' then None else Some ([], s))"

lemma escape_run_length: "escape_run s = Some (ns, r) \<Longrightarrow> length r \<le> length s"
  by (induction s arbitrary: ns rule: escape_run.induct) (fastforce split: if_splits option.splits)+

lemma escape_run_shorter: "escape_run (CHR ''%'' # s) = Some (ns, r) \<Longrightarrow> length r < Suc (length s)"
proof -
  assume e: "escape_run (CHR ''%'' # s) = Some (ns, r)"
  then obtain a b t where s: "s = a # b # t" by (cases s; cases "tl s") auto
  with e obtain n where "escape_run t = Some (tl ns, r)" by (auto split: option.splits)
  then show ?thesis using escape_run_length s by fastforce
qed

text \<open>\<open>decodeURIComponent(s)\<close>; \<open>None\<close> is the URIError.\<close>

function decodeURIComponent :: "string \<Rightarrow> code_points option" where
  "decodeURIComponent [] = Some []"
| "decodeURIComponent (c # s) =
     (if c = CHR ''%''
      then (case escape_run (c # s) of
              None \<Rightarrow> None
            | Some (ns, r) \<Rightarrow>
                (case (utf8_bytes_decode ns, decodeURIComponent r) of
                   (Some t, Some u) \<Rightarrow> Some (t @ u)
                 | _ \<Rightarrow> None))
      else map_option (\<lambda>u. of_char c # u) (decodeURIComponent s))"
  by pat_completeness auto
termination
  by (relation "measure length") (auto dest: escape_run_shorter)

definition before_query :: "string \<Rightarrow> string" where
  "before_query url = takeWhile (\<lambda>c. c \<noteq> CHR ''?'') url"

section \<open>Resolving a request to a file\<close>

text \<open>\<open>fs_dir\<close> is \<open>statSync(p).isDirectory()\<close>, \<open>None\<close> when it throws.\<close>

record fs =
  fs_exists :: "code_points \<Rightarrow> bool"
  fs_dir :: "code_points \<Rightarrow> bool option"
  fs_file :: "code_points \<Rightarrow> bool option"

text \<open>\<open>replace(/^(\.\.[/\\])+/, '')\<close>\<close>

fun strip_up :: "code_points \<Rightarrow> code_points" where
  "strip_up (a # b # c # p) =
     (if a = dot \<and> b = dot \<and> (c = slash \<or> c = backslash) then strip_up p else a # b # c # p)"
| "strip_up p = p"

definition starts_with :: "code_points \<Rightarrow> code_points \<Rightarrow> bool" where
  "starts_with p pre = (take (length pre) p = pre)"

definition html_suffix :: code_points where "html_suffix = map of_char ''.html''"

definition index_html :: code_points where "index_html = map of_char ''index.html''"

definition resolved_file :: "fs \<Rightarrow> code_points \<Rightarrow> code_points \<Rightarrow> code_points \<Rightarrow> code_points option" where
  "resolved_file f base pathname direct =
     (let idx = path_join direct index_html;
          fallback =
            (if path_extname direct = [] \<and> fs_exists f (direct @ html_suffix) then Some (direct @ html_suffix)
             else if pathname = [slash] \<and> fs_exists f (path_join base index_html) then Some (path_join base index_html)
             else None)
      in if fs_exists f direct
         then (case fs_dir f direct of
                 Some True \<Rightarrow> if fs_exists f idx then Some idx else fallback
               | Some False \<Rightarrow> Some direct
               | None \<Rightarrow> Some direct)
         else fallback)"

datatype resolution = UriError | NoFile | File code_points

definition direct_path :: "code_points \<Rightarrow> code_points \<Rightarrow> code_points \<Rightarrow> code_points" where
  "direct_path cwd base pathname = path_resolve cwd (path_join base (strip_up (path_normalize pathname)))"

definition resolvePath :: "fs \<Rightarrow> code_points \<Rightarrow> code_points \<Rightarrow> string \<Rightarrow> resolution" where
  "resolvePath f cwd base urlPath =
     (case decodeURIComponent (before_query urlPath) of
        None \<Rightarrow> UriError
      | Some pathname \<Rightarrow>
          let direct = direct_path cwd base pathname in
          if \<not> starts_with direct base then NoFile
          else case resolved_file f base pathname direct of Some p \<Rightarrow> File p | None \<Rightarrow> NoFile)"

section \<open>The handler\<close>

definition content_types :: "(string \<times> string) list" where
  "content_types =
     [(''.css'', ''text/css; charset=utf-8''), (''.html'', ''text/html; charset=utf-8''),
      (''.js'', ''text/javascript; charset=utf-8''), (''.json'', ''application/json; charset=utf-8''),
      (''.png'', ''image/png''), (''.svg'', ''image/svg+xml''), (''.ico'', ''image/x-icon''),
      (''.woff2'', ''font/woff2'')]"

text \<open>The extension of the file, when it is ASCII text, looked up in the table.\<close>

definition content_type :: "code_points \<Rightarrow> string" where
  "content_type file =
     (case map_of (map (\<lambda>(k, v). (map of_char k, v)) content_types) (path_extname file) of
        Some t \<Rightarrow> t
      | None \<Rightarrow> ''application/octet-stream'')"

datatype 'p reply =
    Stream string code_points
  | NotFound
  | JsonOk 'p
  | JsonError string
  | Unhandled

definition sendJson :: "string + 'p \<Rightarrow> 'p reply" where
  "sendJson r = (case r of Inr p \<Rightarrow> JsonOk p | Inl msg \<Rightarrow> JsonError msg)"

definition handle_request ::
  "fs \<Rightarrow> code_points \<Rightarrow> code_points \<Rightarrow> (unit \<Rightarrow> string + 'p) \<Rightarrow> (unit \<Rightarrow> string + 'p) \<Rightarrow> string option \<Rightarrow> 'p reply"
where
  "handle_request f cwd base templatesPayload sharesPayload req_url =
     (let url = (case req_url of Some u \<Rightarrow> u | None \<Rightarrow> ''/'');
          pathname = before_query url
      in if pathname = ''/api/templates'' then sendJson (templatesPayload ())
         else if pathname = ''/api/shares'' then sendJson (sharesPayload ())
         else case resolvePath f cwd base url of
                UriError \<Rightarrow> Unhandled
              | NoFile \<Rightarrow> NotFound
              | File p \<Rightarrow>
                  (case fs_file f p of
                     Some True \<Rightarrow> Stream (content_type p) p
                   | _ \<Rightarrow> NotFound))"

section \<open>Confinement\<close>

text \<open>A part of a resolved path.\<close>

definition good_part :: "code_points \<Rightarrow> bool" where
  "good_part s = (s \<noteq> [] \<and> s \<noteq> [dot] \<and> s \<noteq> [dot, dot] \<and> slash \<notin> set s)"

definition inside :: "code_points list \<Rightarrow> code_points \<Rightarrow> bool" where
  "inside rs p = (\<exists>gs. p = slash # join_segments (rs @ gs) \<and> list_all good_part gs)"

lemma segments_nonempty [simp]: "segments p \<noteq> []"
  by (cases p) (auto split: list.split)

lemma segments_no_slash: "s \<in> set (segments p) \<Longrightarrow> slash \<notin> set s"
proof (induction p arbitrary: s)
  case (Cons c p)
  obtain t ts where "segments p = t # ts" using segments_nonempty by (cases "segments p") auto
  then show ?case using Cons by (auto split: if_splits)
qed simp

lemma segments_append: "segments (a @ slash # b) = segments a @ segments b"
proof (induction a)
  case (Cons c a)
  obtain t ts where "segments a = t # ts" using segments_nonempty by (cases "segments a") auto
  then show ?case using Cons by simp
qed simp

lemma segments_plain: "slash \<notin> set s \<Longrightarrow> segments s = [s]"
  by (induction s) auto

lemma segments_join: "ss \<noteq> [] \<Longrightarrow> list_all (\<lambda>s. slash \<notin> set s) ss \<Longrightarrow> segments (join_segments ss) = ss"
  by (induction ss rule: join_segments.induct) (simp_all add: segments_plain segments_append)

lemma join_segments_snoc: "ss \<noteq> [] \<Longrightarrow> join_segments (ss @ [t]) = join_segments ss @ slash # t"
  by (induction ss rule: join_segments.induct) simp_all

lemma norm_append: "norm_segments up acc (xs @ ys) = norm_segments up (rev (norm_segments up acc xs)) ys"
  by (cases up; induction xs arbitrary: acc) (simp_all split: list.split)

lemma norm_good: "list_all good_part gs \<Longrightarrow> norm_segments up acc gs = rev acc @ gs"
  by (induction gs arbitrary: acc) (simp_all add: good_part_def)

lemma norm_empty [simp]: "norm_segments up acc ([] # ss) = norm_segments up acc ss"
  by simp

lemma norm_result_good:
  assumes "list_all (\<lambda>s. slash \<notin> set s) ss" "list_all good_part acc"
  shows "list_all good_part (norm_segments False acc ss)"
  using assms
proof (induction ss arbitrary: acc)
  case (Cons s ss)
  have "list_all good_part (s # acc)" if "s \<noteq> []" "s \<noteq> [dot]" "s \<noteq> [dot, dot]"
  proof -
    have "good_part s" using that Cons.prems(1) by (simp add: good_part_def)
    then show ?thesis using Cons.prems(2) by simp
  qed
  then show ?case using Cons by (auto split: list.split)
qed (simp add: list_all_iff)

text \<open>In a relative path the double dots are in front.\<close>

lemma norm_result_relative:
  assumes "list_all (\<lambda>s. slash \<notin> set s) ss" "acc = rev (replicate k [dot, dot] @ gs)" "list_all good_part gs"
  shows "\<exists>k' gs'. norm_segments True acc ss = replicate k' [dot, dot] @ gs' \<and> list_all good_part gs'"
  using assms
proof (induction ss arbitrary: acc k gs)
  case (Cons s ss)
  have ss: "list_all (\<lambda>s. slash \<notin> set s) ss" using Cons.prems by simp
  consider "s = [] \<or> s = [dot]" | "s = [dot, dot]" "gs = []" | g gs' where "s = [dot, dot]" "gs = gs' @ [g]" | "good_part s"
    using Cons.prems(1) by (cases gs rule: rev_cases) (auto simp: good_part_def)
  then show ?case
  proof cases
    case 2
    have "acc = replicate k [dot, dot]" using 2 Cons.prems(2) by simp
    then have "norm_segments True acc (s # ss) = norm_segments True (replicate (Suc k) [dot, dot]) ss"
      using 2 by (cases k) simp_all
    moreover have "replicate (Suc k) [dot, dot] = rev (replicate (Suc k) [dot, dot] @ [])"
      by (simp only: append_Nil2 rev_replicate)
    ultimately show ?thesis using Cons.IH [OF ss, of "replicate (Suc k) [dot, dot]" "Suc k" "[]"] by simp
  next
    case (3 g gs')
    then have "good_part g" "list_all good_part gs'" using Cons.prems(3) by simp_all
    moreover from this have "g \<noteq> [dot, dot]" by (simp add: good_part_def)
    ultimately show ?thesis using 3 Cons.prems(2) Cons.IH [OF ss refl, of gs' k] by simp
  next
    case 4
    then show ?thesis using Cons.prems Cons.IH [OF ss, of "s # acc" k "gs @ [s]"] by (auto simp: good_part_def)
  qed (use Cons ss in auto)
qed auto

lemma segments_all: "list_all (\<lambda>s. slash \<notin> set s) (segments p)"
  using segments_no_slash by (auto simp: list_all_iff)

lemma good_no_slash: "list_all good_part gs \<Longrightarrow> list_all (\<lambda>s. slash \<notin> set s) gs"
  by (auto simp: list_all_iff good_part_def)

lemma segments_trailing: "segments (q @ [slash]) = segments q @ [[]]"
  using segments_append [of q "[]"] by simp

lemma join_segments_empty: "[] \<notin> set gs \<Longrightarrow> join_segments gs = [] \<longleftrightarrow> gs = []"
  by (cases gs rule: join_segments.cases) auto

lemma good_not_empty: "list_all good_part gs \<Longrightarrow> [] \<notin> set gs"
  by (auto simp: list_all_iff good_part_def)

lemmas join_segments_Nil = join_segments_empty [OF good_not_empty]

text \<open>What normalising leaves of the parts of a path.\<close>

lemma segments_normalize:
  assumes "p \<noteq> []" "norm_segments (\<not> is_abs p) [] (segments p) = ns" "list_all (\<lambda>s. slash \<notin> set s) ns"
    and "join_segments ns = [] \<longleftrightarrow> ns = []"
  obtains t where "t \<in> {[], [[]]}" "segments (path_normalize p) = (if is_abs p then [[]] else []) @ ns @ t"
    | "ns = []" "path_normalize p \<in> {[slash], [dot], [dot, slash]}" "is_abs p \<longleftrightarrow> path_normalize p = [slash]"
proof (cases "ns = []")
  case True
  then have q: "path_normalize p = (if is_abs p then [slash] else if last p = slash then [dot, slash] else [dot])"
    using assms(1,2) by (simp add: path_normalize_def Let_def)
  show ?thesis by (rule that(2) [OF True]) (simp_all add: q)
next
  case False
  let ?t = "if last p = slash then [slash] else []"
  have "segments (join_segments ns @ ?t) = ns @ (if last p = slash then [[]] else [])"
    using segments_join [OF False assms(3)] by (simp add: segments_trailing)
  moreover have "path_normalize p = (if is_abs p then [slash] else []) @ join_segments ns @ ?t"
    using False assms by (simp add: path_normalize_def Let_def)
  ultimately show ?thesis by (intro that(1) [of "if last p = slash then [[]] else []"]) auto
qed

lemma norm_abs_twice:
  assumes "is_abs p"
  shows "norm_segments False [] (segments (path_normalize p)) = norm_segments False [] (segments p)"
proof -
  let ?ns = "norm_segments False [] (segments p)"
  have g: "list_all good_part ?ns" using norm_result_good [OF segments_all, of "[]" p] by simp
  have p: "p \<noteq> []" using assms by (auto simp: is_abs_def)
  show ?thesis
  proof (rule segments_normalize [OF p, of ?ns])
    fix t assume t: "t \<in> {[], [[]]}" "segments (path_normalize p) = (if is_abs p then [[]] else []) @ ?ns @ t"
    then show ?thesis using assms norm_append [of False "[]" ?ns t] norm_good [OF g, of False "[]"] by auto
  next
    assume "?ns = []" "is_abs p \<longleftrightarrow> path_normalize p = [slash]"
    then show ?thesis using assms by simp
  qed (use assms g in \<open>simp_all add: good_no_slash join_segments_Nil\<close>)
qed

lemma strip_up_short:
  assumes "length p < 3"
  shows "[dot, dot] \<notin> set (segments (strip_up p)) \<or> strip_up p = [dot, dot]"
proof -
  consider "p = []" | v where "p = [v]" | v w where "p = [v, w]"
    using assms by (cases p; cases "tl p"; cases "tl (tl p)") auto
  then show ?thesis
  proof cases
    case (3 v w)
    then show ?thesis by (cases "v = slash"; cases "w = slash") auto
  qed (auto split: if_splits)
qed

lemma strip_up_front:
  assumes "segments p = replicate k [dot, dot] @ gs" "[dot, dot] \<notin> set gs"
  shows "[dot, dot] \<notin> set (segments (strip_up p)) \<or> strip_up p = [dot, dot]"
  using assms
proof (induction p arbitrary: k gs rule: strip_up.induct)
  case (1 a b c p)
  obtain x xs where x: "segments p = x # xs" using segments_nonempty by (cases "segments p") auto
  show ?case
  proof (cases "a = dot \<and> b = dot \<and> (c = slash \<or> c = backslash)")
    case True
    have "\<exists>k' gs'. segments p = replicate k' [dot, dot] @ gs' \<and> [dot, dot] \<notin> set gs'"
    proof (cases "c = slash")
      case True
      then have "[dot, dot] # segments p = replicate k [dot, dot] @ gs"
        using 1(2) \<open>a = dot \<and> b = dot \<and> (c = slash \<or> c = backslash)\<close> by simp
      then show ?thesis using 1(3) by (cases k) auto
    next
      case False
      then have "(dot # dot # backslash # x) # xs = replicate k [dot, dot] @ gs"
        using 1(2) x True by simp
      then have "[dot, dot] \<notin> set xs" using 1(3) by (cases k) auto
      then show ?thesis using x by (cases "x = [dot, dot]") (auto intro: exI [of _ 1] exI [of _ 0])
    qed
    then show ?thesis using 1(1) [OF True] True by auto
  next
    case False
    have "k = 0"
    proof (rule ccontr)
      assume "k \<noteq> 0"
      then have "hd (segments (a # b # c # p)) = [dot, dot]" using 1(2) by (cases k) auto
      then show False using False x by (auto split: if_splits)
    qed
    moreover have "strip_up (a # b # c # p) = a # b # c # p" by (simp only: strip_up.simps if_not_P [OF False])
    ultimately show ?thesis using 1(2,3) by (simp only: replicate_0 append_Nil) simp
  qed
next
  case "2_1"
  then show ?case by (intro strip_up_short) simp_all
next
  case "2_2"
  then show ?case by (intro strip_up_short) simp_all
next
  case "2_3"
  then show ?case by (intro strip_up_short) simp_all
qed

text \<open>The cleaned request has no double dot left, except when it is a double dot alone.\<close>

lemma clean_front: "[dot, dot] \<notin> set (segments (strip_up (path_normalize p))) \<or> strip_up (path_normalize p) = [dot, dot]"
proof (cases "p = []")
  case True
  then show ?thesis by (simp add: path_normalize_def)
next
  case False
  let ?ns = "norm_segments (\<not> is_abs p) [] (segments p)"
  have ns: "\<exists>k gs. ?ns = replicate k [dot, dot] @ gs \<and> list_all good_part gs \<and> (is_abs p \<longrightarrow> k = 0)"
  proof (cases "is_abs p")
    case True
    then show ?thesis using norm_result_good [OF segments_all, of "[]" p] by (intro exI [of _ 0] exI [of _ ?ns]) simp
  next
    case False
    then show ?thesis using norm_result_relative [OF segments_all, of "[]" 0 "[]" p] by simp
  qed
  then obtain k gs where k: "?ns = replicate k [dot, dot] @ gs" "list_all good_part gs" "is_abs p \<longrightarrow> k = 0" by blast
  have slashes: "list_all (\<lambda>s. slash \<notin> set s) ?ns" "join_segments ?ns = [] \<longleftrightarrow> ?ns = []"
  proof -
    show "list_all (\<lambda>s. slash \<notin> set s) ?ns"
      unfolding k(1) using good_no_slash [OF k(2)] by (auto simp: list_all_iff)
    show "join_segments ?ns = [] \<longleftrightarrow> ?ns = []"
      unfolding k(1) using good_not_empty [OF k(2)] by (intro join_segments_empty) auto
  qed
  have up: "[dot, dot] \<notin> set gs" using k(2) by (auto simp: list_all_iff good_part_def)
  show ?thesis
  proof (rule segments_normalize [OF False refl slashes])
    fix t assume t: "t \<in> {[], [[]]}" "segments (path_normalize p) = (if is_abs p then [[]] else []) @ ?ns @ t"
    show ?thesis
    proof (cases "is_abs p")
      case True
      then have "segments (path_normalize p) = replicate 0 [dot, dot] @ [] # gs @ t" using t k by simp
      then show ?thesis by (rule strip_up_front) (use up t in auto)
    next
      case False
      then have "segments (path_normalize p) = replicate k [dot, dot] @ gs @ t" using t k by simp
      then show ?thesis by (rule strip_up_front) (use up t in auto)
    qed
  next
    assume "path_normalize p \<in> {[slash], [dot], [dot, slash]}"
    then show ?thesis by auto
  qed
qed

lemma norm_no_up:
  assumes "[dot, dot] \<notin> set ss" "list_all (\<lambda>s. slash \<notin> set s) ss"
  shows "\<exists>gs. norm_segments False acc ss = rev acc @ gs \<and> list_all good_part gs"
proof (intro exI conjI)
  let ?gs = "filter (\<lambda>s. s \<noteq> [] \<and> s \<noteq> [dot]) ss"
  show "norm_segments False acc ss = rev acc @ ?gs" using assms(1) by (induction ss arbitrary: acc) auto
  show "list_all good_part ?gs" using assms by (auto simp: list_all_iff good_part_def)
qed

lemma segments_abs:
  assumes "list_all good_part rs" "rs \<noteq> []"
  shows "segments (slash # join_segments rs) = [] # rs" "is_abs (slash # join_segments rs)"
  using segments_join [OF assms(2) good_no_slash [OF assms(1)]] by (simp_all add: is_abs_def)

lemma join_parts:
  assumes "list_all good_part rs" "rs \<noteq> []"
  shows "norm_segments False [] (segments (path_join (slash # join_segments rs) b)) = norm_segments False (rev rs) (segments b)"
    and "is_abs (path_join (slash # join_segments rs) b)"
proof -
  let ?r = "slash # join_segments rs"
  let ?p = "if b = [] then ?r else ?r @ slash # b"
  have p: "path_join ?r b = path_normalize ?p" "is_abs ?p" by (simp_all add: path_join_def is_abs_def)
  have "norm_segments False [] (segments ?p) = norm_segments False (rev rs) (segments b)"
    using segments_abs(1) [OF assms] norm_good [OF assms(1), of False "[]"] norm_append [of False "[]" rs "segments b"]
      segments_append [of ?r b] by (cases "b = []") simp_all
  then show "norm_segments False [] (segments (path_join ?r b)) = norm_segments False (rev rs) (segments b)"
    using norm_abs_twice [OF p(2)] by (simp add: p(1))
  show "is_abs (path_join ?r b)"
    using p by (auto simp: path_normalize_def is_abs_def Let_def split: if_splits)
qed

text \<open>
  A request that passes the prefix check names a path inside the directory: a double dot alone
  leads to the parent, which is shorter than the directory.
\<close>

lemma direct_inside:
  assumes "list_all good_part rs" "rs \<noteq> []" "starts_with (direct_path cwd (slash # join_segments rs) p) (slash # join_segments rs)"
  shows "inside rs (direct_path cwd (slash # join_segments rs) p)"
proof -
  let ?clean = "strip_up (path_normalize p)"
  have d: "direct_path cwd (slash # join_segments rs) p = slash # join_segments (norm_segments False (rev rs) (segments ?clean))"
    using join_parts [OF assms(1,2), of ?clean] by (simp add: direct_path_def path_resolve_def)
  consider "[dot, dot] \<notin> set (segments ?clean)" | "?clean = [dot, dot]" using clean_front by blast
  then show ?thesis
  proof cases
    case 1
    from norm_no_up [OF 1 segments_all, of "rev rs"] show ?thesis by (auto simp: inside_def d)
  next
    case 2
    obtain qs q where rs: "rs = qs @ [q]" using assms(2) by (cases rs rule: rev_cases) auto
    have q: "good_part q" using assms(1) rs by simp
    have "norm_segments False (rev rs) (segments ?clean) = qs"
      using q by (simp add: 2 rs good_part_def)
    then have "direct_path cwd (slash # join_segments rs) p = slash # join_segments qs" using d by simp
    moreover have "length (join_segments qs) < length (join_segments rs)"
      using q rs by (cases "qs = []") (auto simp: join_segments_snoc good_part_def)
    ultimately show ?thesis using assms(3) by (auto simp: starts_with_def dest!: arg_cong [of _ _ length])
  qed
qed

lemma inside_index:
  assumes "list_all good_part rs" "rs \<noteq> []" "list_all good_part gs"
  shows "inside rs (path_join (slash # join_segments (rs @ gs)) index_html)"
proof -
  let ?rs = "rs @ gs" let ?p = "(slash # join_segments ?rs) @ slash # index_html"
  have rs: "list_all good_part ?rs" "?rs \<noteq> []" using assms by simp_all
  have i: "good_part index_html" "last index_html \<noteq> slash" "index_html \<noteq> []"
    by (simp_all add: index_html_def good_part_def)
  have seg: "segments ?p = [] # ?rs @ [index_html]"
    using segments_append [of "slash # join_segments ?rs" index_html] segments_abs(1) [OF rs] i
    by (simp add: segments_plain good_part_def)
  have "norm_segments False [] (segments ?p) = ?rs @ [index_html]"
    unfolding seg using norm_good [of "?rs @ [index_html]" False "[]"] rs(1) i by simp
  moreover have "is_abs ?p" by (simp add: is_abs_def)
  moreover have "join_segments (?rs @ [index_html]) \<noteq> []" using rs(2) by (subst join_segments_snoc) simp_all
  ultimately have "path_join (slash # join_segments ?rs) index_html = slash # join_segments (?rs @ [index_html])"
    using i by (simp add: path_join_def path_normalize_def Let_def)
  then show ?thesis using assms(3) i(1) unfolding inside_def by (intro exI [of _ "gs @ [index_html]"]) simp
qed

lemma inside_html:
  assumes "list_all good_part rs" "rs \<noteq> []" "list_all good_part gs"
  shows "inside rs (slash # join_segments (rs @ gs) @ html_suffix) \<or> gs = []"
proof (cases gs rule: rev_cases)
  case (snoc hs h)
  have "good_part (h @ html_suffix)"
    using assms(3) by (auto simp: snoc good_part_def html_suffix_def append_eq_Cons_conv)
  moreover have "join_segments (rs @ gs) @ html_suffix = join_segments (rs @ hs @ [h @ html_suffix])"
    using join_segments_snoc [of "rs @ hs"] assms(2) by (simp add: snoc)
  ultimately show ?thesis using assms(3) snoc unfolding inside_def
    by (intro disjI1 exI [of _ "hs @ [h @ html_suffix]"]) simp
qed simp

text \<open>
  C8: the static server is confined to its directory. Whatever the request, encoded slashes, double
  dots and backslashes included, and whatever files exist, a file it resolves to lies inside the
  served directory, with one exception: the sibling of the directory with .html appended, which
  a request for the directory itself reaches when the directory has no index file.
\<close>

theorem static_confined:
  assumes "list_all good_part rs" "rs \<noteq> []" "resolvePath f cwd (slash # join_segments rs) url = File p"
  shows "inside rs p \<or> p = slash # join_segments rs @ html_suffix"
proof -
  let ?r = "slash # join_segments rs"
  obtain pathname where d: "decodeURIComponent (before_query url) = Some pathname"
    and st: "starts_with (direct_path cwd ?r pathname) ?r"
    and rf: "resolved_file f ?r pathname (direct_path cwd ?r pathname) = Some p"
    using assms(3) by (auto simp: resolvePath_def Let_def split: option.splits if_splits)
  obtain gs where gs: "direct_path cwd ?r pathname = slash # join_segments (rs @ gs)" "list_all good_part gs"
    using direct_inside [OF assms(1,2) st] by (auto simp: inside_def)
  have "p \<in> {slash # join_segments (rs @ gs), path_join (slash # join_segments (rs @ gs)) index_html,
      slash # join_segments (rs @ gs) @ html_suffix, path_join ?r index_html}"
    using rf by (auto simp: gs(1) resolved_file_def Let_def split: if_splits option.splits bool.splits)
  moreover have "inside rs (slash # join_segments (rs @ gs))" using gs(2) by (auto simp: inside_def)
  moreover have "inside rs (path_join (slash # join_segments (rs @ gs)) index_html)"
    by (rule inside_index [OF assms(1,2) gs(2)])
  moreover have "inside rs (path_join ?r index_html)" using inside_index [OF assms(1,2), of "[]"] by simp
  ultimately show ?thesis using inside_html [OF assms(1,2) gs(2)] by auto
qed

definition demo_site :: fs where
  "demo_site = \<lparr>fs_exists = (\<lambda>_. True), fs_dir = (\<lambda>_. Some False), fs_file = (\<lambda>_. Some True)\<rparr>"

theorem static_confined_witness:
  "resolvePath demo_site [] (map of_char ''/out'') ''/..%2f../a?x'' = File (map of_char ''/out/a'')
   \<and> (inside [map of_char ''out''] (map of_char ''/out/a'') \<or> map of_char ''/out/a'' = slash # map of_char ''out'' @ html_suffix)"
proof -
  have r: "resolvePath demo_site [] (map of_char ''/out'') ''/..%2f../a?x'' = File (map of_char ''/out/a'')"
    by code_simp
  have "list_all good_part [map of_char ''out'']" by (simp add: good_part_def)
  from static_confined [OF this, of demo_site "[]" "''/..%2f../a?x''" "map of_char ''/out/a''"] r show ?thesis by simp
qed


end
