(* ===== verification/Static_Api.thy ===== *)
theory Static_Api
  imports Static_Server
begin

text \<open>
  The two JSON endpoints of \<open>scripts/serve-web-static.mjs\<close>. The Sui node is the parameter \<open>rpc\<close>
  (a method and its parameters to a result or the message of the error thrown); the text of a
  number in base 10 and in base 16 are the parameters \<open>numStr\<close> and \<open>numHex\<close>. A loop that would
  not end is the value \<open>None\<close>.
\<close>

section \<open>Bytes\<close>

definition hex_text :: "string \<Rightarrow> bool" where
  "hex_text s = list_all (is_digit 16) s"

fun hex_pairs :: "string \<Rightarrow> number list" where
  "hex_pairs (a # b # s) = num_of_parse (parseInt 16 [a, b]) # hex_pairs s"
| "hex_pairs _ = []"

text \<open>The array case recurses into the items that are arrays themselves.\<close>

fun bytes_of :: "json \<Rightarrow> number list" where
  "bytes_of (JArr xs) = concat (map (\<lambda>x. case x of JArr _ \<Rightarrow> bytes_of x | _ \<Rightarrow> [to_num x]) xs)"
| "bytes_of (JStr s) =
     (if hex_text s \<and> length s mod 2 = 0 then hex_pairs s
      else map (\<lambda>c. Fin (real (of_char c))) (Buffer_from_base64 s))"
| "bytes_of _ = []"

definition hex_of :: "(number \<Rightarrow> string) \<Rightarrow> json \<Rightarrow> string" where
  "hex_of numHex v = concat (map (\<lambda>b. padStart 2 CHR ''0'' (numHex b)) (bytes_of v))"

fun ascii_loop :: "number list \<Rightarrow> string \<Rightarrow> string" where
  "ascii_loop [] chars = chars"
| "ascii_loop (b # bs) chars =
     (if length chars \<ge> 48 then chars
      else if 0x20 \<le> b \<and> b \<le> 0x7e
      then ascii_loop bs (chars @ [case b of Fin x \<Rightarrow> char_of (nat \<lfloor>x\<rfloor>) | _ \<Rightarrow> CHR 0x00])
      else if length chars \<ge> 6 then chars
      else ascii_loop bs chars)"

definition ascii_of :: "json \<Rightarrow> string" where
  "ascii_of v =
     (let data = bytes_of v;
          offset = (if index data 0 = Some 3 \<and> length data > 4 then 4 else 0)
      in trim (ascii_loop (drop offset data) []))"

section \<open>Templates\<close>

record job =
  jobId :: string
  job_templateId :: string
  job_poolId :: string
  job_operator :: string
  job_prevHash :: string
  job_coinbase1 :: string
  coinbaseAscii :: string
  merkleBranches :: "string list"
  job_version :: string
  nBits :: string
  nTime :: string
  createdEpoch :: string
  job_timestampMs :: string
  job_txDigest :: string

record pool_stats =
  pool_poolId :: string
  pool_operator :: string
  pool_totalShares :: string
  pool_difficulty :: string

record server_env =
  srv_package :: string
  srv_pool :: string

text \<open>\<open>String(x ?? d)\<close>\<close>

definition text_or :: "(number \<Rightarrow> string) \<Rightarrow> json \<Rightarrow> json \<Rightarrow> string" where
  "text_or numStr x d = js_string numStr (or_default x d)"

definition pool_of :: "(number \<Rightarrow> string) \<Rightarrow> server_env \<Rightarrow> string + json \<Rightarrow> pool_stats" where
  "pool_of numStr env res =
     (case res of
        Inl _ \<Rightarrow> \<lparr>pool_poolId = srv_pool env, pool_operator = [], pool_totalShares = ''0'', pool_difficulty = ''0''\<rparr>
      | Inr r \<Rightarrow>
          let fields = or_default (get (get (get r ''data'') ''content'') ''fields'') (JObj [])
          in \<lparr>pool_poolId = srv_pool env,
              pool_operator = text_or numStr (get fields ''admin'') (JStr []),
              pool_totalShares = text_or numStr (get fields ''total_shares'') (JStr ''0''),
              pool_difficulty = text_or numStr (get fields ''global_min_difficulty'') (JStr ''0'')\<rparr>)"

record event_info =
  ev_timestampMs :: string
  ev_txDigest :: string

definition event_step ::
  "(number \<Rightarrow> string) \<Rightarrow> string list \<times> (string \<times> event_info) list \<Rightarrow> json \<Rightarrow> string list \<times> (string \<times> event_info) list"
where
  "event_step numStr acc event =
     (let id = text_or numStr (get (get event ''parsedJson'') ''template_id'') (JStr []) in
      if id = [] then acc
      else (fst acc @ [id],
            js_map_set (snd acc) id
              \<lparr>ev_timestampMs = text_or numStr (or_default (get event ''timestampMs'') (get (get event ''parsedJson'') ''timestamp_ms'')) (JStr ''0''),
               ev_txDigest = text_or numStr (get (get event ''id'') ''txDigest'') (JStr [])\<rparr>))"

definition job_of ::
  "(number \<Rightarrow> string) \<Rightarrow> (number \<Rightarrow> string) \<Rightarrow> server_env \<Rightarrow> string list \<Rightarrow> (string \<times> event_info) list \<Rightarrow> nat \<Rightarrow> json \<Rightarrow> job option"
where
  "job_of numStr numHex env ids eventMap i obj =
     (let fields = get (get (get obj ''data'') ''content'') ''fields'' in
      if \<not> truthy fields then None
      else let id = text_or numStr (get (get obj ''data'') ''objectId'')
                      (case index ids i of Some d \<Rightarrow> JStr d | None \<Rightarrow> JStr []);
               event = map_of eventMap id;
               created = get fields ''created_at_ms''
           in Some \<lparr>jobId = text_or numStr (get fields ''height'') (JNum (Fin (real i))),
                job_templateId = id, job_poolId = srv_pool env,
                job_operator = text_or numStr (get fields ''owner'') (JStr []),
                job_prevHash = hex_of numHex (get fields ''prev_block_hash''),
                job_coinbase1 = hex_of numHex (get fields ''coinbase1''),
                coinbaseAscii = ascii_of (get fields ''coinbase1''),
                merkleBranches = (case get fields ''merkle_branches'' of JArr xs \<Rightarrow> map (hex_of numHex) xs | _ \<Rightarrow> []),
                job_version = text_or numStr (get fields ''version'') (JStr ''0''),
                nBits = text_or numStr (get fields ''nbits'') (JStr ''0''),
                nTime = text_or numStr (get fields ''ntime'') (JStr ''0''),
                createdEpoch = text_or numStr created (JStr ''0''),
                job_timestampMs = (case event of Some ev \<Rightarrow> ev_timestampMs ev | None \<Rightarrow> text_or numStr created (JStr ''0'')),
                job_txDigest = (case event of Some ev \<Rightarrow> ev_txDigest ev | None \<Rightarrow> [])\<rparr>)"

text \<open>
  The items of a value that is mapped over, and of one that is iterated: a TypeError unless it is
  an array. The characters of a text can be iterated too, but none of them is an event.
\<close>

definition iter_of :: "json \<Rightarrow> string + json list" where
  "iter_of x = (case x of JArr xs \<Rightarrow> Inr xs | JStr _ \<Rightarrow> Inr [] | _ \<Rightarrow> Inl ''not iterable'')"

definition array_of :: "json \<Rightarrow> string + json list" where
  "array_of x = (case x of JArr xs \<Rightarrow> Inr xs | _ \<Rightarrow> Inl ''map is not a function'')"

definition show_content :: json where
  "show_content = JObj [(''showContent'', JBool True)]"

definition query_events :: "(string \<Rightarrow> json list \<Rightarrow> string + json) \<Rightarrow> string \<Rightarrow> string + json list" where
  "query_events rpc ty =
     sum_bind (rpc ''suix_queryEvents'' [JObj [(''MoveEventType'', JStr ty)], JNull, JNum 50, JBool True])
       (\<lambda>r. iter_of (or_default (get r ''data'') (JArr [])))"

definition templatesPayload ::
  "(number \<Rightarrow> string) \<Rightarrow> (number \<Rightarrow> string) \<Rightarrow> server_env \<Rightarrow> (string \<Rightarrow> json list \<Rightarrow> string + json) \<Rightarrow> string + job list \<times> pool_stats"
where
  "templatesPayload numStr numHex env rpc =
     (let pool = pool_of numStr env (rpc ''sui_getObject'' [JStr (srv_pool env), show_content]) in
      sum_bind (query_events rpc (srv_package env @ ''::pool::TemplateCreated'')) (\<lambda>events.
        let (ids, eventMap) = foldl (event_step numStr) ([], []) events in
        sum_bind (if length ids = 0 then Inr []
                  else sum_bind (rpc ''sui_multiGetObjects'' [JArr (map JStr ids), show_content]) array_of)
          (\<lambda>objects.
             let jobs = List.map_filter (\<lambda>(i, obj). job_of numStr numHex env ids eventMap i obj)
                          (zip [0..<length objects] objects)
             in Inr (js_sort (\<lambda>a b. Number_str (createdEpoch b) - Number_str (createdEpoch a)) jobs, pool))))"

section \<open>Shares\<close>

record share_row =
  row_poolId :: string
  row_jobId :: string
  row_templateId :: string
  worker :: string
  row_nonce :: string
  row_shareHash :: string
  row_difficulty :: string
  row_timestampMs :: string
  row_txDigest :: string

definition array_or_empty :: "json \<Rightarrow> json list" where
  "array_or_empty x = (case x of JArr xs \<Rightarrow> xs | _ \<Rightarrow> [])"

definition item :: "json list \<Rightarrow> nat \<Rightarrow> json" where
  "item xs i = (case index xs i of Some x \<Rightarrow> x | None \<Rightarrow> JUndef)"

text \<open>How often the loop \<open>for (let i = 0; i < count; i += 1)\<close> runs.\<close>

fun loop_count :: "number \<Rightarrow> nat option" where
  "loop_count (Fin x) = Some (nat \<lceil>x\<rceil>)"
| "loop_count PosInf = None"
| "loop_count _ = Some 0"

definition share_row_of ::
  "(number \<Rightarrow> string) \<Rightarrow> (number \<Rightarrow> string) \<Rightarrow> server_env \<Rightarrow> json \<Rightarrow> json \<Rightarrow> nat \<Rightarrow> share_row"
where
  "share_row_of numStr numHex env event parsed i =
     (let shareHash = hex_of numHex (or_default (item (array_or_empty (get parsed ''share_hashes'')) i) (JArr []))
      in \<lparr>row_poolId = srv_pool env,
          row_jobId = text_or numStr (get parsed ''template_id'') (JStr []),
          row_templateId = text_or numStr (get parsed ''template_id'') (JStr []),
          worker = text_or numStr (item (array_or_empty (get parsed ''miners'')) i) (JStr []),
          row_nonce = slice 0 16 shareHash, row_shareHash = shareHash,
          row_difficulty = text_or numStr (or_default (item (array_or_empty (get parsed ''difficulties'')) i) (get parsed ''total_difficulty'')) (JStr ''0''),
          row_timestampMs = text_or numStr (or_default (get event ''timestampMs'') (get parsed ''timestamp_ms'')) (JStr ''0''),
          row_txDigest = text_or numStr (get (get event ''id'') ''txDigest'') (JStr [])\<rparr>)"

definition event_rows ::
  "(number \<Rightarrow> string) \<Rightarrow> (number \<Rightarrow> string) \<Rightarrow> server_env \<Rightarrow> json \<Rightarrow> (string + share_row list) option"
where
  "event_rows numStr numHex env event =
     (if nullish event then Some (Inl ''no member'')
      else let parsed = or_default (get event ''parsedJson'') (JObj []);
               len = (\<lambda>k. Fin (real (length (array_or_empty (get parsed k)))));
               count = Math_max (Math_max (Math_max (to_num (or_default (get parsed ''valid_count'') (JNum 0)))
                         (len ''miners'')) (len ''share_hashes'')) (len ''difficulties'')
           in map_option (\<lambda>n. Inr (map (share_row_of numStr numHex env event parsed) [0..<n])) (loop_count count))"

fun collect_rows :: "(json \<Rightarrow> (string + share_row list) option) \<Rightarrow> json list \<Rightarrow> share_row list \<Rightarrow> (string + share_row list) option" where
  "collect_rows f [] rows = Some (Inr rows)"
| "collect_rows f (e # es) rows =
     (case f e of
        None \<Rightarrow> None
      | Some (Inl msg) \<Rightarrow> Some (Inl msg)
      | Some (Inr rs) \<Rightarrow> collect_rows f es (rows @ rs))"

definition sharesPayload ::
  "(number \<Rightarrow> string) \<Rightarrow> (number \<Rightarrow> string) \<Rightarrow> server_env \<Rightarrow> (string \<Rightarrow> json list \<Rightarrow> string + json) \<Rightarrow> (string + share_row list) option"
where
  "sharesPayload numStr numHex env rpc =
     (case query_events rpc (srv_package env @ ''::pool::BatchSharesValidated'') of
        Inl msg \<Rightarrow> Some (Inl msg)
      | Inr events \<Rightarrow> collect_rows (event_rows numStr numHex env) events [])"

section \<open>Validated batches\<close>

text \<open>A batch of validated shares and the event the node reports for it.\<close>

record batch =
  sb_template :: string
  sb_shares :: "(string \<times> bytes \<times> nat) list"
  sb_time :: string
  sb_digest :: string

definition bytes_json :: "bytes \<Rightarrow> json" where
  "bytes_json bs = JArr (map (\<lambda>b. JNum (Fin (real (unat b)))) bs)"

definition batch_json :: "batch \<Rightarrow> json" where
  "batch_json b =
     JObj [(''id'', JObj [(''txDigest'', JStr (sb_digest b))]),
       (''parsedJson'', JObj
         [(''template_id'', JStr (sb_template b)),
          (''valid_count'', JStr (to_radix 10 (length (sb_shares b)))),
          (''miners'', JArr (map (\<lambda>(m, h, d). JStr m) (sb_shares b))),
          (''share_hashes'', JArr (map (\<lambda>(m, h, d). bytes_json h) (sb_shares b))),
          (''difficulties'', JArr (map (\<lambda>(m, h, d). JStr (to_radix 10 d)) (sb_shares b)))]),
       (''timestampMs'', JStr (sb_time b))]"

definition batch_rows :: "server_env \<Rightarrow> batch \<Rightarrow> share_row list" where
  "batch_rows env b =
     map (\<lambda>(m, h, d). \<lparr>row_poolId = srv_pool env, row_jobId = sb_template b, row_templateId = sb_template b,
            worker = m, row_nonce = take 16 (bytes_hex h), row_shareHash = bytes_hex h,
            row_difficulty = to_radix 10 d, row_timestampMs = sb_time b, row_txDigest = sb_digest b\<rparr>) (sb_shares b)"

lemma hex_of_bytes:
  assumes "\<And>n. n < 256 \<Longrightarrow> numHex (Fin (real n)) = to_radix 16 n"
  shows "hex_of numHex (bytes_json bs) = bytes_hex bs"
proof -
  have "bytes_of (bytes_json bs) = map (\<lambda>b. Fin (real (unat b))) bs"
    by (induction bs) (simp_all add: bytes_json_def)
  moreover have "numHex (Fin (real (unat b))) = to_radix 16 (unat b)" for b :: byte
    by (rule assms [OF unat_byte_less])
  ultimately show ?thesis
    by (simp add: hex_of_def bytes_hex_def byte_hex_def [abs_def] comp_def del: of_nat_unat)
qed

lemma event_rows_batch:
  assumes "\<And>n. n < 256 \<Longrightarrow> numHex (Fin (real n)) = to_radix 16 n"
  shows "event_rows numStr numHex env (batch_json b) = Some (Inr (batch_rows env b))"
proof -
  let ?n = "length (sb_shares b)"
  let ?parsed = "get (batch_json b) ''parsedJson''"
  have "all_digits (to_radix 10 ?n)" using to_radix_digits [of 10 ?n] by (simp add: all_digits_def list_all_iff)
  then have num: "Number_str (to_radix 10 ?n) = Fin (real ?n)" by (simp add: Number_str_digits)
  have row: "share_row_of numStr numHex env (batch_json b) ?parsed i = batch_rows env b ! i" if "i < ?n" for i
    using that hex_of_bytes [OF assms]
    by (auto simp: share_row_of_def batch_rows_def batch_json_def obj_get_def array_or_empty_def item_def index_def
        text_or_def Let_def or_default_def bytes_json_def split: prod.split)
  have "map (share_row_of numStr numHex env (batch_json b) ?parsed) [0..<?n] = batch_rows env b"
    by (rule nth_equalityI) (simp_all add: row batch_rows_def)
  moreover have "\<not> nullish (batch_json b)" "or_default ?parsed (JObj []) = ?parsed"
    by (simp_all add: batch_json_def obj_get_def or_default_def)
  moreover have "get ?parsed ''valid_count'' = JStr (to_radix 10 ?n)"
    "length (array_or_empty (get ?parsed ''miners'')) = ?n" "length (array_or_empty (get ?parsed ''share_hashes'')) = ?n"
    "length (array_or_empty (get ?parsed ''difficulties'')) = ?n"
    by (simp_all add: batch_json_def obj_get_def array_or_empty_def)
  ultimately show ?thesis by (simp add: event_rows_def Let_def num)
qed

text \<open>
  The shares endpoint lists every validated share once. When the node reports the events of a
  list of batches, a request for it answers with the shares of all batches, in order, each with its
  miner, template, difficulty and digest, and its hash in hexadecimal.
\<close>

theorem shares_endpoint_lists_batches:
  assumes "\<And>n. n < 256 \<Longrightarrow> numHex (Fin (real n)) = to_radix 16 n"
    and "rpc ''suix_queryEvents'' [JObj [(''MoveEventType'', JStr (srv_package env @ ''::pool::BatchSharesValidated''))],
           JNull, JNum 50, JBool True] = Inr (JObj [(''data'', JArr (map batch_json batches))])"
  shows "\<exists>r. sharesPayload numStr numHex env rpc = Some r
    \<and> handle_request f cwd base tp (\<lambda>_. r) (Some ''/api/shares?x'') = JsonOk (concat (map (batch_rows env) batches))"
proof -
  have "collect_rows (event_rows numStr numHex env) (map batch_json bs) rows
      = Some (Inr (rows @ concat (map (batch_rows env) bs)))" for bs rows
    by (induction bs arbitrary: rows) (simp_all add: event_rows_batch [OF assms(1)])
  then have "sharesPayload numStr numHex env rpc = Some (Inr (concat (map (batch_rows env) batches)))"
    using assms(2) by (simp add: sharesPayload_def query_events_def iter_of_def obj_get_def or_default_def)
  then show ?thesis by (simp add: handle_request_def before_query_def sendJson_def)
qed

definition demo_hex :: "number \<Rightarrow> string" where
  "demo_hex x = (case x of Fin r \<Rightarrow> to_radix 16 (nat \<lfloor>r\<rfloor>) | _ \<Rightarrow> ''NaN'')"

theorem shares_endpoint_lists_batches_witness:
  "\<exists>r. sharesPayload (\<lambda>_. []) demo_hex \<lparr>srv_package = ''0x1'', srv_pool = ''0x2''\<rparr>
       (\<lambda>_ _. Inr (JObj [(''data'', JArr (map batch_json
          [\<lparr>sb_template = ''t'', sb_shares = [(''m'', [1, 255], 7)], sb_time = ''5'', sb_digest = ''d''\<rparr>]))])) = Some r
     \<and> handle_request demo_site [] [] (\<lambda>_. Inl ''x'') (\<lambda>_. r) (Some ''/api/shares?x'') =
        JsonOk (concat (map (batch_rows \<lparr>srv_package = ''0x1'', srv_pool = ''0x2''\<rparr>)
          [\<lparr>sb_template = ''t'', sb_shares = [(''m'', [1, 255], 7)], sb_time = ''5'', sb_digest = ''d''\<rparr>]))"
  by (rule shares_endpoint_lists_batches) (simp_all only: demo_hex_def number.case floor_of_nat nat_int)

text \<open>
  A byte string in base64 is read as hexadecimal when its text happens to be hexadecimal: the
  three bytes 69 b7 1d are written abcd in base64 and shown as the two bytes ab cd.
\<close>

lemma base64_read_as_hex:
  "Buffer_from_base64 ''abcd'' = map char_of [0x69 :: nat, 0xb7, 0x1d] \<and> bytes_of (JStr ''abcd'') = [Fin 171, Fin 205]"
proof
  show "Buffer_from_base64 ''abcd'' = map char_of [0x69 :: nat, 0xb7, 0x1d]" by code_simp
  have "parseInt 16 ''ab'' = Some 171" "parseInt 16 ''cd'' = Some 205" "hex_text ''abcd''" by code_simp+
  then show "bytes_of (JStr ''abcd'') = [Fin 171, Fin 205]" by (simp add: num_of_parse_def)
qed

section \<open>Bytes are bytes\<close>

definition is_byte :: "number \<Rightarrow> bool" where
  "is_byte b = (\<exists>n < 256 :: nat. b = Fin (real n))"

lemma hex_pairs_bytes: "hex_text s \<Longrightarrow> list_all is_byte (hex_pairs s)"
proof (induction s rule: hex_pairs.induct)
  case (1 a b s)
  then have d: "\<forall>c \<in> set [a, b]. is_digit 16 c" by (simp add: hex_text_def)
  have "digits_val 16 [a, b] < 16 ^ length [a, b]" by (rule digits_val_less) (use d in simp_all)
  moreover have "parseInt 16 [a, b] = Some (int (digits_val 16 [a, b]))" by (rule parseInt_digits) (use d in simp_all)
  ultimately show ?case using 1 by (auto simp: hex_text_def is_byte_def num_of_parse_def power2_eq_square)
qed simp_all



end
