(* ===== verification/Rewards.thy ===== *)
theory Rewards
  imports Orders Wallet
begin

text \<open>
  Model of the rewards page, \<open>app/rewards/page.tsx\<close>, and of \<open>hooks/useRoundHistories.ts\<close>: which
  reward batch and which round history a work record is claimed against, and the claim
  transaction. The Sui client, the transaction lookup and the signature are parameters; batches
  come from \<open>useHashiRewardBatches\<close> and work records from \<open>useMinerWorkRecords\<close>.
\<close>

section \<open>Round histories\<close>

definition history_object :: "tx_change list \<Rightarrow> string option" where
  "history_object changes =
     map_option tc_created
       (find (\<lambda>c. tc_kind c = ''created'' \<and> js_includes ''::pool::RoundHistory'' (tc_objectType c)) changes)"

text \<open>One event of the loop: a round that is already known keeps its history.\<close>

definition history_step ::
  "(number \<Rightarrow> string) \<Rightarrow> (string \<Rightarrow> rpc_error + tx_change list) \<Rightarrow> (int \<times> string) list \<Rightarrow> sui_event
     \<Rightarrow> rpc_error + (int \<times> string) list"
where
  "history_step numStr getTx out e =
     (let rid = get (parsedJson e) ''round_id'' in
      if \<not> truthy rid then Inr out
      else sum_bind (of_opt BadBigInt (BigInt_json numStr rid)) (\<lambda>r.
           if map_of out r \<noteq> None then Inr out
           else sum_bind (getTx (txDigest e)) (\<lambda>changes.
                  Inr (case history_object changes of Some h \<Rightarrow> js_map_set out r h | None \<Rightarrow> out))))"

definition useRoundHistories ::
  "(number \<Rightarrow> string) \<Rightarrow> 'c sui_client \<Rightarrow> (string \<Rightarrow> rpc_error + tx_change list) \<Rightarrow> string
     \<Rightarrow> rpc_error + (int \<times> string) list"
where
  "useRoundHistories numStr client getTx orig =
     (if orig = [] then Inr []
      else sum_bind (queryEvents client (orig @ ''::pool::RoundClosed'') 100 None) (\<lambda>events.
             sum_fold (history_step numStr getTx) [] (page_data events)))"

section \<open>The page\<close>

record rewards_env =
  re_package :: string
  re_pool :: string
  re_registry :: string
  re_hbtc :: string

definition SUI_CLOCK :: string where
  "SUI_CLOCK = ''0x0000000000000000000000000000000000000000000000000000000000000006''"

definition configured :: "rewards_env \<Rightarrow> bool" where
  "configured env = (re_pool env \<noteq> [] \<and> re_registry env \<noteq> [] \<and> re_package env \<noteq> [])"

definition formatSats :: "(number \<Rightarrow> string) \<Rightarrow> int \<Rightarrow> string" where
  "formatSats numStr sats =
     (if sats = 0 then ''0'' else toFixed numStr 8 (Fin (of_int sats) / Fin (10 ^ 8)) @ '' BTC'')"

definition statusLabel :: "nat \<Rightarrow> string" where
  "statusLabel status =
     (case index [''PENDING'', ''FUNDED'', ''COMPLETED'', ''EXPIRED''] status of
        Some l \<Rightarrow> l | None \<Rightarrow> ''STATUS_'' @ to_radix 10 status)"

definition fund_step :: "(int \<times> HashiRewardBatch) list \<Rightarrow> HashiRewardBatch \<Rightarrow> (int \<times> HashiRewardBatch) list" where
  "fund_step m b = (if batch_status b = 1 then js_map_set m (roundId b) b else m)"

definition fundedByRound :: "HashiRewardBatch list \<Rightarrow> (int \<times> HashiRewardBatch) list" where
  "fundedByRound batches = foldl fund_step [] batches"

datatype claim_result = ClaimOk string int | ClaimErr string

definition claim_tx :: "rewards_env \<Rightarrow> string \<Rightarrow> string \<Rightarrow> string \<Rightarrow> tx" where
  "claim_tx env batch record_id history =
     [MoveCall (re_package env @ ''::hashi_rewards::claim_reward'') [re_hbtc env]
        [ObjArg (re_registry env), ObjArg batch, ObjArg record_id, ObjArg history, ObjArg SUI_CLOCK]]"

text \<open>
  The result, the transactions handed to the wallet, and whether the records and batches are
  fetched again. An identifier that is not text is rejected by the builder.
\<close>

definition claim ::
  "rewards_env \<Rightarrow> HashiRewardBatch list \<Rightarrow> (int \<times> string) list \<Rightarrow> (tx \<Rightarrow> string + string) \<Rightarrow> string \<Rightarrow> int
     \<Rightarrow> claim_result \<times> tx list \<times> bool"
where
  "claim env batches histories sign record_id r =
     (case (map_of (fundedByRound batches) r, map_of histories r) of
        (Some b, Some h) \<Rightarrow>
          if h = [] then (ClaimErr ''Batch or RoundHistory not found'', [], False)
          else (case batchId b of
                  JStr i \<Rightarrow>
                    let t = claim_tx env i record_id h in
                    (case sign t of
                       Inl msg \<Rightarrow> (ClaimErr msg, [t], False)
                     | Inr digest \<Rightarrow> (ClaimOk digest r, [t], True))
                | _ \<Rightarrow> (ClaimErr ''invalid object'', [], False))
      | _ \<Rightarrow> (ClaimErr ''Batch or RoundHistory not found'', [], False))"

datatype record_action = ClaimButton | WaitingForHistory | NoFundedBatch

definition record_action_of ::
  "string option \<Rightarrow> HashiRewardBatch list \<Rightarrow> (int \<times> string) list \<Rightarrow> MinerWorkRecord \<Rightarrow> record_action"
where
  "record_action_of account batches histories r =
     (let batch = map_of (fundedByRound batches) (wr_roundId r);
          history = map_of histories (wr_roundId r);
          canClaim = (batch \<noteq> None \<and> (\<exists>h \<in> set_option history. h \<noteq> []) \<and> account \<noteq> None)
      in if canClaim then ClaimButton else if batch \<noteq> None then WaitingForHistory else NoFundedBatch)"

text \<open>The round and the redemption shown beside a HashShare balance.\<close>

definition share_round :: "HashShareSlotBinding list \<Rightarrow> HashShareBalance \<Rightarrow> int option" where
  "share_round bindings b = map_option hb_roundId (find (\<lambda>x. hb_fullType x = fullType b) bindings)"

definition redemption_open :: "HashShareRedemptionPool list \<Rightarrow> HashShareBalance \<Rightarrow> bool" where
  "redemption_open redemptions b = (find (\<lambda>r. rp_fullType r = fullType b) redemptions \<noteq> None)"

section \<open>Which batch is claimed\<close>

lemma fundedByRound_last:
  "map_of (foldl fund_step m bs) r =
     (case rev (filter (\<lambda>b. batch_status b = 1 \<and> roundId b = r) bs) of [] \<Rightarrow> map_of m r | b # _ \<Rightarrow> Some b)"
proof (induction bs rule: rev_induct)
  case (snoc b bs)
  then show ?case by (auto simp: fund_step_def split: list.split)
qed simp

lemma js_sort_round_stable:
  "filter (\<lambda>b. roundId b = r) (js_sort (\<lambda>a b. Fin (of_int (roundId b - roundId a))) bs) = filter (\<lambda>b. roundId b = r) bs"
proof -
  have "js_sort (\<lambda>a b. Fin (of_int (roundId b - roundId a))) bs = sort_key (\<lambda>b. - real_of_int (roundId b)) bs"
    by (rule js_sort_sort_key) simp
  then show ?thesis using sort_key_stable [of "\<lambda>b. - real_of_int (roundId b)" "- real_of_int r" bs] by simp
qed

text \<open>The funded batches that the events of a page announce, newest first as the page is.\<close>

definition funded_page :: "(number \<Rightarrow> string) \<Rightarrow> sui_event list \<Rightarrow> HashiRewardBatch list" where
  "funded_page numStr es =
     (case sum_map (funded_batch numStr) es of Inr out \<Rightarrow> some_values out | Inl _ \<Rightarrow> [])"

lemma fundedByRound_batches:
  assumes "queryEvents client (orig @ ''::hashi_rewards::HashiBatchFunded'') 50 None = Inr funded"
    and "useHashiRewardBatches numStr client orig = Inr batches"
  shows "map_of (fundedByRound batches) r =
    (let bs = filter (\<lambda>b. roundId b = r) (funded_page numStr (page_data funded)) in if bs = [] then None else Some (last bs))"
proof -
  obtain out all ces where o1: "sum_map (funded_batch numStr) (page_data funded) = Inr out"
    and o2: "sum_fold (pending_step numStr) (some_values out) (created_map ces) = Inr all"
    and bs: "batches = js_sort (\<lambda>a b. Fin (of_int (roundId b - roundId a))) all"
    using assms by (auto simp: useHashiRewardBatches_def)
  obtain new where new: "all = some_values out @ new" "list_all (\<lambda>b. batch_status b = 0) new"
    using pending_fold [OF o2] created_map_keys by blast
  have one: "filter (\<lambda>b. batch_status b = 1) all = some_values out"
    using funded_batches [OF o1] new by (auto simp: list_all_iff filter_id_conv filter_empty_conv)
  have "filter (\<lambda>b. batch_status b = 1 \<and> roundId b = r) batches
      = filter (\<lambda>b. batch_status b = 1) (filter (\<lambda>b. roundId b = r) batches)" by (simp add: conj_commute)
  also have "\<dots> = filter (\<lambda>b. roundId b = r) (filter (\<lambda>b. batch_status b = 1) all)"
    unfolding bs js_sort_round_stable by (simp add: conj_commute)
  finally have f: "filter (\<lambda>b. batch_status b = 1 \<and> roundId b = r) batches = filter (\<lambda>b. roundId b = r) (some_values out)"
    by (simp only: one)
  have "(case rev xs of [] \<Rightarrow> None | b # _ \<Rightarrow> Some b) = (if xs = [] then None else Some (last xs))" for xs :: "HashiRewardBatch list"
    by (cases xs rule: rev_cases) simp_all
  then show ?thesis
    unfolding fundedByRound_def fundedByRound_last f Let_def funded_page_def o1 sum.case map_of.simps by blast
qed

section \<open>Which history is claimed\<close>

definition event_round :: "(number \<Rightarrow> string) \<Rightarrow> sui_event \<Rightarrow> int option" where
  "event_round numStr e =
     (let rid = get (parsedJson e) ''round_id'' in if truthy rid then BigInt_json numStr rid else None)"

text \<open>The first history that the closing transactions of a round create.\<close>

fun first_history ::
  "(number \<Rightarrow> string) \<Rightarrow> (string \<Rightarrow> rpc_error + tx_change list) \<Rightarrow> int \<Rightarrow> sui_event list \<Rightarrow> string option"
where
  "first_history numStr getTx r [] = None"
| "first_history numStr getTx r (e # es) =
     (case (if event_round numStr e = Some r then getTx (txDigest e) else Inr []) of
        Inl _ \<Rightarrow> None
      | Inr changes \<Rightarrow>
          (case (if event_round numStr e = Some r then history_object changes else None) of
             Some h \<Rightarrow> Some h
           | None \<Rightarrow> first_history numStr getTx r es))"

lemma history_step_cases:
  assumes "history_step numStr getTx out e = Inr out'"
  shows "map_of out' r = (case map_of out r of
      Some h \<Rightarrow> Some h
    | None \<Rightarrow> if event_round numStr e = Some r then (case getTx (txDigest e) of Inr ch \<Rightarrow> history_object ch | Inl _ \<Rightarrow> None) else None)"
    and "map_of out r = None \<Longrightarrow> event_round numStr e = Some r \<Longrightarrow> \<exists>ch. getTx (txDigest e) = Inr ch"
proof -
  consider "event_round numStr e = None" "out' = out"
    | r' h where "event_round numStr e = Some r'" "map_of out r' = Some h" "out' = out"
    | r' ch where "event_round numStr e = Some r'" "map_of out r' = None" "getTx (txDigest e) = Inr ch"
        "out' = (case history_object ch of Some h \<Rightarrow> js_map_set out r' h | None \<Rightarrow> out)"
    using assms
    by (cases "map_of out (the (BigInt_json numStr (get (parsedJson e) ''round_id'')))")
      (auto simp: history_step_def event_round_def Let_def split: if_splits)
  note cases = this
  show "map_of out' r = (case map_of out r of
      Some h \<Rightarrow> Some h
    | None \<Rightarrow> if event_round numStr e = Some r then (case getTx (txDigest e) of Inr ch \<Rightarrow> history_object ch | Inl _ \<Rightarrow> None) else None)"
    by (rule cases) (auto split: option.split)
  show "\<exists>ch. getTx (txDigest e) = Inr ch" if "map_of out r = None" "event_round numStr e = Some r"
    by (rule cases) (use that in auto)
qed

lemma histories_fold:
  "sum_fold (history_step numStr getTx) out es = Inr out' \<Longrightarrow>
     map_of out' r = (case map_of out r of Some h \<Rightarrow> Some h | None \<Rightarrow> first_history numStr getTx r es)"
proof (induction es arbitrary: out)
  case Nil
  then show ?case by (auto split: option.split)
next
  case (Cons e es)
  then obtain out1 where o1: "history_step numStr getTx out e = Inr out1" "sum_fold (history_step numStr getTx) out1 es = Inr out'"
    by auto
  show ?case
    using Cons.IH [OF o1(2)] history_step_cases [OF o1(1), of r]
    by (auto split: option.splits sum.splits if_splits)
qed

text \<open>
  C24: a claim goes to the round it is offered for. When the page offers to claim a work record, one
  click hands exactly one transaction to the wallet: claim_reward on that record, with a batch the
  node reports as funded for the record's round and the history that the most recent closing
  transaction of the round created. Of several funded batches of the round it is the oldest of
  the page, since later entries replace earlier ones and the node lists the newest first.
\<close>

theorem claim_targets_round:
  assumes "queryEvents client (orig @ ''::hashi_rewards::HashiBatchFunded'') 50 None = Inr funded"
    and "useHashiRewardBatches numStr client orig = Inr batches"
    and "queryEvents client (orig @ ''::pool::RoundClosed'') 100 None = Inr closing" "orig \<noteq> []"
    and "useRoundHistories numStr client getTx orig = Inr histories"
    and "record_action_of account batches histories wr = ClaimButton"
    and "list_all (\<lambda>b. \<exists>i. batchId b = JStr i) (funded_page numStr (page_data funded))"
  shows "\<exists>b i h. b = last (filter (\<lambda>b. roundId b = wr_roundId wr) (funded_page numStr (page_data funded)))
    \<and> b \<in> set (funded_page numStr (page_data funded)) \<and> roundId b = wr_roundId wr \<and> batchId b = JStr i
    \<and> first_history numStr getTx (wr_roundId wr) (page_data closing) = Some h
    \<and> claim env batches histories sign (wr_objectId wr) (wr_roundId wr) =
        (let t = claim_tx env i (wr_objectId wr) h in
         case sign t of Inl msg \<Rightarrow> (ClaimErr msg, [t], False) | Inr d \<Rightarrow> (ClaimOk d (wr_roundId wr), [t], True))"
proof -
  let ?r = "wr_roundId wr" and ?fs = "funded_page numStr (page_data funded)"
  obtain b h where b: "map_of (fundedByRound batches) ?r = Some b" and h: "map_of histories ?r = Some h" "h \<noteq> []"
    using assms(6) by (auto simp: record_action_of_def Let_def split: if_splits option.splits)
  have ne: "filter (\<lambda>b. roundId b = ?r) ?fs \<noteq> []" and last: "b = last (filter (\<lambda>b. roundId b = ?r) ?fs)"
    using b fundedByRound_batches [OF assms(1,2), of ?r] by (auto simp: Let_def split: if_splits)
  have "b \<in> set (filter (\<lambda>b. roundId b = ?r) ?fs)" using last_in_set [OF ne] last by simp
  then have bm: "b \<in> set ?fs" "roundId b = ?r" by simp_all
  then obtain i where i: "batchId b = JStr i" using assms(7) by (auto simp: list_all_iff)
  have "sum_fold (history_step numStr getTx) [] (page_data closing) = Inr histories"
    using assms(3-5) by (simp add: useRoundHistories_def)
  then have "first_history numStr getTx ?r (page_data closing) = Some h"
    using histories_fold [of numStr getTx "[]" _ histories ?r] h(1) by simp
  moreover have "claim env batches histories sign (wr_objectId wr) ?r =
      (let t = claim_tx env i (wr_objectId wr) h in
       case sign t of Inl msg \<Rightarrow> (ClaimErr msg, [t], False) | Inr d \<Rightarrow> (ClaimOk d ?r, [t], True))"
    using b h i by (simp add: claim_def)
  ultimately show ?thesis using last bm i by blast
qed

definition demo_rewards_client :: "nat sui_client" where
  "demo_rewards_client =
     stream_client (\<lambda>t. if t = ''0x0::hashi_rewards::HashiBatchFunded'' then [demo_batch_event ''0xb'' ''1'', demo_batch_event ''0xa'' ''1'']
                        else if t = ''0x0::pool::RoundClosed'' then [demo_batch_event ''0xc'' ''1''] else [])"

definition demo_tx :: "string \<Rightarrow> rpc_error + tx_change list" where
  "demo_tx d = Inr [\<lparr>tc_kind = ''created'', tc_objectType = ''0x0::pool::RoundHistory'', tc_created = ''0xh''\<rparr>]"

definition demo_record :: MinerWorkRecord where
  "demo_record = \<lparr>wr_objectId = ''0xr'', wr_roundId = 1, wr_miner = ''0xm'', netWork = 5\<rparr>"

definition demo_rewards_env :: rewards_env where
  "demo_rewards_env = \<lparr>re_package = ''0x9'', re_pool = ''0x8'', re_registry = ''0x7'', re_hbtc = ''0x2::sui::SUI''\<rparr>"

theorem claim_targets_round_witness:
  "\<exists>batches histories. useHashiRewardBatches (\<lambda>_. []) demo_rewards_client ''0x0'' = Inr batches
     \<and> useRoundHistories (\<lambda>_. []) demo_rewards_client demo_tx ''0x0'' = Inr histories
     \<and> claim demo_rewards_env batches histories (\<lambda>_. Inr ''d'') ''0xr'' 1 =
        (ClaimOk ''d'' 1, [claim_tx demo_rewards_env ''0xa'' ''0xr'' ''0xh''], True)"
proof -
  have "case (useHashiRewardBatches (\<lambda>_. []) demo_rewards_client ''0x0'', useRoundHistories (\<lambda>_. []) demo_rewards_client demo_tx ''0x0'') of
      (Inr batches, Inr histories) \<Rightarrow> record_action_of (Some ''0x1'') batches histories demo_record = ClaimButton | _ \<Rightarrow> False"
    by code_simp
  then obtain batches histories where ok: "useHashiRewardBatches (\<lambda>_. []) demo_rewards_client ''0x0'' = Inr batches"
    "useRoundHistories (\<lambda>_. []) demo_rewards_client demo_tx ''0x0'' = Inr histories"
    "record_action_of (Some ''0x1'') batches histories demo_record = ClaimButton" by (auto split: sum.splits)
  let ?funded = "[demo_batch_event ''0xb'' ''1'', demo_batch_event ''0xa'' ''1'']" and ?closed = "[demo_batch_event ''0xc'' ''1'']"
  have q: "queryEvents demo_rewards_client (''0x0'' @ ''::hashi_rewards::HashiBatchFunded'') 50 None
      = Inr \<lparr>page_data = ?funded, hasNextPage = False, nextCursor = Some 1\<rparr>"
    "queryEvents demo_rewards_client (''0x0'' @ ''::pool::RoundClosed'') 100 None
      = Inr \<lparr>page_data = ?closed, hasNextPage = False, nextCursor = Some 1\<rparr>"
    by (simp_all add: demo_rewards_client_def stream_client_def)
  have fp: "map batchId (filter (\<lambda>b. roundId b = 1) (funded_page (\<lambda>_. []) ?funded)) = [JStr ''0xb'', JStr ''0xa'']"
    "map batchId (funded_page (\<lambda>_. []) ?funded) = [JStr ''0xb'', JStr ''0xa'']"
    "first_history (\<lambda>_. []) demo_tx 1 ?closed = Some ''0xh''" by code_simp+
  have "list_all (\<lambda>x. \<exists>i. x = JStr i) (map batchId (funded_page (\<lambda>_. []) ?funded))" by (simp add: fp(2))
  then have ids: "list_all (\<lambda>b. \<exists>i. batchId b = JStr i) (funded_page (\<lambda>_. []) ?funded)" by (simp add: list_all_iff)
  have last: "batchId (last (filter (\<lambda>b. roundId b = 1) (funded_page (\<lambda>_. []) ?funded))) = JStr ''0xa''"
    using fp(1) by (cases "filter (\<lambda>b. roundId b = 1) (funded_page (\<lambda>_. []) ?funded)") (auto simp flip: last_map)
  have "\<exists>b i h. b = last (filter (\<lambda>b. roundId b = 1) (funded_page (\<lambda>_. []) ?funded))
    \<and> batchId b = JStr i \<and> first_history (\<lambda>_. []) demo_tx 1 ?closed = Some h
    \<and> claim demo_rewards_env batches histories (\<lambda>_. Inr ''d'') ''0xr'' 1 = (ClaimOk ''d'' 1, [claim_tx demo_rewards_env i ''0xr'' h], True)"
    using claim_targets_round [OF q(1) ok(1) q(2) _ ok(2,3), of demo_rewards_env "\<lambda>_. Inr ''d''"] ids
    by (auto simp: demo_record_def)
  then show ?thesis using ok(1,2) last fp(3) by auto
qed

end
