(* ===== verification/Market_View.thy ===== *)
theory Market_View
  imports Share_Market
begin

text \<open>
  What the market page shows of the book: \<open>components/market/OrderBookSidebar.tsx\<close> (the rows of
  both sides with their depth bars, the spread, the caller's own orders, dollar values) and
  \<open>components/market/RoundSelector.tsx\<close> (the bindings offered for selection). The spot price of
  SUI is an argument; the markup is not modelled.
\<close>

section \<open>Values in dollars\<close>

definition USD_PEGGED :: "string set" where
  "USD_PEGGED = {''USDC'', ''DUSDC'', ''USDT'', ''USDY'', ''DBUSDC'', ''DBUSDT''}"

definition notionalUsd :: "int \<Rightarrow> int \<Rightarrow> QuoteToken \<Rightarrow> number option \<Rightarrow> number option" where
  "notionalUsd priceBaseUnits units quote suiPrice =
     (let quoteAmount = Fin (of_int (priceBaseUnits * units)) / Fin (10 ^ decimals quote) in
      if symbol quote \<in> USD_PEGGED then Some quoteAmount
      else if symbol quote = ''SUI''
      then (case suiPrice of
              None \<Rightarrow> None
            | Some p \<Rightarrow> if falsy p \<or> p \<le> 0 then None else Some (quoteAmount * p))
      else None)"

definition formatUnits :: "(number \<Rightarrow> string) \<Rightarrow> int \<Rightarrow> string" where
  "formatUnits numStr n =
     (if n < 1000 then int_to_string n
      else if n < 1000000 then toFixed numStr 1 (Fin (of_int n / 1000)) @ ''K''
      else if n < 1000000000 then toFixed numStr 2 (Fin (of_int n / 1000000)) @ ''M''
      else toFixed numStr 2 (Fin (of_int n / 1000000000)) @ ''B'')"

definition formatUsd :: "(number \<Rightarrow> string) \<Rightarrow> number \<Rightarrow> string" where
  "formatUsd numStr n =
     (if n = 0 then ''$0''
      else if Fin (1 / 100) \<le> n then ''$'' @ toFixed numStr 4 n
      else if Fin (1 / 10 ^ 6) \<le> n then ''$'' @ toFixed numStr 2 (n * Fin (10 ^ 6)) @ '' '' @ [CHR 0xB5]
      else ''$'' @ toFixed numStr 2 (n * Fin (10 ^ 9)) @ '' n'')"

section \<open>The sides of the book\<close>

definition asks_shown :: "ShareMarketOrder list \<Rightarrow> ShareMarketOrder list" where
  "asks_shown asks = (let r = rev asks in slice (- 10) (int (length r)) r)"

definition bids_shown :: "ShareMarketOrder list \<Rightarrow> ShareMarketOrder list" where
  "bids_shown bids = slice 0 10 bids"

definition side_max :: "ShareMarketOrder list \<Rightarrow> int" where
  "side_max orders = foldl (\<lambda>m x. if maxUnits x > m then maxUnits x else m) 1 orders"

definition depth_pct :: "int \<Rightarrow> ShareMarketOrder \<Rightarrow> int" where
  "depth_pct mx x = (if mx > 0 then bigint_div (maxUnits x * 100) mx else 0)"

definition bar_pct :: "int \<Rightarrow> ShareMarketOrder \<Rightarrow> int" where
  "bar_pct mx x = min 100 (depth_pct mx x)"

definition mine :: "string option \<Rightarrow> ShareMarketOrder list \<Rightarrow> ShareMarketOrder list \<Rightarrow> ShareMarketOrder list" where
  "mine myAddress bids asks =
     (case myAddress of
        Some a \<Rightarrow> if a = [] then [] else filter (\<lambda>x. so_owner x = a) (bids @ asks)
      | None \<Rightarrow> [])"

definition top_price :: "ShareMarketOrder list \<Rightarrow> int" where
  "top_price orders = (case index orders 0 of Some x \<Rightarrow> pricePerUnitMist x | None \<Rightarrow> 0)"

text \<open>The spread and its share of the best ask in percent, or \<open>None\<close> when a side is empty.\<close>

definition spread_of :: "ShareMarketOrder list \<Rightarrow> ShareMarketOrder list \<Rightarrow> (int \<times> number) option" where
  "spread_of bids asks =
     (let topBid = top_price bids; topAsk = top_price asks in
      if topBid = 0 \<or> topAsk = 0 then None
      else let spread = topAsk - topBid
           in Some (spread, Fin (of_int (bigint_div (spread * 10000) topAsk) / 100)))"

section \<open>The round selector\<close>

definition latest_binding ::
  "(string \<times> HashShareSlotBinding) list \<Rightarrow> HashShareSlotBinding \<Rightarrow> (string \<times> HashShareSlotBinding) list"
where
  "latest_binding m b =
     (case map_of m (hb_fullType b) of
        None \<Rightarrow> js_map_set m (hb_fullType b) b
      | Some cur \<Rightarrow> if hb_roundId cur < hb_roundId b then js_map_set m (hb_fullType b) b else m)"

definition byCoin :: "HashShareSlotBinding list \<Rightarrow> HashShareSlotBinding list" where
  "byCoin bindings =
     js_sort (\<lambda>a b. Fin (of_int (hb_roundId b - hb_roundId a))) (map snd (foldl latest_binding [] bindings))"

definition active_binding :: "string \<Rightarrow> HashShareSlotBinding list \<Rightarrow> HashShareSlotBinding option" where
  "active_binding activeCoin bindings = find (\<lambda>b. hb_fullType b = activeCoin) (byCoin bindings)"

definition other_bindings :: "string \<Rightarrow> HashShareSlotBinding list \<Rightarrow> HashShareSlotBinding list" where
  "other_bindings activeCoin bindings = filter (\<lambda>b. hb_fullType b \<noteq> activeCoin) (byCoin bindings)"

section \<open>Properties\<close>

lemma asks_shown_take: "asks_shown asks = rev (take 10 asks)"
proof -
  have "nat (max 0 (int n - 10)) = n - 10" for n by linarith
  then show ?thesis by (auto simp: asks_shown_def slice_def rel_index_def Let_def rev_take)
qed

lemma bids_shown_take: "bids_shown bids = take 10 bids"
  by (simp add: bids_shown_def)

lemma side_max_fold:
  "m \<le> foldl (\<lambda>m x. if maxUnits x > m then maxUnits x else m) m orders
   \<and> (\<forall>x \<in> set orders. maxUnits x \<le> foldl (\<lambda>m x. if maxUnits x > m then maxUnits x else m) m orders)
   \<and> (foldl (\<lambda>m x. if maxUnits x > m then maxUnits x else m) m orders = m
      \<or> (\<exists>x \<in> set orders. foldl (\<lambda>m x. if maxUnits x > m then maxUnits x else m) m orders = maxUnits x))"
proof (induction orders arbitrary: m)
  case (Cons x xs)
  show ?case using Cons.IH [of "if maxUnits x > m then maxUnits x else m"] by (auto split: if_splits)
qed simp

lemma side_max_bounds:
  "1 \<le> side_max orders" "x \<in> set orders \<Longrightarrow> maxUnits x \<le> side_max orders"
  "side_max orders = 1 \<or> (\<exists>x \<in> set orders. side_max orders = maxUnits x)"
  using side_max_fold [of 1 orders] by (auto simp: side_max_def)

lemma depth_pct_bounds:
  assumes "x \<in> set orders" "0 \<le> maxUnits x"
  shows "0 \<le> depth_pct (side_max orders) x" "depth_pct (side_max orders) x \<le> 100"
    "maxUnits x = side_max orders \<Longrightarrow> depth_pct (side_max orders) x = 100"
proof -
  let ?m = "side_max orders"
  have m: "1 \<le> ?m" "maxUnits x \<le> ?m" using side_max_bounds(1,2) assms(1) by blast+
  have d: "depth_pct ?m x = maxUnits x * 100 div ?m" using m(1) assms(2) by (simp add: depth_pct_def)
  show "0 \<le> depth_pct ?m x" using m(1) assms(2) by (simp add: d pos_imp_zdiv_nonneg_iff)
  have "maxUnits x * 100 div ?m \<le> ?m * 100 div ?m" using m by (intro zdiv_mono1) simp_all
  then show "depth_pct ?m x \<le> 100" using m(1) by (simp add: d)
  show "maxUnits x = ?m \<Longrightarrow> depth_pct ?m x = 100" using m(1) by (simp add: d)
qed

text \<open>
  the side rail shows the best of the book. Of a fetched book it lists the ten cheapest asks,
  the cheapest last, directly above the spread, and the ten dearest bids, the dearest first,
  directly below it; no order left out beats one shown. Every depth bar is between 0 and
  100 percent, and an order as large as the largest one shown fills its bar.
\<close>

theorem sidebar_best_of_book:
  assumes "useShareMarketOrders numStr client pkg orig coin quot = Inr (bids, asks)"
    and "list_all (\<lambda>x. 0 \<le> maxUnits x) (bids @ asks)"
  shows "sorted_wrt (\<lambda>a b. pricePerUnitMist b \<le> pricePerUnitMist a) (asks_shown asks)
    \<and> sorted_wrt (\<lambda>a b. pricePerUnitMist b \<le> pricePerUnitMist a) (bids_shown bids)
    \<and> (\<forall>x \<in> set (asks_shown asks). \<forall>y \<in> set (drop 10 asks). pricePerUnitMist x \<le> pricePerUnitMist y)
    \<and> (\<forall>x \<in> set (bids_shown bids). \<forall>y \<in> set (drop 10 bids). pricePerUnitMist y \<le> pricePerUnitMist x)
    \<and> (asks \<noteq> [] \<longrightarrow> last (asks_shown asks) = hd asks) \<and> (bids \<noteq> [] \<longrightarrow> hd (bids_shown bids) = hd bids)
    \<and> (\<forall>orders \<in> {asks_shown asks, bids_shown bids}. \<forall>x \<in> set orders.
         0 \<le> bar_pct (side_max orders) x \<and> bar_pct (side_max orders) x = depth_pct (side_max orders) x
         \<and> (maxUnits x = side_max orders \<longrightarrow> bar_pct (side_max orders) x = 100))"
proof -
  note sorted = share_book_sorted [OF assms(1)]
  have split: "sorted_wrt R (take 10 xs) \<and> (\<forall>x \<in> set (take 10 xs). \<forall>y \<in> set (drop 10 xs). R x y)"
    if "sorted_wrt R xs" for R and xs :: "ShareMarketOrder list"
  proof -
    have "sorted_wrt R (take 10 xs @ drop 10 xs)" using that by (simp only: append_take_drop_id)
    then show ?thesis unfolding sorted_wrt_append by blast
  qed
  note a = split [OF sorted(2)] and b = split [OF sorted(1)]
  have sub: "set (asks_shown asks) \<subseteq> set asks" "set (bids_shown bids) \<subseteq> set bids"
    by (auto simp: asks_shown_take bids_shown_take dest: in_set_takeD)
  have bars: "0 \<le> bar_pct (side_max orders) x \<and> bar_pct (side_max orders) x = depth_pct (side_max orders) x
      \<and> (maxUnits x = side_max orders \<longrightarrow> bar_pct (side_max orders) x = 100)"
    if "orders \<in> {asks_shown asks, bids_shown bids}" "x \<in> set orders" for orders x
  proof -
    have "0 \<le> maxUnits x" using that sub assms(2) by (auto simp: list_all_iff)
    from depth_pct_bounds [OF that(2) this] show ?thesis by (auto simp: bar_pct_def)
  qed
  show ?thesis
  proof (intro conjI)
    show "\<forall>orders \<in> {asks_shown asks, bids_shown bids}. \<forall>x \<in> set orders.
         0 \<le> bar_pct (side_max orders) x \<and> bar_pct (side_max orders) x = depth_pct (side_max orders) x
         \<and> (maxUnits x = side_max orders \<longrightarrow> bar_pct (side_max orders) x = 100)"
      using bars by blast
  qed (use a b in \<open>auto simp: asks_shown_take bids_shown_take sorted_wrt_rev last_rev hd_take\<close>)
qed

theorem sidebar_best_of_book_witness:
  "\<exists>bids asks. useShareMarketOrders (\<lambda>_. []) demo_book_client ''0x1'' ''0x0'' ''A'' ''B'' = Inr (bids, asks)
     \<and> asks \<noteq> [] \<and> last (asks_shown asks) = hd asks \<and> hd (bids_shown bids) = hd bids"
proof -
  have "case useShareMarketOrders (\<lambda>_. []) demo_book_client ''0x1'' ''0x0'' ''A'' ''B'' of
      Inr (bids, asks) \<Rightarrow> bids \<noteq> [] \<and> asks \<noteq> [] \<and> list_all (\<lambda>x. 0 \<le> maxUnits x) (bids @ asks) | Inl _ \<Rightarrow> False"
    by code_simp
  then obtain bids asks where ok: "useShareMarketOrders (\<lambda>_. []) demo_book_client ''0x1'' ''0x0'' ''A'' ''B'' = Inr (bids, asks)"
    and ne: "bids \<noteq> []" "asks \<noteq> []" "list_all (\<lambda>x. 0 \<le> maxUnits x) (bids @ asks)" by (auto split: sum.splits)
  from sidebar_best_of_book [OF ok ne(3)] ok ne show ?thesis by blast
qed

text \<open>A negative amount, which a crossed book has as its spread, is printed in billionths.\<close>

lemma formatUsd_negative: "x < 0 \<Longrightarrow> formatUsd numStr (Fin x) = ''$'' @ toFixed numStr 2 (Fin (x * 10 ^ 9)) @ '' n''"
  by (simp add: formatUsd_def)

section \<open>The bindings offered\<close>

lemma latest_map:
  "map_of (latest_binding m b) k =
     (if k = hb_fullType b \<and> (\<forall>c \<in> set_option (map_of m k). hb_roundId c < hb_roundId b) then Some b else map_of m k)"
  by (auto simp: latest_binding_def split: option.splits)

lemma latest_fold:
  "case map_of (foldl latest_binding m bs) k of
     None \<Rightarrow> map_of m k = None \<and> (\<forall>x \<in> set bs. hb_fullType x \<noteq> k)
   | Some b \<Rightarrow> (map_of m k = Some b \<or> (b \<in> set bs \<and> hb_fullType b = k))
       \<and> (\<forall>c \<in> set_option (map_of m k). hb_roundId c \<le> hb_roundId b)
       \<and> (\<forall>x \<in> set bs. hb_fullType x = k \<longrightarrow> hb_roundId x \<le> hb_roundId b)"
proof (induction bs arbitrary: m)
  case Nil
  show ?case by (simp split: option.split)
next
  case (Cons b bs)
  show ?case using Cons.IH [of "latest_binding m b"]
    by (auto simp: latest_map split: option.splits if_splits)
qed

lemma latest_keys: "distinct (map fst m) \<Longrightarrow> distinct (map fst (foldl latest_binding m bs))"
proof (induction bs arbitrary: m)
  case (Cons b bs)
  have "distinct (map fst (latest_binding m b))" using Cons.prems by (simp add: latest_binding_def split: option.split)
  then show ?case using Cons.IH by simp
qed simp

text \<open>
  the round selector offers every coin once, with its latest round, the most recent first: its
  entries have different coins, each is one of the bindings, none of the bindings of its coin has a
  later round, and every coin that is bound is offered.
\<close>

theorem byCoin_latest:
  "distinct (map hb_fullType (byCoin bindings))
   \<and> sorted_wrt (\<lambda>a b. hb_roundId b \<le> hb_roundId a) (byCoin bindings)
   \<and> (\<forall>b \<in> set (byCoin bindings). b \<in> set bindings
        \<and> (\<forall>x \<in> set bindings. hb_fullType x = hb_fullType b \<longrightarrow> hb_roundId x \<le> hb_roundId b))
   \<and> hb_fullType ` set (byCoin bindings) = hb_fullType ` set bindings"
proof -
  let ?m = "foldl latest_binding [] bindings"
  have d: "distinct (map fst ?m)" by (rule latest_keys) simp
  have some: "b \<in> set bindings \<and> hb_fullType b = k \<and> (\<forall>x \<in> set bindings. hb_fullType x = k \<longrightarrow> hb_roundId x \<le> hb_roundId b)"
    if "map_of ?m k = Some b" for k b using latest_fold [where m = "[]" and bs = bindings and k = k] that by simp
  have none: "\<exists>b. map_of ?m (hb_fullType x) = Some b" if "x \<in> set bindings" for x
    using latest_fold [where m = "[]" and bs = bindings and k = "hb_fullType x"] that by (auto split: option.splits)
  have mem: "b \<in> set (map snd ?m) \<longleftrightarrow> (\<exists>k. map_of ?m k = Some b)" for b
    using d by (force dest: map_of_SomeD intro: map_of_is_SomeI)
  have "map hb_fullType (map snd ?m) = map fst ?m"
  proof -
    have "hb_fullType b = k" if "(k, b) \<in> set ?m" for k b
      using some [of k b] map_of_is_SomeI [OF d that] by blast
    then show ?thesis by auto
  qed
  then have "distinct (map hb_fullType (map snd ?m))" using d by (simp only:)
  then have "distinct (map hb_fullType (byCoin bindings))"
    by (simp only: byCoin_def distinct_map_js_sort)
  moreover have "set (byCoin bindings) = {b. \<exists>k. map_of ?m k = Some b}" using mem by (auto simp: byCoin_def)
  moreover have "hb_fullType ` {b. \<exists>k. map_of ?m k = Some b} = hb_fullType ` set bindings"
    using some none by (auto simp: image_iff) metis+
  ultimately show ?thesis
    using js_sort_int_desc [of hb_roundId "map snd ?m"] some unfolding byCoin_def by auto
qed

theorem byCoin_latest_witness:
  "\<exists>x y. byCoin [x, y] = [y] \<and> hb_roundId x < hb_roundId y \<and> distinct (map hb_fullType (byCoin [x, y]))"
proof -
  let ?b = "\<lambda>r. \<lparr>hb_roundId = r, hb_capId = ''0xc'', label = ''HS1'', hb_fullType = ''T''\<rparr>"
  have "byCoin [?b 1, ?b 2] = [?b 2]" by code_simp
  then show ?thesis using byCoin_latest [of "[?b 1, ?b 2]"] by (intro exI [of _ "?b 1"] exI [of _ "?b 2"]) simp
qed

end
