(* ===== verification/Draws.thy ===== *)
theory Draws
  imports Js_Prelude "HOL-Library.State_Monad"
begin

text \<open>
  Draws from a seeded generator: a computation in the state monad over the generator's 32-bit word,
  so that the order of the draws is the source's, with the rules for properties that hold of every
  value drawn.
\<close>

unbundle bit_operations_syntax

type_synonym 'a draw = "(32 word, 'a) state"

abbreviation done_with :: "'a \<Rightarrow> 'a draw" where
  "done_with \<equiv> State_Monad.return"

lemma pred_return [simp]: "pred_state P (State_Monad.return x) \<longleftrightarrow> P x"
  by (auto intro!: pred_stateI dest!: pred_stateD [where s = s for s])

lemma pred_bind:
  assumes "pred_state Q m" "\<And>a. Q a \<Longrightarrow> pred_state P (f a)"
  shows "pred_state P (State_Monad.bind m f)"
proof (rule bind_predI)
  show "pred_state (\<lambda>x. pred_state P (f x)) m"
    by (rule state.pred_mono_strong [OF assms(1)]) (simp add: assms(2))
qed

lemma pred_traverse2:
  assumes "\<And>x. x \<in> set xs \<Longrightarrow> pred_state (P x) (f x)"
  shows "pred_state (list_all2 P xs) (State_Monad.traverse_list f xs)"
  using assms
proof (induction xs)
  case (Cons x xs)
  have IH: "pred_state (list_all2 P xs) (State_Monad.traverse_list f xs)" using Cons by simp
  have head: "pred_state (P x) (f x)" using Cons.prems by simp
  have "pred_state (list_all2 P (x # xs)) (State_Monad.bind (f x) (\<lambda>y. State_Monad.bind (State_Monad.traverse_list f xs)
      (\<lambda>ys. State_Monad.return (y # ys))))"
    by (rule pred_bind [OF head], rule pred_bind [OF IH]) simp
  then show ?case by simp
qed simp

lemma pred_traverse:
  assumes "\<And>x. x \<in> set xs \<Longrightarrow> pred_state P (f x)"
  shows "pred_state (\<lambda>ys. length ys = length xs \<and> list_all P ys) (State_Monad.traverse_list f xs)"
  by (rule state.pred_mono_strong [OF pred_traverse2 [of xs "\<lambda>_. P", OF assms]])
    (auto simp: list_all2_conv_all_nth list_all_length)

end
