(* ===== verification/Mock_Market.thy ===== *)
theory Mock_Market
  imports Hashprice Draws
begin

text \<open>
  Model of \<open>web/data/mock-market.ts\<close>: the seeded generator and the simulated listings, order book,
  trades and discount curve that the market pages show. The generator's closure over \<open>s\<close> is the
  state of a state monad over 32-bit words, so that the order of the draws is the source's; the
  time of day is the argument \<open>now\<close>. The shift to the right is the arithmetic one, as \<open>>>\<close> is.
\<close>

unbundle bit_operations_syntax

section \<open>The seeded generator\<close>

definition seededRandom :: "int \<Rightarrow> 32 word" where
  "seededRandom seed = word_of_int seed"

definition xorshift :: "32 word \<Rightarrow> 32 word" where
  "xorshift s =
     (let s1 = s XOR push_bit 13 s;
          s2 = s1 XOR signed_drop_bit 17 s1
      in s2 XOR push_bit 5 s2)"

definition rng :: "number draw" where
  "rng = State (\<lambda>s. let s' = xorshift s in (Fin (of_int (uint s') / 4294967296), s'))"

definition gaussian :: "number \<Rightarrow> number \<Rightarrow> number draw" where
  "gaussian mu stddev =
     do {
       u1 \<leftarrow> rng;
       u2 \<leftarrow> rng;
       let z = Math_sqrt (- (2::number) * Math_log (if falsy u1 then Fin (1 / 10 ^ 10) else u1))
               * Math_cos (2 * Fin pi * u2);
       done_with (mu + z * stddev)
     }"

section \<open>Parameters\<close>

definition DIFFICULTY_TIERS :: "number list" where
  "DIFFICULTY_TIERS = [1000, 10000, 100000, 1000000]"

record MarketSimulationParams =
  sp_networkDifficulty :: number
  sp_blockRewardUsd :: number
  averageDiscount :: number
  spreadBps :: number
  tradeFrequencyPerMin :: number

definition DEFAULT_NET_DIFF :: number where
  "DEFAULT_NET_DIFF = Fin (100 * 10 ^ 12)"

definition DEFAULT_BLOCK_REWARD_USD :: number where
  "DEFAULT_BLOCK_REWARD_USD = Fin (3125 / 1000) * 90000"

definition SCENARIO_PRESETS :: "string \<Rightarrow> MarketSimulationParams option" where
  "SCENARIO_PRESETS =
     [''stable'' \<mapsto> \<lparr>sp_networkDifficulty = DEFAULT_NET_DIFF, sp_blockRewardUsd = DEFAULT_BLOCK_REWARD_USD,
         averageDiscount = 10, spreadBps = 150, tradeFrequencyPerMin = 4\<rparr>,
      ''bull'' \<mapsto> \<lparr>sp_networkDifficulty = DEFAULT_NET_DIFF, sp_blockRewardUsd = Fin (3125 / 1000) * 120000,
         averageDiscount = 6, spreadBps = 100, tradeFrequencyPerMin = 8\<rparr>,
      ''bear'' \<mapsto> \<lparr>sp_networkDifficulty = DEFAULT_NET_DIFF * Fin (12 / 10), sp_blockRewardUsd = Fin (3125 / 1000) * 60000,
         averageDiscount = 18, spreadBps = 300, tradeFrequencyPerMin = 2\<rparr>,
      ''volatile'' \<mapsto> \<lparr>sp_networkDifficulty = DEFAULT_NET_DIFF, sp_blockRewardUsd = Fin (3125 / 1000) * 95000,
         averageDiscount = 12, spreadBps = 400, tradeFrequencyPerMin = 6\<rparr>]"

section \<open>Listings\<close>

record PricedShare =
  ps_id :: string
  ps_seller :: string
  ps_difficultyAchieved :: number
  workWeight :: number
  ps_blockHeight :: number
  ps_templateId :: string
  ps_isBlock :: bool
  theoreticalValueUsd :: number
  marketPriceUsd :: number
  ps_discountPct :: number
  blocksUntilMature :: number

text \<open>
  A number as a loop bound, array index or argument of \<open>toString(16)\<close>: every use below is a
  non-negative integer (a floor of a finite number), and a bound that is not finite runs no loop.
\<close>

fun num_nat :: "number \<Rightarrow> nat" where
  "num_nat (Fin a) = nat \<lfloor>a\<rfloor>"
| "num_nat x = 0"

definition tier :: "number \<Rightarrow> number" where
  "tier i = (case index DIFFICULTY_TIERS (num_nat i) of Some d \<Rightarrow> d | None \<Rightarrow> NaN)"

definition hex_id :: "nat \<Rightarrow> string" where
  "hex_id n = ''0x'' @ to_radix 16 n"

text \<open>One listing from the values drawn for it, in the order in which the loop body draws them.\<close>

definition listing_of ::
  "MarketSimulationParams \<Rightarrow> number \<Rightarrow> nat \<Rightarrow> number \<Rightarrow> number \<Rightarrow> number \<Rightarrow> number \<Rightarrow> number \<Rightarrow> number \<Rightarrow> PricedShare"
where
  "listing_of params chainHeight i r1 r2 r3 noise r4 r5 =
     (let tierIdx = Math_floor (r1 * 4);
          difficulty = tier tierIdx * (Fin (1 / 2) + r2 * Fin (5 / 2));
          blocks = Math_floor (r3 * 100);
          blockHeight = chainHeight - (100 - blocks);
          theoUsd = computeTheoreticalValue difficulty (sp_networkDifficulty params) (sp_blockRewardUsd params);
          baseDiscount = discountAtBlock blocks (averageDiscount params) (Fin (7 / 10));
          finalDiscount = Math_max 0 (Math_min 40 (baseDiscount + noise));
          price = theoUsd * (1 - finalDiscount / 100)
      in \<lparr>ps_id = hex_id (0xfeed0000 + i),
          ps_seller = hex_id (0xa0000000 + num_nat (Math_floor (r4 * 0xffffff))),
          ps_difficultyAchieved = Math_round difficulty,
          workWeight = Math_round (difficulty * 4294967296),
          ps_blockHeight = blockHeight,
          ps_templateId = hex_id (0xb0000000 + i mod 5),
          ps_isBlock = (r5 < Fin (2 / 100)),
          theoreticalValueUsd = theoUsd,
          marketPriceUsd = Math_max (Fin (1 / 1000)) price,
          ps_discountPct = finalDiscount,
          blocksUntilMature = blocks\<rparr>)"

definition mock_listing :: "MarketSimulationParams \<Rightarrow> number \<Rightarrow> nat \<Rightarrow> PricedShare draw" where
  "mock_listing params chainHeight i =
     do {
       r1 \<leftarrow> rng;
       r2 \<leftarrow> rng;
       r3 \<leftarrow> rng;
       noise \<leftarrow> gaussian 0 (averageDiscount params * Fin (15 / 100));
       r4 \<leftarrow> rng;
       r5 \<leftarrow> rng;
       done_with (listing_of params chainHeight i r1 r2 r3 noise r4 r5)
     }"

definition mock_listings :: "MarketSimulationParams \<Rightarrow> number \<Rightarrow> PricedShare list draw" where
  "mock_listings params chainHeight =
     do {
       r \<leftarrow> rng;
       let n = 50 + Math_floor (r * 30);
       State_Monad.traverse_list (mock_listing params chainHeight) [0..<num_nat n]
     }"

definition generateMockListings :: "MarketSimulationParams \<Rightarrow> number \<Rightarrow> int \<Rightarrow> PricedShare list" where
  "generateMockListings params chainHeight seed =
     js_sort (\<lambda>a b. ps_difficultyAchieved a - ps_difficultyAchieved b)
       (fst (run_state (mock_listings params chainHeight) (seededRandom seed)))"

section \<open>Order book\<close>

datatype book_side = Bid | Ask

record OrderBookEntry =
  ob_price :: number
  ob_hashratePh :: number
  cumulativePh :: number
  ob_side :: book_side

record OrderBookData =
  ob_bids :: "OrderBookEntry list"
  ob_asks :: "OrderBookEntry list"
  ob_spread :: number
  midpoint :: number
  lastTradePrice :: number

text \<open>The loop over the levels of one side, from level \<open>i\<close> on with \<open>cum\<close> accumulated.\<close>

fun book_levels :: "(nat \<Rightarrow> number) \<Rightarrow> book_side \<Rightarrow> number \<Rightarrow> number \<Rightarrow> nat list \<Rightarrow> OrderBookEntry list draw" where
  "book_levels price sd medianDiff cum [] = done_with []"
| "book_levels price sd medianDiff cum (i # is) =
     do {
       r \<leftarrow> rng;
       let ph = difficultyToWorkPh medianDiff * (Fin (1 / 2) + r * Fin (5 / 2));
       rest \<leftarrow> book_levels price sd medianDiff (cum + ph) is;
       done_with (\<lparr>ob_price = price i, ob_hashratePh = ph, cumulativePh = cum + ph, ob_side = sd\<rparr> # rest)
     }"

definition LEVELS :: nat where "LEVELS = 20"

definition bid_price :: "number \<Rightarrow> number \<Rightarrow> nat \<Rightarrow> number" where
  "bid_price mid halfSpread i =
     Math_max (Fin (1 / 1000)) (mid - halfSpread - Fin (real i) * mid * Fin (5 / 1000))"

definition ask_price :: "number \<Rightarrow> number \<Rightarrow> nat \<Rightarrow> number" where
  "ask_price mid halfSpread i = mid + halfSpread + Fin (real i) * mid * Fin (5 / 1000)"

definition order_book_of :: "number \<Rightarrow> number \<Rightarrow> number \<Rightarrow> OrderBookData draw" where
  "order_book_of mid halfSpread medianDiff =
     do {
       bids \<leftarrow> book_levels (bid_price mid halfSpread) Bid medianDiff 0 [0..<LEVELS];
       asks \<leftarrow> book_levels (ask_price mid halfSpread) Ask medianDiff 0 [0..<LEVELS];
       noise \<leftarrow> gaussian 0 (halfSpread * Fin (1 / 2));
       done_with \<lparr>ob_bids = bids, ob_asks = asks, ob_spread = halfSpread * 2, midpoint = mid,
                  lastTradePrice = mid + noise\<rparr>
     }"

definition generateOrderBook :: "PricedShare list \<Rightarrow> number \<Rightarrow> int \<Rightarrow> OrderBookData" where
  "generateOrderBook listings bps seed =
     (let sorted_ls = js_sort (\<lambda>a b. marketPriceUsd a - marketPriceUsd b) listings in
      case index sorted_ls (length sorted_ls div 2) of
        None \<Rightarrow> \<lparr>ob_bids = [], ob_asks = [], ob_spread = 0, midpoint = 0, lastTradePrice = 0\<rparr>
      | Some m \<Rightarrow>
          let mid = marketPriceUsd m;
              halfSpread = mid * (bps / 10000 / 2)
          in fst (run_state (order_book_of mid halfSpread (ps_difficultyAchieved m)) (seededRandom seed)))"

section \<open>Trades\<close>

datatype trade_side = Buy | Sell

record SimulatedTrade =
  st_price :: number
  st_hashratePh :: number
  st_side :: trade_side
  st_discountPct :: number
  st_timestampMs :: number

definition approx_discount :: "MarketSimulationParams \<Rightarrow> number \<Rightarrow> number" where
  "approx_discount params price =
     (let theoUsd = computeTheoreticalValue 50000 (sp_networkDifficulty params) (sp_blockRewardUsd params)
      in if 0 < theoUsd then computeDiscount price theoUsd else averageDiscount params)"

definition mock_trade :: "MarketSimulationParams \<Rightarrow> number \<Rightarrow> number \<Rightarrow> nat \<Rightarrow> SimulatedTrade draw" where
  "mock_trade params mid now i =
     do {
       r1 \<leftarrow> rng;
       noise \<leftarrow> gaussian 0 (mid * (spreadBps params / 10000));
       let price = Math_max (Fin (1 / 1000)) (mid + noise);
       r2 \<leftarrow> rng;
       let ph = difficultyToWorkPh 50000 * (Fin (1 / 2) + r2 * 2);
       r3 \<leftarrow> rng;
       let msAgo = Math_floor (r3 * 24 * 60 * 60 * 1000);
       done_with \<lparr>st_price = price, st_hashratePh = ph, st_side = (if Fin (1 / 2) < r1 then Buy else Sell),
                  st_discountPct = Math_max 0 (approx_discount params price), st_timestampMs = now - msAgo\<rparr>
     }"

definition generateTradeHistory ::
  "MarketSimulationParams \<Rightarrow> number \<Rightarrow> nat \<Rightarrow> int \<Rightarrow> number \<Rightarrow> SimulatedTrade list"
where
  "generateTradeHistory params mid n seed now =
     js_sort (\<lambda>a b. st_timestampMs b - st_timestampMs a)
       (fst (run_state (State_Monad.traverse_list (mock_trade params mid now) [0..<n]) (seededRandom seed)))"

section \<open>Discount curve\<close>

record DiscountCurvePoint =
  dc_blocks :: number
  dc_discountPct :: number
  dc_theoreticalValue :: number
  dc_marketPrice :: number

definition discount_point :: "number \<Rightarrow> number \<Rightarrow> number \<Rightarrow> number \<Rightarrow> nat \<Rightarrow> DiscountCurvePoint" where
  "discount_point networkDiff reward maxDiscount refDiff b =
     (let blocks = Fin (real b);
          disc = discountAtBlock blocks maxDiscount (Fin (7 / 10));
          theoUsd = computeTheoreticalValue refDiff networkDiff reward
      in \<lparr>dc_blocks = blocks, dc_discountPct = disc, dc_theoreticalValue = theoUsd,
          dc_marketPrice = theoUsd * (1 - disc / 100)\<rparr>)"

definition generateDiscountCurve :: "number \<Rightarrow> number \<Rightarrow> number \<Rightarrow> number \<Rightarrow> DiscountCurvePoint list" where
  "generateDiscountCurve networkDiff reward maxDiscount refDiff =
     map (discount_point networkDiff reward maxDiscount refDiff) (rev [0..<101])"

section \<open>Draws\<close>

definition unit_val :: "number \<Rightarrow> bool" where
  "unit_val x = (case x of Fin a \<Rightarrow> 0 \<le> a \<and> a < 1 | _ \<Rightarrow> False)"

lemma unit_valE:
  assumes "unit_val x"
  obtains a where "x = Fin a" "0 \<le> a" "a < 1"
  using assms by (auto simp: unit_val_def split: number.splits)

lemma unit_val_Fin [simp]: "unit_val (Fin a) \<longleftrightarrow> 0 \<le> a \<and> a < 1"
  by (simp add: unit_val_def)

lemma rng_unit: "pred_state unit_val rng"
proof (rule pred_stateI)
  fix a s s'
  assume "run_state rng s = (a, s')"
  then have a: "a = Fin (of_int (uint (xorshift s)) / 4294967296)" by (auto simp: rng_def Let_def)
  have "uint (xorshift s) < 4294967296" using uint_bounded [of "xorshift s"] by simp
  then have "real_of_int (uint (xorshift s)) < real_of_int 4294967296" by (simp only: of_int_less_iff)
  moreover have "0 \<le> real_of_int (uint (xorshift s))" by (simp del: of_int_uint)
  ultimately show "unit_val a" unfolding a unit_val_Fin by (simp del: of_int_uint)
qed

lemma pred_draw:
  assumes "\<And>a. 0 \<le> a \<Longrightarrow> a < 1 \<Longrightarrow> pred_state P (f (Fin a))"
  shows "pred_state P (State_Monad.bind rng f)"
  by (rule pred_bind [OF rng_unit]) (auto elim!: unit_valE intro: assms)

lemma pred_gaussian:
  assumes "\<And>z. pred_state P (f (Fin z))"
  shows "pred_state P (State_Monad.bind (gaussian (Fin mu) (Fin sd)) f)"
  unfolding gaussian_def bind_assoc
proof (intro pred_draw)
  fix a b :: real
  assume "0 \<le> a" "a < 1"
  define u where "u = (if a = 0 then 1 / 10 ^ 10 else a)"
  have "0 < u" "u < 1" using \<open>0 \<le> a\<close> \<open>a < 1\<close> by (simp_all add: u_def)
  then have "ln u < 0" by simp
  then have "Math_sqrt (- (2::number) * Math_log (if falsy (Fin a) then Fin (1 / 10 ^ 10) else Fin a)) = Fin (sqrt (- (2 * ln u)))"
    using \<open>0 < u\<close> \<open>0 \<le> a\<close> by (auto simp: u_def)
  then show "pred_state P (State_Monad.bind
      (let z = Math_sqrt (- 2 * Math_log (if falsy (Fin a) then Fin (1 / 10 ^ 10) else Fin a)) * Math_cos (2 * Fin pi * Fin b)
       in State_Monad.return (Fin mu + z * Fin sd)) f)"
    by (simp add: Let_def assms)
qed

text \<open>
  The generator is not the xorshift it is named after: the arithmetic shift loses the sign bit, so
  that a non-zero state can reach 0, where the generator stays.
\<close>

lemma xorshift_collapse: "xorshift (word_of_int (- 67100673)) = 0" "xorshift 0 = 0"
  by code_simp+

lemma seeded_collapse:
  "fst (run_state (State_Monad.traverse_list (\<lambda>_. rng) [0..<n]) (seededRandom (- 67100673))) = replicate n (Fin 0)"
proof -
  have zero: "run_state (State_Monad.traverse_list (\<lambda>_. rng) xs) 0 = (replicate (length xs) (Fin 0), 0)" for xs :: "nat list"
    by (induction xs) (simp_all add: rng_def xorshift_collapse)
  have first: "run_state rng (seededRandom (- 67100673)) = (Fin 0, 0)"
    unfolding rng_def seededRandom_def by (simp only: state.sel xorshift_collapse(1) Let_def) simp
  show ?thesis
  proof (cases n)
    case (Suc m)
    then show ?thesis using zero [of "[1..<Suc m]"] by (simp add: first upt_conv_Cons del: upt_Suc)
  qed simp
qed

section \<open>Listings\<close>

fun params_ok :: "MarketSimulationParams \<Rightarrow> bool" where
  "params_ok \<lparr>sp_networkDifficulty = Fin n, sp_blockRewardUsd = Fin r, averageDiscount = Fin d, spreadBps = Fin b,
     tradeFrequencyPerMin = f\<rparr> = (0 < n \<and> 0 \<le> r \<and> 0 \<le> d \<and> 0 \<le> b \<and> b \<le> 10000)"
| "params_ok _ = False"

lemma params_okE:
  assumes "params_ok params"
  obtains n r d b where "sp_networkDifficulty params = Fin n" "sp_blockRewardUsd params = Fin r"
    "averageDiscount params = Fin d" "spreadBps params = Fin b" "0 < n" "0 \<le> r" "0 \<le> d" "0 \<le> b" "b \<le> 10000"
  using assms by (cases params rule: params_ok.cases) auto

lemma presets_ok:
  assumes "name \<in> {''stable'', ''bull'', ''bear'', ''volatile''}"
  obtains params where "SCENARIO_PRESETS name = Some params" "params_ok params"
  using assms by (auto simp: SCENARIO_PRESETS_def DEFAULT_NET_DIFF_def DEFAULT_BLOCK_REWARD_USD_def)

text \<open>What every simulated listing satisfies, at chain height \<open>h\<close>.\<close>

definition listing_ok :: "real \<Rightarrow> PricedShare \<Rightarrow> bool" where
  "listing_ok h l =
     (case (ps_discountPct l, blocksUntilMature l, theoreticalValueUsd l, ps_difficultyAchieved l) of
        (Fin d, Fin b, Fin t, Fin k) \<Rightarrow>
          0 \<le> d \<and> d \<le> 40 \<and> 0 \<le> b \<and> b \<le> 99 \<and> 0 \<le> t \<and> 500 \<le> k \<and> k \<le> 3000000
          \<and> ps_blockHeight l = Fin (h - 100 + b)
          \<and> marketPriceUsd l = Fin (max (1 / 1000) (t * (1 - d / 100)))
      | _ \<Rightarrow> False)"

lemma listing_okE:
  assumes "listing_ok h l"
  obtains d b t k where "ps_discountPct l = Fin d" "blocksUntilMature l = Fin b" "theoreticalValueUsd l = Fin t"
    "ps_difficultyAchieved l = Fin k" "0 \<le> d" "d \<le> 40" "0 \<le> b" "b \<le> 99" "0 \<le> t" "500 \<le> k" "k \<le> 3000000"
    "ps_blockHeight l = Fin (h - 100 + b)" "marketPriceUsd l = Fin (max (1 / 1000) (t * (1 - d / 100)))"
  using assms by (auto simp: listing_ok_def split: number.splits)

lemma discountAtBlock_Fin: "0 \<le> b \<Longrightarrow> \<exists>d. discountAtBlock (Fin b) (Fin m) (Fin (7 / 10)) = Fin d"
  by (auto simp: discountAtBlock_def Let_def pow_real_def)

lemma unit_floor:
  fixes a :: real
  assumes "0 \<le> a" "a < 1" "0 < (n :: int)"
  shows "0 \<le> \<lfloor>a * of_int n\<rfloor>" "\<lfloor>a * of_int n\<rfloor> < n"
proof -
  have "a * of_int n < 1 * real_of_int n" using assms by (intro mult_strict_right_mono) simp_all
  then show "\<lfloor>a * of_int n\<rfloor> < n" by (simp add: floor_less_iff)
  show "0 \<le> \<lfloor>a * of_int n\<rfloor>" using assms by simp
qed

lemma tier_value:
  assumes "0 \<le> a" "a < 1"
  obtains t where "tier (Math_floor (Fin a * 4)) = Fin t" "1000 \<le> t" "t \<le> 1000000"
proof -
  have "nat \<lfloor>a * 4\<rfloor> < 4" using unit_floor [OF assms, of 4] by (simp add: nat_less_iff)
  then consider "nat \<lfloor>a * 4\<rfloor> = 0" | "nat \<lfloor>a * 4\<rfloor> = 1" | "nat \<lfloor>a * 4\<rfloor> = 2" | "nat \<lfloor>a * 4\<rfloor> = 3" by linarith
  then show thesis by cases (auto simp: tier_def DIFFICULTY_TIERS_def index_def intro: that)
qed

lemma round_in_range:
  fixes x :: real
  assumes "of_int m \<le> x" "x \<le> of_int n"
  shows "m \<le> \<lfloor>x + 1 / 2\<rfloor>" "\<lfloor>x + 1 / 2\<rfloor> \<le> n"
  using assms by (simp_all add: le_floor_iff floor_le_iff)

lemma listing_of_ok:
  assumes "params_ok params" "0 \<le> r1" "r1 < 1" "0 \<le> r2" "r2 < 1" "0 \<le> r3" "r3 < 1"
  shows "listing_ok h (listing_of params (Fin h) i (Fin r1) (Fin r2) (Fin r3) (Fin z) r4 r5)"
proof -
  obtain n r d b where p: "sp_networkDifficulty params = Fin n" "sp_blockRewardUsd params = Fin r"
    "averageDiscount params = Fin d" "0 < n" "0 \<le> r" by (rule params_okE [OF assms(1)])
  obtain t where t: "tier (Math_floor (Fin r1 * 4)) = Fin t" "1000 \<le> t" "t \<le> 1000000" by (rule tier_value [OF assms(2,3)])
  define df where "df = t * (1 / 2 + r2 * (5 / 2))"
  have "1000 * (1 / 2) \<le> df" "df \<le> 1000000 * (1 / 2 + 5 / 2)" unfolding df_def using t assms by (intro mult_mono; simp)+
  then have df: "500 \<le> df" "df \<le> 3000000" by simp_all
  have dfe: "tier (Math_floor (Fin r1 * 4)) * (Fin (1 / 2) + Fin r2 * Fin (5 / 2)) = Fin df" by (simp only: t(1) df_def times_number.simps plus_number.simps)
  have blocks: "0 \<le> \<lfloor>r3 * 100\<rfloor>" "\<lfloor>r3 * 100\<rfloor> < 100" using unit_floor [OF assms(6,7), of 100] by simp_all
  then have blocks': "0 \<le> real_of_int \<lfloor>r3 * 100\<rfloor>" "real_of_int \<lfloor>r3 * 100\<rfloor> \<le> 99" by linarith+
  obtain bd where bd: "discountAtBlock (Fin (of_int \<lfloor>r3 * 100\<rfloor>)) (Fin d) (Fin (7 / 10)) = Fin bd"
    using discountAtBlock_Fin blocks'(1) by blast
  have theo: "computeTheoreticalValue (Fin df) (Fin n) (Fin r) = Fin (r / n * df)" "0 \<le> r / n * df"
    using p(4,5) df(1) by (simp_all add: computeTheoreticalValue_def)
  have "500 \<le> real_of_int \<lfloor>df + 1 / 2\<rfloor>" "real_of_int \<lfloor>df + 1 / 2\<rfloor> \<le> 3000000"
    using round_in_range [of 500 df 3000000] df by linarith+
  then show ?thesis
    using theo(2) blocks' unfolding listing_of_def p dfe theo(1) Let_def listing_ok_def by (simp add: bd)
qed

lemma mock_listing_ok:
  assumes "params_ok params"
  shows "pred_state (listing_ok h) (mock_listing params (Fin h) i)"
proof -
  obtain d where d: "averageDiscount params * Fin (15 / 100) = Fin d" by (rule params_okE [OF assms]) (metis times_number.simps(1))
  show ?thesis
    unfolding mock_listing_def d number_zero
    by (intro pred_draw pred_gaussian) (simp add: listing_of_ok [OF assms])
qed

lemma mock_listings_bounds:
  assumes "params_ok params"
  shows "pred_state (\<lambda>ls. 50 \<le> length ls \<and> length ls \<le> 79 \<and> list_all (listing_ok h) ls) (mock_listings params (Fin h))"
  unfolding mock_listings_def
proof (rule pred_draw)
  fix a :: real
  assume a: "0 \<le> a" "a < 1"
  let ?n = "num_nat (50 + Math_floor (Fin a * 30))"
  have "?n = nat (50 + \<lfloor>a * 30\<rfloor>)" by simp
  then have n: "50 \<le> ?n" "?n \<le> 79" using unit_floor [OF a, of 30] by linarith+
  have "pred_state (\<lambda>ys. length ys = length [0..<?n] \<and> list_all (listing_ok h) ys)
      (State_Monad.traverse_list (mock_listing params (Fin h)) [0..<?n])"
    by (rule pred_traverse) (rule mock_listing_ok [OF assms])
  then show "pred_state (\<lambda>ls. 50 \<le> length ls \<and> length ls \<le> 79 \<and> list_all (listing_ok h) ls)
      (let n = 50 + Math_floor (Fin a * 30) in State_Monad.traverse_list (mock_listing params (Fin h)) [0..<num_nat n])"
    unfolding Let_def by (rule state.pred_mono_strong) (use n in simp)
qed

lemma generateMockListings_facts:
  assumes "params_ok params"
  shows "50 \<le> length (generateMockListings params (Fin h) seed)" "length (generateMockListings params (Fin h) seed) \<le> 79"
    "list_all (listing_ok h) (generateMockListings params (Fin h) seed)"
  using pred_state_run_state [OF mock_listings_bounds [OF assms], of h "seededRandom seed"]
  by (simp_all add: generateMockListings_def list_all_iff)

text \<open>
  the simulated listings are plausible. For any seed and any parameters with a positive
  difficulty there are between 50 and 79 listings, in order of difficulty; each has a discount
  between 0 and 40 percent, at most 99 blocks to maturity with the block height that goes with
  them, and the price that its discount leaves of its theoretical value, but at least a tenth of
  a cent.
\<close>

theorem generateMockListings_ok:
  assumes "params_ok params"
  shows "50 \<le> length (generateMockListings params (Fin h) seed) \<and> length (generateMockListings params (Fin h) seed) \<le> 79
    \<and> sorted_wrt (\<lambda>a b. ps_difficultyAchieved a \<le> ps_difficultyAchieved b) (generateMockListings params (Fin h) seed)
    \<and> list_all (listing_ok h) (generateMockListings params (Fin h) seed)"
proof -
  have "isFinite (ps_difficultyAchieved l)" if "l \<in> set (fst (run_state (mock_listings params (Fin h)) (seededRandom seed)))" for l
    using generateMockListings_facts(3) [OF assms, of h seed] that
    by (auto simp: generateMockListings_def list_all_iff elim!: listing_okE dest!: bspec)
  then have "sorted_wrt (\<lambda>a b. ps_difficultyAchieved a \<le> ps_difficultyAchieved b) (generateMockListings params (Fin h) seed)"
    unfolding generateMockListings_def by (rule js_sort_asc_finite)
  then show ?thesis using generateMockListings_facts [OF assms] by simp
qed

theorem generateMockListings_ok_witness:
  "\<exists>params. SCENARIO_PRESETS ''stable'' = Some params \<and> 50 \<le> length (generateMockListings params 890000 42)
     \<and> list_all (listing_ok 890000) (generateMockListings params 890000 42)"
proof -
  obtain params where p: "SCENARIO_PRESETS ''stable'' = Some params" "params_ok params" by (rule presets_ok [of "''stable''"]) simp
  from generateMockListings_ok [OF p(2), of 890000 42] p(1) show ?thesis unfolding number_numeral by blast
qed

section \<open>The order book\<close>

text \<open>The cumulative depth of a side is the running sum of its levels, which are all positive.\<close>

fun running :: "real \<Rightarrow> OrderBookEntry list \<Rightarrow> bool" where
  "running c [] = True"
| "running c (e # es) =
     (case ob_hashratePh e of
        Fin p \<Rightarrow> 0 < p \<and> cumulativePh e = Fin (c + p) \<and> running (c + p) es
      | _ \<Rightarrow> False)"

lemma book_levels_run:
  assumes "0 < md"
  shows "pred_state (\<lambda>es. map ob_price es = map price is \<and> running c es \<and> list_all (\<lambda>e. ob_side e = sd) es)
    (book_levels price sd (Fin md) (Fin c) is)"
proof (induction "is" arbitrary: c)
  case (Cons i "is")
  show ?case
    unfolding book_levels.simps(2)
  proof (rule pred_draw)
    fix a :: real
    assume a: "0 \<le> a" "a < 1"
    define ph where "ph = md * 4294967296 / 10 ^ 15 * (1 / 2 + a * (5 / 2))"
    have ph: "0 < ph" unfolding ph_def using assms a by (intro mult_pos_pos) simp_all
    have e: "difficultyToWorkPh (Fin md) * (Fin (1 / 2) + Fin a * Fin (5 / 2)) = Fin ph" by (simp add: difficultyToWorkPh_def ph_def)
    show "pred_state (\<lambda>es. map ob_price es = map price (i # is) \<and> running c es \<and> list_all (\<lambda>e. ob_side e = sd) es)
      (let ph = difficultyToWorkPh (Fin md) * (Fin (1 / 2) + Fin a * Fin (5 / 2)) in
       State_Monad.bind (book_levels price sd (Fin md) (Fin c + ph) is) (\<lambda>rest.
         done_with (\<lparr>ob_price = price i, ob_hashratePh = ph, cumulativePh = Fin c + ph, ob_side = sd\<rparr> # rest)))"
      unfolding e Let_def plus_number.simps(1)
      by (rule bind_predI, rule state.pred_mono_strong [OF Cons.IH]) (simp add: ph)
  qed
qed simp

text \<open>A book with midpoint \<open>m\<close> and half spread \<open>h\<close>: the prices of both sides, their depth, the last trade.\<close>

definition book_at :: "real \<Rightarrow> real \<Rightarrow> OrderBookData \<Rightarrow> bool" where
  "book_at m h ob \<longleftrightarrow>
     midpoint ob = Fin m \<and> ob_spread ob = Fin (2 * h) \<and> isFinite (lastTradePrice ob)
     \<and> map ob_price (ob_bids ob) = map (\<lambda>i. Fin (max (1 / 1000) (m - h - real i * m / 200))) [0..<20]
     \<and> map ob_price (ob_asks ob) = map (\<lambda>i. Fin (m + h + real i * m / 200)) [0..<20]
     \<and> running 0 (ob_bids ob) \<and> running 0 (ob_asks ob)
     \<and> list_all (\<lambda>e. ob_side e = Bid) (ob_bids ob) \<and> list_all (\<lambda>e. ob_side e = Ask) (ob_asks ob)"

lemma order_book_of_at:
  assumes "0 < md"
  shows "pred_state (book_at m h) (order_book_of (Fin m) (Fin h) (Fin md))"
proof -
  have prices: "bid_price (Fin m) (Fin h) i = Fin (max (1 / 1000) (m - h - real i * m / 200))"
    "ask_price (Fin m) (Fin h) i = Fin (m + h + real i * m / 200)" for i
    by (simp_all add: bid_price_def ask_price_def)
  have h: "Fin h * Fin (1 / 2) = Fin (h * (1 / 2))" by simp
  have asks: "pred_state (book_at m h)
      (State_Monad.bind (book_levels (ask_price (Fin m) (Fin h)) Ask (Fin md) 0 [0..<LEVELS]) (\<lambda>asks.
       State_Monad.bind (gaussian 0 (Fin h * Fin (1 / 2))) (\<lambda>noise.
       done_with \<lparr>ob_bids = bids, ob_asks = asks, ob_spread = Fin h * 2, midpoint = Fin m, lastTradePrice = Fin m + noise\<rparr>)))"
    if b: "map ob_price bids = map (bid_price (Fin m) (Fin h)) [0..<LEVELS] \<and> running 0 bids \<and> list_all (\<lambda>e. ob_side e = Bid) bids" for bids
    unfolding h number_zero
    by (rule bind_predI, rule state.pred_mono_strong [OF book_levels_run [OF assms]])
      (auto intro!: pred_gaussian simp: book_at_def prices LEVELS_def b)
  show ?thesis
    unfolding order_book_of_def
    by (rule bind_predI, unfold number_zero, rule state.pred_mono_strong [OF book_levels_run [OF assms]])
      (rule asks [unfolded number_zero])
qed

lemma book_at_uncrossed:
  assumes "book_at m h ob" "1 / 1000 \<le> m" "0 \<le> h"
  shows "length (ob_bids ob) = 20" "length (ob_asks ob) = 20"
    and "sorted_wrt (\<lambda>a b. ob_price b \<le> ob_price a) (ob_bids ob)" "sorted_wrt (\<lambda>a b. ob_price a < ob_price b) (ob_asks ob)"
    and "\<forall>b \<in> set (ob_bids ob). ob_price b \<le> Fin m" "\<forall>a \<in> set (ob_asks ob). Fin (m + h) \<le> ob_price a"
proof -
  note ps = assms(1) [unfolded book_at_def]
  have bids: "map ob_price (ob_bids ob) = map (\<lambda>i. Fin (max (1 / 1000) (m - h - real i * m / 200))) [0..<20]"
    and asks: "map ob_price (ob_asks ob) = map (\<lambda>i. Fin (m + h + real i * m / 200)) [0..<20]" using ps by blast+
  show "length (ob_bids ob) = 20" "length (ob_asks ob) = 20"
    using arg_cong [OF bids, of length] arg_cong [OF asks, of length] by simp_all
  have m: "0 < m" using assms(2) by simp
  have step: "real i * m / 200 < real j * m / 200" if "i < j" for i j using that m by (simp add: divide_strict_right_mono)
  have down: "max (1 / 1000) (m - h - real j * m / 200) \<le> max (1 / 1000) (m - h - real i * m / 200)" if "i < j" for i j
    using step [OF that] by (intro max.mono) simp_all
  have "sorted_wrt (\<lambda>x y. y \<le> x) (map ob_price (ob_bids ob))"
    unfolding bids sorted_wrt_map less_eq_number.simps using down by (simp only: sorted_wrt_iff_nth_less) simp
  moreover have "sorted_wrt (<) (map ob_price (ob_asks ob))"
    unfolding asks sorted_wrt_map less_number.simps using step by (simp only: sorted_wrt_iff_nth_less) simp
  ultimately
  show "sorted_wrt (\<lambda>a b. ob_price b \<le> ob_price a) (ob_bids ob)" "sorted_wrt (\<lambda>a b. ob_price a < ob_price b) (ob_asks ob)"
    by (simp_all add: sorted_wrt_map)
  have nn: "0 \<le> real i * m / 200" for i using m by simp
  have "m - h - real i * m / 200 \<le> m" "m + h \<le> m + h + real i * m / 200" for i using nn [of i] assms(3) by linarith+
  then have "\<forall>x \<in> set (map ob_price (ob_bids ob)). x \<le> Fin m" "\<forall>x \<in> set (map ob_price (ob_asks ob)). Fin (m + h) \<le> x"
    unfolding bids asks using assms(2) by auto
  then show "\<forall>b \<in> set (ob_bids ob). ob_price b \<le> Fin m" "\<forall>a \<in> set (ob_asks ob). Fin (m + h) \<le> ob_price a" by simp_all
qed

text \<open>At most half of a list is below, and at most half above, the middle element of it in order.\<close>

lemma median_halves:
  assumes "sorted_wrt (\<lambda>a b. f a \<le> f b) xs" "xs \<noteq> []" "\<And>x. x \<in> set xs \<Longrightarrow> isFinite (f x)"
  shows "2 * length (filter (\<lambda>x. f x < f (xs ! (length xs div 2))) xs) \<le> length xs"
    "2 * length (filter (\<lambda>x. f (xs ! (length xs div 2)) < f x) xs) \<le> length xs"
proof -
  let ?i = "length xs div 2"
  have i: "?i < length xs" using assms(2) by (simp add: div_less_dividend)
  have mid: "isFinite (f (xs ! ?i))" using assms(3) i by simp
  have le: "f x \<le> f (xs ! ?i)" if x: "x \<in> set (take (Suc ?i) xs)" for x
  proof -
    obtain j where "j < length (take (Suc ?i) xs)" "x = take (Suc ?i) xs ! j" using x unfolding in_set_conv_nth by blast
    then have j: "x = xs ! j" "j \<le> ?i" by auto
    then show ?thesis
    proof (cases "j = ?i")
      case False
      then show ?thesis using sorted_wrt_nth_less [OF assms(1), of j ?i] i j by simp
    qed (use mid in \<open>auto simp: isFinite_iff\<close>)
  qed
  have ge: "f (xs ! ?i) \<le> f x" if x: "x \<in> set (drop ?i xs)" for x
  proof -
    obtain j where "j < length (drop ?i xs)" "x = drop ?i xs ! j" using x unfolding in_set_conv_nth by blast
    then have j: "x = xs ! (?i + j)" "?i + j < length xs" by simp_all
    then show ?thesis
    proof (cases "j = 0")
      case False
      then show ?thesis using sorted_wrt_nth_less [OF assms(1), of ?i "?i + j"] j by simp
    qed (use mid in \<open>auto simp: isFinite_iff\<close>)
  qed
  have le_not: "\<not> b < a" if "a \<le> b" for a b :: number using that by (cases a; cases b) auto
  have "filter (\<lambda>x. f x < f (xs ! ?i)) xs = filter (\<lambda>x. f x < f (xs ! ?i)) (take ?i xs @ drop ?i xs)" by simp
  also have "\<dots> = filter (\<lambda>x. f x < f (xs ! ?i)) (take ?i xs)"
    unfolding filter_append using le_not [OF ge] by (simp add: filter_empty_conv)
  finally have "length (filter (\<lambda>x. f x < f (xs ! ?i)) xs) \<le> ?i" by (simp add: le_trans [OF length_filter_le])
  then show "2 * length (filter (\<lambda>x. f x < f (xs ! ?i)) xs) \<le> length xs" by linarith
  have "filter (\<lambda>x. f (xs ! ?i) < f x) xs = filter (\<lambda>x. f (xs ! ?i) < f x) (take (Suc ?i) xs @ drop (Suc ?i) xs)" by simp
  also have "\<dots> = filter (\<lambda>x. f (xs ! ?i) < f x) (drop (Suc ?i) xs)"
    unfolding filter_append using le_not [OF le] by (simp add: filter_empty_conv)
  finally have "length (filter (\<lambda>x. f (xs ! ?i) < f x) xs) \<le> length xs - Suc ?i"
    by (metis length_drop length_filter_le)
  then show "2 * length (filter (\<lambda>x. f (xs ! ?i) < f x) xs) \<le> length xs" by linarith
qed

lemma generateOrderBook_at:
  assumes "list_all (listing_ok hgt) ls" "ls \<noteq> []" "0 \<le> b"
  obtains m where "1 / 1000 \<le> m" "book_at m (m * (b / 10000 / 2)) (generateOrderBook ls (Fin b) seed)"
    "2 * length (filter (\<lambda>l. marketPriceUsd l < Fin m) ls) \<le> length ls"
    "2 * length (filter (\<lambda>l. Fin m < marketPriceUsd l) ls) \<le> length ls"
proof -
  let ?s = "js_sort (\<lambda>a b. marketPriceUsd a - marketPriceUsd b) ls"
  let ?l = "?s ! (length ?s div 2)"
  have fin: "isFinite (marketPriceUsd l)" if "l \<in> set ls" for l
    using assms(1) that by (auto simp: list_all_iff elim!: listing_okE dest!: bspec)
  have ne: "?s \<noteq> []" using assms(2) by (metis length_0_conv length_js_sort)
  have i: "length ?s div 2 < length ?s" using assms(2) by (simp add: div_less_dividend)
  then have ls: "?l \<in> set ls" using nth_mem [OF i] by simp
  obtain m where m: "marketPriceUsd ?l = Fin m" using fin [OF ls] by (auto simp: isFinite_iff)
  obtain k where k: "ps_difficultyAchieved ?l = Fin k" "0 < k" and m0: "1 / 1000 \<le> m"
    using assms(1) ls m by (auto simp: list_all_iff elim!: listing_okE dest!: bspec)
  have "generateOrderBook ls (Fin b) seed
      = fst (run_state (order_book_of (Fin m) (Fin (m * (b / 10000 / 2))) (Fin k)) (seededRandom seed))"
    using i unfolding generateOrderBook_def Let_def index_def by (simp add: m [simplified] k [simplified])
  then have at: "book_at m (m * (b / 10000 / 2)) (generateOrderBook ls (Fin b) seed)"
    using pred_state_run_state [OF order_book_of_at [OF k(2)]] by simp
  have same: "length (filter P ?s) = length (filter P ls)" for P
    by (metis mset_filter mset_js_sort size_mset)
  have sorted: "sorted_wrt (\<lambda>a b. marketPriceUsd a \<le> marketPriceUsd b) ?s" by (rule js_sort_asc_finite) (rule fin)
  note halves = median_halves [OF sorted ne, unfolded same set_js_sort, OF fin]
  from that [OF m0 at] halves [unfolded m, simplified] show thesis by simp
qed

text \<open>
  the simulated order book is a well-formed book around the median listing. For any seeds and
  parameters as above and a spread of at most 100 percent, at most half of the listings are
  cheaper and at most half dearer than the midpoint; there are twenty bids, in descending order
  and none above the midpoint, and twenty asks, in strictly ascending order and none below the
  midpoint and half the spread; the cumulative depth of both sides is the running sum of their
  positive levels.
\<close>

theorem simulated_book:
  assumes "params_ok params"
  shows "let ls = generateMockListings params (Fin hgt) seed; ob = generateOrderBook ls (spreadBps params) seed' in
    \<exists>m h. midpoint ob = Fin m \<and> ob_spread ob = Fin (2 * h) \<and> 1 / 1000 \<le> m \<and> 0 \<le> h \<and> 2 * h \<le> m
      \<and> 2 * length (filter (\<lambda>l. marketPriceUsd l < Fin m) ls) \<le> length ls
      \<and> 2 * length (filter (\<lambda>l. Fin m < marketPriceUsd l) ls) \<le> length ls
      \<and> length (ob_bids ob) = 20 \<and> length (ob_asks ob) = 20
      \<and> sorted_wrt (\<lambda>a b. ob_price b \<le> ob_price a) (ob_bids ob) \<and> sorted_wrt (\<lambda>a b. ob_price a < ob_price b) (ob_asks ob)
      \<and> (\<forall>b \<in> set (ob_bids ob). ob_price b \<le> Fin m) \<and> (\<forall>a \<in> set (ob_asks ob). Fin (m + h) \<le> ob_price a)
      \<and> running 0 (ob_bids ob) \<and> running 0 (ob_asks ob)"
proof -
  let ?ls = "generateMockListings params (Fin hgt) seed"
  obtain b where b: "spreadBps params = Fin b" "0 \<le> b" "b \<le> 10000" by (rule params_okE [OF assms])
  have ls: "list_all (listing_ok hgt) ?ls" "?ls \<noteq> []"
    using generateMockListings_facts [OF assms, of hgt seed] by auto
  obtain m where m: "1 / 1000 \<le> m" "book_at m (m * (b / 10000 / 2)) (generateOrderBook ?ls (Fin b) seed')"
    "2 * length (filter (\<lambda>l. marketPriceUsd l < Fin m) ?ls) \<le> length ?ls"
    "2 * length (filter (\<lambda>l. Fin m < marketPriceUsd l) ?ls) \<le> length ?ls"
    by (rule generateOrderBook_at [OF ls b(2)])
  let ?h = "m * (b / 10000 / 2)"
  have h: "0 \<le> ?h" "2 * ?h \<le> m" using m(1) b(2,3) mult_left_mono [of "b / 10000" 1 m] by simp_all
  show ?thesis
    unfolding b(1) Let_def using m(1,3,4) h book_at_uncrossed [OF m(2,1) h(1)] m(2) [unfolded book_at_def]
    by (intro exI [of _ m] exI [of _ ?h]) blast
qed

theorem simulated_book_witness:
  "\<exists>params. SCENARIO_PRESETS ''bear'' = Some params \<and>
     length (ob_asks (generateOrderBook (generateMockListings params 890000 1) (spreadBps params) 11)) = 20"
proof -
  obtain params where p: "SCENARIO_PRESETS ''bear'' = Some params" "params_ok params" by (rule presets_ok [of "''bear''"]) simp
  from simulated_book [OF p(2), of 890000 1 11] p(1) show ?thesis unfolding Let_def number_numeral by blast
qed

section \<open>Trades\<close>

text \<open>A simulated trade of the day before \<open>t\<close>.\<close>

definition trade_ok :: "real \<Rightarrow> SimulatedTrade \<Rightarrow> bool" where
  "trade_ok t x =
     (case (st_price x, st_discountPct x, st_timestampMs x) of
        (Fin p, Fin d, Fin u) \<Rightarrow> 1 / 1000 \<le> p \<and> 0 \<le> d \<and> t - 86400000 < u \<and> u \<le> t
      | _ \<Rightarrow> False)"

lemma approx_discount_Fin:
  assumes "params_ok params"
  obtains d where "approx_discount params (Fin p) = Fin d"
proof -
  obtain n r d where p: "sp_networkDifficulty params = Fin n" "sp_blockRewardUsd params = Fin r"
    "averageDiscount params = Fin d" "0 < n" by (rule params_okE [OF assms])
  have "isFinite (approx_discount params (Fin p))"
    using p by (simp add: approx_discount_def Let_def computeTheoreticalValue_def computeDiscount_def)
  then show thesis using that by (auto simp: isFinite_iff)
qed

lemma mock_trade_ok:
  assumes "params_ok params"
  shows "pred_state (trade_ok t) (mock_trade params (Fin m) (Fin t) i)"
proof -
  obtain b0 where "spreadBps params = Fin b0" by (rule params_okE [OF assms])
  then have b: "Fin m * (spreadBps params / 10000) = Fin (m * (b0 / 10000))" by simp
  show ?thesis
    unfolding mock_trade_def b number_zero
  proof (intro pred_draw pred_gaussian, unfold Let_def, rule pred_draw, rule pred_draw)
    fix r1 z r2 r3 :: real
    assume u: "0 \<le> r3" "r3 < 1"
    obtain d where d: "approx_discount params (Fin (max (1 / 1000) (m + z))) = Fin d" by (rule approx_discount_Fin [OF assms])
    have "0 \<le> \<lfloor>r3 * 86400000\<rfloor>" "\<lfloor>r3 * 86400000\<rfloor> < 86400000" using unit_floor [OF u, of 86400000] by simp_all
    then have "0 \<le> real_of_int \<lfloor>r3 * 86400000\<rfloor>" "real_of_int \<lfloor>r3 * 86400000\<rfloor> < 86400000" by linarith+
    then show "pred_state (trade_ok t) (State_Monad.return
        \<lparr>st_price = Math_max (Fin (1 / 1000)) (Fin m + Fin z), st_hashratePh = difficultyToWorkPh 50000 * (Fin (1 / 2) + Fin r2 * 2),
         st_side = (if Fin (1 / 2) < Fin r1 then Buy else Sell),
         st_discountPct = Math_max (Fin 0) (approx_discount params (Math_max (Fin (1 / 1000)) (Fin m + Fin z))),
         st_timestampMs = Fin t - Math_floor (Fin r3 * 24 * 60 * 60 * 1000)\<rparr>)"
      by (simp add: trade_ok_def d mult.assoc)
  qed
qed

lemma generateTradeHistory_ok:
  assumes "params_ok params"
  shows "length (generateTradeHistory params (Fin m) n seed (Fin t)) = n"
    "list_all (trade_ok t) (generateTradeHistory params (Fin m) n seed (Fin t))"
    "sorted_wrt (\<lambda>a b. st_timestampMs b \<le> st_timestampMs a) (generateTradeHistory params (Fin m) n seed (Fin t))"
proof -
  let ?m = "State_Monad.traverse_list (mock_trade params (Fin m) (Fin t)) [0..<n]"
  have "pred_state (\<lambda>ys. length ys = length [0..<n] \<and> list_all (trade_ok t) ys) ?m"
    by (rule pred_traverse) (rule mock_trade_ok [OF assms])
  from pred_state_run_state [OF this, of "seededRandom seed"]
  have r: "length (fst (run_state ?m (seededRandom seed))) = n" "list_all (trade_ok t) (fst (run_state ?m (seededRandom seed)))"
    by simp_all
  show "length (generateTradeHistory params (Fin m) n seed (Fin t)) = n"
    "list_all (trade_ok t) (generateTradeHistory params (Fin m) n seed (Fin t))"
    using r by (simp_all add: generateTradeHistory_def list_all_iff)
  have "isFinite (st_timestampMs x)" if "trade_ok t x" for x
    using that by (auto simp: trade_ok_def split: number.splits)
  then show "sorted_wrt (\<lambda>a b. st_timestampMs b \<le> st_timestampMs a) (generateTradeHistory params (Fin m) n seed (Fin t))"
    unfolding generateTradeHistory_def using r(2) by (intro js_sort_desc_finite) (auto simp: list_all_iff)
qed

section \<open>The discount curve\<close>

text \<open>
  the discount curve runs from the full discount at 100 blocks to none at maturity: 101 points,
  along which the discount never grows and the price never falls, ending at the theoretical value.
\<close>

theorem generateDiscountCurve_monotone:
  assumes "0 < n" "0 \<le> r" "0 \<le> mx" "0 \<le> d"
  shows "let c = generateDiscountCurve (Fin n) (Fin r) (Fin mx) (Fin d) in
    length c = 101 \<and> map dc_blocks c = map (\<lambda>b. Fin (real b)) (rev [0..<101])
    \<and> dc_discountPct (hd c) = Fin mx \<and> dc_discountPct (last c) = Fin 0
    \<and> dc_marketPrice (last c) = Fin (r / n * d)
    \<and> sorted_wrt (\<lambda>x y. dc_discountPct y \<le> dc_discountPct x \<and> dc_marketPrice x \<le> dc_marketPrice y) c"
proof -
  define disc where "disc b = mx * min (real b / 100) 1 powr (7 / 10)" for b
  have de: "discountAtBlock (Fin (real b)) (Fin mx) (Fin (7 / 10)) = Fin (disc b)" for b
    by (simp add: discountAtBlock_def Let_def min_def pow_real_def disc_def)
  have pt: "discount_point (Fin n) (Fin r) (Fin mx) (Fin d) b
      = \<lparr>dc_blocks = Fin (real b), dc_discountPct = Fin (disc b), dc_theoreticalValue = Fin (r / n * d),
         dc_marketPrice = Fin (r / n * d * (1 - disc b / 100))\<rparr>" for b
    using assms(1) by (simp add: discount_point_def Let_def de computeTheoreticalValue_def)
  have mono: "disc a \<le> disc b" if "a \<le> b" for a b
    unfolding disc_def using assms(3) that by (intro mult_left_mono powr_mono2) (simp_all add: min_le_iff_disj min.coboundedI1)
  have "0 \<le> r / n * d" using assms by simp
  then have price: "r / n * d * (1 - disc b / 100) \<le> r / n * d * (1 - disc a / 100)" if "a \<le> b" for a b
    using mono [OF that] by (intro mult_left_mono) simp_all
  have ends: "disc 0 = 0" "disc 100 = mx" by (simp_all add: disc_def)
  have hd_last: "hd (rev [0..<101]) = (100 :: nat)" "last (rev [0..<101]) = (0 :: nat)"
    by (simp_all add: hd_rev last_rev)
  have "sorted_wrt (\<lambda>x y. dc_discountPct y \<le> dc_discountPct x \<and> dc_marketPrice x \<le> dc_marketPrice y)
      (generateDiscountCurve (Fin n) (Fin r) (Fin mx) (Fin d))"
    unfolding generateDiscountCurve_def sorted_wrt_map pt sorted_wrt_rev
    by (rule sorted_wrt_mono_rel [OF _ sorted_wrt_upt]) (use mono price in \<open>simp only: less_eq_number.simps DiscountCurvePoint.simps less_imp_le\<close>)
  moreover have "rev [0..<101] \<noteq> []" by simp
  ultimately show ?thesis
    unfolding Let_def using ends hd_last
    by (simp add: generateDiscountCurve_def pt hd_map last_map comp_def)
qed

theorem generateDiscountCurve_monotone_witness:
  "dc_discountPct (hd (generateDiscountCurve 2 4 15 3)) = 15 \<and> dc_marketPrice (last (generateDiscountCurve 2 4 15 3)) = 6"
  using generateDiscountCurve_monotone [of 2 4 15 3] by (simp add: Let_def)

end
