(* ===== verification/Market_Simulator.thy ===== *)
theory Market_Simulator
  imports Mock_Market
begin

text \<open>
  Model of \<open>web/components/MarketSimulator.tsx\<close>: the animated market, as a state machine. The
  component's state and refs are a record; its effects on mount, the animation tick and the
  commit that brings the book's ref up to date after a render are its transitions. The random
  numbers of a tick and the time of day are arguments. The charts are not modelled.
\<close>

section \<open>State\<close>

record ComparisonPoint =
  cp_timestampMs :: number
  elapsedSec :: number
  btcValue :: number
  miningShareValue :: number

record sim =
  sim_book :: OrderBookData
  sim_trades :: "SimulatedTrade list"
  comparisonData :: "ComparisonPoint list"
  lastTick :: number
  sim_seed :: int
  bookRef :: OrderBookData
  simStart :: number
  btcPriceRef :: number
  simBlock :: number

definition DEFAULT_CHAIN_HEIGHT :: number where "DEFAULT_CHAIN_HEIGHT = 890000"
definition INITIAL_INVESTMENT :: number where "INITIAL_INVESTMENT = 1000"
definition MAX_DISCOUNT :: number where "MAX_DISCOUNT = 10"

definition PARAMS :: MarketSimulationParams where
  "PARAMS = (the (SCENARIO_PRESETS ''stable''))\<lparr>tradeFrequencyPerMin := 24\<rparr>"

definition empty_book :: OrderBookData where
  "empty_book = \<lparr>ob_bids = [], ob_asks = [], ob_spread = 0, midpoint = 0, lastTradePrice = 0\<rparr>"

definition initial_sim :: "number \<Rightarrow> sim" where
  "initial_sim now =
     \<lparr>sim_book = empty_book, sim_trades = [], comparisonData = [], lastTick = 0, sim_seed = 1,
      bookRef = empty_book, simStart = now, btcPriceRef = 1, simBlock = 0\<rparr>"

section \<open>Transitions\<close>

definition commit_book :: "sim \<Rightarrow> sim" where
  "commit_book s = s\<lparr>bookRef := sim_book s\<rparr>"

definition generate_initial :: "number \<Rightarrow> sim \<Rightarrow> sim" where
  "generate_initial now s =
     (let listings = generateMockListings PARAMS DEFAULT_CHAIN_HEIGHT (sim_seed s);
          ob = generateOrderBook listings (spreadBps PARAMS) (sim_seed s + 10);
          history = generateTradeHistory PARAMS (midpoint ob) 60 (sim_seed s + 20) now
      in s\<lparr>sim_seed := sim_seed s + 1, sim_book := ob, sim_trades := history\<rparr>)"

definition auto_start :: "number \<Rightarrow> sim \<Rightarrow> sim" where
  "auto_start now s = s\<lparr>lastTick := now\<rparr>"

text \<open>The numbers that one tick draws from \<open>Math.random\<close>.\<close>

record tick_draws =
  d_side :: number
  d_noise :: number
  d_ph :: number
  d_drift :: number
  d_btc :: number

definition tick_trade :: "number \<Rightarrow> tick_draws \<Rightarrow> number \<Rightarrow> SimulatedTrade" where
  "tick_trade now d mid =
     (let noise = (d_noise d - Fin (1 / 2)) * mid * (spreadBps PARAMS / 10000);
          price = Math_max (Fin (1 / 1000)) (mid + noise);
          ph = difficultyToWorkPh 50000 * (Fin (1 / 2) + d_ph d * 2)
      in \<lparr>st_price = price, st_hashratePh = ph, st_side = (if Fin (1 / 2) < d_side d then Buy else Sell),
          st_discountPct = Math_max 0 (approx_discount PARAMS price), st_timestampMs = now\<rparr>)"

definition reprice :: "(nat \<Rightarrow> number) \<Rightarrow> OrderBookEntry list \<Rightarrow> OrderBookEntry list" where
  "reprice price es = map (\<lambda>(i, e). e\<lparr>ob_price := price i\<rparr>) (enumerate 0 es)"

definition drift_book :: "number \<Rightarrow> number \<Rightarrow> OrderBookData \<Rightarrow> OrderBookData" where
  "drift_book r price prev =
     (let drift = (r - Fin (1 / 2)) * midpoint prev * Fin (2 / 1000);
          newMid = midpoint prev + drift;
          halfSpread = ob_spread prev / 2
      in prev\<lparr>ob_bids := reprice (\<lambda>i. newMid - halfSpread - Fin (real i) * newMid * Fin (5 / 1000)) (ob_bids prev),
              ob_asks := reprice (\<lambda>i. newMid + halfSpread + Fin (real i) * newMid * Fin (5 / 1000)) (ob_asks prev),
              midpoint := newMid, lastTradePrice := price\<rparr>)"

definition mining_share_value :: "number \<Rightarrow> number" where
  "mining_share_value block =
     (let blocksElapsed = Math_floor block;
          blocks = Math_max 0 (100 - blocksElapsed);
          currentDiscount = discountAtBlock blocks MAX_DISCOUNT (Fin (7 / 10));
          entryMultiplier = 1 / (1 - MAX_DISCOUNT / 100)
      in INITIAL_INVESTMENT * entryMultiplier * (1 - currentDiscount / 100))"

definition interval_ms :: number where
  "interval_ms = (60 / tradeFrequencyPerMin PARAMS) * 1000"

definition tick :: "number \<Rightarrow> tick_draws \<Rightarrow> sim \<Rightarrow> sim" where
  "tick now d s =
     (if interval_ms \<le> now - lastTick s
      then let newTrade = tick_trade now d (midpoint (bookRef s));
               btc = btcPriceRef s * (1 + (d_btc d - Fin (1 / 2)) * Fin (6 / 1000));
               block = simBlock s + Fin (1 / 4);
               point = \<lparr>cp_timestampMs = now, elapsedSec = (now - simStart s) / 1000,
                        btcValue = INITIAL_INVESTMENT * btc, miningShareValue = mining_share_value block\<rparr>;
               extended = comparisonData s @ [point]
           in s\<lparr>lastTick := now,
                sim_trades := slice 0 100 (newTrade # sim_trades s),
                sim_book := drift_book (d_drift d) (st_price newTrade) (sim_book s),
                btcPriceRef := btc,
                simBlock := block,
                comparisonData := (if length extended > 300 then slice (int (length extended) - 300) (int (length extended)) extended else extended)\<rparr>
      else s)"

definition draws_ok :: "tick_draws \<Rightarrow> bool" where
  "draws_ok d = (unit_val (d_side d) \<and> unit_val (d_noise d) \<and> unit_val (d_ph d) \<and> unit_val (d_drift d) \<and> unit_val (d_btc d))"

text \<open>
  The states of a mounted component: the effects of the mount run in order, at non-decreasing
  times; after that ticks and commits come in any order, and a tick at any time.
\<close>

inductive reachable :: "sim \<Rightarrow> bool" where
  mounted: "t0 \<le> t1 \<Longrightarrow> t1 \<le> t2 \<Longrightarrow> reachable (auto_start (Fin t2) (generate_initial (Fin t1) (commit_book (initial_sim (Fin t0)))))"
| ticked: "reachable s \<Longrightarrow> draws_ok d \<Longrightarrow> reachable (tick (Fin t) d s)"
| committed: "reachable s \<Longrightarrow> reachable (commit_book s)"

section \<open>The book\<close>

definition ordered_book :: "OrderBookData \<Rightarrow> bool" where
  "ordered_book ob =
     (case (midpoint ob, ob_spread ob) of
        (Fin m, Fin w) \<Rightarrow>
          0 < m \<and> 0 \<le> w \<and> length (ob_bids ob) = 20 \<and> length (ob_asks ob) = 20
          \<and> sorted_wrt (\<lambda>a b. ob_price b \<le> ob_price a) (ob_bids ob)
          \<and> sorted_wrt (\<lambda>a b. ob_price a < ob_price b) (ob_asks ob)
          \<and> list_all (\<lambda>e. ob_price e \<le> Fin m) (ob_bids ob) \<and> list_all (\<lambda>e. Fin (m + w / 2) \<le> ob_price e) (ob_asks ob)
          \<and> running 0 (ob_bids ob) \<and> running 0 (ob_asks ob)
      | _ \<Rightarrow> False)"

lemma ordered_bookE:
  assumes "ordered_book ob"
  obtains m w where "midpoint ob = Fin m" "ob_spread ob = Fin w" "0 < m" "0 \<le> w"
    "length (ob_bids ob) = 20" "length (ob_asks ob) = 20" "running 0 (ob_bids ob)" "running 0 (ob_asks ob)"
  using assms by (auto simp: ordered_book_def split: number.splits)

lemma reprice_prices: "map ob_price (reprice price es) = map price [0..<length es]"
  by (rule nth_equalityI) (simp_all add: reprice_def nth_enumerate_eq)

lemma running_reprice: "running c (reprice price es) = running c es"
proof -
  have "running c (map (\<lambda>(i, e). e\<lparr>ob_price := price i\<rparr>) (enumerate n es)) = running c es" for n
    by (induction es arbitrary: c n) (simp_all split: number.split)
  then show ?thesis by (simp add: reprice_def)
qed

lemma drift_book_ordered:
  assumes "ordered_book ob" "unit_val r"
  shows "ordered_book (drift_book r p ob)"
proof -
  obtain m w where ob: "midpoint ob = Fin m" "ob_spread ob = Fin w" "0 < m" "0 \<le> w"
    "length (ob_bids ob) = 20" "length (ob_asks ob) = 20" "running 0 (ob_bids ob)" "running 0 (ob_asks ob)"
    by (rule ordered_bookE [OF assms(1)])
  obtain a where a: "r = Fin a" "0 \<le> a" "a < 1" by (rule unit_valE [OF assms(2)])
  define n where "n = m * (1 + (a - 1 / 2) * (2 / 1000))"
  have "0 < 1 + (a - 1 / 2) * (2 / 1000)" using a(2) by (simp add: field_simps)
  then have n: "0 < n" unfolding n_def by (rule mult_pos_pos [OF ob(3)])
  have mid: "midpoint ob + (r - Fin (1 / 2)) * midpoint ob * Fin (2 / 1000) = Fin n" by (simp add: ob a n_def algebra_simps)
  let ?b = "\<lambda>i. n - w / 2 - real i * n * (5 / 1000)" and ?a = "\<lambda>i. n + w / 2 + real i * n * (5 / 1000)"
  define ob' where "ob' = drift_book r p ob"
  have ob': "midpoint ob' = Fin n" "ob_spread ob' = Fin w"
    "ob_bids ob' = reprice (\<lambda>i. Fin (?b i)) (ob_bids ob)" "ob_asks ob' = reprice (\<lambda>i. Fin (?a i)) (ob_asks ob)"
    unfolding ob'_def drift_book_def Let_def mid by (simp_all add: ob)
  have prices: "map ob_price (ob_bids ob') = map (\<lambda>i. Fin (?b i)) [0..<20]" "map ob_price (ob_asks ob') = map (\<lambda>i. Fin (?a i)) [0..<20]"
    by (simp_all only: ob' reprice_prices ob(5,6))
  have step: "real i * n * (5 / 1000) < real j * n * (5 / 1000)" if "i < j" for i j using that n by simp
  have nn: "0 \<le> real i * n * (5 / 1000)" for i using n by simp
  have "sorted_wrt (\<lambda>x y. y \<le> x) (map ob_price (ob_bids ob'))" "sorted_wrt (<) (map ob_price (ob_asks ob'))"
    unfolding prices sorted_wrt_map less_number.simps less_eq_number.simps sorted_wrt_iff_nth_less
    using step by (simp_all add: less_imp_le)
  then have sorted: "sorted_wrt (\<lambda>a b. ob_price b \<le> ob_price a) (ob_bids ob')" "sorted_wrt (\<lambda>a b. ob_price a < ob_price b) (ob_asks ob')"
    by (simp_all add: sorted_wrt_map)
  have "?b i \<le> n" "n + w / 2 \<le> ?a i" for i using nn [of i] ob(4) by linarith+
  then have "\<forall>x \<in> set (map ob_price (ob_bids ob')). x \<le> Fin n" "\<forall>x \<in> set (map ob_price (ob_asks ob')). Fin (n + w / 2) \<le> x"
    unfolding prices by auto
  then show ?thesis
    using ob(5-8) n ob(4) sorted ob'(1,2) arg_cong [OF prices(1), of length] arg_cong [OF prices(2), of length]
    unfolding ordered_book_def ob'_def [symmetric] by (simp add: list_all_iff running_reprice ob'(3,4))
qed

lemma PARAMS_ok: "params_ok PARAMS"
  by (simp add: PARAMS_def SCENARIO_PRESETS_def DEFAULT_NET_DIFF_def DEFAULT_BLOCK_REWARD_USD_def)

section \<open>The comparison\<close>

lemma mining_share_value_mono:
  assumes "0 \<le> a" "a \<le> b"
  obtains u v where "mining_share_value (Fin a) = Fin u" "mining_share_value (Fin b) = Fin v"
    "1000 \<le> u" "u \<le> v" "v \<le> 10000 / 9"
proof -
  let ?B = "\<lambda>x :: real. max 0 (100 - real_of_int \<lfloor>x\<rfloor>)"
  have "?B b \<le> ?B a" using assms(2) floor_mono [of a b] by simp
  then obtain d1 d2 where d: "discountAtBlock (Fin (?B b)) (Fin 10) (Fin (7 / 10)) = Fin d1"
    "discountAtBlock (Fin (?B a)) (Fin 10) (Fin (7 / 10)) = Fin d2" "0 \<le> d1" "d1 \<le> d2" "d2 \<le> 10"
    using discountAtBlock_bounds_mono [of "?B b" "?B a" 10 "7 / 10"] by auto
  have eq: "mining_share_value (Fin x) = Fin (10000 / 9 * (1 - dx / 100))"
    if "discountAtBlock (Fin (?B x)) (Fin 10) (Fin (7 / 10)) = Fin dx" for x dx
    using that by (simp add: mining_share_value_def Let_def MAX_DISCOUNT_def INITIAL_INVESTMENT_def)
  show thesis by (rule that [OF eq [OF d(2)] eq [OF d(1)]]) (use d in simp_all)
qed

section \<open>The invariant\<close>

definition shown_trade :: "real \<Rightarrow> SimulatedTrade \<Rightarrow> bool" where
  "shown_trade t x =
     (case (st_price x, st_discountPct x, st_timestampMs x) of
        (Fin p, Fin d, Fin u) \<Rightarrow> 1 / 1000 \<le> p \<and> 0 \<le> d \<and> u \<le> t
      | _ \<Rightarrow> False)"

definition shown_point :: "real \<Rightarrow> real \<Rightarrow> ComparisonPoint \<Rightarrow> bool" where
  "shown_point t k p =
     (case (cp_timestampMs p, btcValue p, miningShareValue p) of
        (Fin u, Fin b, Fin v) \<Rightarrow> u \<le> t \<and> 0 < b \<and> 1000 \<le> v \<and> v \<le> 10000 / 9 \<and> Fin v \<le> mining_share_value (Fin k)
      | _ \<Rightarrow> False)"

definition trades_inv :: "real \<Rightarrow> SimulatedTrade list \<Rightarrow> bool" where
  "trades_inv t xs \<longleftrightarrow> length xs \<le> 100 \<and> sorted_wrt (\<lambda>a b. st_timestampMs b \<le> st_timestampMs a) xs \<and> list_all (shown_trade t) xs"

definition points_inv :: "real \<Rightarrow> real \<Rightarrow> ComparisonPoint list \<Rightarrow> bool" where
  "points_inv t k ps \<longleftrightarrow> length ps \<le> 300 \<and> list_all (shown_point t k) ps
     \<and> sorted_wrt (\<lambda>a b. cp_timestampMs a < cp_timestampMs b \<and> miningShareValue a \<le> miningShareValue b) ps"

lemma trades_inv_tick:
  assumes "trades_inv t xs" "t \<le> u" "shown_trade u x" "st_timestampMs x = Fin u"
  shows "trades_inv u (slice 0 100 (x # xs))"
proof -
  have "shown_trade u y \<and> st_timestampMs y \<le> Fin u" if "y \<in> set xs" for y
    using assms(1,2) that by (force simp: trades_inv_def list_all_iff shown_trade_def split: number.splits)
  then have "list_all (shown_trade u) (x # xs)" "sorted_wrt (\<lambda>a b. st_timestampMs b \<le> st_timestampMs a) (x # xs)"
    using assms by (auto simp: trades_inv_def list_all_iff)
  moreover have "set (take 100 (x # xs)) \<subseteq> set (x # xs)" by (rule set_take_subset)
  ultimately show ?thesis unfolding trades_inv_def list_all_iff slice_numeral by (auto simp only: length_take sorted_wrt_take)
qed

lemma points_inv_tick:
  assumes "points_inv t k ps" "t < u" "0 \<le> k" "shown_point u (k + 1 / 4) p" "cp_timestampMs p = Fin u"
    and "miningShareValue p = mining_share_value (Fin (k + 1 / 4))" and qs: "qs = ps @ [p]"
  shows "points_inv u (k + 1 / 4) (if length qs > 300 then slice (int (length qs) - 300) (int (length qs)) qs else qs)"
proof -
  obtain v w where vw: "mining_share_value (Fin k) = Fin v" "mining_share_value (Fin (k + 1 / 4)) = Fin w" "v \<le> w"
    by (rule mining_share_value_mono [of k "k + 1 / 4"]) (use assms(3) in auto)
  have old: "shown_point u (k + 1 / 4) q \<and> cp_timestampMs q < Fin u \<and> miningShareValue q \<le> Fin w" if "q \<in> set ps" for q
    using assms(1,2) that vw by (force simp: points_inv_def list_all_iff shown_point_def split: number.splits)
  have all: "list_all (shown_point u (k + 1 / 4)) qs"
    "sorted_wrt (\<lambda>a b. cp_timestampMs a < cp_timestampMs b \<and> miningShareValue a \<le> miningShareValue b) qs"
    unfolding qs using assms(1,4,5,6) old vw(2) by (auto simp: points_inv_def list_all_iff sorted_wrt_append)
  have cut: "slice (int (length qs) - 300) (int (length qs)) qs = drop (length qs - 300) qs" if "length qs > 300"
    using that slice_nat [of "length qs - 300" "length qs" qs] by (simp add: of_nat_diff)
  show ?thesis
    using all assms(1) cut by (auto simp: points_inv_def list_all_iff sorted_wrt_drop dest: in_set_dropD)
qed

definition sim_inv :: "sim \<Rightarrow> bool" where
  "sim_inv s \<longleftrightarrow> (\<exists>t k c. lastTick s = Fin t \<and> simBlock s = Fin k \<and> 0 \<le> k \<and> btcPriceRef s = Fin c \<and> 0 < c
     \<and> isFinite (simStart s) \<and> isFinite (midpoint (bookRef s)) \<and> ordered_book (sim_book s)
     \<and> trades_inv t (sim_trades s) \<and> points_inv t k (comparisonData s))"

lemma tick_trade_shown:
  assumes "draws_ok d" "isFinite mid"
  shows "shown_trade t (tick_trade (Fin t) d mid)" "st_timestampMs (tick_trade (Fin t) d mid) = Fin t"
proof -
  obtain b where b: "spreadBps PARAMS = Fin b" by (rule params_okE [OF PARAMS_ok])
  obtain m a where f: "mid = Fin m" "d_noise d = Fin a"
    using assms by (auto simp: draws_ok_def isFinite_iff elim!: unit_valE)
  define q where "q = max (1 / 1000) (m + (a - 1 / 2) * m * (b / 10000))"
  have q: "1 / 1000 \<le> q" by (simp add: q_def)
  obtain x where x: "approx_discount PARAMS (Fin q) = Fin x" by (rule approx_discount_Fin [OF PARAMS_ok])
  have "Math_max (Fin (1 / 1000)) (mid + (d_noise d - Fin (1 / 2)) * mid * (spreadBps PARAMS / 10000)) = Fin q"
    by (simp add: f b q_def)
  then show "shown_trade t (tick_trade (Fin t) d mid)" using q by (simp add: tick_trade_def Let_def shown_trade_def x)
  show "st_timestampMs (tick_trade (Fin t) d mid) = Fin t" by (simp add: tick_trade_def Let_def)
qed

lemma interval_ms_value: "interval_ms = Fin 2500"
  by (simp add: interval_ms_def PARAMS_def)

lemma tick_inv:
  assumes "sim_inv s" "draws_ok d"
  shows "sim_inv (tick (Fin u) d s)"
proof (cases "interval_ms \<le> Fin u - lastTick s")
  case True
  obtain t k c where i: "lastTick s = Fin t" "simBlock s = Fin k" "0 \<le> k" "btcPriceRef s = Fin c" "0 < c"
    "isFinite (simStart s)" "isFinite (midpoint (bookRef s))" "ordered_book (sim_book s)"
    "trades_inv t (sim_trades s)" "points_inv t k (comparisonData s)" using assms(1) by (auto simp: sim_inv_def)
  obtain a where a: "d_btc d = Fin a" "0 \<le> a" using assms(2) by (auto simp: draws_ok_def elim: unit_valE)
  define c' where "c' = c * (1 + (a - 1 / 2) * (6 / 1000))"
  have "0 < 1 + (a - 1 / 2) * (6 / 1000)" using a(2) by (simp add: field_simps)
  then have c': "0 < c'" unfolding c'_def by (rule mult_pos_pos [OF i(5)])
  have btc: "btcPriceRef s * (1 + (d_btc d - Fin (1 / 2)) * Fin (6 / 1000)) = Fin c'" by (simp add: i a c'_def)
  have block: "simBlock s + Fin (1 / 4) = Fin (k + 1 / 4)" by (simp add: i)
  have u: "t < u" using True by (simp add: i interval_ms_value)
  obtain v where v: "mining_share_value (Fin (k + 1 / 4)) = Fin v" "1000 \<le> v" "v \<le> 10000 / 9"
    by (rule mining_share_value_mono [of "k + 1 / 4" "k + 1 / 4"]) (use i(3) in auto)
  let ?p = "\<lparr>cp_timestampMs = Fin u, elapsedSec = (Fin u - simStart s) / 1000, btcValue = INITIAL_INVESTMENT * Fin c',
    miningShareValue = mining_share_value (Fin (k + 1 / 4))\<rparr>"
  have p: "shown_point u (k + 1 / 4) ?p" using v c' by (simp add: shown_point_def INITIAL_INVESTMENT_def)
  note trades = trades_inv_tick [OF i(9) less_imp_le [OF u] tick_trade_shown [OF assms(2) i(7)]]
  note points = points_inv_tick [OF i(10) u i(3) p _ _ refl, simplified ComparisonPoint.simps, OF refl refl]
  have drift: "ordered_book (drift_book (d_drift d) p (sim_book s))" for p
    using drift_book_ordered i(8) assms(2) by (auto simp: draws_ok_def)
  show ?thesis
    using True trades points drift c' i(3,6,7) unfolding tick_def Let_def btc block sim_inv_def
    by (intro exI [of _ u] exI [of _ "k + 1 / 4"] exI [of _ c']) auto
qed (use assms in \<open>simp add: tick_def\<close>)

lemma book_at_ordered:
  assumes "book_at m h ob" "1 / 1000 \<le> m" "0 \<le> h"
  shows "ordered_book ob"
proof -
  have ob: "midpoint ob = Fin m" "ob_spread ob = Fin (2 * h)" "running 0 (ob_bids ob)" "running 0 (ob_asks ob)"
    using assms(1) by (simp_all add: book_at_def)
  have "0 < m" using assms(2) by simp
  then show ?thesis
    using book_at_uncrossed [OF assms] assms(3) ob unfolding ordered_book_def by (simp add: list_all_iff)
qed

lemma mounted_inv:
  assumes "t1 \<le> t2"
  shows "sim_inv (auto_start (Fin t2) (generate_initial (Fin t1) (commit_book (initial_sim (Fin t0)))))"
proof -
  obtain b where b: "spreadBps PARAMS = Fin b" "0 \<le> b" by (rule params_okE [OF PARAMS_ok])
  let ?ls = "generateMockListings PARAMS (Fin 890000) 1"
  have ls: "list_all (listing_ok 890000) ?ls" "?ls \<noteq> []" using generateMockListings_facts [OF PARAMS_ok, of 890000 1] by auto
  let ?ob = "generateOrderBook ?ls (Fin b) 11"
  obtain m where m: "1 / 1000 \<le> m" "book_at m (m * (b / 10000 / 2)) ?ob" by (rule generateOrderBook_at [OF ls b(2), of 11])
  have "0 \<le> m * (b / 10000 / 2)" using m(1) b(2) by simp
  then have ob: "ordered_book ?ob" by (rule book_at_ordered [OF m(2,1)])
  have mid: "midpoint ?ob = Fin m" using m(2) by (simp add: book_at_def)
  let ?h = "generateTradeHistory PARAMS (Fin m) 60 21 (Fin t1)"
  have "shown_trade t2 x" if "trade_ok t1 x" for x
    using that assms by (auto simp: trade_ok_def shown_trade_def split: number.splits)
  then have "trades_inv t2 ?h"
    using generateTradeHistory_ok [OF PARAMS_ok, where m = m and n = 60 and seed = 21 and t = t1] by (auto simp: trades_inv_def list_all_iff)
  then show ?thesis
    using ob by (simp add: sim_inv_def auto_start_def generate_initial_def commit_book_def initial_sim_def Let_def
        DEFAULT_CHAIN_HEIGHT_def b(1) mid points_inv_def empty_book_def)
qed

lemma reachable_inv: "reachable s \<Longrightarrow> sim_inv s"
proof (induction rule: reachable.induct)
  case (mounted t0 t1 t2)
  then show ?case using mounted_inv by blast
next
  case (ticked s d t)
  then show ?case using tick_inv by blast
next
  case (committed s)
  moreover have "isFinite (midpoint ob)" if "ordered_book ob" for ob using that by (auto elim: ordered_bookE)
  ultimately show ?case by (auto simp: sim_inv_def commit_book_def)
qed

text \<open>
  C32: the animated market stays a market. In every state that the mounted component reaches, whatever
  the random numbers, the times of the ticks and the order of ticks and renders: the book has
  twenty bids in descending order, none above the midpoint, and twenty asks in ascending order,
  none below the midpoint and half the spread, with cumulative depths that are the running sums
  of their levels; at most 100 trades are kept, newest first, none below a tenth of a cent; at
  most 300 comparison points are kept, in order of time, and the value of the mining share only
  rises along them, from the investment to what its discount was worth.
\<close>

theorem simulator_invariant:
  assumes "reachable s"
  shows "ordered_book (sim_book s)
    \<and> length (sim_trades s) \<le> 100 \<and> sorted_wrt (\<lambda>a b. st_timestampMs b \<le> st_timestampMs a) (sim_trades s)
    \<and> (\<forall>x \<in> set (sim_trades s). Fin (1 / 1000) \<le> st_price x \<and> st_timestampMs x \<le> lastTick s)
    \<and> length (comparisonData s) \<le> 300
    \<and> sorted_wrt (\<lambda>p q. cp_timestampMs p < cp_timestampMs q \<and> miningShareValue p \<le> miningShareValue q) (comparisonData s)
    \<and> (\<forall>p \<in> set (comparisonData s). INITIAL_INVESTMENT \<le> miningShareValue p \<and> miningShareValue p \<le> Fin (10000 / 9) \<and> 0 < btcValue p)"
proof -
  obtain t k where i: "lastTick s = Fin t" "ordered_book (sim_book s)" "trades_inv t (sim_trades s)" "points_inv t k (comparisonData s)"
    using reachable_inv [OF assms] by (auto simp: sim_inv_def)
  have trades: "Fin (1 / 1000) \<le> st_price x \<and> st_timestampMs x \<le> lastTick s" if "x \<in> set (sim_trades s)" for x
  proof -
    have "shown_trade t x" using i(3) that by (simp add: trades_inv_def list_all_iff)
    then show ?thesis by (auto simp: shown_trade_def i(1) split: number.splits)
  qed
  have points: "INITIAL_INVESTMENT \<le> miningShareValue p \<and> miningShareValue p \<le> Fin (10000 / 9) \<and> 0 < btcValue p"
    if "p \<in> set (comparisonData s)" for p
  proof -
    have "shown_point t k p" using i(4) that by (simp add: points_inv_def list_all_iff)
    then show ?thesis by (auto simp: shown_point_def INITIAL_INVESTMENT_def split: number.splits)
  qed
  show ?thesis using i(2-4) trades points by (simp add: trades_inv_def points_inv_def)
qed

lemma mount_fields:
  "lastTick (auto_start now s) = now" "comparisonData (auto_start now s) = comparisonData s"
  "comparisonData (generate_initial now s) = comparisonData s" "comparisonData (initial_sim now) = []"
  "comparisonData (commit_book s) = comparisonData s" "lastTick (commit_book s) = lastTick s"
  by (simp_all add: auto_start_def generate_initial_def initial_sim_def commit_book_def Let_def)

definition demo_draws :: tick_draws where
  "demo_draws = \<lparr>d_side = Fin (3 / 4), d_noise = Fin (1 / 4), d_ph = Fin (1 / 2), d_drift = Fin (1 / 8), d_btc = Fin (7 / 8)\<rparr>"

definition demo_sim :: sim where
  "demo_sim = tick (Fin 9000) demo_draws (commit_book (auto_start (Fin 6000) (generate_initial (Fin 5500) (commit_book (initial_sim (Fin 5000))))))"

theorem simulator_invariant_witness:
  "length (comparisonData demo_sim) = 1 \<and> ordered_book (sim_book demo_sim) \<and> length (sim_trades demo_sim) \<le> 100"
proof -
  have "reachable demo_sim"
    unfolding demo_sim_def by (intro ticked committed mounted) (simp_all add: draws_ok_def demo_draws_def)
  moreover have "length (comparisonData demo_sim) = 1"
    by (simp add: demo_sim_def tick_def interval_ms_value mount_fields Let_def)
  ultimately show ?thesis using simulator_invariant [of demo_sim] by simp
qed

end
