(* ===== verification/Calculators.thy ===== *)
theory Calculators
  imports Hashprice
begin

text \<open>
  Model of the two calculators of the tools page: \<open>components/MiningRevenueCalculator.tsx\<close> (value,
  discount, profit and advice for one share) and \<open>components/DifficultyImpactSimulator.tsx\<close> (the value
  of a share under other difficulties and prices). The sliders are arguments; the markup is not
  modelled.
\<close>

section \<open>Revenue calculator\<close>

record calculator_input =
  ci_difficulty :: number
  ci_purchasePrice :: number
  holdingBlocks :: number
  ci_costOfCapitalApr :: number

definition initial_input :: calculator_input where
  "initial_input = \<lparr>ci_difficulty = 100000, ci_purchasePrice = Fin (3 / 10000), holdingBlocks = 50, ci_costOfCapitalApr = 15\<rparr>"

record calculator_results =
  cr_theoreticalValue :: number
  cr_discountPct :: number
  expectedValueAtMaturation :: number
  profitLoss :: number
  profitLossPct :: number
  breakEvenDifficulty :: number
  annualizedROI :: number
  cr_impliedWaitingCost :: number
  breakEvenDiscount :: number
  isRationalToSell :: bool
  buyerAnnualizedYield :: number
  m1n3PayoutMinutes :: number
  traditionalPayoutHours :: number

definition revenue_results :: "number \<Rightarrow> number \<Rightarrow> calculator_input \<Rightarrow> calculator_results" where
  "revenue_results networkDiff btc inp =
     (let blockRewardUsd = BTC_BLOCK_SUBSIDY * btc;
          diff = ci_difficulty inp;
          purchasePrice = ci_purchasePrice inp;
          theoreticalValue = computeTheoreticalValue diff networkDiff blockRewardUsd;
          discountPct = computeDiscount purchasePrice theoreticalValue;
          blocksRemaining = Math_max 0 (100 - holdingBlocks inp);
          expectedDiscount = discountAtBlock blocksRemaining 15 (Fin (7 / 10));
          expectedValue = theoreticalValue * (1 - expectedDiscount / 100);
          pl = expectedValue - purchasePrice;
          plPct = (if 0 < purchasePrice then (pl / purchasePrice) * 100 else 0);
          holdingTimeHours = (holdingBlocks inp * 10) / 60;
          waiting = computeImpliedWaitingCost (ci_costOfCapitalApr inp)
      in \<lparr>cr_theoreticalValue = theoreticalValue, cr_discountPct = discountPct,
          expectedValueAtMaturation = expectedValue, profitLoss = pl, profitLossPct = plPct,
          breakEvenDifficulty = (if 0 < diff \<and> 0 < purchasePrice then (blockRewardUsd / purchasePrice) * diff else 0),
          annualizedROI = (if 0 < holdingTimeHours then plPct * (8760 / holdingTimeHours) else 0),
          cr_impliedWaitingCost = waiting, breakEvenDiscount = waiting, isRationalToSell = (discountPct < waiting),
          buyerAnnualizedYield = computeAnnualizedBuyerYield discountPct blocksRemaining,
          m1n3PayoutMinutes = 5, traditionalPayoutHours = 24\<rparr>)"

text \<open>The line \<open>Rational to sell at current discount?\<close> of the page.\<close>

definition sell_answer :: "calculator_results \<Rightarrow> string" where
  "sell_answer r = (if isRationalToSell r then ''No (below breakeven)'' else ''Yes'')"

definition fmtUsd :: "(number \<Rightarrow> string) \<Rightarrow> number \<Rightarrow> string" where
  "fmtUsd numStr v =
     (if Math_abs v < Fin (1 / 100) then ''$'' @ toFixed numStr 6 v
      else if Math_abs v < 1 then ''$'' @ toFixed numStr 4 v
      else ''$'' @ toFixed numStr 2 v)"

section \<open>Difficulty simulator\<close>

definition SCENARIO_ROWS :: "number list" where
  "SCENARIO_ROWS = [Fin (- 10), Fin (- 5), 0, 5, 10, 20]"

definition projected_value :: "number \<Rightarrow> number \<Rightarrow> number \<Rightarrow> number \<Rightarrow> number \<Rightarrow> number" where
  "projected_value networkDiff btc refDifficulty diffChange btcChange =
     (let newDiff = networkDiff * (1 + diffChange / 100);
          newBtcPrice = btc * (1 + btcChange / 100);
          newBlockReward = BTC_BLOCK_SUBSIDY * newBtcPrice
      in computeTheoreticalValue refDifficulty newDiff newBlockReward)"

definition current_pps :: "number \<Rightarrow> number \<Rightarrow> number \<Rightarrow> number" where
  "current_pps networkDiff btc refDifficulty = computeTheoreticalValue refDifficulty networkDiff (BTC_BLOCK_SUBSIDY * btc)"

definition change_pct :: "number \<Rightarrow> number \<Rightarrow> number" where
  "change_pct current new = (if 0 < current then ((new - current) / current) * 100 else 0)"

record scenario_row =
  diffPct :: number
  newValue :: number
  changePct :: number

definition scenarioData :: "number \<Rightarrow> number \<Rightarrow> number \<Rightarrow> scenario_row list" where
  "scenarioData networkDiff btc refDifficulty =
     map (\<lambda>d. let newDiff = networkDiff * (1 + d / 100);
                  v = computeTheoreticalValue refDifficulty newDiff (BTC_BLOCK_SUBSIDY * btc)
              in \<lparr>diffPct = d, newValue = v, changePct = change_pct (current_pps networkDiff btc refDifficulty) v\<rparr>)
       SCENARIO_ROWS"

definition highlighted :: "number \<Rightarrow> scenario_row \<Rightarrow> bool" where
  "highlighted estimatedChange row = (Math_abs (diffPct row - estimatedChange) < 1)"

section \<open>Properties\<close>

lemma theoretical_Fin: "0 < n \<Longrightarrow> computeTheoreticalValue (Fin d) (Fin n) (Fin r) = Fin (r / n * d)"
  by (simp add: computeTheoreticalValue_def)

lemma reward_Fin: "BTC_BLOCK_SUBSIDY * Fin b = Fin (25 / 8 * b)"
  by (simp add: BTC_BLOCK_SUBSIDY_def)

text \<open>
  the break-even difficulty breaks even. For a share and a purchase price above zero it is the
  network difficulty at which the pay-per-share value is exactly the purchase price: below it the
  share is worth more, above it less.
\<close>

theorem break_even_exact:
  assumes "0 < d" "0 < p" "0 < b" "0 < n'"
    and "r = revenue_results nd (Fin b) \<lparr>ci_difficulty = Fin d, ci_purchasePrice = Fin p, holdingBlocks = h, ci_costOfCapitalApr = c\<rparr>"
  shows "\<exists>e. breakEvenDifficulty r = Fin e \<and> 0 < e
    \<and> computeTheoreticalValue (Fin d) (Fin e) (BTC_BLOCK_SUBSIDY * Fin b) = Fin p
    \<and> (Fin p < computeTheoreticalValue (Fin d) (Fin n') (BTC_BLOCK_SUBSIDY * Fin b) \<longleftrightarrow> n' < e)"
proof -
  let ?e = "25 / 8 * b / p * d"
  have e: "breakEvenDifficulty r = Fin ?e" unfolding assms(5) revenue_results_def Let_def reward_Fin using assms(1,2) by simp
  have pos: "0 < ?e" using assms by simp
  have "computeTheoreticalValue (Fin d) (Fin ?e) (Fin (25 / 8 * b)) = Fin p"
    unfolding theoretical_Fin [OF pos] using assms by simp
  moreover have "p < 25 / 8 * b / n' * d \<longleftrightarrow> n' < ?e" using assms by (simp add: field_simps)
  ultimately show ?thesis unfolding reward_Fin using e pos theoretical_Fin [OF assms(4)] by (intro exI [of _ ?e]) simp
qed

theorem break_even_exact_witness:
  "\<exists>e. breakEvenDifficulty (revenue_results (Fin (10 ^ 14)) (Fin 90000) initial_input) = Fin e
     \<and> computeTheoreticalValue (Fin 100000) (Fin e) (BTC_BLOCK_SUBSIDY * Fin 90000) = Fin (3 / 10000)"
  using break_even_exact [of 100000 "3 / 10000" 90000 1 _ "Fin (10 ^ 14)" 50 15, OF _ _ _ _ refl]
  by (auto simp: initial_input_def)

text \<open>
  the advice of the page is the opposite of its own figures. Selling at a discount keeps the share
  of the value that the discount leaves, waiting keeps what the cost of capital leaves; the page
  answers Yes to selling exactly when selling brings no more than waiting.
\<close>

theorem sell_answer_inverted:
  assumes "0 < n" "0 < v" "v = 25 / 8 * b / n * d" "p \<le> v"
    and "r = revenue_results (Fin n) (Fin b) \<lparr>ci_difficulty = Fin d, ci_purchasePrice = Fin p, holdingBlocks = h, ci_costOfCapitalApr = Fin c\<rparr>"
  shows "\<exists>k w. cr_discountPct r = Fin k \<and> cr_impliedWaitingCost r = Fin w \<and> cr_theoreticalValue r = Fin v \<and> v * (1 - k / 100) = p
    \<and> (sell_answer r = ''Yes'' \<longleftrightarrow> p \<le> v * (1 - w / 100))"
proof -
  let ?k = "(1 - p / v) * 100" and ?w = "c * (50 / 3 / 8760)"
  have t: "computeTheoreticalValue (Fin d) (Fin n) (Fin (25 / 8 * b)) = Fin v" unfolding theoretical_Fin [OF assms(1)] assms(3) ..
  have k: "computeDiscount (Fin p) (Fin v) = Fin ?k" by (rule computeDiscount_below [OF assms(2,4)])
  have w: "computeImpliedWaitingCost (Fin c) = Fin ?w" by (simp add: computeImpliedWaitingCost_def Let_def)
  have r: "cr_discountPct r = Fin ?k" "cr_impliedWaitingCost r = Fin ?w" "cr_theoreticalValue r = Fin v" "isRationalToSell r \<longleftrightarrow> ?k < ?w"
    unfolding assms(5) revenue_results_def Let_def calculator_input.simps reward_Fin t k w by simp_all
  have p: "v * (1 - ?k / 100) = p" using assms(2) by (simp add: field_simps)
  moreover have "p \<le> v * (1 - ?w / 100) \<longleftrightarrow> \<not> ?k < ?w"
  proof -
    have "1 - x / 100 \<le> 1 - y / 100 \<longleftrightarrow> \<not> x < y" for x y :: real by auto
    with mult_le_cancel_left_pos [OF assms(2), of "1 - ?k / 100" "1 - ?w / 100"] show ?thesis unfolding p by (simp only:)
  qed
  ultimately show ?thesis using r by (intro exI [of _ ?k] exI [of _ ?w]) (simp add: sell_answer_def)
qed

theorem sell_answer_inverted_witness:
  "sell_answer (revenue_results (Fin 100) (Fin 32) \<lparr>ci_difficulty = 1, ci_purchasePrice = Fin (1 / 2), holdingBlocks = 50, ci_costOfCapitalApr = 15\<rparr>) = ''Yes''"
  using sell_answer_inverted [of 100 1 32 1 "1 / 2" _ 50 15, OF _ _ _ _ refl]
  by (auto simp: revenue_results_def Let_def computeImpliedWaitingCost_def)

text \<open>
  the projection does not depend on the share it is shown for. With positive difficulties and price
  and a difficulty change above minus 100 percent, the relative change of the value is the same for
  every reference share: the factor of the price divided by the factor of the difficulty. With
  both sliders at zero the projection is the current value.
\<close>

theorem projection_change:
  assumes "0 < n" "0 < b" "0 < d" "- 100 < x"
  shows "\<exists>cur new. current_pps (Fin n) (Fin b) (Fin d) = Fin cur \<and> projected_value (Fin n) (Fin b) (Fin d) (Fin x) (Fin y) = Fin new
    \<and> 0 < cur \<and> new = cur * ((1 + y / 100) / (1 + x / 100))
    \<and> change_pct (Fin cur) (Fin new) = Fin (((1 + y / 100) / (1 + x / 100) - 1) * 100)"
proof -
  let ?cur = "25 / 8 * b / n * d" and ?f = "1 + x / 100"
  have f: "0 < ?f" "0 < n * ?f" using assms by simp_all
  have cur: "current_pps (Fin n) (Fin b) (Fin d) = Fin ?cur"
    unfolding current_pps_def reward_Fin by (rule theoretical_Fin [OF assms(1)])
  have "projected_value (Fin n) (Fin b) (Fin d) (Fin x) (Fin y) = computeTheoreticalValue (Fin d) (Fin (n * ?f)) (Fin (25 / 8 * (b * (1 + y / 100))))"
    unfolding projected_value_def Let_def by (simp add: reward_Fin)
  also have "\<dots> = Fin (?cur * ((1 + y / 100) / ?f))"
    unfolding theoretical_Fin [OF f(2)] using f(1) assms(1) by (simp add: field_simps)
  finally have new: "projected_value (Fin n) (Fin b) (Fin d) (Fin x) (Fin y) = Fin (?cur * ((1 + y / 100) / ?f))" .
  have pos: "0 < ?cur" using assms by simp
  have "change_pct (Fin c) (Fin (c * q)) = Fin ((q - 1) * 100)" if "0 < c" for c q :: real
    using that by (simp add: change_pct_def field_simps)
  from this [OF pos] cur new pos show ?thesis by (intro exI conjI) (assumption | rule refl | simp)+
qed

theorem projection_change_witness:
  "change_pct (current_pps 100 32 1) (projected_value 100 32 1 25 0) = Fin (- 20)"
  using projection_change [of 100 32 1 25 0] by auto

lemma scenario_rows:
  assumes "0 < n"
  shows "map newValue (scenarioData (Fin n) (Fin b) (Fin d)) = map (\<lambda>x. projected_value (Fin n) (Fin b) (Fin d) x 0) SCENARIO_ROWS"
  using assms by (simp add: scenarioData_def SCENARIO_ROWS_def projected_value_def Let_def)

end
