(* ===== verification/Block_View.thy ===== *)
theory Block_View
  imports Sui_Queries
begin

text \<open>
  What the block and template pages compute for display: the fragment layouts and submitter
  colours of \<open>hooks/useBlockShares.ts\<close>, the cells of \<open>components/BlockByteMap.tsx\<close>, the comparison of
  merkle branches in \<open>components/TemplateCompare.tsx\<close> and the countdown of \<open>hooks/useCountdown.ts\<close>.
  Drawing and layout are not modelled. Block heights, indices and bit offsets are integers.
\<close>

section \<open>Fragments\<close>

record FragmentSubmission =
  fs_blockHeight :: int
  fragmentIndex :: int
  submitter :: string
  bitOffset :: int
  bitCount :: int
  fs_timestampMs :: number

record FragmentLayout =
  fl_index :: int
  fl_offset :: int
  fl_size :: int

record SubmitterColorAssignment =
  sc_address :: string
  sc_color :: string
  fragmentIndices :: "int list"

definition see_fragment :: "(int \<times> FragmentSubmission) list \<Rightarrow> FragmentSubmission \<Rightarrow> (int \<times> FragmentSubmission) list" where
  "see_fragment seen f = (if map_of seen (fragmentIndex f) = None then js_map_set seen (fragmentIndex f) f else seen)"

definition layout_of :: "int \<times> FragmentSubmission \<Rightarrow> FragmentLayout" where
  "layout_of = (\<lambda>(idx, f).
     \<lparr>fl_index = idx, fl_offset = bitOffset f div 8,
      fl_size = - ((- (bitOffset f + bitCount f)) div 8) - bitOffset f div 8\<rparr>)"

definition fragmentLayouts :: "FragmentSubmission list option \<Rightarrow> FragmentLayout list" where
  "fragmentLayouts fragments =
     (case fragments of
        None \<Rightarrow> []
      | Some fs \<Rightarrow>
          if fs = [] then []
          else map layout_of (js_sort (\<lambda>a b. Fin (of_int (fst a - fst b))) (foldl see_fragment [] fs)))"

definition submitter_step :: "(string \<times> int list) list \<Rightarrow> FragmentSubmission \<Rightarrow> (string \<times> int list) list" where
  "submitter_step m f =
     js_map_set m (submitter f)
       (js_set_add (case map_of m (submitter f) of Some s \<Rightarrow> s | None \<Rightarrow> []) (fragmentIndex f))"

definition submitterColors :: "FragmentSubmission list option \<Rightarrow> SubmitterColorAssignment list" where
  "submitterColors fragments =
     (case fragments of
        None \<Rightarrow> []
      | Some fs \<Rightarrow>
          if fs = [] then []
          else let submitters = foldl submitter_step [] fs;
                   colors = generateMinerColors (length submitters)
               in map (\<lambda>((address, indices), c).
                    \<lparr>sc_address = address, sc_color = c,
                     fragmentIndices = js_sort (\<lambda>a b. Fin (of_int (a - b))) indices\<rparr>)
                    (zip submitters colors))"

definition detail_segments :: "string option \<Rightarrow> HeaderSegment list" where
  "detail_segments headerHex =
     (case headerHex of
        None \<Rightarrow> []
      | Some h \<Rightarrow> if length h \<noteq> 160 then [] else decomposeBlockHeader h)"

section \<open>The byte map\<close>

definition COLS :: nat where "COLS = 16"
definition ROWS :: nat where "ROWS = 5"

definition fieldLabel :: "nat \<Rightarrow> string" where
  "fieldLabel byteOffset =
     (if byteOffset < 4 then ''Version''
      else if byteOffset < 36 then ''PrevHash''
      else if byteOffset < 68 then ''MerkleRoot''
      else if byteOffset < 72 then ''nTime''
      else if byteOffset < 76 then ''nBits''
      else ''Nonce'')"

definition getFragmentForByte :: "int \<Rightarrow> FragmentLayout list \<Rightarrow> FragmentLayout option" where
  "getFragmentForByte byteOffset layouts = find (\<lambda>l. fl_offset l \<le> byteOffset \<and> byteOffset < fl_offset l + fl_size l) layouts"

definition getSubmitterForFragment :: "int \<Rightarrow> SubmitterColorAssignment list \<Rightarrow> SubmitterColorAssignment option" where
  "getSubmitterForFragment i colors = find (\<lambda>sc. i \<in> set (fragmentIndices sc)) colors"

definition byte_cells :: "nat list" where
  "byte_cells = filter (\<lambda>b. b < 80) (concat (map (\<lambda>row. map (\<lambda>col. row * COLS + col) [0..<COLS]) [0..<ROWS]))"

definition cell_hex :: "string option \<Rightarrow> nat \<Rightarrow> string" where
  "cell_hex headerHex b =
     (case headerHex of
        Some h \<Rightarrow> if length h = 160 then slice (int (b * 2)) (int (b * 2 + 2)) h else ''??''
      | None \<Rightarrow> ''??'')"

text \<open>The colour of a cell: the field's, or the selected submitter's on its own bytes (dimmed elsewhere).\<close>

datatype cell_fill = FieldColor string bool | SubmitterFill string

definition cell_fill_of ::
  "string option \<Rightarrow> FragmentLayout list \<Rightarrow> SubmitterColorAssignment list \<Rightarrow> nat \<Rightarrow> cell_fill"
where
  "cell_fill_of selected layouts colors b =
     (case selected of
        None \<Rightarrow> FieldColor (fieldLabel b) False
      | Some a \<Rightarrow>
          if a = [] \<or> layouts = [] then FieldColor (fieldLabel b) False
          else (case (getFragmentForByte (int b) layouts, find (\<lambda>s. sc_address s = a) colors) of
                  (Some frag, Some sc) \<Rightarrow>
                    if fl_index frag \<in> set (fragmentIndices sc) then SubmitterFill (sc_color sc)
                    else FieldColor (fieldLabel b) True
                | _ \<Rightarrow> FieldColor (fieldLabel b) True))"

section \<open>Comparison of templates\<close>

record merkle_analysis =
  ma_shared :: "string list"
  ma_partial :: "string list"
  ma_unique :: "(string \<times> string list) list"

definition branch_count :: "TemplateData list \<Rightarrow> string \<Rightarrow> nat" where
  "branch_count ts b = length (filter (\<lambda>t. b \<in> set (merkleBranches t)) ts)"

definition push_unique :: "string \<Rightarrow> (string \<times> string list) list \<Rightarrow> TemplateData \<Rightarrow> (string \<times> string list) list" where
  "push_unique b u t =
     (if b \<in> set (merkleBranches t)
      then js_map_set u (td_id t) ((case map_of u (td_id t) of Some l \<Rightarrow> l | None \<Rightarrow> []) @ [b])
      else u)"

definition classify_branch :: "TemplateData list \<Rightarrow> merkle_analysis \<Rightarrow> string \<Rightarrow> merkle_analysis" where
  "classify_branch ts a b =
     (let c = branch_count ts b in
      if c = length ts then a\<lparr>ma_shared := ma_shared a @ [b]\<rparr>
      else if c > 1 then a\<lparr>ma_partial := ma_partial a @ [b]\<rparr>
      else a\<lparr>ma_unique := foldl (push_unique b) (ma_unique a) ts\<rparr>)"

definition merkleAnalysis :: "TemplateData list \<Rightarrow> merkle_analysis" where
  "merkleAnalysis ts =
     (if length ts < 2 then \<lparr>ma_shared = [], ma_partial = [], ma_unique = []\<rparr>
      else foldl (classify_branch ts)
             \<lparr>ma_shared = [], ma_partial = [], ma_unique = foldl (\<lambda>u t. js_map_set u (td_id t) []) [] ts\<rparr>
             (foldl js_set_add [] (concat (map merkleBranches ts))))"

section \<open>Countdown\<close>

record UseCountdownReturn =
  remainingMs :: number
  formatted :: string
  isExpired :: bool
  progress :: number

definition formatMs :: "real \<Rightarrow> string" where
  "formatMs ms =
     (if ms \<le> 0 then ''0:00''
      else let totalSec = nat \<lceil>ms / 1000\<rceil>;
               mins = totalSec div 60;
               secs = totalSec mod 60;
               two = (\<lambda>n. padStart 2 CHR ''0'' (to_radix 10 n))
           in if 60 \<le> mins
              then to_radix 10 (mins div 60) @ '':'' @ two (mins mod 60) @ '':'' @ two secs
              else to_radix 10 mins @ '':'' @ two secs)"

definition countdown :: "real \<Rightarrow> real \<Rightarrow> real \<Rightarrow> UseCountdownReturn" where
  "countdown deadlineMs totalDurationMs now =
     (if deadlineMs = 0 \<or> totalDurationMs = 0
      then \<lparr>remainingMs = 0, formatted = ''--:--'', isExpired = True, progress = 1\<rparr>
      else let remaining = max 0 (deadlineMs - now);
               elapsed = totalDurationMs - remaining
           in \<lparr>remainingMs = Fin remaining, formatted = formatMs remaining, isExpired = (remaining \<le> 0),
               progress = Math_min 1 (Math_max 0 (Fin elapsed / Fin totalDurationMs))\<rparr>)"

section \<open>The byte map shows the header\<close>

lemma byte_cells_all: "byte_cells = [0..<80]"
  by (simp add: byte_cells_def COLS_def ROWS_def upt_rec)

lemma concat_pairs: "length h = 2 * n \<Longrightarrow> concat (map (\<lambda>b. take 2 (drop (b * 2) h)) [0..<n]) = h"
proof (induction n arbitrary: h)
  case (Suc n)
  have "concat (map (\<lambda>b. take 2 (drop (b * 2) h)) [0..<n]) = concat (map (\<lambda>b. take 2 (drop (b * 2) (take (2 * n) h))) [0..<n])"
    by (intro arg_cong [of _ _ concat] map_cong refl) (auto simp: drop_take)
  also have "\<dots> = take (2 * n) h" by (rule Suc.IH) (use Suc.prems in simp)
  finally show ?case using Suc.prems append_take_drop_id [of "2 * n" h] by (simp add: mult.commute)
qed simp

lemma cell_hex_take: "length h = 160 \<Longrightarrow> cell_hex (Some h) b = take 2 (drop (b * 2) h)"
  using slice_nat [of "b * 2" "b * 2 + 2" h] by (simp add: cell_hex_def)

text \<open>
  the byte map shows the header. For a header of 80 bytes the cells, row by row, spell it out, and
  the field by which a cell is coloured is the segment of the header that its byte belongs to,
  with the cell's digits at the byte's place in the segment.
\<close>

theorem byte_map_shows_header:
  assumes "length h = 160"
  shows "concat (map (cell_hex (Some h)) byte_cells) = h
    \<and> (\<forall>b \<in> set byte_cells. \<exists>seg \<in> set (detail_segments (Some h)).
         startByte seg \<le> b \<and> b < startByte seg + seg_length seg \<and> label seg = fieldLabel b
         \<and> cell_hex (Some h) b = take 2 (drop (2 * (b - startByte seg)) (hex seg)))"
proof -
  have seg: "take 2 (drop (b * 2) h) = take 2 (drop (2 * (b - s)) (take (2 * n) (drop (2 * s) h)))"
    if "s \<le> b" "b < s + n" for b s n
  proof -
    have "2 * n - 2 * (b - s) \<ge> 2" "2 * (b - s) + 2 * s = b * 2" using that by auto
    then show ?thesis by (simp add: drop_take min_absorb1)
  qed
  have fields: "\<exists>seg \<in> set (decomposeBlockHeader h). startByte seg \<le> b \<and> b < startByte seg + seg_length seg \<and> label seg = fieldLabel b
         \<and> take 2 (drop (b * 2) h) = take 2 (drop (2 * (b - startByte seg)) (hex seg))" if b: "b < 80" for b
  proof -
    consider "b < 4" | "4 \<le> b" "b < 36" | "36 \<le> b" "b < 68" | "68 \<le> b" "b < 72" | "72 \<le> b" "b < 76" | "76 \<le> b" "b < 80"
      using b by linarith
    then show ?thesis
      by cases (use seg [of 0 b 4] seg [of 4 b 32] seg [of 36 b 32] seg [of 68 b 4] seg [of 72 b 4] seg [of 76 b 4]
        in \<open>simp_all add: decomposeBlockHeader_def fieldLabel_def\<close>)
  qed
  have "concat (map (cell_hex (Some h)) byte_cells) = h"
    using concat_pairs [of h 80] assms by (simp add: byte_cells_all cell_hex_take cong: map_cong)
  then show ?thesis using fields assms by (simp add: byte_cells_all cell_hex_take detail_segments_def)
qed

theorem byte_map_shows_header_witness:
  "concat (map (cell_hex (Some (replicate 160 CHR ''a''))) byte_cells) = replicate 160 CHR ''a''"
  using byte_map_shows_header [of "replicate 160 CHR ''a''"] by simp

section \<open>Fragments cover their bits\<close>

lemma see_fold:
  "map_of (foldl see_fragment m fs) i =
     (case map_of m i of Some f \<Rightarrow> Some f | None \<Rightarrow> find (\<lambda>f. fragmentIndex f = i) fs)"
  by (induction fs arbitrary: m) (auto simp: see_fragment_def split: option.splits)

lemma see_distinct: "distinct (map fst (foldl see_fragment m fs)) = distinct (map fst m)"
  by (induction fs arbitrary: m) (simp_all add: see_fragment_def)

lemma layout_covers:
  assumes "0 < bitCount f"
  shows "fl_offset (layout_of (i, f)) \<le> b \<and> b < fl_offset (layout_of (i, f)) + fl_size (layout_of (i, f))
    \<longleftrightarrow> (\<exists>k. bitOffset f \<le> k \<and> k < bitOffset f + bitCount f \<and> k div 8 = b)"
proof -
  let ?o = "bitOffset f" and ?e = "bitOffset f + bitCount f"
  have r: "fl_offset (layout_of (i, f)) \<le> b \<and> b < fl_offset (layout_of (i, f)) + fl_size (layout_of (i, f)) \<longleftrightarrow> ?o div 8 \<le> b \<and> 8 * b < ?e"
  proof -
    have "b < - ((- ?e) div 8) \<longleftrightarrow> 8 * b < ?e" by linarith
    then show ?thesis by (simp add: layout_of_def)
  qed
  show ?thesis
  proof
    assume "fl_offset (layout_of (i, f)) \<le> b \<and> b < fl_offset (layout_of (i, f)) + fl_size (layout_of (i, f))"
    then have b: "?o div 8 \<le> b" "8 * b < ?e" using r by simp_all
    show "\<exists>k. ?o \<le> k \<and> k < ?e \<and> k div 8 = b"
      by (rule exI [of _ "max ?o (8 * b)"]) (use b assms in \<open>auto simp: max_def\<close>)
  next
    assume "\<exists>k. ?o \<le> k \<and> k < ?e \<and> k div 8 = b"
    then obtain k where k: "?o \<le> k" "k < ?e" "k div 8 = b" by blast
    have "?o div 8 \<le> k div 8" by (rule zdiv_mono1) (use k in simp_all)
    then show "fl_offset (layout_of (i, f)) \<le> b \<and> b < fl_offset (layout_of (i, f)) + fl_size (layout_of (i, f))"
      unfolding r using k by linarith
  qed
qed

lemma fragmentLayouts_set:
  "set (fragmentLayouts (Some fs)) = {layout_of (i, f) | i f. find (\<lambda>f. fragmentIndex f = i) fs = Some f}"
proof (cases "fs = []")
  case False
  let ?m = "foldl see_fragment [] fs"
  have "distinct (map fst ?m)" by (simp add: see_distinct)
  then have "set ?m = {(i, f). map_of ?m i = Some f}" by (auto intro: map_of_SomeD)
  then show ?thesis using False by (auto simp: fragmentLayouts_def see_fold)
qed (simp add: fragmentLayouts_def)

text \<open>
  the fragment layouts mark exactly the bytes that hold a bit of a fragment. For submissions of at
  least one bit, the layouts are in order of their indices, without repetition; a layout covers a
  byte exactly when the first submission of its index has a bit there, and the byte map finds a
  fragment for a byte exactly when some first submission has a bit in it.
\<close>

theorem fragment_layouts_cover:
  assumes "list_all (\<lambda>f. 0 < bitCount f) fs"
  shows "sorted_wrt (\<lambda>x y. fl_index x < fl_index y) (fragmentLayouts (Some fs))
    \<and> (\<forall>l \<in> set (fragmentLayouts (Some fs)). \<exists>f. find (\<lambda>f. fragmentIndex f = fl_index l) fs = Some f
         \<and> (\<forall>b. fl_offset l \<le> b \<and> b < fl_offset l + fl_size l \<longleftrightarrow> (\<exists>k. bitOffset f \<le> k \<and> k < bitOffset f + bitCount f \<and> k div 8 = b)))
    \<and> (\<forall>b. getFragmentForByte b (fragmentLayouts (Some fs)) \<noteq> None \<longleftrightarrow>
         (\<exists>i f k. find (\<lambda>f. fragmentIndex f = i) fs = Some f \<and> bitOffset f \<le> k \<and> k < bitOffset f + bitCount f \<and> k div 8 = b))"
proof -
  let ?ls = "fragmentLayouts (Some fs)"
  have cnt: "0 < bitCount f" if "find (\<lambda>f. fragmentIndex f = i) fs = Some f" for i f
    using that assms by (auto simp: find_Some_iff list_all_iff)
  have idx: "fl_index (layout_of p) = fst p" for p by (cases p) (simp add: layout_of_def)
  have one: "\<exists>f. find (\<lambda>f. fragmentIndex f = fl_index l) fs = Some f
         \<and> (\<forall>b. fl_offset l \<le> b \<and> b < fl_offset l + fl_size l \<longleftrightarrow> (\<exists>k. bitOffset f \<le> k \<and> k < bitOffset f + bitCount f \<and> k div 8 = b))"
    if "l \<in> set ?ls" for l
    using that cnt layout_covers by (auto simp: fragmentLayouts_set idx)
  have "sorted_wrt (\<lambda>x y. fl_index x < fl_index y) ?ls"
  proof (cases "fs = []")
    case False
    let ?s = "js_sort (\<lambda>a b. Fin (of_int (fst a - fst b))) (foldl see_fragment [] fs)"
    have le: "sorted (map fst ?s)" using js_sort_int_asc [of fst "foldl see_fragment [] fs"] by (simp add: sorted_map)
    have "distinct (map fst (foldl see_fragment [] fs))" by (simp add: see_distinct)
    then have "distinct (map fst ?s)" by simp
    with le have "sorted_wrt (<) (map fst ?s)" by (simp add: strict_sorted_iff)
    then show ?thesis using False by (simp add: fragmentLayouts_def sorted_wrt_map idx)
  qed (simp add: fragmentLayouts_def)
  moreover have "getFragmentForByte b ?ls \<noteq> None \<longleftrightarrow>
         (\<exists>i f k. find (\<lambda>f. fragmentIndex f = i) fs = Some f \<and> bitOffset f \<le> k \<and> k < bitOffset f + bitCount f \<and> k div 8 = b)" for b
  proof -
    have "getFragmentForByte b ?ls \<noteq> None \<longleftrightarrow> (\<exists>l \<in> set ?ls. fl_offset l \<le> b \<and> b < fl_offset l + fl_size l)"
      by (auto simp: getFragmentForByte_def find_None_iff)
    also have "\<dots> \<longleftrightarrow> (\<exists>i f. find (\<lambda>f. fragmentIndex f = i) fs = Some f \<and> (\<exists>k. bitOffset f \<le> k \<and> k < bitOffset f + bitCount f \<and> k div 8 = b))"
      unfolding fragmentLayouts_set using layout_covers cnt by blast
    finally show ?thesis by blast
  qed
  ultimately show ?thesis using one by blast
qed

theorem fragment_layouts_cover_witness:
  "getFragmentForByte 1 (fragmentLayouts (Some [\<lparr>fs_blockHeight = 1, fragmentIndex = 0, submitter = ''0xa'', bitOffset = 4, bitCount = 8, fs_timestampMs = 0\<rparr>])) \<noteq> None"
proof -
  let ?fs = "[\<lparr>fs_blockHeight = 1, fragmentIndex = 0, submitter = ''0xa'', bitOffset = 4, bitCount = 8, fs_timestampMs = 0\<rparr>]"
  have "\<exists>i f k. find (\<lambda>f. fragmentIndex f = i) ?fs = Some f \<and> bitOffset f \<le> k \<and> k < bitOffset f + bitCount f \<and> k div 8 = 1"
    by (rule exI [of _ 0], rule exI [of _ "hd ?fs"], rule exI [of _ 8]) simp
  then show ?thesis using fragment_layouts_cover [of ?fs] by simp
qed

section \<open>Comparison of templates\<close>

lemma push_unique_fold:
  assumes "distinct (map td_id ts)"
  shows "map_of (foldl (push_unique b) u ts) i =
    (if \<exists>t \<in> set ts. td_id t = i \<and> b \<in> set (merkleBranches t)
     then Some ((case map_of u i of Some l \<Rightarrow> l | None \<Rightarrow> []) @ [b]) else map_of u i)"
  using assms
proof (induction ts arbitrary: u)
  case (Cons t ts)
  then have IH: "map_of (foldl (push_unique b) u ts) i =
    (if \<exists>t \<in> set ts. td_id t = i \<and> b \<in> set (merkleBranches t)
     then Some ((case map_of u i of Some l \<Rightarrow> l | None \<Rightarrow> []) @ [b]) else map_of u i)" for u by simp
  show ?case
  proof (cases "td_id t = i \<and> b \<in> set (merkleBranches t)")
    case True
    have "td_id t \<notin> td_id ` set ts" using Cons.prems by simp
    then have "\<not> (\<exists>t' \<in> set ts. td_id t' = i \<and> b \<in> set (merkleBranches t'))" using True by (metis imageI)
    moreover have "push_unique b u t = js_map_set u i ((case map_of u i of Some l \<Rightarrow> l | None \<Rightarrow> []) @ [b])"
      using True by (auto simp: push_unique_def)
    ultimately show ?thesis using True IH by simp
  next
    case False
    then have "map_of (push_unique b u t) i = map_of u i" by (auto simp: push_unique_def)
    then show ?thesis using False IH by auto
  qed
qed simp

text \<open>The lists after the branches \<open>bs\<close>, in the order of the branches.\<close>

lemma classify_fold:
  assumes "distinct (map td_id ts)" "\<forall>t \<in> set ts. map_of (ma_unique a) (td_id t) \<noteq> None"
  shows "ma_shared (foldl (classify_branch ts) a bs) = ma_shared a @ filter (\<lambda>b. branch_count ts b = length ts) bs
    \<and> ma_partial (foldl (classify_branch ts) a bs) = ma_partial a @ filter (\<lambda>b. branch_count ts b \<noteq> length ts \<and> 1 < branch_count ts b) bs
    \<and> (\<forall>t \<in> set ts. map_of (ma_unique (foldl (classify_branch ts) a bs)) (td_id t) =
        Some (the (map_of (ma_unique a) (td_id t))
          @ filter (\<lambda>b. branch_count ts b \<noteq> length ts \<and> \<not> 1 < branch_count ts b \<and> b \<in> set (merkleBranches t)) bs))"
  using assms(2)
proof (induction bs arbitrary: a)
  case (Cons b bs)
  have same: "(\<exists>t' \<in> set ts. td_id t' = td_id t \<and> b \<in> set (merkleBranches t')) \<longleftrightarrow> b \<in> set (merkleBranches t)" if "t \<in> set ts" for t
    using that assms(1) by (metis distinct_map inj_onD)
  have kept: "map_of (ma_unique (classify_branch ts a b)) (td_id t) =
      Some (the (map_of (ma_unique a) (td_id t))
        @ (if branch_count ts b \<noteq> length ts \<and> \<not> 1 < branch_count ts b \<and> b \<in> set (merkleBranches t) then [b] else []))"
    if t: "t \<in> set ts" for t
  proof -
    obtain l where "map_of (ma_unique a) (td_id t) = Some l" using Cons.prems t by auto
    then show ?thesis using same [OF t] by (simp add: classify_branch_def Let_def push_unique_fold [OF assms(1)])
  qed
  have "\<forall>t \<in> set ts. map_of (ma_unique (classify_branch ts a b)) (td_id t) \<noteq> None" using kept by simp
  from Cons.IH [OF this] show ?case using kept by (simp add: classify_branch_def Let_def)
qed auto

lemma init_unique:
  "map_of (foldl (\<lambda>u t. js_map_set u (td_id t) []) u ts) i = (if i \<in> td_id ` set ts then Some [] else map_of u i)"
  by (induction ts arbitrary: u) auto

text \<open>
  the comparison classifies every merkle branch once. For two or more templates with different ids,
  the shared branches are those that every template has, the partial ones those that more than
  one but not every template has, and the unique ones of a template those that only it has; no
  list repeats a branch.
\<close>

theorem merkleAnalysis_classifies:
  assumes "distinct (map td_id ts)" "2 \<le> length ts"
  shows "set (ma_shared (merkleAnalysis ts)) = {b. \<forall>t \<in> set ts. b \<in> set (merkleBranches t)}
    \<and> set (ma_partial (merkleAnalysis ts)) = {b. (\<exists>t \<in> set ts. b \<notin> set (merkleBranches t))
         \<and> (\<exists>t \<in> set ts. \<exists>t' \<in> set ts. td_id t \<noteq> td_id t' \<and> b \<in> set (merkleBranches t) \<and> b \<in> set (merkleBranches t'))}
    \<and> (\<forall>t \<in> set ts. \<exists>l. map_of (ma_unique (merkleAnalysis ts)) (td_id t) = Some l \<and> distinct l
         \<and> set l = {b \<in> set (merkleBranches t). \<forall>t' \<in> set ts. td_id t' \<noteq> td_id t \<longrightarrow> b \<notin> set (merkleBranches t')})
    \<and> distinct (ma_shared (merkleAnalysis ts)) \<and> distinct (ma_partial (merkleAnalysis ts))"
proof -
  let ?bs = "foldl js_set_add [] (concat (map merkleBranches ts))"
  let ?c = "branch_count ts" and ?n = "length ts"
  have bs: "set ?bs = (\<Union>t \<in> set ts. set (merkleBranches t))" "distinct ?bs"
    using foldl_js_set_add [of "\<lambda>x. x" "[]" "concat (map merkleBranches ts)"] by simp_all
  have inj: "t = t'" if "t \<in> set ts" "t' \<in> set ts" "td_id t = td_id t'" for t t'
    using assms(1) that by (metis distinct_map inj_onD)
  have dts: "distinct ts" using assms(1) by (simp add: distinct_map)
  have ids: "distinct (filter (\<lambda>t. b \<in> set (merkleBranches t)) ts)" for b using dts by simp
  have all: "?c b = ?n \<longleftrightarrow> (\<forall>t \<in> set ts. b \<in> set (merkleBranches t))" for b
    unfolding branch_count_def by (metis filter_id_conv length_filter_less nat_neq_iff)
  have many: "1 < ?c b \<longleftrightarrow> (\<exists>t \<in> set ts. \<exists>t' \<in> set ts. td_id t \<noteq> td_id t' \<and> b \<in> set (merkleBranches t) \<and> b \<in> set (merkleBranches t'))" for b
  proof -
    have "?c b = card {t \<in> set ts. b \<in> set (merkleBranches t)}" unfolding branch_count_def using distinct_card [OF ids] by simp
    then have "1 < ?c b \<longleftrightarrow> (\<exists>t \<in> set ts. \<exists>t' \<in> set ts. t \<noteq> t' \<and> b \<in> set (merkleBranches t) \<and> b \<in> set (merkleBranches t'))"
      using card_le_Suc0_iff_eq [of "{t \<in> set ts. b \<in> set (merkleBranches t)}"] by (auto simp: not_le [symmetric] simp del: not_le)
    then show ?thesis using inj by metis
  qed
  let ?a = "\<lparr>ma_shared = [], ma_partial = [], ma_unique = foldl (\<lambda>u t. js_map_set u (td_id t) []) [] ts\<rparr>"
  have ma: "merkleAnalysis ts = foldl (classify_branch ts) ?a ?bs" using assms(2) by (simp add: merkleAnalysis_def)
  have start: "\<forall>t \<in> set ts. map_of (ma_unique ?a) (td_id t) = Some []" by (simp add: init_unique)
  have f: "ma_shared (merkleAnalysis ts) = filter (\<lambda>b. ?c b = ?n) ?bs"
    "ma_partial (merkleAnalysis ts) = filter (\<lambda>b. ?c b \<noteq> ?n \<and> 1 < ?c b) ?bs"
    "t \<in> set ts \<Longrightarrow> map_of (ma_unique (merkleAnalysis ts)) (td_id t) =
       Some (filter (\<lambda>b. ?c b \<noteq> ?n \<and> \<not> 1 < ?c b \<and> b \<in> set (merkleBranches t)) ?bs)" for t
    using classify_fold [OF assms(1), of ?a ?bs] start unfolding ma by auto
  have ne: "ts \<noteq> []" "\<exists>t' \<in> set ts. td_id t' \<noteq> td_id t" for t
  proof -
    show "ts \<noteq> []" using assms(2) by auto
    obtain x y zs where "ts = x # y # zs" using assms(2) by (cases ts rule: list.exhaust; cases "tl ts") auto
    then show "\<exists>t' \<in> set ts. td_id t' \<noteq> td_id t" using assms(1) by auto
  qed
  have uniq: "set (filter (\<lambda>b. ?c b \<noteq> ?n \<and> \<not> 1 < ?c b \<and> b \<in> set (merkleBranches t)) ?bs)
      = {b \<in> set (merkleBranches t). \<forall>t' \<in> set ts. td_id t' \<noteq> td_id t \<longrightarrow> b \<notin> set (merkleBranches t')}" if t: "t \<in> set ts" for t
  proof -
    have "(\<exists>t1 \<in> set ts. \<exists>t2 \<in> set ts. td_id t1 \<noteq> td_id t2 \<and> b \<in> set (merkleBranches t1) \<and> b \<in> set (merkleBranches t2))
        \<longleftrightarrow> (\<exists>t' \<in> set ts. td_id t' \<noteq> td_id t \<and> b \<in> set (merkleBranches t'))" if "b \<in> set (merkleBranches t)" for b
      using t that by metis
    then show ?thesis using ne(2) [of t] t unfolding set_filter bs(1) all many by auto
  qed
  obtain t0 where t0: "t0 \<in> set ts" using ne(1) by (cases ts) auto
  have "\<forall>t \<in> set ts. \<exists>l. map_of (ma_unique (merkleAnalysis ts)) (td_id t) = Some l \<and> distinct l
         \<and> set l = {b \<in> set (merkleBranches t). \<forall>t' \<in> set ts. td_id t' \<noteq> td_id t \<longrightarrow> b \<notin> set (merkleBranches t')}"
    using f(3) uniq bs(2) by (meson distinct_filter)
  moreover have "set (filter (\<lambda>b. ?c b = ?n) ?bs) = {b. \<forall>t \<in> set ts. b \<in> set (merkleBranches t)}"
    unfolding set_filter bs(1) all using t0 by auto
  ultimately show ?thesis unfolding f(1,2) using bs(2) unfolding set_filter bs(1) many all by auto
qed

definition demo_compared :: "string \<Rightarrow> string list \<Rightarrow> TemplateData" where
  "demo_compared i bs =
     \<lparr>td_id = i, td_height = 1, prevBlockHash = [], coinbase1 = [], coinbase2 = [], merkleBranches = bs, version = 1,
      td_nbits = 1, ntime = 1, isActive = True, td_owner = [], createdAtMs = 1, shareCount = 0, stakedAmount = None,
      registrationDigest = JUndef, lastShareDigest = JUndef\<rparr>"

theorem merkleAnalysis_classifies_witness:
  "set (ma_shared (merkleAnalysis [demo_compared ''a'' [''x'', ''y''], demo_compared ''b'' [''z'', ''x'']])) = {''x''}"
proof -
  have "{b. \<forall>t \<in> set [demo_compared ''a'' [''x'', ''y''], demo_compared ''b'' [''z'', ''x'']]. b \<in> set (merkleBranches t)} = {''x''}"
    by (auto simp: demo_compared_def)
  then show ?thesis
    using merkleAnalysis_classifies [of "[demo_compared ''a'' [''x'', ''y''], demo_compared ''b'' [''z'', ''x'']]"]
    by (simp add: demo_compared_def)
qed

section \<open>Countdown\<close>

text \<open>
  the countdown runs from 0 to 1 and expires at the deadline: for a deadline and a duration that are
  set, the progress stays between 0 and 1 and never falls as time passes, and the countdown has
  expired exactly from the deadline on, when it shows 0:00 and progress 1.
\<close>

theorem countdown_progress:
  assumes "deadline \<noteq> 0" "0 < duration" "t \<le> t'"
  shows "\<exists>p p'. progress (countdown deadline duration t) = Fin p \<and> progress (countdown deadline duration t') = Fin p'
    \<and> 0 \<le> p \<and> p \<le> p' \<and> p' \<le> 1
    \<and> (isExpired (countdown deadline duration t) \<longleftrightarrow> deadline \<le> t)
    \<and> (deadline \<le> t \<longrightarrow> p = 1 \<and> formatted (countdown deadline duration t) = ''0:00'')"
proof -
  let ?r = "\<lambda>u. max 0 (deadline - u)" and ?p = "\<lambda>u. min 1 (max 0 ((duration - max 0 (deadline - u)) / duration))"
  have p: "progress (countdown deadline duration u) = Fin (?p u)" for u using assms(1,2) by (simp add: countdown_def Let_def)
  have "(duration - ?r t) / duration \<le> (duration - ?r t') / duration" using assms(2,3) by (intro divide_right_mono) auto
  then have "?p t \<le> ?p t'" by (intro min.mono max.mono) simp_all
  moreover have "isExpired (countdown deadline duration t) \<longleftrightarrow> deadline \<le> t" using assms(1,2) by (simp add: countdown_def Let_def)
  moreover have "?p t = 1 \<and> formatted (countdown deadline duration t) = ''0:00''" if "deadline \<le> t"
    using that assms(1,2) by (simp add: countdown_def Let_def formatMs_def)
  ultimately show ?thesis using p by (intro exI [of _ "?p t"] exI [of _ "?p t'"]) simp
qed

theorem countdown_progress_witness:
  "isExpired (countdown 5000 1000 6000) \<and> formatted (countdown 5000 1000 6000) = ''0:00''"
  using countdown_progress [of 5000 1000 6000 7000] by auto

end
