(* ===== verification/Frame_Loop.thy ===== *)
theory Frame_Loop
  imports Js_Prelude
begin

text \<open>
  Model of \<open>web/hooks/useAnimationFrame.ts\<close>: the one \<open>requestAnimationFrame\<close> loop that all
  animated components share, as a state machine over the registrations of callbacks and the frames
  that the browser fires. The module's variables are the fields \<open>callbacks\<close>, \<open>rafId\<close>, \<open>loop_running\<close> and
  \<open>lastTime\<close>; \<open>requested\<close> holds the handles of the frames the browser has still to fire,
  \<open>handles\<close> the number of handles it has given out, \<open>page_clock\<close> its clock, and \<open>calls\<close> the calls made.
  Callbacks do not register or remove callbacks while they run.
\<close>

record frame_loop =
  callbacks :: "nat list"
  rafId :: nat
  loop_running :: bool
  lastTime :: real
  requested :: "nat list"
  handles :: nat
  page_clock :: real
  calls :: "(nat \<times> real \<times> real) list"

definition idle_loop :: "frame_loop" where
  "idle_loop = \<lparr>callbacks = [], rafId = 0, loop_running = False, lastTime = 0, requested = [], handles = 0, page_clock = 0, calls = []\<rparr>"

text \<open>The browser hands out a new handle for every request, and forgets a cancelled one.\<close>

definition requestFrame :: "frame_loop \<Rightarrow> frame_loop" where
  "requestFrame l = l\<lparr>handles := Suc (handles l), rafId := Suc (handles l), requested := requested l @ [Suc (handles l)]\<rparr>"

definition cancelFrame :: "nat \<Rightarrow> frame_loop \<Rightarrow> frame_loop" where
  "cancelFrame h l = l\<lparr>requested := filter (\<lambda>r. r \<noteq> h) (requested l)\<rparr>"

definition loop_tick :: "real \<Rightarrow> frame_loop \<Rightarrow> frame_loop" where
  "loop_tick now l =
     (let dt = (if lastTime l \<noteq> 0 then (now - lastTime l) / 1000 else 0);
          l1 = l\<lparr>lastTime := now, calls := calls l @ map (\<lambda>cb. (cb, now, dt)) (callbacks l)\<rparr>
      in if callbacks l1 \<noteq> [] then requestFrame l1 else l1\<lparr>loop_running := False\<rparr>)"

definition startLoop :: "frame_loop \<Rightarrow> frame_loop" where
  "startLoop l = (if \<not> loop_running l then requestFrame (l\<lparr>loop_running := True, lastTime := 0\<rparr>) else l)"

definition stopLoop :: "frame_loop \<Rightarrow> frame_loop" where
  "stopLoop l = (if loop_running l \<and> callbacks l = [] then (cancelFrame (rafId l) l)\<lparr>loop_running := False\<rparr> else l)"

text \<open>The effect of the hook when a component mounts, and its clean-up when it goes.\<close>

definition frame_mount :: "nat \<Rightarrow> frame_loop \<Rightarrow> frame_loop" where
  "frame_mount cb l = startLoop (l\<lparr>callbacks := callbacks l @ [cb]\<rparr>)"

definition frame_unmount :: "nat \<Rightarrow> frame_loop \<Rightarrow> frame_loop" where
  "frame_unmount cb l = stopLoop (l\<lparr>callbacks := filter (\<lambda>c. c \<noteq> cb) (callbacks l)\<rparr>)"

text \<open>The browser fires one of the requested frames.\<close>

definition fire_frame :: "nat \<Rightarrow> real \<Rightarrow> frame_loop \<Rightarrow> frame_loop" where
  "fire_frame h now l = loop_tick now ((cancelFrame h l)\<lparr>page_clock := now\<rparr>)"

inductive loop_step :: "frame_loop \<Rightarrow> frame_loop \<Rightarrow> bool" where
  step_mount: "cb \<notin> set (callbacks l) \<Longrightarrow> loop_step l (frame_mount cb l)"
| step_unmount: "loop_step l (frame_unmount cb l)"
| step_fire: "h \<in> set (requested l) \<Longrightarrow> page_clock l \<le> now \<Longrightarrow> loop_step l (fire_frame h now l)"

inductive_cases loop_stepE: "loop_step l l'"

inductive looped :: "frame_loop \<Rightarrow> bool" where
  looped_idle: "looped idle_loop"
| looped_step: "looped l \<Longrightarrow> loop_step l l' \<Longrightarrow> looped l'"

lemmas loop_defs = requestFrame_def cancelFrame_def loop_tick_def startLoop_def stopLoop_def frame_mount_def frame_unmount_def
  fire_frame_def Let_def

text \<open>
  The loop runs exactly when there is someone to call, and exactly then the browser holds one frame
  of it, the one in \<open>rafId\<close>.
\<close>

definition loop_ok :: "frame_loop \<Rightarrow> bool" where
  "loop_ok l \<longleftrightarrow> distinct (callbacks l) \<and> (loop_running l \<longleftrightarrow> callbacks l \<noteq> [])
     \<and> requested l = (if loop_running l then [rafId l] else [])
     \<and> lastTime l \<le> page_clock l \<and> 0 \<le> page_clock l \<and> (\<forall>(cb, now, dt) \<in> set (calls l). 0 \<le> dt \<and> now \<le> page_clock l)"

lemma mount_ok: "loop_ok l \<Longrightarrow> cb \<notin> set (callbacks l) \<Longrightarrow> loop_ok (frame_mount cb l)"
  by (cases "loop_running l") (simp_all add: loop_ok_def loop_defs)

lemma unmount_ok: "loop_ok l \<Longrightarrow> loop_ok (frame_unmount cb l)"
  by (cases "loop_running l"; cases "filter (\<lambda>c. c \<noteq> cb) (callbacks l) = []") (simp_all add: loop_ok_def loop_defs)

lemma fire_ok: "loop_ok l \<Longrightarrow> h \<in> set (requested l) \<Longrightarrow> page_clock l \<le> now \<Longrightarrow> loop_ok (fire_frame h now l)"
  by (cases "loop_running l") (fastforce simp: loop_ok_def loop_defs)+

lemma looped_ok: "looped l \<Longrightarrow> loop_ok l"
proof (induction rule: looped.induct)
  case looped_idle
  show ?case by (simp add: loop_ok_def idle_loop_def)
next
  case (looped_step l l')
  from looped_step.hyps(2) looped_step.IH show ?case by (elim loop_stepE) (auto intro: mount_ok unmount_ok fire_ok)
qed

text \<open>
  C36: one loop for all. Whatever components come and go, the browser holds one frame of the loop when
  some callback is registered and none otherwise, so the loop neither stalls nor runs twice; and
  firing that frame calls every registered callback exactly once, with a delta that is not
  negative, and asks for the next one.
\<close>

theorem single_frame_loop:
  assumes "looped l" "page_clock l \<le> now"
  shows "length (requested l) = (if callbacks l = [] then 0 else 1)
    \<and> (\<forall>h \<in> set (requested l). \<exists>dt. 0 \<le> dt
          \<and> calls (fire_frame h now l) = calls l @ map (\<lambda>cb. (cb, now, dt)) (callbacks l)
          \<and> callbacks (fire_frame h now l) = callbacks l \<and> length (requested (fire_frame h now l)) = 1)
    \<and> distinct (callbacks l)"
proof -
  have ok: "loop_ok l" by (rule looped_ok [OF assms(1)])
  let ?dt = "if lastTime l \<noteq> 0 then (now - lastTime l) / 1000 else 0"
  have "0 \<le> ?dt" using ok assms(2) by (simp add: loop_ok_def)
  moreover have "calls (fire_frame h now l) = calls l @ map (\<lambda>cb. (cb, now, ?dt)) (callbacks l)
      \<and> callbacks (fire_frame h now l) = callbacks l \<and> length (requested (fire_frame h now l)) = 1" if "h \<in> set (requested l)" for h
    using ok that by (cases "loop_running l") (simp_all add: loop_ok_def loop_defs)
  ultimately show ?thesis using ok by (auto simp: loop_ok_def)
qed

theorem single_frame_loop_witness:
  "length (requested (frame_unmount 1 (frame_mount 2 (frame_mount 1 idle_loop)))) = 1"
proof -
  have "looped (frame_unmount 1 (frame_mount 2 (frame_mount 1 idle_loop)))"
    by (intro looped_step [OF looped_step [OF looped_step [OF looped_idle step_mount] step_mount] step_unmount])
      (simp_all add: loop_defs idle_loop_def)
  from single_frame_loop [OF this order.refl] show ?thesis by (simp add: loop_defs idle_loop_def)
qed

lemma looped_dt: "looped l \<Longrightarrow> (cb, now, dt) \<in> set (calls l) \<Longrightarrow> 0 \<le> dt"
  using looped_ok unfolding loop_ok_def by fastforce

text \<open>The first frame after the loop has started brings a delta of zero, however long the pause was.\<close>

lemma first_frame_zero:
  assumes "looped l" "callbacks l = []"
  shows "calls (fire_frame (rafId (frame_mount cb l)) now (frame_mount cb l)) = calls l @ [(cb, now, 0)]"
  using looped_ok [OF assms(1)] assms(2) by (simp add: loop_ok_def loop_defs)

end
