(* ===== verification/Intro_Player.thy ===== *)
theory Intro_Player
  imports Hashprice Frame_Loop "HOL-Library.Monad_Syntax"
begin

text \<open>
  Model of the guided introduction: the scenarios of \<open>web/data/intro-scenarios.ts\<close>, with their
  interpolation and chart data, and the player \<open>web/components/IntroPlayer.tsx\<close> that animates them, as a
  state machine over its frames and buttons. Times and market figures are finite numbers; the
  descriptive texts and the drawing are not modelled. Reading a property of a missing entry
  throws, which is the value \<open>None\<close>.
\<close>

section \<open>Scenarios\<close>

record ScenarioState =
  ss_networkDifficulty :: real
  ss_btcPrice :: real
  blockSubsidy :: real

record ScenarioKeyframe = ScenarioState +
  kf_t :: real

datatype Sentiment = Bullish | Bearish | Recovery

record scenario_metrics =
  diffChange :: string
  btcChange :: string
  ppsChange :: string

record IntroScenario =
  is_id :: string
  is_title :: string
  sentiment :: Sentiment
  keyframes :: "ScenarioKeyframe list"
  metrics :: scenario_metrics
  durationMs :: real

record ChartDataPoint =
  cd_time :: real
  cd_pps :: number
  cd_networkDifficulty :: real
  cd_btcPrice :: real
  cd_scenarioIndex :: nat

definition SHARE_DIFF :: number where
  "SHARE_DIFF = 355555556"

definition easeInOutCubic :: "real \<Rightarrow> real" where
  "easeInOutCubic t = (if t < 1 / 2 then 4 * t * t * t else 1 - (- 2 * t + 2) ^ 3 / 2)"

text \<open>The first segment that contains \<open>t\<close>, or the whole range.\<close>

fun find_segment :: "real \<Rightarrow> ScenarioKeyframe \<times> ScenarioKeyframe \<Rightarrow> ScenarioKeyframe list \<Rightarrow> ScenarioKeyframe \<times> ScenarioKeyframe" where
  "find_segment t d (a # b # ks) = (if kf_t a \<le> t \<and> t \<le> kf_t b then (a, b) else find_segment t d (b # ks))"
| "find_segment t d ks = d"

definition mix :: "real \<Rightarrow> real \<Rightarrow> real \<Rightarrow> real" where
  "mix lo hi segT = lo + (hi - lo) * segT"

definition interpolateScenario :: "IntroScenario \<Rightarrow> real \<Rightarrow> ScenarioState option" where
  "interpolateScenario scenario prog =
     (let t = easeInOutCubic (max 0 (min 1 prog)); kfs = keyframes scenario in
      if kfs = [] then None
      else let (lo, hi) = find_segment t (hd kfs, last kfs) kfs;
               segT = (if kf_t hi = kf_t lo then 1 else (t - kf_t lo) / (kf_t hi - kf_t lo))
           in Some \<lparr>ss_networkDifficulty = mix (ss_networkDifficulty lo) (ss_networkDifficulty hi) segT,
                    ss_btcPrice = mix (ss_btcPrice lo) (ss_btcPrice hi) segT,
                    blockSubsidy = mix (blockSubsidy lo) (blockSubsidy hi) segT\<rparr>)"

definition computeScenarioPpsValue :: "ScenarioState \<Rightarrow> number" where
  "computeScenarioPpsValue s =
     computeTheoreticalValue SHARE_DIFF (Fin (ss_networkDifficulty s)) (Fin (blockSubsidy s) * Fin (ss_btcPrice s))"

fun boundaries_from :: "real \<Rightarrow> IntroScenario list \<Rightarrow> real list" where
  "boundaries_from acc [] = []"
| "boundaries_from acc (s # ss) = (acc + durationMs s) # boundaries_from (acc + durationMs s) ss"

definition getScenarioBoundaries :: "IntroScenario list \<Rightarrow> real list" where
  "getScenarioBoundaries scenarios = 0 # boundaries_from 0 scenarios"

definition getTotalDuration :: "IntroScenario list \<Rightarrow> real" where
  "getTotalDuration scenarios = foldl (\<lambda>s sc. s + durationMs sc) 0 scenarios"

definition kf :: "ScenarioState \<Rightarrow> ScenarioState \<Rightarrow> ScenarioKeyframe list" where
  "kf start fin =
     [\<lparr>ss_networkDifficulty = ss_networkDifficulty start, ss_btcPrice = ss_btcPrice start, blockSubsidy = blockSubsidy start, kf_t = 0\<rparr>,
      \<lparr>ss_networkDifficulty = ss_networkDifficulty fin, ss_btcPrice = ss_btcPrice fin, blockSubsidy = blockSubsidy fin, kf_t = 1\<rparr>]"

abbreviation scenario_state :: "real \<Rightarrow> real \<Rightarrow> real \<Rightarrow> ScenarioState" where
  "scenario_state d b s \<equiv> \<lparr>ss_networkDifficulty = d * 10 ^ 12, ss_btcPrice = b, blockSubsidy = s\<rparr>"

definition S0 :: ScenarioState where "S0 = scenario_state 100 90000 (3125 / 1000)"
definition S1 :: ScenarioState where "S1 = scenario_state 75 90000 (3125 / 1000)"
definition S2 :: ScenarioState where "S2 = scenario_state (675 / 10) 90000 (3125 / 1000)"
definition S3 :: ScenarioState where "S3 = scenario_state (675 / 10) 130000 (3125 / 1000)"
definition S4 :: ScenarioState where "S4 = scenario_state (57375 / 1000) 169000 (3125 / 1000)"
definition S5 :: ScenarioState where "S5 = scenario_state (6885 / 100) 169000 (3125 / 1000)"
definition S6 :: ScenarioState where "S6 = scenario_state (6885 / 100) 55770 (3125 / 1000)"
definition S7 :: ScenarioState where "S7 = scenario_state (6885 / 100) 55770 (15625 / 10000)"
definition S8 :: ScenarioState where "S8 = scenario_state (5026 / 100) 91460 (15625 / 10000)"

lemmas scenario_states = S0_def S1_def S2_def S3_def S4_def S5_def S6_def S7_def S8_def

definition BASELINE_PPS :: number where
  "BASELINE_PPS = computeScenarioPpsValue S0"

definition INTRO_SCENARIOS :: "IntroScenario list" where
  "INTRO_SCENARIOS =
     [\<lparr>is_id = ''hashrate-exodus'', is_title = ''Hashrate Exodus'', sentiment = Bullish, keyframes = kf S0 S1,
       metrics = \<lparr>diffChange = ''-25%'', btcChange = ''0%'', ppsChange = ''+33%''\<rparr>, durationMs = 9000\<rparr>,
      \<lparr>is_id = ''grid-disruption'', is_title = ''Grid Disruption'', sentiment = Bullish, keyframes = kf S1 S2,
       metrics = \<lparr>diffChange = ''-10%'', btcChange = ''0%'', ppsChange = ''+11%''\<rparr>, durationMs = 8000\<rparr>,
      \<lparr>is_id = ''btc-rally'', is_title = ''BTC Rally'', sentiment = Bullish, keyframes = kf S2 S3,
       metrics = \<lparr>diffChange = ''0%'', btcChange = ''+44%'', ppsChange = ''+44%''\<rparr>, durationMs = 8000\<rparr>,
      \<lparr>is_id = ''compounding-bull'', is_title = ''Compounding Bull'', sentiment = Bullish, keyframes = kf S3 S4,
       metrics = \<lparr>diffChange = ''-15%'', btcChange = ''+30%'', ppsChange = ''+53%''\<rparr>, durationMs = 9000\<rparr>,
      \<lparr>is_id = ''hashrate-surge'', is_title = ''Hashrate Surge'', sentiment = Bearish, keyframes = kf S4 S5,
       metrics = \<lparr>diffChange = ''+20%'', btcChange = ''0%'', ppsChange = ''-17%''\<rparr>, durationMs = 8000\<rparr>,
      \<lparr>is_id = ''btc-correction'', is_title = ''BTC Correction'', sentiment = Bearish, keyframes = kf S5 S6,
       metrics = \<lparr>diffChange = ''0%'', btcChange = ''-67%'', ppsChange = ''-67%''\<rparr>, durationMs = 9000\<rparr>,
      \<lparr>is_id = ''halving'', is_title = ''Halving Event'', sentiment = Bearish, keyframes = kf S6 S7,
       metrics = \<lparr>diffChange = ''0%'', btcChange = ''0%'', ppsChange = ''-50%''\<rparr>, durationMs = 9000\<rparr>,
      \<lparr>is_id = ''equilibrium'', is_title = ''Market Equilibrium'', sentiment = Recovery, keyframes = kf S7 S8,
       metrics = \<lparr>diffChange = ''-27%'', btcChange = ''+64%'', ppsChange = ''+124%''\<rparr>, durationMs = 10000\<rparr>]"

definition SCENARIO_START_PPS :: "number list option" where
  "SCENARIO_START_PPS = those (map (\<lambda>sc. map_option computeScenarioPpsValue (interpolateScenario sc 0)) INTRO_SCENARIOS)"

text \<open>The loop from the last boundary but one downwards; \<open>i\<close> boundaries are left to try.\<close>

primrec scan_scenario :: "real list \<Rightarrow> nat \<Rightarrow> real \<Rightarrow> nat \<Rightarrow> nat" where
  "scan_scenario bs n t 0 = 0"
| "scan_scenario bs n t (Suc i) = (if bs ! i \<le> t then min i (n - 1) else scan_scenario bs n t i)"

definition scenario_index :: "real \<Rightarrow> nat" where
  "scenario_index t =
     (let bs = getScenarioBoundaries INTRO_SCENARIOS in scan_scenario bs (length INTRO_SCENARIOS) t (length bs - 1))"

definition chart_point :: "real \<Rightarrow> ChartDataPoint option" where
  "chart_point t =
     do {
       let scIdx = scenario_index t;
       sc \<leftarrow> index INTRO_SCENARIOS scIdx;
       b \<leftarrow> index (getScenarioBoundaries INTRO_SCENARIOS) scIdx;
       s \<leftarrow> interpolateScenario sc (min 1 ((t - b) / durationMs sc));
       Some \<lparr>cd_time = t, cd_pps = computeScenarioPpsValue s, cd_networkDifficulty = ss_networkDifficulty s,
             cd_btcPrice = ss_btcPrice s, cd_scenarioIndex = scIdx\<rparr>
     }"

function chart_loop :: "real \<Rightarrow> real \<Rightarrow> ChartDataPoint list option" where
  "chart_loop upToMs t =
     (if t \<le> upToMs
      then do { p \<leftarrow> chart_point t; rest \<leftarrow> chart_loop upToMs (t + 333); Some (p # rest) }
      else Some [])"
  by pat_completeness auto
termination
proof (relation "measure (\<lambda>(u, t). nat (\<lfloor>(u - t) / 333\<rfloor> + 1))")
  fix u t :: real and p
  assume "t \<le> u"
  then have "0 \<le> \<lfloor>(u - t) / 333\<rfloor>" by simp
  moreover have "\<lfloor>(u - (t + 333)) / 333\<rfloor> = \<lfloor>(u - t) / 333\<rfloor> - 1"
    by (simp add: diff_divide_distrib add_divide_distrib floor_diff_one [symmetric] algebra_simps)
  ultimately show "((u, t + 333), u, t) \<in> measure (\<lambda>(u, t). nat (\<lfloor>(u - t) / 333\<rfloor> + 1))" by simp
qed simp

declare chart_loop.simps [simp del]

definition computeChartDataUpTo :: "real \<Rightarrow> ChartDataPoint list option" where
  "computeChartDataUpTo upToMs = chart_loop upToMs 0"

section \<open>The player\<close>

datatype PlayState = Idle | Playing | Paused | Completed

record UiState =
  ui_playState :: PlayState
  ui_scenarioIndex :: nat
  ui_currentPps :: number
  ui_currentState :: ScenarioState
  ui_scenarioStartPps :: number
  ui_localProgress :: real
  ui_chartData :: "ChartDataPoint list"
  ui_elapsedMs :: real

record player =
  player_ui :: UiState
  playStateRef :: PlayState
  elapsedRef :: real
  chartDataRef :: "ChartDataPoint list"
  lastDataPointRef :: real
  lastUiUpdateRef :: real
  currentPpsRef :: number
  scenarioIndexRef :: nat

definition INITIAL_STATE :: ScenarioState where
  "INITIAL_STATE = scenario_state 100 90000 (3125 / 1000)"

definition boundaries :: "real list" where "boundaries = getScenarioBoundaries INTRO_SCENARIOS"
definition totalDur :: real where "totalDur = getTotalDuration INTRO_SCENARIOS"

definition start_ui :: "PlayState \<Rightarrow> UiState option" where
  "start_ui ps =
     do {
       sps \<leftarrow> SCENARIO_START_PPS;
       sp \<leftarrow> index sps 0;
       Some \<lparr>ui_playState = ps, ui_scenarioIndex = 0, ui_currentPps = BASELINE_PPS, ui_currentState = INITIAL_STATE,
             ui_scenarioStartPps = sp, ui_localProgress = 0, ui_chartData = [], ui_elapsedMs = 0\<rparr>
     }"

definition initial_player :: "player option" where
  "initial_player =
     do {
       ui \<leftarrow> start_ui Idle;
       Some \<lparr>player_ui = ui, playStateRef = Idle, elapsedRef = 0, chartDataRef = [], lastDataPointRef = 0,
             lastUiUpdateRef = 0, currentPpsRef = BASELINE_PPS, scenarioIndexRef = 0\<rparr>
     }"

definition player_auto_start :: "player \<Rightarrow> player" where
  "player_auto_start p = p\<lparr>playStateRef := Playing, player_ui := (player_ui p)\<lparr>ui_playState := Playing\<rparr>\<rparr>"

text \<open>A frame \<open>dt\<close> seconds after the last one; \<open>now\<close> is \<open>performance.now()\<close>.\<close>

definition complete_frame :: "player \<Rightarrow> player option" where
  "complete_frame p =
     do {
       let n = length INTRO_SCENARIOS - 1;
       lastSc \<leftarrow> index INTRO_SCENARIOS n;
       finalState \<leftarrow> interpolateScenario lastSc 1;
       let finalPps = computeScenarioPpsValue finalState;
       let data = chartDataRef p @ [\<lparr>cd_time = totalDur, cd_pps = finalPps, cd_networkDifficulty = ss_networkDifficulty finalState,
                                     cd_btcPrice = ss_btcPrice finalState, cd_scenarioIndex = n\<rparr>];
       sps \<leftarrow> SCENARIO_START_PPS;
       sp \<leftarrow> index sps n;
       Some (p\<lparr>elapsedRef := totalDur, playStateRef := Completed, chartDataRef := data,
               player_ui := \<lparr>ui_playState = Completed, ui_scenarioIndex = n, ui_currentPps = finalPps, ui_currentState = finalState,
                             ui_scenarioStartPps = sp, ui_localProgress = 1, ui_chartData = data, ui_elapsedMs = totalDur\<rparr>\<rparr>)
     }"

definition running_frame :: "real \<Rightarrow> real \<Rightarrow> player \<Rightarrow> player option" where
  "running_frame now elapsed p =
     do {
       let scIdx = scenario_index elapsed;
       sc \<leftarrow> index INTRO_SCENARIOS scIdx;
       b \<leftarrow> index boundaries scIdx;
       let localProgress = (elapsed - b) / durationMs sc;
       s \<leftarrow> interpolateScenario sc localProgress;
       let pps = computeScenarioPpsValue s;
       let p1 = p\<lparr>elapsedRef := elapsed, scenarioIndexRef := scIdx, currentPpsRef := pps\<rparr>;
       let p2 = (if 333 \<le> elapsed - lastDataPointRef p1
                 then p1\<lparr>lastDataPointRef := elapsed,
                         chartDataRef := chartDataRef p1 @ [\<lparr>cd_time = elapsed, cd_pps = pps, cd_networkDifficulty = ss_networkDifficulty s,
                                                             cd_btcPrice = ss_btcPrice s, cd_scenarioIndex = scIdx\<rparr>]\<rparr>
                 else p1);
       sps \<leftarrow> SCENARIO_START_PPS;
       sp \<leftarrow> index sps scIdx;
       Some (if 100 \<le> now - lastUiUpdateRef p2
             then p2\<lparr>lastUiUpdateRef := now,
                     player_ui := \<lparr>ui_playState = Playing, ui_scenarioIndex = scIdx, ui_currentPps = pps, ui_currentState = s,
                                   ui_scenarioStartPps = sp, ui_localProgress = localProgress, ui_chartData = chartDataRef p2,
                                   ui_elapsedMs = elapsed\<rparr>\<rparr>
             else p2)
     }"

definition player_frame :: "real \<Rightarrow> real \<Rightarrow> player \<Rightarrow> player option" where
  "player_frame now dt p =
     (if playStateRef p \<noteq> Playing then Some p
      else let elapsed = elapsedRef p + min dt (1 / 10) * 1000
           in if totalDur \<le> elapsed then complete_frame p else running_frame now elapsed p)"

definition handlePlayPause :: "player \<Rightarrow> player option" where
  "handlePlayPause p =
     (case playStateRef p of
        Playing \<Rightarrow> Some (p\<lparr>playStateRef := Paused, player_ui := (player_ui p)\<lparr>ui_playState := Paused\<rparr>\<rparr>)
      | Idle \<Rightarrow> Some (p\<lparr>playStateRef := Playing, player_ui := (player_ui p)\<lparr>ui_playState := Playing\<rparr>\<rparr>)
      | ps \<Rightarrow>
          do {
            let p1 = (if ps = Completed
                      then p\<lparr>elapsedRef := 0, chartDataRef := [], lastDataPointRef := 0, scenarioIndexRef := 0, currentPpsRef := BASELINE_PPS\<rparr>
                      else p);
            ui \<leftarrow> (if ui_playState (player_ui p) = Completed then start_ui Playing
                   else Some ((player_ui p)\<lparr>ui_playState := Playing\<rparr>));
            Some (p1\<lparr>playStateRef := Playing, player_ui := ui\<rparr>)
          })"

definition handleRestart :: "player \<Rightarrow> player option" where
  "handleRestart p =
     do {
       ui \<leftarrow> start_ui Playing;
       Some (p\<lparr>elapsedRef := 0, chartDataRef := [], lastDataPointRef := 0, lastUiUpdateRef := 0, scenarioIndexRef := 0,
               currentPpsRef := BASELINE_PPS, playStateRef := Playing, player_ui := ui\<rparr>)
     }"

definition handleJumpTo :: "nat \<Rightarrow> player \<Rightarrow> player option" where
  "handleJumpTo i p =
     do {
       targetMs \<leftarrow> index boundaries i;
       data \<leftarrow> computeChartDataUpTo targetMs;
       sc \<leftarrow> index INTRO_SCENARIOS i;
       s \<leftarrow> interpolateScenario sc 0;
       let pps = computeScenarioPpsValue s;
       let ps = (if playStateRef p = Completed then Playing else playStateRef p);
       sps \<leftarrow> SCENARIO_START_PPS;
       sp \<leftarrow> index sps i;
       Some (p\<lparr>elapsedRef := targetMs, chartDataRef := data, lastDataPointRef := targetMs, scenarioIndexRef := i, currentPpsRef := pps,
               playStateRef := ps,
               player_ui := \<lparr>ui_playState = (if ps = Paused then Paused else Playing), ui_scenarioIndex = i, ui_currentPps = pps,
                             ui_currentState = s, ui_scenarioStartPps = sp, ui_localProgress = 0, ui_chartData = data,
                             ui_elapsedMs = targetMs\<rparr>\<rparr>)
     }"

inductive player_step :: "player \<Rightarrow> player option \<Rightarrow> bool" where
  frame: "0 \<le> dt \<Longrightarrow> player_step p (player_frame now dt p)"
| play_pause: "player_step p (handlePlayPause p)"
| restart: "player_step p (handleRestart p)"
| jump: "i < length INTRO_SCENARIOS \<Longrightarrow> player_step p (handleJumpTo i p)"

inductive_cases player_stepE: "player_step p r"

inductive played :: "player \<Rightarrow> bool" where
  mounted: "initial_player = Some p \<Longrightarrow> played (player_auto_start p)"
| stepped: "played p \<Longrightarrow> player_step p (Some q) \<Longrightarrow> played q"

section \<open>Interpolation\<close>

lemma ease_bounds: "0 \<le> t \<Longrightarrow> t \<le> 1 \<Longrightarrow> 0 \<le> easeInOutCubic t \<and> easeInOutCubic t \<le> 1"
proof -
  assume t: "0 \<le> t" "t \<le> 1"
  have "t * t * t \<le> (1 / 2) * (1 / 2) * (1 / 2)" if "t < 1 / 2" using that t by (intro mult_mono) simp_all
  moreover have "0 \<le> (- 2 * t + 2) ^ 3 \<and> (- 2 * t + 2) ^ 3 \<le> 1 ^ 3" if "1 / 2 \<le> t"
    using that t by (intro conjI power_mono zero_le_power) simp_all
  ultimately show ?thesis using t by (auto simp: easeInOutCubic_def mult.assoc)
qed

lemma ease_ends [simp]: "easeInOutCubic 0 = 0" "easeInOutCubic 1 = 1"
  by (simp_all add: easeInOutCubic_def)

lemma ease_mono:
  assumes "0 \<le> s" "s \<le> t" "t \<le> 1"
  shows "easeInOutCubic s \<le> easeInOutCubic t"
proof -
  have low: "4 * s * s * s \<le> 4 * t * t * t" using assms by (intro mult_mono) simp_all
  have high: "(- 2 * t + 2) ^ 3 \<le> (- 2 * s + 2) ^ 3" using assms by (intro power_mono) simp_all
  have half: "4 * s * s * s \<le> 4 * (1 / 2) * (1 / 2) * (1 / 2)" if "s < 1 / 2" using that assms by (intro mult_mono) simp_all
  have "(- 2 * t + 2) ^ 3 \<le> 1 ^ 3" if "1 / 2 \<le> t" using that assms by (intro power_mono) simp_all
  then show ?thesis using assms low high half unfolding easeInOutCubic_def by auto
qed

definition mix_state :: "ScenarioState \<Rightarrow> ScenarioState \<Rightarrow> real \<Rightarrow> ScenarioState" where
  "mix_state a b t =
     \<lparr>ss_networkDifficulty = mix (ss_networkDifficulty a) (ss_networkDifficulty b) t,
      ss_btcPrice = mix (ss_btcPrice a) (ss_btcPrice b) t, blockSubsidy = mix (blockSubsidy a) (blockSubsidy b) t\<rparr>"

lemma interpolate_kf:
  "keyframes sc = kf a b \<Longrightarrow> interpolateScenario sc q = Some (mix_state a b (easeInOutCubic (max 0 (min 1 q))))"
  by (simp add: interpolateScenario_def kf_def mix_state_def Let_def)

lemma mix_ends [simp]: "mix_state a b 0 = a" "mix_state a b 1 = b"
  by (simp_all add: mix_state_def mix_def)

lemma mix_between:
  assumes "0 \<le> t" "t \<le> 1"
  shows "min x y \<le> mix x y t" "mix x y t \<le> max x y"
proof -
  have "mix x y t = (1 - t) * x + t * y" by (simp add: mix_def algebra_simps)
  moreover have "(1 - t) * min x y + t * min x y \<le> (1 - t) * x + t * y" "(1 - t) * x + t * y \<le> (1 - t) * max x y + t * max x y"
    using assms by (intro add_mono mult_left_mono; simp)+
  ultimately show "min x y \<le> mix x y t" "mix x y t \<le> max x y" by (simp_all add: algebra_simps)
qed

lemma scenario_table: "map keyframes INTRO_SCENARIOS = [kf S0 S1, kf S1 S2, kf S2 S3, kf S3 S4, kf S4 S5, kf S5 S6, kf S6 S7, kf S7 S8]"
  by (simp add: INTRO_SCENARIOS_def)

lemma scenario_count [simp]: "length INTRO_SCENARIOS = 8"
  by (simp add: INTRO_SCENARIOS_def)

text \<open>The states through which the introduction leads, one more than there are scenarios.\<close>

definition chained_states :: "ScenarioState list" where
  "chained_states = [S0, S1, S2, S3, S4, S5, S6, S7, S8]"

lemma scenario_kf:
  assumes "i < 8"
  shows "keyframes (INTRO_SCENARIOS ! i) = kf (chained_states ! i) (chained_states ! Suc i)"
proof -
  have "i \<in> {0, 1, 2, 3, 4, 5, 6, 7}" using assms by auto
  then show ?thesis by (auto simp: INTRO_SCENARIOS_def chained_states_def)
qed

text \<open>
  The introduction is continuous. Every scenario starts in the state in which the one before it ends,
  the first in the baseline; within a scenario every figure stays between its values at the two
  ends, whatever the progress, and no scenario throws.
\<close>

theorem intro_continuous:
  assumes "i < length INTRO_SCENARIOS"
  shows "\<exists>a b s. interpolateScenario (INTRO_SCENARIOS ! i) 0 = Some a \<and> interpolateScenario (INTRO_SCENARIOS ! i) 1 = Some b
    \<and> interpolateScenario (INTRO_SCENARIOS ! i) q = Some s
    \<and> (i = 0 \<longrightarrow> a = S0) \<and> (Suc i < length INTRO_SCENARIOS \<longrightarrow> interpolateScenario (INTRO_SCENARIOS ! Suc i) 0 = Some b)
    \<and> min (ss_networkDifficulty a) (ss_networkDifficulty b) \<le> ss_networkDifficulty s
    \<and> ss_networkDifficulty s \<le> max (ss_networkDifficulty a) (ss_networkDifficulty b)
    \<and> min (ss_btcPrice a) (ss_btcPrice b) \<le> ss_btcPrice s \<and> ss_btcPrice s \<le> max (ss_btcPrice a) (ss_btcPrice b)
    \<and> min (blockSubsidy a) (blockSubsidy b) \<le> blockSubsidy s \<and> blockSubsidy s \<le> max (blockSubsidy a) (blockSubsidy b)"
proof -
  let ?a = "chained_states ! i" and ?b = "chained_states ! Suc i" and ?t = "easeInOutCubic (max 0 (min 1 q))"
  have i: "i < 8" using assms by simp
  note eq = interpolate_kf [OF scenario_kf [OF i]]
  have "0 \<le> ?t \<and> ?t \<le> 1" by (rule ease_bounds) simp_all
  then have t: "0 \<le> ?t" "?t \<le> 1" by simp_all
  have next_start: "interpolateScenario (INTRO_SCENARIOS ! Suc i) 0 = Some ?b" if "Suc i < 8"
    using interpolate_kf [OF scenario_kf [OF that], of 0] by simp
  have first: "?a = S0" if "i = 0" using that by (simp add: chained_states_def)
  have mixed: "min (f ?a) (f ?b) \<le> f (mix_state ?a ?b ?t) \<and> f (mix_state ?a ?b ?t) \<le> max (f ?a) (f ?b)"
    if "f (mix_state ?a ?b ?t) = mix (f ?a) (f ?b) ?t" for f unfolding that using mix_between [OF t] by blast
  have ends: "interpolateScenario (INTRO_SCENARIOS ! i) 0 = Some ?a" "interpolateScenario (INTRO_SCENARIOS ! i) 1 = Some ?b"
    by (simp_all add: eq)
  have mixes: "ss_networkDifficulty (mix_state ?a ?b ?t) = mix (ss_networkDifficulty ?a) (ss_networkDifficulty ?b) ?t"
    "ss_btcPrice (mix_state ?a ?b ?t) = mix (ss_btcPrice ?a) (ss_btcPrice ?b) ?t"
    "blockSubsidy (mix_state ?a ?b ?t) = mix (blockSubsidy ?a) (blockSubsidy ?b) ?t"
    by (simp_all add: mix_state_def)
  show ?thesis
    using ends eq [of q] next_start first mixed [OF mixes(1)] mixed [OF mixes(2)] mixed [OF mixes(3)]
    by (intro exI [of _ ?a] exI [of _ ?b] exI [of _ "mix_state ?a ?b ?t"]) simp
qed

theorem intro_continuous_witness:
  "interpolateScenario (INTRO_SCENARIOS ! 1) 0 = interpolateScenario (INTRO_SCENARIOS ! 0) 1"
proof -
  have "(0 :: nat) < length INTRO_SCENARIOS" by simp
  from intro_continuous [OF this, of 0] show ?thesis by auto
qed

section \<open>Chart data\<close>

lemma boundaries_value: "getScenarioBoundaries INTRO_SCENARIOS = [0, 9000, 17000, 25000, 34000, 42000, 51000, 60000, 70000]"
  by (simp add: getScenarioBoundaries_def INTRO_SCENARIOS_def)

lemma boundaries_eq: "boundaries = [0, 9000, 17000, 25000, 34000, 42000, 51000, 60000, 70000]"
  by (simp add: boundaries_def boundaries_value)

lemma index_boundaries: "i < 8 \<Longrightarrow> index boundaries i = Some (boundaries ! i)"
  by (simp add: index_def boundaries_eq)

lemma index_scenarios: "i < 8 \<Longrightarrow> index INTRO_SCENARIOS i = Some (INTRO_SCENARIOS ! i)"
  by (simp add: index_def)

lemma totalDur_value: "totalDur = 70000"
  by (simp add: totalDur_def getTotalDuration_def INTRO_SCENARIOS_def)

lemma scenario_index_less: "scenario_index t < 8"
proof -
  have "scan_scenario bs 8 t i < 8" for bs i by (induction i) auto
  then show ?thesis by (simp add: scenario_index_def Let_def)
qed

lemma scenario_index_boundary: "i < 8 \<Longrightarrow> scenario_index (boundaries ! i) = i"
proof -
  assume "i < 8"
  then have "i \<in> {0, 1, 2, 3, 4, 5, 6, 7}" by auto
  then show ?thesis by (auto simp: scenario_index_def boundaries_def boundaries_value eval_nat_numeral)
qed

lemma interpolate_some:
  assumes "i < 8"
  obtains s where "interpolateScenario (INTRO_SCENARIOS ! i) q = Some s"
  using interpolate_kf [OF scenario_kf [OF assms]] by blast

lemma chart_point_some:
  obtains p where "chart_point t = Some p" "cd_time p = t"
proof -
  let ?i = "scenario_index t"
  have i: "?i < 8" by (rule scenario_index_less)
  obtain s where "interpolateScenario (INTRO_SCENARIOS ! ?i) (min 1 ((t - boundaries ! ?i) / durationMs (INTRO_SCENARIOS ! ?i))) = Some s"
    by (rule interpolate_some [OF i])
  then show thesis using i that
    by (auto simp: chart_point_def index_def boundaries_def boundaries_value)
qed

definition sampled :: "real \<Rightarrow> ChartDataPoint list \<Rightarrow> bool" where
  "sampled u ps \<longleftrightarrow> sorted_wrt (\<lambda>p q. cd_time p < cd_time q) ps
     \<and> (\<forall>p \<in> set ps. chart_point (cd_time p) = Some p \<and> 0 \<le> cd_time p \<and> cd_time p \<le> u)"

lemma chart_loop_sampled:
  "\<exists>ps. chart_loop u t = Some ps \<and> sorted_wrt (\<lambda>p q. cd_time p < cd_time q) ps
     \<and> (\<forall>p \<in> set ps. chart_point (cd_time p) = Some p \<and> t \<le> cd_time p \<and> cd_time p \<le> u)"
proof (induction u t rule: chart_loop.induct)
  case (1 u t)
  show ?case
  proof (cases "t \<le> u")
    case True
    obtain p where p: "chart_point t = Some p" "cd_time p = t" by (rule chart_point_some)
    obtain ps where ps: "chart_loop u (t + 333) = Some ps" "sorted_wrt (\<lambda>p q. cd_time p < cd_time q) ps"
      "\<forall>p \<in> set ps. chart_point (cd_time p) = Some p \<and> t + 333 \<le> cd_time p \<and> cd_time p \<le> u"
      using 1 [OF True p(1)] by blast
    have "chart_loop u t = Some (p # ps)" using True p ps(1) by (simp add: chart_loop.simps [of u t])
    then show ?thesis using p ps True by (intro exI [of _ "p # ps"]) fastforce
  next
    case False
    then show ?thesis by (simp add: chart_loop.simps [of u t])
  qed
qed

lemma computeChartDataUpTo_sampled:
  obtains ps where "computeChartDataUpTo u = Some ps" "sampled u ps"
  using chart_loop_sampled [of u 0] by (auto simp: computeChartDataUpTo_def sampled_def)

section \<open>The states of the player\<close>

lemma start_pps: "SCENARIO_START_PPS = Some (map computeScenarioPpsValue [S0, S1, S2, S3, S4, S5, S6, S7])"
  by (simp add: SCENARIO_START_PPS_def INTRO_SCENARIOS_def interpolate_kf)

text \<open>The point of the chart at a time, given the state the scenario is in there.\<close>

definition point_of :: "real \<Rightarrow> ScenarioState \<Rightarrow> nat \<Rightarrow> ChartDataPoint" where
  "point_of t s i = \<lparr>cd_time = t, cd_pps = computeScenarioPpsValue s, cd_networkDifficulty = ss_networkDifficulty s,
     cd_btcPrice = ss_btcPrice s, cd_scenarioIndex = i\<rparr>"

lemma point_of_time [simp]: "cd_time (point_of t s i) = t"
  by (simp add: point_of_def)

lemma chart_point_at:
  assumes "i = scenario_index t" "interpolateScenario (INTRO_SCENARIOS ! i) ((t - boundaries ! i) / durationMs (INTRO_SCENARIOS ! i)) = Some s"
  shows "chart_point t = Some (point_of t s i)"
proof -
  have i: "i < 8" using assms(1) scenario_index_less by simp
  then have "interpolateScenario (INTRO_SCENARIOS ! i) (min 1 ((t - boundaries ! i) / durationMs (INTRO_SCENARIOS ! i))) = Some s"
    using assms(2) by (simp add: interpolate_kf [OF scenario_kf])
  then show ?thesis using i assms(1) by (simp add: chart_point_def index_def boundaries_def boundaries_value point_of_def)
qed

definition ui_shows :: "UiState \<Rightarrow> bool" where
  "ui_shows ui \<longleftrightarrow> 0 \<le> ui_elapsedMs ui
     \<and> chart_point (ui_elapsedMs ui) = Some (point_of (ui_elapsedMs ui) (ui_currentState ui) (ui_scenarioIndex ui))
     \<and> ui_currentPps ui = computeScenarioPpsValue (ui_currentState ui)
     \<and> Some (ui_scenarioStartPps ui) = Option.bind SCENARIO_START_PPS (\<lambda>sps. index sps (ui_scenarioIndex ui))
     \<and> sampled (ui_elapsedMs ui) (ui_chartData ui)"

definition player_inv :: "player \<Rightarrow> bool" where
  "player_inv p \<longleftrightarrow> playStateRef p \<noteq> Idle \<and> ui_playState (player_ui p) = playStateRef p
     \<and> 0 \<le> lastDataPointRef p \<and> lastDataPointRef p \<le> elapsedRef p
     \<and> (playStateRef p = Completed \<longrightarrow> elapsedRef p = totalDur)
     \<and> (playStateRef p \<noteq> Completed \<longrightarrow> elapsedRef p < totalDur \<and> (\<forall>pt \<in> set (chartDataRef p). cd_time pt \<le> lastDataPointRef p))
     \<and> sampled (elapsedRef p) (chartDataRef p) \<and> ui_shows (player_ui p) \<and> ui_elapsedMs (player_ui p) \<le> elapsedRef p"

lemma sampled_Nil [simp]: "sampled u []"
  by (simp add: sampled_def)

lemma sampled_later: "sampled u ps \<Longrightarrow> u \<le> v \<Longrightarrow> sampled v ps"
  by (auto simp: sampled_def)

lemma sampled_snoc:
  assumes "sampled u ps" "\<forall>pt \<in> set ps. cd_time pt < t" "chart_point t = Some (point_of t s i)" "0 \<le> t" "u \<le> t"
  shows "sampled t (ps @ [point_of t s i])"
  using assms unfolding sampled_def by (fastforce simp: sorted_wrt_append)

lemma ui_shows_play_state [simp]: "ui_shows (ui\<lparr>ui_playState := ps\<rparr>) = ui_shows ui"
  by (simp add: ui_shows_def)

lemma chart_point_boundary:
  assumes "i < 8"
  shows "chart_point (boundaries ! i) = Some (point_of (boundaries ! i) (chained_states ! i) i)"
  using interpolate_kf [OF scenario_kf [OF assms], of 0] by (intro chart_point_at) (simp_all add: scenario_index_boundary [OF assms])

lemma chart_point_zero: "chart_point 0 = Some (point_of 0 S0 0)"
  using chart_point_boundary [of 0] by (simp add: boundaries_def boundaries_value chained_states_def)

lemma start_ui_shows:
  "\<exists>ui. start_ui ps = Some ui \<and> ui_shows ui \<and> ui_playState ui = ps \<and> ui_elapsedMs ui = 0"
  by (simp add: start_ui_def start_pps index_def ui_shows_def chart_point_zero BASELINE_PPS_def INITIAL_STATE_def S0_def)

lemma initial_inv: "\<exists>p. initial_player = Some p \<and> player_inv (player_auto_start p)"
proof -
  obtain ui where "start_ui Idle = Some ui" "ui_shows ui" "ui_elapsedMs ui = 0" using start_ui_shows by blast
  then show ?thesis by (simp add: initial_player_def player_auto_start_def player_inv_def totalDur_value)
qed

lemma complete_frame_inv:
  assumes "player_inv p" "playStateRef p = Playing"
  shows "\<exists>q. complete_frame p = Some q \<and> player_inv q \<and> playStateRef q = Completed"
proof -
  have s: "interpolateScenario (INTRO_SCENARIOS ! 7) 1 = Some S8"
    using interpolate_kf [OF scenario_kf [of 7], of 1] by (simp add: chained_states_def)
  have si: "scenario_index totalDur = 7"
    by (simp add: scenario_index_def boundaries_value totalDur_value eval_nat_numeral)
  have d: "durationMs (INTRO_SCENARIOS ! 7) = 10000" "boundaries ! 7 = 60000"
    by (simp_all add: INTRO_SCENARIOS_def boundaries_eq)
  have pt: "chart_point totalDur = Some (point_of totalDur S8 7)"
    by (rule chart_point_at) (use s si d in \<open>simp_all add: totalDur_value\<close>)
  have "sampled totalDur (chartDataRef p @ [point_of totalDur S8 7])"
    using assms by (intro sampled_snoc [OF _ _ pt]) (fastforce simp: player_inv_def totalDur_value)+
  then show ?thesis using assms s pt
    by (simp add: complete_frame_def start_pps index_def player_inv_def ui_shows_def point_of_def Let_def)
qed

lemma running_frame_inv:
  assumes "player_inv p" "playStateRef p = Playing" "elapsedRef p \<le> e" "e < totalDur"
  shows "\<exists>q. running_frame now e p = Some q \<and> player_inv q \<and> playStateRef q = Playing \<and> elapsedRef q = e"
proof -
  let ?i = "scenario_index e"
  have i: "?i < 8" by (rule scenario_index_less)
  obtain s where s: "interpolateScenario (INTRO_SCENARIOS ! ?i) ((e - boundaries ! ?i) / durationMs (INTRO_SCENARIOS ! ?i)) = Some s"
    by (rule interpolate_some [OF i])
  have pt: "chart_point e = Some (point_of e s ?i)" by (rule chart_point_at) (use s in simp_all)
  have inv: "0 \<le> lastDataPointRef p" "lastDataPointRef p \<le> e" "\<forall>pt \<in> set (chartDataRef p). cd_time pt \<le> lastDataPointRef p"
    "sampled (elapsedRef p) (chartDataRef p)" "ui_shows (player_ui p)" "ui_elapsedMs (player_ui p) \<le> e" "ui_playState (player_ui p) = Playing"
    using assms by (simp_all add: player_inv_def)
  have old: "sampled e (chartDataRef p)" using inv assms(3) by (blast intro: sampled_later)
  have new: "sampled e (chartDataRef p @ [point_of e s ?i])" if "333 \<le> e - lastDataPointRef p"
    using inv assms that by (intro sampled_snoc [OF _ _ pt]) force+
  obtain sps sp where sp: "SCENARIO_START_PPS = Some sps" "index sps ?i = Some sp"
    using i by (auto simp: start_pps index_def)
  note ix = index_boundaries [OF i] index_scenarios [OF i]
  have later: "\<forall>pt \<in> set (chartDataRef p). cd_time pt \<le> e" using inv by force
  have "0 \<le> e" using inv by simp
  then show ?thesis
    using inv assms(2,4) pt old new later
    by (cases "333 \<le> e - lastDataPointRef p"; cases "100 \<le> now - lastUiUpdateRef p")
      (simp_all add: s sp ix running_frame_def player_inv_def ui_shows_def point_of_def Let_def)
qed

lemma player_frame_inv:
  assumes "player_inv p" "0 \<le> dt"
  obtains q where "player_frame now dt p = Some q" "player_inv q" "elapsedRef p \<le> elapsedRef q"
    "playStateRef p = Playing \<Longrightarrow> playStateRef q = Completed
      \<or> playStateRef q = Playing \<and> elapsedRef q = elapsedRef p + min dt (1 / 10) * 1000"
proof -
  let ?e = "elapsedRef p + min dt (1 / 10) * 1000"
  consider (still) "playStateRef p \<noteq> Playing" | (ends) "playStateRef p = Playing" "totalDur \<le> ?e"
    | (on) "playStateRef p = Playing" "?e < totalDur" by fastforce
  then show thesis
  proof cases
    case still
    then show thesis using that assms(1) by (simp add: player_frame_def)
  next
    case ends
    obtain q where q: "complete_frame p = Some q" "player_inv q" "playStateRef q = Completed"
      using complete_frame_inv [OF assms(1) ends(1)] by blast
    moreover have "elapsedRef p \<le> elapsedRef q" using assms(1) ends(1) q by (simp add: player_inv_def)
    ultimately show thesis using that ends by (simp add: player_frame_def Let_def)
  next
    case on
    have "elapsedRef p \<le> ?e" using assms(2) by simp
    from running_frame_inv [OF assms(1) on(1) this on(2)] that on this show thesis
      by (fastforce simp: player_frame_def Let_def)
  qed
qed

lemma play_pause_inv:
  assumes "player_inv p"
  shows "\<exists>q. handlePlayPause p = Some q \<and> player_inv q"
proof (cases "playStateRef p")
  case Completed
  obtain ui where "start_ui Playing = Some ui" "ui_shows ui" "ui_playState ui = Playing" "ui_elapsedMs ui = 0"
    using start_ui_shows by blast
  then show ?thesis using assms Completed by (simp add: handlePlayPause_def player_inv_def totalDur_value)
qed (use assms in \<open>simp_all add: handlePlayPause_def player_inv_def\<close>)

lemma restart_inv: "\<exists>q. handleRestart p = Some q \<and> player_inv q"
proof -
  obtain ui where "start_ui Playing = Some ui" "ui_shows ui" "ui_playState ui = Playing" "ui_elapsedMs ui = 0"
    using start_ui_shows by blast
  then show ?thesis by (simp add: handleRestart_def player_inv_def totalDur_value)
qed

lemma jump_inv:
  assumes "player_inv p" "i < 8"
  shows "\<exists>q. handleJumpTo i p = Some q \<and> player_inv q \<and> ui_elapsedMs (player_ui q) = boundaries ! i"
proof -
  let ?t = "boundaries ! i"
  obtain ps where ps: "computeChartDataUpTo ?t = Some ps" "sampled ?t ps" by (rule computeChartDataUpTo_sampled)
  have s: "interpolateScenario (INTRO_SCENARIOS ! i) 0 = Some (chained_states ! i)"
    using interpolate_kf [OF scenario_kf [OF assms(2)], of 0] by simp
  have "i \<in> {0, 1, 2, 3, 4, 5, 6, 7}" using assms(2) by auto
  then have t: "0 \<le> ?t" "?t < totalDur" by (auto simp: boundaries_eq totalDur_value)
  obtain sps sp where sp: "SCENARIO_START_PPS = Some sps" "index sps i = Some sp"
    using assms(2) by (auto simp: start_pps index_def)
  note ix = index_boundaries [OF assms(2)] index_scenarios [OF assms(2)]
  have "\<forall>pt \<in> set ps. cd_time pt \<le> ?t" using ps(2) by (simp add: sampled_def)
  then show ?thesis using assms ps(2) t chart_point_boundary [OF assms(2)]
    by (cases "playStateRef p") (simp_all add: ps(1) s sp ix handleJumpTo_def player_inv_def ui_shows_def Let_def)
qed

lemma step_inv:
  assumes "player_inv p" "player_step p r"
  shows "\<exists>q. r = Some q \<and> player_inv q"
  using assms(2)
proof (cases rule: player_step.cases)
  case (frame dt now)
  then show ?thesis using player_frame_inv [OF assms(1)] by metis
next
  case play_pause
  then show ?thesis using play_pause_inv [OF assms(1)] by simp
next
  case restart
  then show ?thesis using restart_inv by simp
next
  case (jump i)
  then show ?thesis using jump_inv [OF assms(1)] by fastforce
qed

lemma played_inv: "played p \<Longrightarrow> player_inv p"
proof (induction rule: played.induct)
  case (mounted p0)
  obtain p where "initial_player = Some p" "player_inv (player_auto_start p)" using initial_inv by blast
  then show ?case using mounted by (metis option.inject)
next
  case (stepped p q)
  then show ?case using step_inv by blast
qed

text \<open>
  C27: the introduction shows the same story however it is steered. After any sequence of frames, pauses,
  restarts and jumps the figures on the screen are those of the scenario at the time shown, the
  points of the chart are in the order of their times and each is the one its time determines, the
  buttons show the state the frames act on, and no further step throws.
\<close>

theorem intro_path_independent:
  assumes "played p" "player_step p r"
  shows "(\<exists>q. r = Some q \<and> played q)
    \<and> ui_playState (player_ui p) = playStateRef p \<and> (playStateRef p = Completed \<longleftrightarrow> elapsedRef p = totalDur)
    \<and> 0 \<le> ui_elapsedMs (player_ui p) \<and> ui_elapsedMs (player_ui p) \<le> elapsedRef p \<and> elapsedRef p \<le> totalDur
    \<and> (\<exists>pt. chart_point (ui_elapsedMs (player_ui p)) = Some pt \<and> cd_pps pt = ui_currentPps (player_ui p)
          \<and> cd_networkDifficulty pt = ss_networkDifficulty (ui_currentState (player_ui p))
          \<and> cd_btcPrice pt = ss_btcPrice (ui_currentState (player_ui p)) \<and> cd_scenarioIndex pt = ui_scenarioIndex (player_ui p))
    \<and> sorted_wrt (\<lambda>a b. cd_time a < cd_time b) (ui_chartData (player_ui p))
    \<and> (\<forall>pt \<in> set (ui_chartData (player_ui p)). chart_point (cd_time pt) = Some pt \<and> cd_time pt \<le> ui_elapsedMs (player_ui p))"
proof -
  have inv: "player_inv p" by (rule played_inv [OF assms(1)])
  obtain q where "r = Some q" using step_inv [OF inv assms(2)] by blast
  then have step: "\<exists>q. r = Some q \<and> played q" using assms stepped by blast
  let ?ui = "player_ui p"
  have shows_ui: "ui_shows ?ui" and bounds: "ui_elapsedMs ?ui \<le> elapsedRef p" "elapsedRef p \<le> totalDur"
    and state: "ui_playState ?ui = playStateRef p" "playStateRef p = Completed \<longleftrightarrow> elapsedRef p = totalDur"
    using inv by (auto simp: player_inv_def)
  show ?thesis using step shows_ui bounds state by (simp add: ui_shows_def sampled_def point_of_def)
qed

lemma first_played: "played (player_auto_start (the initial_player))"
proof -
  obtain p where "initial_player = Some p" using initial_inv by blast
  then show ?thesis by (metis mounted option.sel)
qed

theorem intro_path_independent_witness:
  "\<exists>q. handleJumpTo 3 (player_auto_start (the initial_player)) = Some q \<and> played q"
proof -
  have "player_step (player_auto_start (the initial_player)) (handleJumpTo 3 (player_auto_start (the initial_player)))"
    by (rule jump) simp
  from intro_path_independent [OF first_played this] show ?thesis by blast
qed

section \<open>Playing to the end\<close>

fun play_frames :: "(real \<times> real) list \<Rightarrow> player \<Rightarrow> player option" where
  "play_frames [] p = Some p"
| "play_frames ((now, dt) # fs) p = Option.bind (player_frame now dt p) (play_frames fs)"

lemma completed_stays: "playStateRef p = Completed \<Longrightarrow> play_frames fs p = Some p"
  by (induction fs) (auto simp: player_frame_def)

lemma frames_complete:
  assumes "0 < d" "d \<le> 1 / 10"
  shows "player_inv p \<Longrightarrow> playStateRef p = Playing \<Longrightarrow> \<forall>(now, dt) \<in> set fs. d \<le> dt
    \<Longrightarrow> totalDur \<le> elapsedRef p + real (length fs) * (d * 1000) \<Longrightarrow> \<exists>q. play_frames fs p = Some q \<and> player_inv q \<and> playStateRef q = Completed"
proof (induction fs arbitrary: p)
  case Nil
  then show ?case by (simp add: player_inv_def)
next
  case (Cons f fs)
  obtain now dt where f: "f = (now, dt)" by (cases f)
  obtain q where q: "player_frame now dt p = Some q" "player_inv q"
    "playStateRef q = Completed \<or> playStateRef q = Playing \<and> elapsedRef p + d * 1000 \<le> elapsedRef q"
    using player_frame_inv [OF Cons.prems(1), of dt now] Cons.prems(2,3) assms f by force
  show ?case
  proof (cases "playStateRef q = Completed")
    case True
    then show ?thesis using q f completed_stays by simp
  next
    case False
    then have "totalDur \<le> elapsedRef q + real (length fs) * (d * 1000)" "playStateRef q = Playing"
      using q(3) Cons.prems(4) by (auto simp: algebra_simps)
    then show ?thesis using Cons.IH [OF q(2)] Cons.prems(3) q(1) f by auto
  qed
qed

text \<open>
  The introduction comes to its end. From any playing state, frames that bring at least \<open>d\<close> seconds
  each complete it once there are 70 / \<open>d\<close> of them: the last state is that of the last
  scenario, and it is shown with the whole chart.
\<close>

theorem intro_completes:
  assumes "played p" "playStateRef p = Playing" "0 < d" "d \<le> 1 / 10" "\<forall>(now, dt) \<in> set fs. d \<le> dt" "70 / d \<le> real (length fs)"
  shows "\<exists>q. play_frames fs p = Some q \<and> ui_playState (player_ui q) = Completed \<and> elapsedRef q = 70000
    \<and> sampled 70000 (chartDataRef q)"
proof -
  have inv: "player_inv p" by (rule played_inv [OF assms(1)])
  have "70 \<le> real (length fs) * d" using assms(3,6) by (simp add: pos_divide_le_eq)
  then have "totalDur \<le> elapsedRef p + real (length fs) * (d * 1000)"
    using inv by (simp add: totalDur_value player_inv_def)
  from frames_complete [OF assms(3,4) inv assms(2,5) this]
  show ?thesis by (auto simp: player_inv_def totalDur_value)
qed

theorem intro_completes_witness:
  "\<exists>q. play_frames (replicate 700 (0, 1 / 10)) (player_auto_start (the initial_player)) = Some q
    \<and> ui_playState (player_ui q) = Completed"
proof -
  have "playStateRef (player_auto_start (the initial_player)) = Playing" by (simp add: player_auto_start_def)
  from intro_completes [OF first_played this, of "1 / 10" "replicate 700 (0, 1 / 10)"] show ?thesis by auto
qed

text \<open>
  The shared frame loop delivers what the player needs: a frame it calls with never throws and
  never turns the clock back.
\<close>

theorem delivered_frame:
  assumes "looped l" "(cb, now, dt) \<in> set (calls l)" "played p"
  shows "\<exists>q. player_frame t dt p = Some q \<and> played q \<and> elapsedRef p \<le> elapsedRef q \<and> elapsedRef q \<le> totalDur"
proof -
  have dt: "0 \<le> dt" by (rule looped_dt [OF assms(1,2)])
  obtain q where q: "player_frame t dt p = Some q" "player_inv q" "elapsedRef p \<le> elapsedRef q"
    using player_frame_inv [OF played_inv [OF assms(3)] dt] by metis
  moreover have "played q" using assms(3) frame [OF dt, of p t] q(1) stepped by metis
  moreover have "elapsedRef q \<le> totalDur" using q(2) unfolding player_inv_def by linarith
  ultimately show ?thesis by blast
qed

text \<open>
  The change the last scenario announces is \<open>+124%\<close>. The share value it computes rises by between
  124.6% and 124.7%, which the other scenarios' rounding shows as 125, and ends 1.1% above the baseline.
\<close>

lemma equilibrium_change:
  "\<exists>a b c. computeScenarioPpsValue S7 = Fin a \<and> computeScenarioPpsValue S8 = Fin b \<and> BASELINE_PPS = Fin c
    \<and> 1246 / 1000 < (b - a) / a \<and> (b - a) / a < 1247 / 1000 \<and> 1 / 100 < (b - c) / c
    \<and> ppsChange (metrics (INTRO_SCENARIOS ! 7)) = ''+124%''"
proof (intro exI conjI)
  show "computeScenarioPpsValue S7 = Fin (55770 * (15625 / 10000) / (6885 / 100 * 10 ^ 12) * 355555556)"
    by (simp add: computeScenarioPpsValue_def computeTheoreticalValue_def S7_def SHARE_DIFF_def)
  show "computeScenarioPpsValue S8 = Fin (91460 * (15625 / 10000) / (5026 / 100 * 10 ^ 12) * 355555556)"
    by (simp add: computeScenarioPpsValue_def computeTheoreticalValue_def S8_def SHARE_DIFF_def)
  show "BASELINE_PPS = Fin (90000 * (3125 / 1000) / (100 * 10 ^ 12) * 355555556)"
    by (simp add: BASELINE_PPS_def computeScenarioPpsValue_def computeTheoreticalValue_def S0_def SHARE_DIFF_def)
qed (simp_all add: INTRO_SCENARIOS_def)

end
