(* ===== verification/Intro_View.thy ===== *)
theory Intro_View
  imports Intro_Player
begin

text \<open>
  Model of what the guided introduction draws: the segmented progress bar of
  \<open>web/components/IntroTimeline.tsx\<close>, the chart of \<open>web/components/IntroScenarioChart.tsx\<close> (its ranges, scales
  and strokes) and the figures' colours of \<open>web/components/IntroScenarioCard.tsx\<close>. The width of the
  container is a parameter; fonts, labels and the canvas calls that only decorate are not
  modelled.
\<close>

definition BASELINE_DIFF :: number where "BASELINE_DIFF = Fin (ss_networkDifficulty S0)"
definition BASELINE_BTC :: number where "BASELINE_BTC = Fin (ss_btcPrice S0)"

section \<open>The timeline\<close>

definition seg_width :: "real \<Rightarrow> real \<Rightarrow> real \<Rightarrow> number" where
  "seg_width tot segStart segEnd = (Fin (segEnd - segStart) / Fin tot) * 100"

definition seg_fill :: "real \<Rightarrow> real \<Rightarrow> real \<Rightarrow> number" where
  "seg_fill elapsedMs segStart segEnd =
     (if segEnd \<le> elapsedMs then 100
      else if segStart < elapsedMs then (Fin (elapsedMs - segStart) / Fin (segEnd - segStart)) * 100
      else 0)"

definition timeline :: "IntroScenario list \<Rightarrow> real \<Rightarrow> (number \<times> number) list" where
  "timeline scenarios elapsedMs =
     (let bs = getScenarioBoundaries scenarios; tot = getTotalDuration scenarios
      in map (\<lambda>i. (seg_width tot (bs ! i) (bs ! Suc i), seg_fill elapsedMs (bs ! i) (bs ! Suc i))) [0..<length scenarios])"

lemma boundaries_from_length [simp]: "length (boundaries_from acc ss) = length ss"
  by (induction ss arbitrary: acc) simp_all

lemma total_from: "foldl (\<lambda>s sc. s + durationMs sc) acc ss = last (acc # boundaries_from acc ss)"
  by (induction ss arbitrary: acc) auto

lemma boundaries_step:
  "i < length ss \<Longrightarrow> \<forall>s \<in> set ss. 0 < durationMs s \<Longrightarrow> (acc # boundaries_from acc ss) ! i < (acc # boundaries_from acc ss) ! Suc i"
proof (induction ss arbitrary: acc i)
  case (Cons s ss)
  then show ?case by (cases i) (auto simp: nth_Cons')
qed simp

text \<open>The share of the bar that is coloured in one segment, as a clamped difference.\<close>

lemma segment_share:
  assumes "a < b" "0 < tot"
  shows "seg_width tot a b * seg_fill e a b / 100 = Fin ((min (max e a) b - a) / tot * 100)"
proof -
  have w: "seg_width tot a b = Fin ((b - a) / tot * 100)" using assms by (simp add: seg_width_def del: times_divide_eq_left)
  have "seg_fill e a b = Fin ((min (max e a) b - a) / (b - a) * 100)"
    using assms by (auto simp: seg_fill_def simp del: times_divide_eq_left)
  then show ?thesis using w assms by (simp add: field_simps)
qed

lemma clamp_step: "a \<le> b \<Longrightarrow> min (max e a) b - a = min e b - min e (a :: real)"
  by (auto simp: min_def max_def)

text \<open>
  The progress bar is exact. For scenarios of positive lengths the coloured parts of the segments,
  each in proportion to its width, add up to the elapsed share of the whole time.
\<close>

theorem timeline_exact:
  assumes "scenarios \<noteq> []" "\<forall>s \<in> set scenarios. 0 < durationMs s" "0 \<le> e" "e \<le> getTotalDuration scenarios"
  shows "sum_num (\<lambda>(w, f). w * f / 100) (timeline scenarios e) = Fin (e / getTotalDuration scenarios * 100)"
proof -
  let ?b = "\<lambda>i. getScenarioBoundaries scenarios ! i" and ?T = "getTotalDuration scenarios" and ?n = "length scenarios"
  have step: "?b i < ?b (Suc i)" if "i < ?n" for i
    using boundaries_step [OF that assms(2), of 0] by (simp add: getScenarioBoundaries_def)
  have top: "?T = ?b ?n" by (simp add: getTotalDuration_def total_from getScenarioBoundaries_def last_conv_nth [of "0 # boundaries_from 0 scenarios"] del: last.simps)
  have bot: "?b 0 = 0" by (simp add: getScenarioBoundaries_def)
  have up: "j < ?n \<Longrightarrow> 0 < ?b (Suc j)" for j
  proof (induction j)
    case 0
    then show ?case using step [of 0] bot by simp
  next
    case (Suc j)
    then show ?case using step [of "Suc j"] by simp
  qed
  have T: "0 < ?T" using up [of "?n - 1"] assms(1) unfolding top by simp
  have share: "(case (seg_width ?T (?b i) (?b (Suc i)), seg_fill e (?b i) (?b (Suc i))) of (w, f) \<Rightarrow> w * f / 100)
      = Fin ((min e (?b (Suc i)) - min e (?b i)) / ?T * 100)" if "i \<in> set [0..<?n]" for i
  proof -
    have "?b i < ?b (Suc i)" using step that by simp
    then show ?thesis using segment_share [OF _ T] clamp_step by simp
  qed
  have "sum_num (\<lambda>(w, f). w * f / 100) (timeline scenarios e)
      = Fin (\<Sum>i \<leftarrow> [0..<?n]. (min e (?b (Suc i)) - min e (?b i)) / ?T * 100)"
    unfolding timeline_def Let_def sum_num_map by (rule sum_num_Fin) (rule share)
  also have "(\<Sum>i \<leftarrow> [0..<?n]. (min e (?b (Suc i)) - min e (?b i)) / ?T * 100) = (\<Sum>i<?n. min e (?b (Suc i)) - min e (?b i)) / ?T * 100"
    by (simp add: interv_sum_list_conv_sum_set_nat atLeast0LessThan sum_divide_distrib sum_distrib_right)
  also have "(\<Sum>i<?n. min e (?b (Suc i)) - min e (?b i)) = min e (?b ?n) - min e (?b 0)"
    by (rule sum_lessThan_telescope [of "\<lambda>i. min e (?b i)"])
  also have "\<dots> = e" using assms(3,4) top bot by simp
  finally show ?thesis .
qed

theorem timeline_exact_witness:
  "sum_num (\<lambda>(w, f). w * f / 100) (timeline INTRO_SCENARIOS 35000) = Fin 50"
proof -
  have d: "INTRO_SCENARIOS \<noteq> []" "\<forall>s \<in> set INTRO_SCENARIOS. 0 < durationMs s" by (simp_all add: INTRO_SCENARIOS_def)
  show ?thesis
    using timeline_exact [OF d, of 35000] totalDur_value by (simp add: totalDur_def)
qed

section \<open>The chart\<close>

definition pctFromBaseline :: "number \<Rightarrow> number \<Rightarrow> number" where
  "pctFromBaseline val baseline = ((val - baseline) / baseline) * 100"

definition pps_pct :: "ChartDataPoint \<Rightarrow> number" where "pps_pct pt = pctFromBaseline (cd_pps pt) BASELINE_PPS"
definition diff_pct :: "ChartDataPoint \<Rightarrow> number" where "diff_pct pt = pctFromBaseline (Fin (cd_networkDifficulty pt)) BASELINE_DIFF"
definition btc_pct :: "ChartDataPoint \<Rightarrow> number" where "btc_pct pt = pctFromBaseline (Fin (cd_btcPrice pt)) BASELINE_BTC"

definition widen :: "number \<times> number \<Rightarrow> ChartDataPoint \<Rightarrow> number \<times> number" where
  "widen r pt =
     (let lo = Math_min (Math_min (pps_pct pt) (diff_pct pt)) (btc_pct pt); hi = Math_max (Math_max (pps_pct pt) (diff_pct pt)) (btc_pct pt)
      in (if lo < fst r then lo else fst r, if snd r < hi then hi else snd r))"

definition chart_range :: "ChartDataPoint list \<Rightarrow> number \<times> number" where
  "chart_range data =
     (let r = foldl widen (0, 0) data;
          d = snd r - fst r;
          pctRange = (if falsy d then 50 else d)
      in (fst r - pctRange * Fin (12 / 100), snd r + pctRange * Fin (12 / 100)))"

definition chartW :: "real \<Rightarrow> real" where "chartW width = width - 55 - 90"
definition chartH :: real where "chartH = 360 - 30 - 55"

definition xOf :: "real \<Rightarrow> real \<Rightarrow> number" where
  "xOf width t = 55 + (Fin t / Fin totalDur) * Fin (chartW width)"

definition yOf :: "number \<times> number \<Rightarrow> number \<Rightarrow> number" where
  "yOf r pct = (let d = snd r - fst r in 30 + Fin chartH - ((pct - fst r) / (if falsy d then 1 else d)) * Fin chartH)"

fun line_color :: "Sentiment \<Rightarrow> string" where
  "line_color Bullish = ''#22c55e''"
| "line_color Bearish = ''#ef4444''"
| "line_color Recovery = ''#3b82f6''"

record stroke =
  strokeStyle :: string
  stroke_from :: "number \<times> number"
  stroke_to :: "number \<times> number"

definition stroke_color :: "string option \<Rightarrow> ChartDataPoint \<Rightarrow> ChartDataPoint \<Rightarrow> string option" where
  "stroke_color color prev cur =
     (case color of Some c \<Rightarrow> Some c
      | None \<Rightarrow> (case index INTRO_SCENARIOS (cd_scenarioIndex cur) of
            Some sc \<Rightarrow> Some (line_color (sentiment sc))
          | None \<Rightarrow> map_option (\<lambda>sc. line_color (sentiment sc)) (index INTRO_SCENARIOS (cd_scenarioIndex prev))))"

fun drawLine :: "real \<Rightarrow> number \<times> number \<Rightarrow> string option \<Rightarrow> (ChartDataPoint \<Rightarrow> number) \<Rightarrow> ChartDataPoint list \<Rightarrow> stroke list option" where
  "drawLine width r color getValue (prev # cur # pts) =
     do {
       c \<leftarrow> stroke_color color prev cur;
       rest \<leftarrow> drawLine width r color getValue (cur # pts);
       Some (\<lparr>strokeStyle = c, stroke_from = (xOf width (cd_time prev), yOf r (getValue prev)),
              stroke_to = (xOf width (cd_time cur), yOf r (getValue cur))\<rparr> # rest)
     }"
| "drawLine width r color getValue pts = Some []"

definition chart_strokes :: "real \<Rightarrow> ChartDataPoint list \<Rightarrow> stroke list option" where
  "chart_strokes width data =
     do {
       let r = chart_range data;
       d \<leftarrow> drawLine width r (Some ''#f97316'') diff_pct data;
       b \<leftarrow> drawLine width r (Some ''#a855f7'') btc_pct data;
       p \<leftarrow> drawLine width r None pps_pct data;
       Some (d @ b @ p)
     }"

subsection \<open>The points are finite\<close>

definition finite_point :: "ChartDataPoint \<Rightarrow> bool" where
  "finite_point pt \<longleftrightarrow> isFinite (pps_pct pt) \<and> isFinite (diff_pct pt) \<and> isFinite (btc_pct pt)
     \<and> cd_scenarioIndex pt < length INTRO_SCENARIOS"

lemma pps_Fin: "\<exists>x. computeScenarioPpsValue s = Fin x"
  by (cases "ss_networkDifficulty s \<le> 0") (simp_all add: computeScenarioPpsValue_def computeTheoreticalValue_def SHARE_DIFF_def)

lemma baselines: "BASELINE_DIFF = Fin (100 * 10 ^ 12)" "BASELINE_BTC = Fin 90000" "\<exists>x. BASELINE_PPS = Fin x \<and> x \<noteq> 0"
  by (simp_all add: BASELINE_DIFF_def BASELINE_BTC_def BASELINE_PPS_def S0_def computeScenarioPpsValue_def
      computeTheoreticalValue_def SHARE_DIFF_def exI [of _ "800000001 / 800000000"])

lemma pct_Fin: "\<exists>v. val = Fin v \<Longrightarrow> \<exists>x. b = Fin x \<and> x \<noteq> 0 \<Longrightarrow> isFinite (pctFromBaseline val b)"
  by (auto simp: pctFromBaseline_def)

lemma chart_point_finite: "chart_point t = Some pt \<Longrightarrow> finite_point pt"
  using scenario_index_less [of t] pps_Fin baselines
  by (auto simp: finite_point_def chart_point_def bind_eq_Some_conv Let_def pps_pct_def diff_pct_def btc_pct_def intro!: pct_Fin)

definition in_span :: "real \<Rightarrow> real \<Rightarrow> number \<Rightarrow> bool" where
  "in_span lo hi x \<longleftrightarrow> Fin lo \<le> x \<and> x \<le> Fin hi"

lemma in_span_Fin [simp]: "in_span lo hi (Fin x) \<longleftrightarrow> lo \<le> x \<and> x \<le> hi"
  by (simp add: in_span_def)

definition covers :: "real \<Rightarrow> real \<Rightarrow> ChartDataPoint \<Rightarrow> bool" where
  "covers lo hi pt \<longleftrightarrow> in_span lo hi (pps_pct pt) \<and> in_span lo hi (diff_pct pt) \<and> in_span lo hi (btc_pct pt)"

lemma in_span_mono: "in_span lo hi x \<Longrightarrow> lo' \<le> lo \<Longrightarrow> hi \<le> hi' \<Longrightarrow> in_span lo' hi' x"
  by (cases x) (auto simp: in_span_def)

lemma widen_covers:
  assumes "finite_point pt"
  obtains lo' hi' where "widen (Fin lo, Fin hi) pt = (Fin lo', Fin hi')" "lo' \<le> lo" "hi \<le> hi'" "covers lo' hi' pt"
proof -
  obtain p d b where pdb: "pps_pct pt = Fin p" "diff_pct pt = Fin d" "btc_pct pt = Fin b"
    using assms by (auto simp: finite_point_def isFinite_iff)
  show thesis
  proof (rule that)
    show "widen (Fin lo, Fin hi) pt = (Fin (min lo (min (min p d) b)), Fin (max hi (max (max p d) b)))"
      using pdb by (auto simp: widen_def Let_def min_def max_def)
  qed (use pdb in \<open>auto simp: covers_def\<close>)
qed

lemma range_covers:
  "\<forall>pt \<in> set data. finite_point pt \<Longrightarrow>
     \<exists>lo' hi'. foldl widen (Fin lo, Fin hi) data = (Fin lo', Fin hi') \<and> lo' \<le> lo \<and> hi \<le> hi' \<and> (\<forall>pt \<in> set data. covers lo' hi' pt)"
proof (induction data arbitrary: lo hi)
  case (Cons pt data)
  obtain l h where lh: "widen (Fin lo, Fin hi) pt = (Fin l, Fin h)" "l \<le> lo" "hi \<le> h" "covers l h pt"
    using widen_covers [of pt lo hi] Cons.prems by auto
  obtain l' h' where r: "foldl widen (Fin l, Fin h) data = (Fin l', Fin h')" "l' \<le> l" "h \<le> h'" "\<forall>pt \<in> set data. covers l' h' pt"
    using Cons.IH [of l h] Cons.prems by auto
  have "covers l' h' pt" using lh(4) r(2,3) by (auto simp: covers_def intro: in_span_mono)
  then show ?case using lh r by (intro exI [of _ l'] exI [of _ h']) auto
qed simp

lemma chart_range_covers:
  assumes "\<forall>pt \<in> set data. finite_point pt"
  obtains lo hi where "chart_range data = (Fin lo, Fin hi)" "lo < hi" "\<forall>pt \<in> set data. covers lo hi pt"
proof -
  obtain lo hi where r: "foldl widen (0, 0) data = (Fin lo, Fin hi)" "lo \<le> 0" "0 \<le> hi" "\<forall>pt \<in> set data. covers lo hi pt"
    using range_covers [OF assms, of 0 0] by auto
  define d where "d = (if hi = lo then 50 else hi - lo)"
  have d: "0 < d" using r by (auto simp: d_def)
  show thesis
  proof (rule that)
    show "chart_range data = (Fin (lo - d * (12 / 100)), Fin (hi + d * (12 / 100)))"
      using r by (simp add: chart_range_def d_def Let_def)
    have "lo - d * (12 / 100) \<le> lo" "hi \<le> hi + d * (12 / 100)" using d by simp_all
    then show "\<forall>pt \<in> set data. covers (lo - d * (12 / 100)) (hi + d * (12 / 100)) pt"
      using r(4) unfolding covers_def by (meson in_span_mono)
    show "lo - d * (12 / 100) < hi + d * (12 / 100)" using r d by (smt (verit) mult_pos_pos divide_pos_pos)
  qed
qed

lemma yOf_within:
  assumes "lo < hi" "in_span lo hi v"
  shows "in_span 30 305 (yOf (Fin lo, Fin hi) v)"
proof -
  obtain x where x: "v = Fin x" "lo \<le> x" "x \<le> hi" using assms(2) by (cases v) (auto simp: in_span_def)
  have "0 \<le> (x - lo) / (hi - lo)" "(x - lo) / (hi - lo) \<le> 1" using x assms(1) by simp_all
  then show ?thesis using x(1) assms(1) by (simp add: yOf_def chartH_def Let_def del: times_divide_eq_left)
qed

lemma xOf_within:
  assumes "145 \<le> w" "0 \<le> t" "t \<le> totalDur"
  shows "in_span 55 (55 + chartW w) (xOf w t)"
proof -
  have "0 \<le> t / totalDur" "t / totalDur \<le> 1" "0 \<le> chartW w" using assms by (simp_all add: totalDur_value chartW_def)
  then have "0 \<le> t / totalDur * chartW w" "t / totalDur * chartW w \<le> chartW w"
    using mult_nonneg_nonneg mult_left_le_one_le by blast+
  then show ?thesis by (simp add: xOf_def totalDur_value)
qed

definition in_frame :: "real \<Rightarrow> number \<times> number \<Rightarrow> bool" where
  "in_frame w p \<longleftrightarrow> in_span 55 (55 + chartW w) (fst p) \<and> in_span 30 305 (snd p)"

definition drawable :: "real \<Rightarrow> real \<Rightarrow> ChartDataPoint \<Rightarrow> bool" where
  "drawable lo hi pt \<longleftrightarrow> covers lo hi pt \<and> 0 \<le> cd_time pt \<and> cd_time pt \<le> totalDur \<and> cd_scenarioIndex pt < length INTRO_SCENARIOS"

lemma drawLine_in_frame:
  assumes "145 \<le> w" "lo < hi" "\<And>pt. covers lo hi pt \<Longrightarrow> in_span lo hi (f pt)"
  shows "\<forall>pt \<in> set data. drawable lo hi pt \<Longrightarrow>
    \<exists>ss. drawLine w (Fin lo, Fin hi) color f data = Some ss \<and> length ss = length data - 1
      \<and> (\<forall>s \<in> set ss. in_frame w (stroke_from s) \<and> in_frame w (stroke_to s))"
proof (induction data rule: induct_list012)
  case (3 prev cur pts)
  have d: "drawable lo hi prev" "drawable lo hi cur" using "3.prems" by simp_all
  obtain ss where ss: "drawLine w (Fin lo, Fin hi) color f (cur # pts) = Some ss" "length ss = length pts"
    "\<forall>s \<in> set ss. in_frame w (stroke_from s) \<and> in_frame w (stroke_to s)"
    using "3.IH"(2) "3.prems" by auto
  have at: "in_frame w (xOf w (cd_time pt), yOf (Fin lo, Fin hi) (f pt))" if "drawable lo hi pt" for pt
    using that assms xOf_within yOf_within by (simp add: in_frame_def drawable_def)
  obtain c where "stroke_color color prev cur = Some c"
    using d(2) by (cases color) (auto simp: stroke_color_def drawable_def index_def)
  then show ?case using ss at [OF d(1)] at [OF d(2)] by simp
qed simp_all

lemma chart_strokes_in_frame:
  assumes "145 \<le> w" "sampled u data" "u \<le> totalDur"
  shows "\<exists>ss. chart_strokes w data = Some ss \<and> length ss = 3 * (length data - 1)
    \<and> (\<forall>s \<in> set ss. in_frame w (stroke_from s) \<and> in_frame w (stroke_to s))"
proof -
  have fin: "finite_point pt \<and> 0 \<le> cd_time pt \<and> cd_time pt \<le> totalDur" if "pt \<in> set data" for pt
    using assms(2,3) that chart_point_finite [of "cd_time pt" pt] by (auto simp: sampled_def)
  then have "\<forall>pt \<in> set data. finite_point pt" by blast
  then obtain lo hi where r: "chart_range data = (Fin lo, Fin hi)" "lo < hi" "\<forall>pt \<in> set data. covers lo hi pt"
    by (rule chart_range_covers)
  have dr: "\<forall>pt \<in> set data. drawable lo hi pt" using fin r(3) by (auto simp: drawable_def finite_point_def)
  note line = drawLine_in_frame [OF assms(1) r(2) _ dr]
  obtain a where "drawLine w (Fin lo, Fin hi) (Some ''#f97316'') diff_pct data = Some a" "length a = length data - 1"
    "\<forall>s \<in> set a. in_frame w (stroke_from s) \<and> in_frame w (stroke_to s)"
    using line [of diff_pct "Some ''#f97316''"] by (auto simp: covers_def)
  moreover obtain b where "drawLine w (Fin lo, Fin hi) (Some ''#a855f7'') btc_pct data = Some b" "length b = length data - 1"
    "\<forall>s \<in> set b. in_frame w (stroke_from s) \<and> in_frame w (stroke_to s)"
    using line [of btc_pct "Some ''#a855f7''"] by (auto simp: covers_def)
  moreover obtain c where "drawLine w (Fin lo, Fin hi) None pps_pct data = Some c" "length c = length data - 1"
    "\<forall>s \<in> set c. in_frame w (stroke_from s) \<and> in_frame w (stroke_to s)"
    using line [of pps_pct None] by (auto simp: covers_def)
  ultimately show ?thesis using r(1) by (auto simp: chart_strokes_def)
qed

text \<open>
  The chart stays inside its frame. In every state of the player the chart is drawn without an
  exception, with three strokes for every two neighbouring points, and every stroke of the three
  lines begins and ends inside the area between the margins, for any container wider than them.
\<close>

theorem intro_chart_in_frame:
  assumes "played p" "145 \<le> w"
  shows "\<exists>ss. chart_strokes w (ui_chartData (player_ui p)) = Some ss \<and> length ss = 3 * (length (ui_chartData (player_ui p)) - 1)
    \<and> (\<forall>s \<in> set ss. in_frame w (stroke_from s) \<and> in_frame w (stroke_to s))"
proof -
  have inv: "player_inv p" by (rule played_inv [OF assms(1)])
  have "sampled (ui_elapsedMs (player_ui p)) (ui_chartData (player_ui p))" using inv by (simp add: player_inv_def ui_shows_def)
  moreover have "ui_elapsedMs (player_ui p) \<le> totalDur" using inv unfolding player_inv_def by linarith
  ultimately show ?thesis by (rule chart_strokes_in_frame [OF assms(2)])
qed

theorem intro_chart_in_frame_witness:
  "\<exists>ss. chart_strokes 800 (ui_chartData (player_ui (player_auto_start (the initial_player)))) = Some ss"
  using intro_chart_in_frame [OF first_played, of 800] by auto

section \<open>Colours of the card\<close>

definition diff_metric_color :: "string \<Rightarrow> string" where
  "diff_metric_color d = (if startsWith d ''-'' then ''text-green-500'' else if d = ''0%'' then ''text-muted-foreground'' else ''text-red-500'')"

definition btc_metric_color :: "string \<Rightarrow> string" where
  "btc_metric_color b = (if startsWith b ''+'' then ''text-green-500'' else if b = ''0%'' then ''text-muted-foreground'' else ''text-red-500'')"

definition pps_metric_color :: "string \<Rightarrow> string" where
  "pps_metric_color p = (if startsWith p ''+'' then ''text-green-500'' else ''text-red-500'')"

definition pctColor :: "number \<Rightarrow> number \<Rightarrow> bool \<Rightarrow> string" where
  "pctColor val baseline invert =
     (let pct = pctFromBaseline val baseline; positive = (if invert then pct < 0 else 0 < pct)
      in if Math_abs pct < Fin (1 / 2) then ''text-muted-foreground'' else if positive then ''text-green-500'' else ''text-red-500'')"

text \<open>
  The announced changes agree with the states: the colour of each is the direction in which the
  scenario moves the figure, green where it is good for the miner.
\<close>

theorem metric_colours:
  assumes "i < 8"
  shows "let sc = INTRO_SCENARIOS ! i; a = chained_states ! i; b = chained_states ! Suc i in
    diff_metric_color (diffChange (metrics sc))
      = (if ss_networkDifficulty b < ss_networkDifficulty a then ''text-green-500''
         else if ss_networkDifficulty b = ss_networkDifficulty a then ''text-muted-foreground'' else ''text-red-500'')
    \<and> btc_metric_color (btcChange (metrics sc))
      = (if ss_btcPrice a < ss_btcPrice b then ''text-green-500''
         else if ss_btcPrice b = ss_btcPrice a then ''text-muted-foreground'' else ''text-red-500'')
    \<and> pps_metric_color (ppsChange (metrics sc))
      = (if computeScenarioPpsValue a < computeScenarioPpsValue b then ''text-green-500'' else ''text-red-500'')"
proof -
  have "i \<in> {0, 1, 2, 3, 4, 5, 6, 7}" using assms by auto
  then show ?thesis
    by (elim insertE emptyE)
      (simp_all add: INTRO_SCENARIOS_def chained_states_def diff_metric_color_def btc_metric_color_def pps_metric_color_def
        startsWith_def scenario_states computeScenarioPpsValue_def computeTheoreticalValue_def SHARE_DIFF_def)
qed

text \<open>A figure is coloured exactly when it is half a percent off its baseline.\<close>

lemma pctColor_neutral:
  assumes "0 < b"
  shows "pctColor (Fin v) (Fin b) i = ''text-muted-foreground'' \<longleftrightarrow> \<bar>v - b\<bar> < b / 200"
proof -
  have "\<bar>(v - b) / b * 100\<bar> = \<bar>v - b\<bar> / b * 100" using assms by (simp add: abs_mult del: times_divide_eq_left)
  moreover have "\<bar>v - b\<bar> / b * 100 < 1 / 2 \<longleftrightarrow> \<bar>v - b\<bar> < b / 200" using assms by (simp add: field_simps)
  ultimately show ?thesis using assms by (auto simp: pctColor_def pctFromBaseline_def Let_def)
qed

end
