(* ===== verification/Hex_Bytes.thy ===== *)
theory Hex_Bytes
  imports Bitcoin_Template Draws
begin

text \<open>
  Model of \<open>web/components/CardBeamAnimation/hex-bytes.ts\<close>: the bytes that fill a block card and the
  fragments it is assembled from. The generator that a block hash seeds works on 32-bit words
  (\<open>Math.imul\<close> and \<open>| 0\<close> wrap); its closure is the state of the state monad. A byte read past the end of an
  empty array is undefined, the value \<open>None\<close>.
\<close>

unbundle bit_operations_syntax

section \<open>The generator\<close>

definition seed_word :: "string \<Rightarrow> 32 word" where
  "seed_word seed = foldl (\<lambda>h c. 31 * h + of_nat (of_char c)) 0 seed"

definition stir :: "32 word \<Rightarrow> 32 word" where
  "stir h = (h XOR drop_bit 16 h) * 0x45d9f3b + 0x9e3779b9"

definition hex_rng :: "real draw" where
  "hex_rng = State (\<lambda>h. let h' = stir h in (real (unat h') / 4294967296, h'))"

text \<open>\<open>Math.floor(rng() * 256).toString(16).padStart(2, "0")\<close>\<close>

definition random_byte :: "string draw" where
  "random_byte = do { x \<leftarrow> hex_rng; done_with (padStart 2 CHR ''0'' (to_radix 16 (nat \<lfloor>x * 256\<rfloor>))) }"

section \<open>Bytes of a card\<close>

fun byte_pairs :: "string \<Rightarrow> string list" where
  "byte_pairs (a # b # cs) = [a, b] # byte_pairs cs"
| "byte_pairs cs = []"

definition clean_hex :: "string \<Rightarrow> string" where
  "clean_hex h = map to_lower (filter (\<lambda>c. \<not> js_space c) h)"

text \<open>The bytes of the header, when there is one of at least two characters.\<close>

definition real_bytes :: "string option \<Rightarrow> string list option" where
  "real_bytes headerHex =
     (case headerHex of Some h \<Rightarrow> if 2 \<le> length h then Some (byte_pairs (clean_hex h)) else None | None \<Rightarrow> None)"

definition cyclic :: "'a list \<Rightarrow> nat \<Rightarrow> 'a option" where
  "cyclic raw i = (if raw = [] then None else index raw (i mod length raw))"

definition card_bytes :: "string \<Rightarrow> nat \<Rightarrow> string option \<Rightarrow> string option list" where
  "card_bytes blockHash totalBytes headerHex =
     (case real_bytes headerHex of
        Some raw \<Rightarrow> map (cyclic raw) [0..<totalBytes]
      | None \<Rightarrow> map Some (fst (run_state (State_Monad.traverse_list (\<lambda>_. random_byte) [0..<totalBytes]) (seed_word blockHash))))"

text \<open>\<open>join\<close> prints undefined as nothing.\<close>

fun js_join :: "string \<Rightarrow> string option list \<Rightarrow> string" where
  "js_join sep [] = []"
| "js_join sep [x] = (case x of Some s \<Rightarrow> s | None \<Rightarrow> [])"
| "js_join sep (x # y # zs) = (case x of Some s \<Rightarrow> s | None \<Rightarrow> []) @ sep @ js_join sep (y # zs)"

definition generateHexBytes :: "string \<Rightarrow> nat \<Rightarrow> nat \<Rightarrow> string option \<Rightarrow> string" where
  "generateHexBytes blockHash cols rows headerHex =
     (let bytes = card_bytes blockHash (cols * rows) headerHex
      in js_join ''\<newline>'' (map (\<lambda>r. Some (js_join '' '' (take cols (drop (r * cols) bytes)))) [0..<rows]))"

definition hexDimensions :: "real \<Rightarrow> real \<Rightarrow> int \<times> int" where
  "hexDimensions cardWidth cardHeight =
     (max 1 \<lfloor>(cardWidth - 8 * 2) / (54 / 10 * 3)\<rfloor>, max 1 \<lfloor>(cardHeight - 8 * 2) / 13\<rfloor>)"

section \<open>Fragments\<close>

record HexFragment =
  hf_char :: "string option"
  hf_col :: nat
  hf_row :: nat
  hf_dx :: real
  hf_dy :: real
  hf_rot :: real
  baseOpacity :: real

text \<open>One turn of the inner loop; the byte index is the position in row order.\<close>

definition hex_fragment :: "string list option \<Rightarrow> real \<Rightarrow> nat \<times> nat \<times> nat \<Rightarrow> HexFragment draw" where
  "hex_fragment realBytes scatterRadius pos =
     (case pos of (byteIdx, r, c) \<Rightarrow>
        do {
          ch \<leftarrow> (case realBytes of Some raw \<Rightarrow> done_with (cyclic raw byteIdx) | None \<Rightarrow> do { b \<leftarrow> random_byte; done_with (Some b) });
          x \<leftarrow> hex_rng;
          y \<leftarrow> hex_rng;
          t \<leftarrow> hex_rng;
          a \<leftarrow> hex_rng;
          done_with \<lparr>hf_char = ch, hf_col = c, hf_row = r, hf_dx = (x - 1 / 2) * scatterRadius * 2,
                     hf_dy = (y - 1 / 2) * scatterRadius * 2, hf_rot = (t - 1 / 2) * 60, baseOpacity = 6 / 100 + a * (8 / 100)\<rparr>
        })"

definition generateHexFragments :: "string \<Rightarrow> nat \<Rightarrow> nat \<Rightarrow> real \<Rightarrow> string option \<Rightarrow> HexFragment list" where
  "generateHexFragments blockHash cols rows scatterRadius headerHex =
     fst (run_state
       (State_Monad.traverse_list (hex_fragment (real_bytes headerHex) scatterRadius)
          (List.enumerate 0 (List.product [0..<rows] [0..<cols])))
       (seed_word blockHash))"

section \<open>What is drawn\<close>

lemma rng_range: "pred_state (\<lambda>x. 0 \<le> x \<and> x < 1) hex_rng"
proof (rule pred_stateI)
  fix s s' and a :: real
  assume "run_state hex_rng s = (a, s')"
  then have a: "a = real (unat (stir s)) / 4294967296" by (auto simp: hex_rng_def Let_def)
  have "unat (stir s) < 4294967296" using unsigned_less [of "stir s", where ?'a = nat] by simp
  then have "real (unat (stir s)) < real 4294967296" by (simp only: of_nat_less_iff)
  then show "0 \<le> a \<and> a < 1" unfolding a by (simp del: of_nat_unat)
qed

definition hex_byte :: "string \<Rightarrow> bool" where
  "hex_byte b \<longleftrightarrow> b \<in> range byte_hex"

lemma random_byte_hex: "pred_state hex_byte random_byte"
  unfolding random_byte_def
proof (rule pred_bind [OF rng_range])
  fix x :: real assume x: "0 \<le> x \<and> x < 1"
  let ?n = "nat \<lfloor>x * 256\<rfloor>"
  have "\<lfloor>x * 256\<rfloor> < 256" using x by (simp add: floor_less_iff)
  then have "?n < 256" by linarith
  then have "unat (word_of_nat ?n :: byte) = ?n" by (simp add: unat_of_nat mod_less)
  then have "padStart 2 CHR ''0'' (to_radix 16 ?n) = byte_hex (word_of_nat ?n)" by (simp add: byte_hex_def)
  then show "pred_state hex_byte (done_with (padStart 2 CHR ''0'' (to_radix 16 ?n)))" by (simp add: hex_byte_def)
qed

lemma byte_pairs_bytes_hex: "byte_pairs (bytes_hex bs) = map byte_hex bs"
proof (induction bs)
  case (Cons b bs)
  obtain x y where "byte_hex b = [x, y]" by (metis length_byte_hex length_Suc_conv length_0_conv numeral_2_eq_2)
  then show ?case using Cons by simp
qed (simp add: bytes_hex_def)

lemma lower_digit: "d < 16 \<Longrightarrow> to_lower (digit_char d) = digit_char d \<and> \<not> js_space (digit_char d)"
  by (auto simp: to_lower_def js_space_def digit_char_def)

lemma clean_append [simp]: "clean_hex (a @ b) = clean_hex a @ clean_hex b"
  by (simp add: clean_hex_def)

lemma clean_digits:
  assumes "canonical 16 s"
  shows "clean_hex s = s"
proof -
  have "\<forall>c \<in> set s. to_lower c = c \<and> \<not> js_space c" using assms lower_digit by (fastforce simp: canonical_def)
  then show ?thesis by (induction s) (simp_all add: clean_hex_def)
qed

lemma clean_bytes_hex [simp]: "clean_hex (byte_hex b) = byte_hex b" "clean_hex (bytes_hex bs) = bytes_hex bs"
  by (simp_all add: clean_digits canonical_byte_hex canonical_bytes_hex)

lemma clean_join: "clean_hex sep = [] \<Longrightarrow> clean_hex (js_join sep xs) = concat (map (\<lambda>x. case x of Some s \<Rightarrow> clean_hex s | None \<Rightarrow> []) xs)"
  by (induction sep xs rule: js_join.induct) (auto simp: clean_hex_def split: option.splits)

lemma blocks_take: "concat (map (\<lambda>r. take k (drop (r * k) xs)) [0..<n]) = take (n * k) xs"
  by (induction n) (simp_all add: take_add [symmetric] add.commute)

lemma concat_map_concat: "concat (map (\<lambda>r. concat (map f (g r))) rs) = concat (map f (concat (map g rs)))"
  by (induction rs) simp_all

lemma real_bytes_header: "bs \<noteq> [] \<Longrightarrow> real_bytes (Some (bytes_hex bs)) = Some (map byte_hex bs)"
  using byte_pairs_bytes_hex [of bs] by (cases "length bs") (simp_all add: real_bytes_def)

lemma cyclic_header: "bs \<noteq> [] \<Longrightarrow> cyclic (map byte_hex bs) i = Some (byte_hex (bs ! (i mod length bs)))"
  by (simp add: cyclic_def index_def)

text \<open>
  The card shows the header. Read without its white space the text on a card is the block header,
  byte after byte and again from the start when it is at its end, cut where the grid is full.
\<close>

theorem card_shows_header:
  assumes "bs \<noteq> []"
  shows "clean_hex (generateHexBytes blockHash cols rows (Some (bytes_hex bs)))
    = bytes_hex (map (\<lambda>i. bs ! (i mod length bs)) [0..<cols * rows])"
proof -
  let ?bytes = "map (\<lambda>i. Some (byte_hex (bs ! (i mod length bs)))) [0..<cols * rows]"
  have "card_bytes blockHash (cols * rows) (Some (bytes_hex bs)) = ?bytes"
    using cyclic_header [OF assms] by (simp add: card_bytes_def real_bytes_header [OF assms])
  moreover have sp: "clean_hex '' '' = []" "clean_hex ''\<newline>'' = []" by code_simp+
  ultimately have "clean_hex (generateHexBytes blockHash cols rows (Some (bytes_hex bs)))
      = concat (map (\<lambda>r. concat (map (\<lambda>x. case x of Some s \<Rightarrow> clean_hex s | None \<Rightarrow> []) (take cols (drop (r * cols) ?bytes)))) [0..<rows])"
    by (simp add: generateHexBytes_def Let_def clean_join o_def)
  also have "\<dots> = concat (map (\<lambda>x. case x of Some s \<Rightarrow> clean_hex s | None \<Rightarrow> []) (concat (map (\<lambda>r. take cols (drop (r * cols) ?bytes)) [0..<rows])))"
    by (simp only: concat_map_concat)
  also have "\<dots> = concat (map (\<lambda>x. case x of Some s \<Rightarrow> clean_hex s | None \<Rightarrow> []) ?bytes)"
    by (simp only: blocks_take) (simp add: mult.commute)
  also have "\<dots> = bytes_hex (map (\<lambda>i. bs ! (i mod length bs)) [0..<cols * rows])"
    by (simp add: o_def bytes_hex_def)
  finally show ?thesis .
qed

theorem card_shows_header_witness:
  "clean_hex (generateHexBytes ''ab'' 2 2 (Some ''00ff10'')) = ''00ff1000''"
proof -
  have "bytes_hex [0, 255, 16] = ''00ff10''" "bytes_hex (map (\<lambda>i. [0, 255, 16] ! (i mod 3)) [0..<4]) = ''00ff1000''" by code_simp+
  then show ?thesis using card_shows_header [of "[0, 255, 16]" "''ab''" 2 2] by simp
qed

text \<open>Without a header the grid holds random bytes of the hash, as many as it has places.\<close>

lemma card_bytes_random:
  "list_all (\<lambda>b. \<exists>w :: byte. b = Some (byte_hex w)) (card_bytes h n None) \<and> length (card_bytes h n None) = n"
proof -
  have "pred_state (\<lambda>ys. length ys = length [0..<n] \<and> list_all hex_byte ys) (State_Monad.traverse_list (\<lambda>_. random_byte) [0..<n])"
    by (rule pred_traverse) (rule random_byte_hex)
  from pred_state_run_state [OF this, of "seed_word h"] show ?thesis
    by (auto simp: card_bytes_def real_bytes_def list_all_iff hex_byte_def)
qed

text \<open>The grid that is chosen for a card fits into it.\<close>

lemma hexDimensions_fit:
  assumes "322 / 10 \<le> w" "29 \<le> h" "hexDimensions w h = (cols, rows)"
  shows "1 \<le> cols \<and> 1 \<le> rows \<and> of_int cols * (54 / 10 * 3) + 16 \<le> w \<and> of_int rows * 13 + 16 \<le> h"
proof -
  have "1 \<le> \<lfloor>(w - 16) / (54 / 10 * 3)\<rfloor>" "1 \<le> \<lfloor>(h - 16) / 13\<rfloor>" using assms(1,2) by (simp_all add: le_floor_iff)
  then have c: "cols = \<lfloor>(w - 16) / (54 / 10 * 3)\<rfloor>" "rows = \<lfloor>(h - 16) / 13\<rfloor>" "1 \<le> cols" "1 \<le> rows"
    using assms(3) by (auto simp: hexDimensions_def)
  have "of_int cols \<le> (w - 16) / (54 / 10 * 3)" "of_int rows \<le> (h - 16) / 13" unfolding c(1,2) by (rule of_int_floor_le)+
  then show ?thesis using c(3,4) by (simp add: field_simps)
qed

section \<open>What is scattered\<close>

definition fragment_ok :: "string list option \<Rightarrow> real \<Rightarrow> nat \<times> nat \<times> nat \<Rightarrow> HexFragment \<Rightarrow> bool" where
  "fragment_ok realBytes R pos f \<longleftrightarrow>
     (case pos of (i, r, c) \<Rightarrow> hf_row f = r \<and> hf_col f = c
        \<and> (case realBytes of Some raw \<Rightarrow> hf_char f = cyclic raw i | None \<Rightarrow> \<exists>w :: byte. hf_char f = Some (byte_hex w)))
     \<and> \<bar>hf_dx f\<bar> \<le> R \<and> \<bar>hf_dy f\<bar> \<le> R \<and> \<bar>hf_rot f\<bar> \<le> 30 \<and> 6 / 100 \<le> baseOpacity f \<and> baseOpacity f < 14 / 100"

lemma scatter_bound:
  assumes "0 \<le> x \<and> x < 1" "0 \<le> (R :: real)"
  shows "\<bar>(x - 1 / 2) * R * 2\<bar> \<le> R"
proof -
  have "\<bar>(x - 1 / 2) * 2\<bar> \<le> 1" using assms(1) by (simp add: abs_le_iff)
  then have "\<bar>(x - 1 / 2) * 2\<bar> * R \<le> 1 * R" using assms(2) by (rule mult_right_mono)
  moreover have "(x - 1 / 2) * R * 2 = (x - 1 / 2) * 2 * R" by simp
  ultimately show ?thesis using assms(2) by (simp only: abs_mult abs_of_nonneg mult_1)
qed

lemma hex_fragment_ok:
  assumes "0 \<le> R"
  shows "pred_state (fragment_ok realBytes R pos) (hex_fragment realBytes R pos)"
proof -
  obtain i r c where pos: "pos = (i, r, c)" by (cases pos)
  let ?char = "\<lambda>ch. case realBytes of Some raw \<Rightarrow> ch = cyclic raw i | None \<Rightarrow> \<exists>w :: byte. ch = Some (byte_hex w)"
  have ch: "pred_state ?char (case realBytes of Some raw \<Rightarrow> done_with (cyclic raw i) | None \<Rightarrow> do { b \<leftarrow> random_byte; done_with (Some b) })"
  proof (cases realBytes)
    case None
    have "pred_state (\<lambda>ch. \<exists>w :: byte. ch = Some (byte_hex w)) (do { b \<leftarrow> random_byte; done_with (Some b) })"
      by (rule pred_bind [OF random_byte_hex]) (auto simp: hex_byte_def)
    then show ?thesis using None by simp
  qed simp
  show ?thesis
    unfolding hex_fragment_def pos prod.case
    by (rule pred_bind [OF ch], (rule pred_bind [OF rng_range])+)
      (use scatter_bound [OF _ assms] in \<open>auto simp: fragment_ok_def abs_le_iff split: option.splits\<close>)
qed

text \<open>
  A card falls apart into its own bytes. There is one fragment for every place of the grid in row
  order, with the byte that the card shows there, scattered by at most the given radius, turned by
  at most 30 degrees, and drawn with an opacity between 0.06 and 0.14.
\<close>

theorem fragments_fill_grid:
  assumes "0 \<le> R"
  shows "length (generateHexFragments h cols rows R headerHex) = rows * cols
    \<and> (\<forall>k < rows * cols. fragment_ok (real_bytes headerHex) R (k, k div cols, k mod cols) (generateHexFragments h cols rows R headerHex ! k))"
proof -
  let ?ps = "List.enumerate 0 (List.product [0..<rows] [0..<cols])"
  have "pred_state (list_all2 (fragment_ok (real_bytes headerHex) R) ?ps) (State_Monad.traverse_list (hex_fragment (real_bytes headerHex) R) ?ps)"
    by (rule pred_traverse2) (rule hex_fragment_ok [OF assms])
  from pred_state_run_state [OF this, of "seed_word h"]
  have all: "list_all2 (fragment_ok (real_bytes headerHex) R) ?ps (generateHexFragments h cols rows R headerHex)"
    by (simp add: generateHexFragments_def)
  have nth: "?ps ! k = (k, k div cols, k mod cols)" if "k < rows * cols" for k
  proof -
    have "0 < cols" using that by (cases cols) simp_all
    then have "k div cols < rows" "k mod cols < cols" using that by (simp_all add: less_mult_imp_div_less)
    then show ?thesis using that by (simp add: nth_enumerate_eq product_nth)
  qed
  show ?thesis using all nth by (auto simp: list_all2_conv_all_nth)
qed

theorem fragments_fill_grid_witness:
  "length (generateHexFragments ''ab'' 3 2 200 (Some ''00ff10'')) = 6"
  using fragments_fill_grid [of 200 "''ab''" 3 2 "Some ''00ff10''"] by simp

end
