(* ===== verification/Card_Beam.thy ===== *)
theory Card_Beam
  imports Hex_Bytes Frame_Loop
begin

text \<open>
  Model of \<open>web/components/CardBeamAnimation/CardBeamAnimation.tsx\<close>: how the blocks are dealt out to the rows
  of cards, how far a card is assembled, clipped and visible at a position, and the motion of the
  rows under frames, drags and the wheel, as a state machine. Blocks are of any type; the width of
  the container and which rows are mounted are arguments. Drawing on the canvas is not modelled.
\<close>

section \<open>Dealing out the blocks\<close>

definition MIN_CARDS :: nat where "MIN_CARDS = 20"
definition beam_row_count :: "nat \<Rightarrow> nat" where "beam_row_count rows = (if 1 < rows then rows else 1)"

definition deal_rows :: "'b list \<Rightarrow> nat \<Rightarrow> 'b list list" where
  "deal_rows blocks n =
     foldl (\<lambda>rs i. rs[i mod n := rs ! (i mod n) @ [blocks ! i]]) (replicate n []) [0..<length blocks]"

text \<open>The inner loop, left as soon as the row is full, and the loop around it.\<close>

fun push_until_full :: "'b list \<Rightarrow> 'b list \<Rightarrow> 'b list" where
  "push_until_full padded [] = padded"
| "push_until_full padded (b # bs) =
     (let p = padded @ [b] in if MIN_CARDS \<le> length p then p else push_until_full p bs)"

partial_function (option) pad_loop :: "'b list \<Rightarrow> 'b list \<Rightarrow> 'b list option" where
  "pad_loop rowBlocks padded =
     (if length padded < MIN_CARDS then pad_loop rowBlocks (push_until_full padded rowBlocks) else Some padded)"

definition rowPaddedBlocks :: "'b list \<Rightarrow> nat \<Rightarrow> 'b list list option" where
  "rowPaddedBlocks blocks rowCount =
     (if blocks = [] then Some []
      else those (map (\<lambda>r. pad_loop (if r = [] then blocks else r) []) (deal_rows blocks rowCount)))"

section \<open>One card at its place\<close>

record beam_sizes =
  cardSize :: real
  cardGap :: real
  rowGap :: real
  assemblyFar :: real
  assemblyNear :: real

definition sizes_for :: "nat \<Rightarrow> beam_sizes" where
  "sizes_for rows =
     (if 1 < rows then \<lparr>cardSize = 160, cardGap = 16, rowGap = 12, assemblyFar = 200, assemblyNear = 35\<rparr>
      else \<lparr>cardSize = 280, cardGap = 24, rowGap = 0, assemblyFar = 300, assemblyNear = 50\<rparr>)"

definition scatter_at :: "beam_sizes \<Rightarrow> real \<Rightarrow> real" where
  "scatter_at z distToBeam =
     (if distToBeam \<le> 0 then 0 else if assemblyFar z \<le> distToBeam then 1
      else if distToBeam \<le> assemblyNear z then 0
      else let t = (distToBeam - assemblyNear z) / (assemblyFar z - assemblyNear z) in t * t)"

text \<open>The percentage of the card's face that is clipped from the left; the scanner is 8 wide.\<close>

definition clip_percent :: "beam_sizes \<Rightarrow> real \<Rightarrow> real \<Rightarrow> real" where
  "clip_percent z cw cardLeft =
     (let cardRight = cardLeft + cardSize z; scannerLeft = cw / 2 - 8 / 2; scannerRight = cw / 2 + 8 / 2
      in if cardLeft < scannerRight \<and> scannerLeft < cardRight
         then 100 - (min (cardRight - scannerLeft) (cardSize z) / cardSize z) * 100
         else if scannerRight \<le> cardLeft then 0 else 100)"

definition card_left :: "beam_sizes \<Rightarrow> real \<Rightarrow> nat \<Rightarrow> real" where
  "card_left z position j = position + real j * (cardSize z + cardGap z)"

definition card_in_view :: "beam_sizes \<Rightarrow> real \<Rightarrow> real \<Rightarrow> bool" where
  "card_in_view z cw l = (- assemblyFar z \<le> l + cardSize z \<and> l \<le> cw + assemblyFar z)"

definition scan_view :: "beam_sizes \<Rightarrow> real \<Rightarrow> real \<Rightarrow> nat \<Rightarrow> int \<times> int" where
  "scan_view z cw position numCards =
     foldl (\<lambda>(f, l) j. if card_in_view z cw (card_left z position j) then (if f = - 1 then int j else f, int j) else (f, l))
       (- 1, - 1) [0..<numCards]"

definition visible_range :: "beam_sizes \<Rightarrow> real \<Rightarrow> real \<Rightarrow> nat \<Rightarrow> int \<times> int" where
  "visible_range z cw position numCards =
     (let (f, l) = scan_view z cw position numCards
      in (if f = - 1 then - 1 else max 0 (f - 2), if l = - 1 then - 1 else min (int numCards - 1) (l + 2)))"

definition card_mounted :: "int \<times> int \<Rightarrow> nat \<Rightarrow> bool" where
  "card_mounted rg i = (fst rg \<le> int i \<and> int i \<le> snd rg)"

definition ranges_changed :: "(int \<times> int) list \<Rightarrow> (int \<times> int) list \<Rightarrow> bool" where
  "ranges_changed prev rs =
     (length prev \<noteq> length rs \<or> list_ex (\<lambda>i. fst (prev ! i) \<noteq> fst (rs ! i) \<or> snd (prev ! i) \<noteq> snd (rs ! i)) [0..<length rs])"

section \<open>Motion\<close>

definition AUTO_SPEED :: real where "AUTO_SPEED = 80"
definition FRICTION :: real where "FRICTION = 95 / 100"
definition MIN_VELOCITY :: real where "MIN_VELOCITY = 30"

record row_config =
  rc_speedMultiplier :: real
  startOffsetFraction :: real

definition ROW_CONFIGS :: "row_config list" where
  "ROW_CONFIGS =
     [\<lparr>rc_speedMultiplier = 1, startOffsetFraction = 0\<rparr>, \<lparr>rc_speedMultiplier = 85 / 100, startOffsetFraction = 33 / 100\<rparr>,
      \<lparr>rc_speedMultiplier = 115 / 100, startOffsetFraction = 66 / 100\<rparr>]"

record StreamState =
  st_position :: real
  velocity :: real
  st_direction :: real
  speedMultiplier :: real
  cardLineWidth :: real

record beam =
  streams :: "StreamState list"
  isAnimating :: bool
  isDragging :: bool
  lastMouseX :: real
  mouseVelocity :: real

definition init_stream :: "nat \<Rightarrow> nat \<Rightarrow> nat \<Rightarrow> StreamState" where
  "init_stream rows i cards =
     (let z = sizes_for rows;
          lineWidth = (cardSize z + cardGap z) * real cards;
          config = (if 1 < rows then ROW_CONFIGS ! (i mod length ROW_CONFIGS) else \<lparr>rc_speedMultiplier = 1, startOffsetFraction = 0\<rparr>)
      in \<lparr>st_position = - lineWidth, velocity = AUTO_SPEED, st_direction = 1, speedMultiplier = rc_speedMultiplier config,
          cardLineWidth = lineWidth\<rparr>)"

definition beam_init :: "nat \<Rightarrow> 'b list list \<Rightarrow> beam" where
  "beam_init rows padded =
     \<lparr>streams = map (\<lambda>(i, r). init_stream rows i (length r)) (List.enumerate 0 padded),
      isAnimating = True, isDragging = False, lastMouseX = 0, mouseVelocity = 0\<rparr>"

definition slow_down :: "StreamState \<Rightarrow> StreamState" where
  "slow_down s =
     (let targetSpeed = AUTO_SPEED * speedMultiplier s in
      if targetSpeed < velocity s
      then let v = velocity s * FRICTION
           in if v < targetSpeed then s\<lparr>velocity := targetSpeed, st_direction := 1\<rparr> else s\<lparr>velocity := v\<rparr>
      else s)"

definition wrap_around :: "real \<Rightarrow> StreamState \<Rightarrow> StreamState" where
  "wrap_around cw s =
     (if st_position s < - cardLineWidth s then s\<lparr>st_position := cw\<rparr>
      else if cw < st_position s then s\<lparr>st_position := - cardLineWidth s\<rparr> else s)"

definition animate_stream :: "real \<Rightarrow> bool \<Rightarrow> real \<Rightarrow> StreamState \<Rightarrow> StreamState" where
  "animate_stream cw moving dt s =
     (let s1 = (if moving then let s0 = slow_down s in s0\<lparr>st_position := st_position s0 + velocity s0 * st_direction s0 * dt\<rparr> else s)
      in wrap_around cw s1)"

definition animateCards :: "real \<Rightarrow> (nat \<Rightarrow> bool) \<Rightarrow> real \<Rightarrow> beam \<Rightarrow> beam" where
  "animateCards cw mounted_row dt b =
     b\<lparr>streams := map (\<lambda>(i, s). if mounted_row i then animate_stream cw (isAnimating b \<and> \<not> isDragging b) dt s else s)
                    (List.enumerate 0 (streams b))\<rparr>"

definition startDrag :: "real \<Rightarrow> beam \<Rightarrow> beam" where
  "startDrag x b = b\<lparr>isDragging := True, isAnimating := False, lastMouseX := x, mouseVelocity := 0\<rparr>"

definition shift_streams :: "real \<Rightarrow> beam \<Rightarrow> beam" where
  "shift_streams dx b = b\<lparr>streams := map (\<lambda>s. s\<lparr>st_position := st_position s + dx\<rparr>) (streams b)\<rparr>"

definition onDrag :: "real \<Rightarrow> beam \<Rightarrow> beam" where
  "onDrag x b =
     (if \<not> isDragging b then b
      else let dx = x - lastMouseX b in (shift_streams dx b)\<lparr>mouseVelocity := dx * 60, lastMouseX := x\<rparr>)"

definition release_stream :: "real \<Rightarrow> StreamState \<Rightarrow> StreamState" where
  "release_stream mv s =
     (if MIN_VELOCITY < \<bar>mv\<bar>
      then s\<lparr>velocity := \<bar>mv\<bar> * speedMultiplier s, st_direction := (if 0 < mv then 1 else - 1)\<rparr>
      else s\<lparr>velocity := AUTO_SPEED * speedMultiplier s\<rparr>)"

definition endDrag :: "beam \<Rightarrow> beam" where
  "endDrag b =
     (if \<not> isDragging b then b
      else b\<lparr>isDragging := False, streams := map (release_stream (mouseVelocity b)) (streams b), isAnimating := True\<rparr>)"

definition onWheel :: "real \<Rightarrow> beam \<Rightarrow> beam" where
  "onWheel deltaY b = shift_streams (if 0 < deltaY then 20 else - 20) b"

inductive beam_step :: "beam \<Rightarrow> beam \<Rightarrow> bool" where
  beam_frame: "0 \<le> dt \<Longrightarrow> beam_step b (animateCards cw m dt b)"
| beam_grab: "beam_step b (startDrag x b)"
| beam_drag: "beam_step b (onDrag x b)"
| beam_release: "beam_step b (endDrag b)"
| beam_wheel: "beam_step b (onWheel d b)"

inductive_cases beam_stepE: "beam_step b b'"

text \<open>Blocks are stood for by numbers here: only the lengths of the rows matter to the motion.\<close>

inductive beamed :: "nat \<Rightarrow> beam \<Rightarrow> bool" for rows where
  beam_start: "beamed rows (beam_init rows (padded :: nat list list))"
| beam_next: "beamed rows b \<Longrightarrow> beam_step b b' \<Longrightarrow> beamed rows b'"

section \<open>The rows are filled in turn\<close>

definition dealt_row :: "'b list \<Rightarrow> nat \<Rightarrow> nat \<Rightarrow> 'b list" where
  "dealt_row blocks n r = map (nth blocks) (filter (\<lambda>j. j mod n = r) [0..<length blocks])"

lemma deal_rows_eq:
  assumes "0 < n"
  shows "deal_rows blocks n = map (dealt_row blocks n) [0..<n]"
proof -
  have "foldl (\<lambda>rs i. rs[i mod n := rs ! (i mod n) @ [blocks ! i]]) (replicate n []) [0..<k]
      = map (\<lambda>r. map (nth blocks) (filter (\<lambda>j. j mod n = r) [0..<k])) [0..<n]" for k
  proof (induction k)
    case 0
    show ?case by (simp add: map_replicate_const)
  next
    case (Suc k)
    have "k mod n < n" using assms by simp
    then show ?case unfolding upt_Suc_append [OF le0] foldl_append Suc by (intro nth_equalityI) (auto simp: nth_list_update)
  qed
  then show ?thesis by (simp add: deal_rows_def dealt_row_def)
qed

definition cycled :: "'b list \<Rightarrow> nat \<Rightarrow> 'b list" where
  "cycled src k = map (\<lambda>i. src ! (i mod length src)) [0..<k]"

lemma length_cycled [simp]: "length (cycled src k) = k"
  by (simp add: cycled_def)

lemma push_cycled:
  assumes "src \<noteq> []"
  shows "j \<le> length src \<Longrightarrow> q * length src + j < MIN_CARDS \<Longrightarrow>
    push_until_full (cycled src (q * length src + j)) (drop j src) = cycled src (min MIN_CARDS (Suc q * length src))"
proof (induction "length src - j" arbitrary: j)
  case 0
  then have "j = length src" by simp
  then show ?case using 0 by (simp add: add.commute)
next
  case (Suc d)
  then have j: "j < length src" by simp
  have step: "cycled src (q * length src + j) @ [src ! j] = cycled src (q * length src + Suc j)"
    using j by (simp add: cycled_def)
  show ?case
  proof (cases "MIN_CARDS \<le> q * length src + Suc j")
    case True
    then have "q * length src + Suc j = MIN_CARDS" "MIN_CARDS \<le> Suc q * length src" using Suc.prems j by auto
    then show ?thesis using True step by (simp add: Cons_nth_drop_Suc [OF j, symmetric])
  next
    case False
    then have "push_until_full (cycled src (q * length src + Suc j)) (drop (Suc j) src) = cycled src (min MIN_CARDS (Suc q * length src))"
      using Suc j by (intro Suc.hyps(1)) auto
    then show ?thesis using False step by (simp add: Cons_nth_drop_Suc [OF j, symmetric])
  qed
qed

lemma pad_cycled:
  assumes "src \<noteq> []"
  shows "pad_loop src (cycled src (min MIN_CARDS (q * length src))) = Some (cycled src MIN_CARDS)"
proof (induction q rule: measure_induct_rule [where f = "\<lambda>q. MIN_CARDS - q * length src"])
  case (less q)
  show ?case
  proof (cases "MIN_CARDS \<le> q * length src")
    case True
    then show ?thesis by (simp add: pad_loop.simps)
  next
    case False
    have "0 < length src" using assms by simp
    then have "MIN_CARDS - (q * length src + length src) < MIN_CARDS - q * length src" using False by linarith
    then have "MIN_CARDS - Suc q * length src < MIN_CARDS - q * length src" by (simp add: add.commute)
    moreover have "push_until_full (cycled src (q * length src)) src = cycled src (min MIN_CARDS (Suc q * length src))"
      using push_cycled [OF assms, of 0 q] False by simp
    ultimately show ?thesis using less.IH [of "Suc q"] False by (subst pad_loop.simps) simp
  qed
qed

text \<open>
  The rows are filled for any number of blocks. The loops that pad the rows end, every row has
  exactly 20 cards, and card \<open>i\<close> of row \<open>r\<close> is the next block in the cycle of the blocks dealt to that row,
  or of all blocks when the row got none.
\<close>

theorem rows_filled:
  assumes "blocks \<noteq> []" "0 < n"
  shows "rowPaddedBlocks blocks n
    = Some (map (\<lambda>r. let src = (if dealt_row blocks n r = [] then blocks else dealt_row blocks n r)
                     in map (\<lambda>i. src ! (i mod length src)) [0..<20]) [0..<n])"
proof -
  have pad: "src \<noteq> [] \<Longrightarrow> pad_loop src [] = Some (cycled src MIN_CARDS)" for src :: "'a list"
    using pad_cycled [of src 0] by (simp add: cycled_def)
  have those: "those (map (\<lambda>x. Some (f x)) xs) = Some (map f xs)" for f :: "nat \<Rightarrow> 'a list" and xs
    by (induction xs) simp_all
  let ?src = "\<lambda>r. if dealt_row blocks n r = [] then blocks else dealt_row blocks n r"
  have "rowPaddedBlocks blocks n = those (map (\<lambda>r. pad_loop (?src r) []) [0..<n])"
    using assms by (simp add: rowPaddedBlocks_def deal_rows_eq o_def)
  also have "\<dots> = those (map (\<lambda>r. Some (cycled (?src r) MIN_CARDS)) [0..<n])"
    using assms(1) pad by (intro arg_cong [of _ _ those] map_cong) simp_all
  finally show ?thesis unfolding those by (simp add: cycled_def MIN_CARDS_def Let_def)
qed

theorem rows_filled_witness:
  "map (map (\<lambda>b. b)) (the (rowPaddedBlocks [1, 2, 3 :: nat] 2)) ! 0 ! 1 = 3"
proof -
  have "dealt_row [1, 2, 3 :: nat] 2 0 = [1, 3]" by (simp add: dealt_row_def upt_rec)
  then show ?thesis using rows_filled [of "[1, 2, 3 :: nat]" 2] by simp
qed

section \<open>A card under the beam\<close>

text \<open>
  A card is scattered by at most its own amount and is drawn together the nearer it comes: the
  scatter is between 0 and 1 and grows with the distance to the beam.
\<close>

lemma scatter_between:
  assumes "0 \<le> assemblyNear z" "assemblyNear z < d" "d < assemblyFar z"
  obtains t where "t = (d - assemblyNear z) / (assemblyFar z - assemblyNear z)" "scatter_at z d = t * t" "0 \<le> t" "t \<le> 1"
  using assms by (force simp: scatter_at_def Let_def)

lemma scatter_range:
  assumes "0 \<le> assemblyNear z" "assemblyNear z < assemblyFar z"
  shows "0 \<le> scatter_at z d \<and> scatter_at z d \<le> 1"
proof (cases "assemblyNear z < d \<and> d < assemblyFar z")
  case True
  then obtain t where "scatter_at z d = t * t" "0 \<le> t" "t \<le> 1" using scatter_between [OF assms(1)] by metis
  then show ?thesis by (simp add: mult_le_one)
qed (use assms in \<open>auto simp: scatter_at_def\<close>)

lemma scatter_mono:
  assumes "0 \<le> assemblyNear z" "assemblyNear z < assemblyFar z" "d \<le> e"
  shows "scatter_at z d \<le> scatter_at z e"
proof (cases "assemblyNear z < d \<and> e < assemblyFar z")
  case True
  then have d: "assemblyNear z < d" "d < assemblyFar z" and e: "assemblyNear z < e" "e < assemblyFar z" using assms(3) by auto
  obtain t where t: "t = (d - assemblyNear z) / (assemblyFar z - assemblyNear z)" "scatter_at z d = t * t" "0 \<le> t"
    using scatter_between [OF assms(1) d] by metis
  obtain u where u: "u = (e - assemblyNear z) / (assemblyFar z - assemblyNear z)" "scatter_at z e = u * u"
    using scatter_between [OF assms(1) e] by metis
  have "t \<le> u" unfolding t(1) u(1) using assms by (intro divide_right_mono) simp_all
  then show ?thesis unfolding t(2) u(2) using t(3) by (intro mult_mono) simp_all
next
  case False
  then show ?thesis
    using assms scatter_range [OF assms(1,2), of d] scatter_range [OF assms(1,2), of e] by (auto simp: scatter_at_def)
qed

text \<open>
  The beam uncovers a card evenly. In all three cases of the code the clipped percentage is the
  part of the card left of the beam's left edge, held between 0 and 100.
\<close>

theorem clip_even:
  assumes "0 < cardSize z"
  shows "clip_percent z cw l = max 0 (min 100 ((cw / 2 - 4 - l) / cardSize z * 100))"
proof -
  define d where "d = cw / 2 - 4 - l"
  let ?s = "cardSize z"
  have low: "d / ?s \<le> 0 \<longleftrightarrow> d \<le> 0" using assms by (simp add: divide_le_0_iff)
  have high: "1 \<le> d / ?s \<longleftrightarrow> ?s \<le> d" using assms by (simp add: le_divide_eq)
  have part: "100 - (l + ?s - (cw / 2 - 4)) / ?s * 100 = d / ?s * 100" using assms by (simp add: d_def field_simps)
  consider "cw / 2 - 4 \<le> l" | "l < cw / 2 - 4" "cw / 2 - 4 < l + ?s" | "l + ?s \<le> cw / 2 - 4" by linarith
  then show ?thesis
  proof cases
    case 1
    have "\<And>x. x \<le> 0 \<Longrightarrow> max 0 (min 100 (x * 100)) = (0 :: real)" by (auto simp: max_def min_def)
    moreover have "d / ?s \<le> 0" using 1 low unfolding d_def by linarith
    ultimately have "max 0 (min 100 (d / ?s * 100)) = 0" by blast
    then show ?thesis using 1 assms by (auto simp: clip_percent_def Let_def d_def [symmetric] simp del: times_divide_eq_left)
  next
    case 2
    then have "0 < d / ?s" "d / ?s < 1" using low high by (linarith | simp add: d_def not_le [symmetric])+
    then show ?thesis using 2 part by (simp add: clip_percent_def Let_def d_def [symmetric] del: times_divide_eq_left)
  next
    case 3
    then have "1 \<le> d / ?s" using high by (simp add: d_def)
    then show ?thesis using 3 assms by (simp add: clip_percent_def Let_def d_def [symmetric] del: times_divide_eq_left)
  qed
qed

theorem clip_even_witness: "clip_percent (sizes_for 3) 800 (396 - 40) = 25"
proof -
  have "0 < cardSize (sizes_for 3)" by (simp add: sizes_for_def)
  from clip_even [OF this, of 800 "396 - 40"] show ?thesis by (simp add: sizes_for_def)
qed

text \<open>The cards in view are neighbours, so the range between the first and the last is all of them.\<close>

definition convex_on :: "(nat \<Rightarrow> bool) \<Rightarrow> bool" where
  "convex_on P \<longleftrightarrow> (\<forall>i j k. i \<le> j \<longrightarrow> j \<le> k \<longrightarrow> P i \<longrightarrow> P k \<longrightarrow> P j)"

lemma view_convex: "0 \<le> cardSize z + cardGap z \<Longrightarrow> convex_on (\<lambda>j. card_in_view z cw (card_left z p j))"
  unfolding convex_on_def card_in_view_def card_left_def
  by (smt (verit) mult_right_mono of_nat_mono)

lemma scan_range:
  fixes P :: "nat \<Rightarrow> bool"
  assumes "foldl (\<lambda>(f, l) j. if P j then (if f = - 1 then int j else f, int j) else (f, l)) (- 1, - 1) [0..<n] = (f, l)"
  shows "(f = - 1 \<longleftrightarrow> l = - 1) \<and> (f \<noteq> - 1 \<longrightarrow> 0 \<le> f \<and> f \<le> l \<and> l < int n \<and> P (nat f) \<and> P (nat l))
    \<and> (\<forall>j < n. P j \<longrightarrow> f \<noteq> - 1 \<and> f \<le> int j \<and> int j \<le> l)"
  using assms
proof (induction n arbitrary: f l)
  case (Suc n)
  obtain f' l' where r: "foldl (\<lambda>(f, l) j. if P j then (if f = - 1 then int j else f, int j) else (f, l)) (- 1, - 1) [0..<n] = (f', l')"
    by fastforce
  note IH = Suc.IH [OF r]
  have "(f, l) = (if P n then (if f' = - 1 then int n else f', int n) else (f', l'))" using Suc.prems r by simp
  then show ?case using IH by (auto simp: less_Suc_eq split: if_splits)
qed simp

text \<open>
  Only the cards near the viewport are rendered, and all of them are. A card in view is mounted; the
  mounted cards are those in view and at most two more on each side; when no card is in view none
  is mounted.
\<close>

theorem mounted_cards:
  assumes "0 \<le> cardSize z + cardGap z" "j < n"
  shows "card_mounted (visible_range z cw p n) j
    \<longleftrightarrow> (\<exists>i < n. card_in_view z cw (card_left z p i) \<and> int i - 2 \<le> int j \<and> int j \<le> int i + 2)"
proof -
  let ?P = "\<lambda>i. card_in_view z cw (card_left z p i)"
  obtain f l where fl: "scan_view z cw p n = (f, l)" by fastforce
  then have "(f = - 1 \<longleftrightarrow> l = - 1) \<and> (f \<noteq> - 1 \<longrightarrow> 0 \<le> f \<and> f \<le> l \<and> l < int n \<and> ?P (nat f) \<and> ?P (nat l))
    \<and> (\<forall>i < n. ?P i \<longrightarrow> f \<noteq> - 1 \<and> f \<le> int i \<and> int i \<le> l)"
    unfolding scan_view_def by (rule scan_range)
  then have eq: "f = - 1 \<longleftrightarrow> l = - 1" and ends: "f \<noteq> - 1 \<Longrightarrow> 0 \<le> f \<and> f \<le> l \<and> l < int n \<and> ?P (nat f) \<and> ?P (nat l)"
    and inside: "\<And>i. i < n \<Longrightarrow> ?P i \<Longrightarrow> f \<noteq> - 1 \<and> f \<le> int i \<and> int i \<le> l" by blast+
  have convex: "convex_on ?P" by (rule view_convex [OF assms(1)])
  show ?thesis
  proof (cases "f = - 1")
    case True
    then have "card_mounted (visible_range z cw p n) j = False" using fl eq by (simp add: visible_range_def card_mounted_def)
    then show ?thesis using inside True by blast
  next
    case False
    note e = ends [OF False]
    have "card_mounted (visible_range z cw p n) j \<longleftrightarrow> f - 2 \<le> int j \<and> int j \<le> l + 2"
      using fl False eq assms(2) e by (auto simp: visible_range_def card_mounted_def)
    also have "\<dots> \<longleftrightarrow> (\<exists>i < n. ?P i \<and> int i - 2 \<le> int j \<and> int j \<le> int i + 2)"
    proof
      assume j: "f - 2 \<le> int j \<and> int j \<le> l + 2"
      define i where "i = (if int j < f then nat f else if l < int j then nat l else j)"
      have "?P i"
      proof (cases "f \<le> int j \<and> int j \<le> l")
        case True
        then have "nat f \<le> j" "j \<le> nat l" using e by linarith+
        then have "?P j" using convex e unfolding convex_on_def by blast
        then show ?thesis using True by (simp add: i_def)
      qed (use e in \<open>auto simp: i_def\<close>)
      moreover have "i < n" "int i - 2 \<le> int j" "int j \<le> int i + 2" using e j assms(2) by (auto simp: i_def)
      ultimately show "\<exists>i < n. ?P i \<and> int i - 2 \<le> int j \<and> int j \<le> int i + 2" by blast
    qed (use inside in fastforce)
    finally show ?thesis .
  qed
qed

theorem mounted_cards_witness: "card_mounted (visible_range (sizes_for 3) 800 0 20) 0"
proof -
  have z: "0 \<le> cardSize (sizes_for 3) + cardGap (sizes_for 3)" by (simp add: sizes_for_def)
  have "card_in_view (sizes_for 3) 800 (card_left (sizes_for 3) 0 0)" by (simp add: sizes_for_def card_in_view_def card_left_def)
  then have "\<exists>i < 20. card_in_view (sizes_for 3) 800 (card_left (sizes_for 3) 0 i) \<and> int i - 2 \<le> int 0 \<and> int 0 \<le> int i + 2"
    by (intro exI [of _ 0]) simp
  then show ?thesis by (subst mounted_cards [OF z]) simp_all
qed

text \<open>The state is set again exactly when the ranges differ.\<close>

lemma ranges_changed_iff: "ranges_changed prev rs \<longleftrightarrow> prev \<noteq> rs"
proof -
  have "prev = rs \<longleftrightarrow> length prev = length rs \<and> (\<forall>i < length rs. prev ! i = rs ! i)"
    by (metis nth_equalityI)
  then show ?thesis unfolding ranges_changed_def list_ex_iff prod_eq_iff by force
qed

section \<open>The rows keep moving\<close>

definition stream_ok :: "StreamState \<Rightarrow> bool" where
  "stream_ok s \<longleftrightarrow> 0 < velocity s \<and> st_direction s \<in> {1, - 1} \<and> 0 < speedMultiplier s \<and> 0 \<le> cardLineWidth s"

definition beam_ok :: "beam \<Rightarrow> bool" where
  "beam_ok b \<longleftrightarrow> isAnimating b = (\<not> isDragging b) \<and> list_all stream_ok (streams b)"

lemma init_ok: "stream_ok (init_stream rows i cards)"
proof -
  have "i mod 3 \<in> {0, 1, 2}" by auto
  then have "0 < rc_speedMultiplier (ROW_CONFIGS ! (i mod length ROW_CONFIGS))" by (auto simp: ROW_CONFIGS_def)
  then show ?thesis by (simp add: stream_ok_def init_stream_def Let_def AUTO_SPEED_def sizes_for_def)
qed

lemma list_all_enumerate: "(\<And>i s. stream_ok s \<Longrightarrow> stream_ok (f (i, s))) \<Longrightarrow> list_all stream_ok ss \<Longrightarrow> list_all stream_ok (map f (List.enumerate n ss))"
  by (induction ss arbitrary: n) simp_all

lemma animate_ok: "stream_ok s \<Longrightarrow> stream_ok (animate_stream cw mv dt s)"
  by (auto simp: stream_ok_def animate_stream_def wrap_around_def slow_down_def AUTO_SPEED_def FRICTION_def Let_def)

lemma release_ok: "stream_ok s \<Longrightarrow> stream_ok (release_stream mv s)"
  by (auto simp: stream_ok_def release_stream_def AUTO_SPEED_def MIN_VELOCITY_def)

lemma shift_ok: "beam_ok b \<Longrightarrow> beam_ok (shift_streams dx b)"
  by (simp add: beam_ok_def shift_streams_def list_all_iff stream_ok_def)

lemma beam_step_ok:
  assumes "beam_step b b'" "beam_ok b"
  shows "beam_ok b'"
  using assms(1)
proof (cases rule: beam_step.cases)
  case (beam_frame dt cw m)
  then show ?thesis using assms(2) animate_ok by (auto simp: beam_ok_def animateCards_def intro!: list_all_enumerate split: if_splits)
next
  case (beam_drag x)
  then show ?thesis using shift_ok [OF assms(2), of "x - lastMouseX b"] assms(2) by (simp add: onDrag_def beam_ok_def Let_def)
next
  case beam_release
  then show ?thesis using assms(2) release_ok by (auto simp: endDrag_def beam_ok_def list_all_iff)
qed (use assms(2) shift_ok in \<open>auto simp: startDrag_def beam_ok_def onWheel_def\<close>)

lemma beamed_ok: "beamed rows b \<Longrightarrow> beam_ok b"
proof (induction rule: beamed.induct)
  case (beam_start padded)
  have "list_all stream_ok (map (\<lambda>(i, r). init_stream rows i (length r)) (List.enumerate k padded))" for k
    by (induction padded arbitrary: k) (simp_all add: init_ok)
  then show ?case by (simp add: beam_ok_def beam_init_def)
next
  case (beam_next b b')
  then show ?case by (blast intro: beam_step_ok)
qed

text \<open>
  The rows of cards neither stop nor get lost. After any frames, drags and turns of the wheel every
  row has a positive speed in one of the two directions, the rows move exactly while no drag is on,
  and the next frame of a mounted row leaves it between one length left of the container and the
  container's right edge.
\<close>

theorem beam_keeps_moving:
  assumes "beamed rows b" "0 \<le> cw" "i < length (streams b)" "m i"
  shows "isAnimating b = (\<not> isDragging b) \<and> 0 < velocity (streams b ! i)
    \<and> st_direction (streams b ! i) \<in> {1, - 1}
    \<and> (let s = streams (animateCards cw m dt b) ! i in - cardLineWidth s \<le> st_position s \<and> st_position s \<le> cw)"
proof -
  have ok: "beam_ok b" by (rule beamed_ok [OF assms(1)])
  then have s: "stream_ok (streams b ! i)" using assms(3) by (simp add: beam_ok_def list_all_length)
  have "streams (animateCards cw m dt b) ! i = animate_stream cw (isAnimating b \<and> \<not> isDragging b) dt (streams b ! i)"
    using assms(3,4) by (simp add: animateCards_def nth_enumerate_eq)
  moreover have "- cardLineWidth (animate_stream cw mv dt (streams b ! i)) \<le> st_position (animate_stream cw mv dt (streams b ! i))
      \<and> st_position (animate_stream cw mv dt (streams b ! i)) \<le> cw" for mv
    using s assms(2) by (auto simp: animate_stream_def wrap_around_def slow_down_def stream_ok_def Let_def)
  ultimately show ?thesis using ok s by (simp add: beam_ok_def stream_ok_def)
qed

theorem beam_keeps_moving_witness:
  "0 < velocity (streams (endDrag (onDrag 90 (startDrag 100 (beam_init 3 [[1 :: nat], [2], [3]])))) ! 0)"
proof -
  let ?b = "endDrag (onDrag 90 (startDrag 100 (beam_init 3 [[1 :: nat], [2], [3]])))"
  have "beamed 3 ?b"
    by (intro beam_next [OF beam_next [OF beam_next [OF beam_start beam_grab] beam_drag] beam_release])
  moreover have "0 < length (streams ?b)"
    by (simp add: endDrag_def onDrag_def startDrag_def beam_init_def shift_streams_def Let_def)
  ultimately show ?thesis using beam_keeps_moving [of 3 ?b 0 0 "\<lambda>_. True"] by blast
qed

subsection \<open>After a flick\<close>

definition run_frames :: "real \<Rightarrow> real list \<Rightarrow> StreamState \<Rightarrow> StreamState" where
  "run_frames cw dts s = foldl (\<lambda>s dt. animate_stream cw True dt s) s dts"

lemma animate_slow:
  assumes "velocity s \<le> AUTO_SPEED * speedMultiplier s"
  shows "velocity (animate_stream cw True dt s) = velocity s \<and> st_direction (animate_stream cw True dt s) = st_direction s
    \<and> speedMultiplier (animate_stream cw True dt s) = speedMultiplier s"
  using assms by (simp add: animate_stream_def wrap_around_def slow_down_def Let_def)

lemma run_slow:
  "velocity s \<le> AUTO_SPEED * speedMultiplier s \<Longrightarrow>
     velocity (run_frames cw dts s) = velocity s \<and> st_direction (run_frames cw dts s) = st_direction s"
proof (induction dts arbitrary: s)
  case (Cons d dts)
  then show ?case using animate_slow [OF Cons.prems, of cw d] by (simp add: run_frames_def)
qed (simp add: run_frames_def)

text \<open>
  A slow flick is never undone. A row that is let go at more than 30 and at most 80 pixels per second
  keeps that speed in every later frame, and after a flick to the left it runs backwards until the
  next drag: only a speed above the row's own is slowed down and turned forwards again.
\<close>

theorem slow_flick_keeps:
  assumes "MIN_VELOCITY < \<bar>mv\<bar>" "\<bar>mv\<bar> \<le> AUTO_SPEED" "0 < speedMultiplier s"
  shows "let s' = run_frames cw dts (release_stream mv s)
    in velocity s' = \<bar>mv\<bar> * speedMultiplier s \<and> st_direction s' = (if 0 < mv then 1 else - 1)"
proof -
  let ?r = "release_stream mv s"
  have r: "velocity ?r = \<bar>mv\<bar> * speedMultiplier s" "st_direction ?r = (if 0 < mv then 1 else - 1)" "speedMultiplier ?r = speedMultiplier s"
    using assms(1) by (simp_all add: release_stream_def)
  have "velocity ?r \<le> AUTO_SPEED * speedMultiplier ?r" using assms r by (simp add: mult_right_mono)
  from run_slow [OF this, of cw dts] show ?thesis using r by simp
qed

theorem slow_flick_keeps_witness:
  "st_direction (run_frames 800 (replicate 1000 (1 / 60)) (release_stream (- 60) (init_stream 3 0 20))) = - 1"
proof -
  have "0 < speedMultiplier (init_stream 3 0 20)" using init_ok by (simp add: stream_ok_def)
  then show ?thesis using slow_flick_keeps [of "- 60" "init_stream 3 0 20" 800 "replicate 1000 (1 / 60)"]
    by (simp add: MIN_VELOCITY_def AUTO_SPEED_def Let_def)
qed

text \<open>
  A fast flick is undone: friction brings the row to its own speed, and there it turns forwards,
  unless some frame slows it down to exactly that speed.
\<close>

lemma animate_fast:
  assumes "AUTO_SPEED * speedMultiplier s < velocity s" "AUTO_SPEED * speedMultiplier s < velocity s * FRICTION"
  shows "velocity (animate_stream cw True dt s) = velocity s * FRICTION
    \<and> speedMultiplier (animate_stream cw True dt s) = speedMultiplier s"
  using assms by (simp add: animate_stream_def wrap_around_def slow_down_def Let_def)

lemma animate_turns:
  assumes "AUTO_SPEED * speedMultiplier s < velocity s" "velocity s * FRICTION < AUTO_SPEED * speedMultiplier s"
  shows "velocity (animate_stream cw True dt s) = AUTO_SPEED * speedMultiplier s \<and> st_direction (animate_stream cw True dt s) = 1"
  using assms by (simp add: animate_stream_def wrap_around_def slow_down_def Let_def)

lemma fast_flick_recovers:
  "AUTO_SPEED * speedMultiplier s < velocity s \<Longrightarrow> velocity s * FRICTION ^ n < AUTO_SPEED * speedMultiplier s
    \<Longrightarrow> \<forall>k \<le> n. velocity s * FRICTION ^ k \<noteq> AUTO_SPEED * speedMultiplier s
    \<Longrightarrow> \<exists>k \<le> n. velocity (run_frames cw (replicate k dt) s) = AUTO_SPEED * speedMultiplier s
      \<and> st_direction (run_frames cw (replicate k dt) s) = 1"
proof (induction n arbitrary: s)
  case (Suc n)
  let ?s = "animate_stream cw True dt s" and ?T = "AUTO_SPEED * speedMultiplier s"
  have ne: "velocity s * FRICTION \<noteq> ?T" using spec [OF Suc.prems(3), of 1] by simp
  show ?case
  proof (cases "velocity s * FRICTION < ?T")
    case True
    have "velocity ?s = ?T \<and> st_direction ?s = 1" by (rule animate_turns [OF Suc.prems(1) True])
    then show ?thesis by (intro exI [of _ 1]) (simp add: run_frames_def)
  next
    case False
    then have gt: "?T < velocity s * FRICTION" using ne by simp
    have v: "velocity ?s = velocity s * FRICTION" "speedMultiplier ?s = speedMultiplier s"
      using animate_fast [OF Suc.prems(1) gt] by blast+
    have "\<forall>k \<le> n. velocity ?s * FRICTION ^ k \<noteq> AUTO_SPEED * speedMultiplier ?s"
    proof (intro allI impI)
      fix k assume "k \<le> n"
      then show "velocity ?s * FRICTION ^ k \<noteq> AUTO_SPEED * speedMultiplier ?s"
        using spec [OF Suc.prems(3), of "Suc k"] v by (simp add: mult.assoc)
    qed
    then obtain k where "k \<le> n" "velocity (run_frames cw (replicate k dt) ?s) = ?T" "st_direction (run_frames cw (replicate k dt) ?s) = 1"
      using Suc.IH [of ?s] gt Suc.prems(2) v by (auto simp: mult.assoc)
    then show ?thesis by (intro exI [of _ "Suc k"]) (simp add: run_frames_def)
  qed
qed simp

text \<open>The third row is to be faster than the others but starts at the common speed and keeps it.\<close>

lemma third_row_keeps_start_speed:
  "velocity (run_frames cw dts (init_stream 3 2 cards)) = 80 \<and> AUTO_SPEED * speedMultiplier (init_stream 3 2 cards) = 92"
proof -
  let ?s = "init_stream 3 2 cards"
  have "velocity ?s = 80" "AUTO_SPEED * speedMultiplier ?s = 92"
    by (simp_all add: init_stream_def ROW_CONFIGS_def AUTO_SPEED_def Let_def)
  then show ?thesis using run_slow [of ?s cw dts] by simp
qed

end
