(* ===== verification/Template_View.thy ===== *)
theory Template_View
  imports Sui_Queries Bitcoin_Template
begin

text \<open>
  Model of the tables of templates and miners: the order of \<open>web/hooks/useTemplates.ts\<close>, the filter,
  sorting, columns and expanded row of \<open>web/components/TemplateTable.tsx\<close>, the sorting and staleness of
  \<open>web/components/MinerTable.tsx\<close>, and the slots of \<open>web/components/FeaturedTemplate.tsx\<close>. The decimal
  notation of numbers (\<open>numStr\<close>) and \<open>localeCompare\<close> are parameters. Cells stand for what they show.
\<close>

section \<open>The order of the templates\<close>

definition template_order :: "TemplateData \<Rightarrow> TemplateData \<Rightarrow> number" where
  "template_order a b =
     (if isActive a \<noteq> isActive b then (if isActive a then Fin (- 1) else 1)
      else if td_height b \<noteq> td_height a \<or> td_height a = NaN then td_height b - td_height a
      else createdAtMs b - createdAtMs a)"

definition useTemplates :: "TemplateData list option \<Rightarrow> TemplateData list" where
  "useTemplates rawTemplates = (case rawTemplates of None \<Rightarrow> [] | Some ts \<Rightarrow> js_sort template_order ts)"

section \<open>The table\<close>

datatype SortDir = Asc | Desc
datatype template_key = ByHeight | ByCreatedAt | ByNtime | ByShareCount

fun template_value :: "template_key \<Rightarrow> TemplateData \<Rightarrow> number" where
  "template_value ByHeight t = td_height t"
| "template_value ByCreatedAt t = createdAtMs t"
| "template_value ByNtime t = ntime t"
| "template_value ByShareCount t = Fin (real (shareCount t))"

definition shown_template :: "(number \<Rightarrow> string) \<Rightarrow> string \<Rightarrow> TemplateData \<Rightarrow> bool" where
  "shown_template numStr q t =
     (q = [] \<or> (let q' = map to_lower q in
        js_includes q' (map to_lower (td_id t)) \<or> js_includes q' (map to_lower (td_owner t)) \<or> js_includes q' (numStr (td_height t))))"

definition template_cmp :: "template_key \<Rightarrow> SortDir \<Rightarrow> TemplateData \<Rightarrow> TemplateData \<Rightarrow> number" where
  "template_cmp key dir a b =
     (case dir of Asc \<Rightarrow> template_value key a - template_value key b | Desc \<Rightarrow> template_value key b - template_value key a)"

datatype ColumnKey = OwnerCol | HeightCol | CoinbaseAsciiCol | TimeReceivedCol | NtimeCol | MerkleCol | CoinbaseRawCol | SharesCol | StatusCol

record template_table =
  tt_sortKey :: template_key
  tt_sortDir :: SortDir
  tt_filter :: string
  visibleCols :: "ColumnKey list"
  expandedId :: "string option"

definition initial_table :: template_table where
  "initial_table =
     \<lparr>tt_sortKey = ByCreatedAt, tt_sortDir = Desc, tt_filter = [],
      visibleCols = [OwnerCol, HeightCol, NtimeCol, MerkleCol, SharesCol, StatusCol], expandedId = None\<rparr>"

definition sorted_rows :: "(number \<Rightarrow> string) \<Rightarrow> string option \<Rightarrow> TemplateData list \<Rightarrow> template_table \<Rightarrow> TemplateData list" where
  "sorted_rows numStr excludeId allTemplates tt =
     (let templates = (case excludeId of Some e \<Rightarrow> if e = [] then allTemplates else filter (\<lambda>t. td_id t \<noteq> e) allTemplates | None \<Rightarrow> allTemplates)
      in js_sort (template_cmp (tt_sortKey tt) (tt_sortDir tt)) (filter (shown_template numStr (tt_filter tt)) templates))"

definition flip_dir :: "SortDir \<Rightarrow> SortDir" where "flip_dir d = (case d of Asc \<Rightarrow> Desc | Desc \<Rightarrow> Asc)"

definition toggleSort :: "template_key \<Rightarrow> template_table \<Rightarrow> template_table" where
  "toggleSort key tt =
     (if tt_sortKey tt = key then tt\<lparr>tt_sortDir := flip_dir (tt_sortDir tt)\<rparr> else tt\<lparr>tt_sortKey := key, tt_sortDir := Desc\<rparr>)"

definition toggleCol :: "ColumnKey \<Rightarrow> template_table \<Rightarrow> template_table" where
  "toggleCol key tt =
     tt\<lparr>visibleCols := (if key \<in> set (visibleCols tt) then filter (\<lambda>c. c \<noteq> key) (visibleCols tt) else js_set_add (visibleCols tt) key)\<rparr>"

definition toggleRow :: "string \<Rightarrow> template_table \<Rightarrow> template_table" where
  "toggleRow i tt = tt\<lparr>expandedId := (if expandedId tt = Some i then None else Some i)\<rparr>"

definition maxBranches :: "TemplateData list \<Rightarrow> nat" where
  "maxBranches ts = min (foldl (\<lambda>m t. if m < length (merkleBranches t) then length (merkleBranches t) else m) 0 ts) 13"

definition isVisible :: "template_table \<Rightarrow> ColumnKey \<Rightarrow> bool" where
  "isVisible tt c = (c \<in> set (visibleCols tt))"

definition totalCols :: "template_table \<Rightarrow> nat \<Rightarrow> nat" where
  "totalCols tt mb =
     foldl (\<lambda>n c. if isVisible tt c then n + (if c = MerkleCol then (if mb = 0 then 1 else mb) else 1) else n) 0
       [OwnerCol, HeightCol, CoinbaseAsciiCol, TimeReceivedCol, NtimeCol, MerkleCol, CoinbaseRawCol, SharesCol, StatusCol] + 1"

datatype head_cell = Head ColumnKey | MerkleHead nat | LinkHead
datatype row_cell = Cell ColumnKey | Branch string | NoBranch | LinkCell

definition head_cells :: "template_table \<Rightarrow> nat \<Rightarrow> head_cell list" where
  "head_cells tt mb =
     map Head (filter (isVisible tt) [OwnerCol, HeightCol, CoinbaseAsciiCol, TimeReceivedCol, NtimeCol])
     @ (if isVisible tt MerkleCol then map MerkleHead [0..<mb] else [])
     @ map Head (filter (isVisible tt) [CoinbaseRawCol, SharesCol, StatusCol]) @ [LinkHead]"

definition branch_cell :: "TemplateData \<Rightarrow> nat \<Rightarrow> row_cell" where
  "branch_cell t i = (case index (merkleBranches t) i of Some b \<Rightarrow> if b = [] then NoBranch else Branch (take 6 b) | None \<Rightarrow> NoBranch)"

definition row_cells :: "template_table \<Rightarrow> nat \<Rightarrow> TemplateData \<Rightarrow> row_cell list" where
  "row_cells tt mb t =
     map Cell (filter (isVisible tt) [OwnerCol, HeightCol, CoinbaseAsciiCol, TimeReceivedCol, NtimeCol])
     @ (if isVisible tt MerkleCol then map (branch_cell t) [0..<mb] else [])
     @ map Cell (filter (isVisible tt) [CoinbaseRawCol, SharesCol, StatusCol]) @ [LinkCell]"

text \<open>The 4 by 4 tray of the featured template: the branches and the slots left empty.\<close>

definition featured_slots :: "TemplateData \<Rightarrow> string list \<times> nat" where
  "featured_slots t = (let bs = take 16 (merkleBranches t) in (bs, nat (max 0 (16 - int (length bs)))))"

section \<open>The miners\<close>

datatype miner_key = ByAddress | ByTotalShares | ByBlocksFound | ByHashrate | ByLastShare | ByRoundWork

fun miner_value :: "miner_key \<Rightarrow> MinerStatsData \<Rightarrow> string + number" where
  "miner_value ByAddress m = Inl (ms_address m)"
| "miner_value ByTotalShares m = Inr (ms_totalShares m)"
| "miner_value ByBlocksFound m = Inr (blocksFound m)"
| "miner_value ByHashrate m = Inr (estimatedHashrate m)"
| "miner_value ByLastShare m = Inr (lastShareTimeMs m)"
| "miner_value ByRoundWork m = Inr (currentRoundWork m)"

definition miner_cmp :: "(number \<Rightarrow> string) \<Rightarrow> (string \<Rightarrow> string \<Rightarrow> number) \<Rightarrow> miner_key \<Rightarrow> SortDir \<Rightarrow> MinerStatsData \<Rightarrow> MinerStatsData \<Rightarrow> number" where
  "miner_cmp numStr localeCompare key dir a b =
     (let str = (\<lambda>v. case v of Inl s \<Rightarrow> s | Inr n \<Rightarrow> numStr n);
          asc = (\<lambda>x y. case (miner_value key x, miner_value key y) of (Inr n, Inr k) \<Rightarrow> n - k
                     | (v, w) \<Rightarrow> localeCompare (str v) (str w))
      in case dir of Asc \<Rightarrow> asc a b | Desc \<Rightarrow> asc b a)"

definition sorted_miners :: "(number \<Rightarrow> string) \<Rightarrow> (string \<Rightarrow> string \<Rightarrow> number) \<Rightarrow> miner_key \<Rightarrow> SortDir \<Rightarrow> MinerStatsData list \<Rightarrow> MinerStatsData list" where
  "sorted_miners numStr localeCompare key dir miners = js_sort (miner_cmp numStr localeCompare key dir) miners"

definition STALENESS_THRESHOLD_MS :: number where "STALENESS_THRESHOLD_MS = 30000 * 4"

definition isStale :: "number \<Rightarrow> MinerStatsData \<Rightarrow> bool" where
  "isStale now m = (if lastShareTimeMs m = 0 then False else STALENESS_THRESHOLD_MS < now - lastShareTimeMs m)"

section \<open>Order\<close>

definition plain_template :: "TemplateData \<Rightarrow> bool" where
  "plain_template t \<longleftrightarrow> isFinite (td_height t) \<and> isFinite (createdAtMs t) \<and> isFinite (ntime t)"

text \<open>\<open>a\<close> may stand before \<open>b\<close>: active templates first, then the higher block, then the later registration.\<close>

definition ranked_before :: "TemplateData \<Rightarrow> TemplateData \<Rightarrow> bool" where
  "ranked_before a b \<longleftrightarrow>
     (isActive a \<and> \<not> isActive b) \<or> (isActive a = isActive b \<and> (td_height b < td_height a
        \<or> (td_height a = td_height b \<and> createdAtMs b \<le> createdAtMs a)))"

text \<open>
  Templates are listed by height. The hook shows every template that was read, the active ones
  before the others, each group from the highest block down, and those of one height from the
  last registered down.
\<close>

theorem useTemplates_ranked:
  assumes "list_all plain_template ts"
  shows "sorted_wrt ranked_before (useTemplates (Some ts)) \<and> mset (useTemplates (Some ts)) = mset ts"
proof -
  have fin: "\<exists>h c. td_height t = Fin h \<and> createdAtMs t = Fin c" if "t \<in> set ts" for t
    using assms that by (auto simp: list_all_iff plain_template_def isFinite_iff)
  have "sorted_wrt ranked_before (js_sort template_order ts)"
  proof (rule js_sort_sorted_wrt)
    fix a b assume "a \<in> set ts" "b \<in> set ts"
    then obtain h c k d where "td_height a = Fin h" "createdAtMs a = Fin c" "td_height b = Fin k" "createdAtMs b = Fin d"
      using fin by meson
    then show "if 0 < template_order a b then ranked_before b a else ranked_before a b"
      by (auto simp: template_order_def ranked_before_def)
  next
    fix a b c assume "a \<in> set ts" "b \<in> set ts" "c \<in> set ts" and r: "ranked_before a b" "ranked_before b c"
    then obtain h1 h2 h3 c1 c2 c3 where "td_height a = Fin h1" "createdAtMs a = Fin c1" "td_height b = Fin h2" "createdAtMs b = Fin c2"
      "td_height c = Fin h3" "createdAtMs c = Fin c3" using fin by meson
    then show "ranked_before a c" using r by (auto simp: ranked_before_def)
  qed
  then show ?thesis by (simp add: useTemplates_def)
qed

definition demo_template :: "string \<Rightarrow> real \<Rightarrow> real \<Rightarrow> bool \<Rightarrow> TemplateData" where
  "demo_template i h c act =
     \<lparr>td_id = i, td_height = Fin h, prevBlockHash = [], coinbase1 = [], coinbase2 = [], merkleBranches = [''aabbccdd''], version = 1,
      td_nbits = 1, ntime = 5, isActive = act, td_owner = ''0xA'', createdAtMs = Fin c, shareCount = 3, stakedAmount = None,
      registrationDigest = JNull, lastShareDigest = JNull\<rparr>"

text \<open>The first template is the one of the highest block, not the one registered last.\<close>

theorem useTemplates_ranked_witness:
  "td_id (hd (useTemplates (Some [demo_template ''old'' 900 10 True, demo_template ''new'' 899 20 True]))) = ''old''
    \<and> sorted_wrt ranked_before (useTemplates (Some [demo_template ''old'' 900 10 True, demo_template ''new'' 899 20 True]))"
proof -
  have "list_all plain_template [demo_template ''old'' 900 10 True, demo_template ''new'' 899 20 True]"
    by (simp add: plain_template_def demo_template_def)
  from useTemplates_ranked [OF this] show ?thesis
    by (simp add: useTemplates_def js_sort_Cons template_order_def demo_template_def)
qed

text \<open>The value of a column as a real number.\<close>

definition column_real :: "template_key \<Rightarrow> TemplateData \<Rightarrow> real" where
  "column_real key t = (case template_value key t of Fin x \<Rightarrow> x | _ \<Rightarrow> 0)"

lemma column_Fin: "plain_template t \<Longrightarrow> template_value key t = Fin (column_real key t)"
  by (cases key) (auto simp: plain_template_def isFinite_iff column_real_def)

text \<open>
  The table shows what it is asked for. A template is listed when it is not the excluded one and the
  filter is empty or occurs in its identifier, owner or height; the rows are in the order of the chosen
  column, in the direction chosen, and templates with equal values stay in the order they came in.
\<close>

theorem table_rows:
  assumes "list_all plain_template ts"
  shows "sorted_rows numStr excludeId ts tt
    = sort_key (\<lambda>t. (case tt_sortDir tt of Asc \<Rightarrow> 1 | Desc \<Rightarrow> - 1) * column_real (tt_sortKey tt) t)
        (filter (\<lambda>t. shown_template numStr (tt_filter tt) t \<and> (excludeId = None \<or> excludeId = Some [] \<or> excludeId \<noteq> Some (td_id t))) ts)"
proof -
  let ?ok = "\<lambda>t. excludeId = None \<or> excludeId = Some [] \<or> excludeId \<noteq> Some (td_id t)"
  let ?rows = "filter (\<lambda>t. shown_template numStr (tt_filter tt) t \<and> ?ok t) ts"
  let ?f = "\<lambda>t. (case tt_sortDir tt of Asc \<Rightarrow> 1 | Desc \<Rightarrow> - 1) * column_real (tt_sortKey tt) t"
  have "(case excludeId of Some e \<Rightarrow> if e = [] then ts else filter (\<lambda>t. td_id t \<noteq> e) ts | None \<Rightarrow> ts) = filter ?ok ts"
    by (auto split: option.splits intro!: filter_cong)
  then have "sorted_rows numStr excludeId ts tt = js_sort (template_cmp (tt_sortKey tt) (tt_sortDir tt)) ?rows"
    by (simp add: sorted_rows_def Let_def conj_commute)
  also have "\<dots> = sort_key ?f ?rows"
  proof (rule js_sort_sort_key)
    fix a b assume "a \<in> set ?rows" "b \<in> set ?rows"
    then have "plain_template a" "plain_template b" using assms by (auto simp: list_all_iff)
    then show "template_cmp (tt_sortKey tt) (tt_sortDir tt) a b = Fin (?f a - ?f b)"
      by (cases "tt_sortDir tt") (simp_all add: template_cmp_def column_Fin)
  qed
  finally show ?thesis .
qed

theorem table_rows_witness:
  "map td_id (sorted_rows (\<lambda>_. ''900'') (Some ''x'') [demo_template ''x'' 900 10 True, demo_template ''a'' 900 10 True, demo_template ''b'' 900 20 True]
     initial_table) = [''b'', ''a'']"
proof -
  let ?ts = "[demo_template ''x'' 900 10 True, demo_template ''a'' 900 10 True, demo_template ''b'' 900 20 True]"
  have "list_all plain_template ?ts" by (simp add: plain_template_def demo_template_def)
  from table_rows [OF this, of "\<lambda>_. ''900''" "Some ''x''" initial_table] show ?thesis
    by (simp add: initial_table_def shown_template_def demo_template_def column_real_def)
qed

text \<open>A second click on a column's head turns its order round and a third restores it; another column starts downwards.\<close>

lemma toggleSort_twice: "tt_sortKey tt = key \<Longrightarrow> toggleSort key (toggleSort key tt) = tt"
  by (cases "tt_sortDir tt") (simp_all add: toggleSort_def flip_dir_def)

lemma toggleSort_other: "tt_sortKey tt \<noteq> key \<Longrightarrow> tt_sortDir (toggleSort key tt) = Desc \<and> tt_sortKey (toggleSort key tt) = key"
  by (simp add: toggleSort_def)

lemma toggleCol_visible: "isVisible (toggleCol key tt) c \<longleftrightarrow> (if c = key then \<not> isVisible tt key else isVisible tt c)"
  by (simp add: isVisible_def toggleCol_def js_set_add_def)

section \<open>Columns\<close>

lemma foldl_max:
  "k \<le> foldl (\<lambda>m t. if m < f t then f t else m) (k :: nat) ts \<and> (\<forall>t \<in> set ts. f t \<le> foldl (\<lambda>m t. if m < f t then f t else m) k ts)"
proof (induction ts arbitrary: k)
  case (Cons t ts)
  show ?case using Cons [of "if k < f t then f t else k"] by auto
qed simp

lemma branches_covered: "t \<in> set ts \<Longrightarrow> min (length (merkleBranches t)) 13 \<le> maxBranches ts"
  using foldl_max [of 0 "\<lambda>t. length (merkleBranches t)" ts] unfolding maxBranches_def by (intro min.mono) auto

text \<open>
  head, rows and spans agree. Whatever columns are chosen, every row has a cell for each head, the cell
  that spans the table has their number (one more when the branches are shown and no template has any),
  and a row shows the start of each of the first thirteen merkle branches of its template.
\<close>

theorem table_columns:
  assumes "t \<in> set ts"
  shows "length (row_cells tt (maxBranches ts) t) = length (head_cells tt (maxBranches ts))
    \<and> totalCols tt (maxBranches ts)
        = length (head_cells tt (maxBranches ts)) + (if isVisible tt MerkleCol \<and> maxBranches ts = 0 then 1 else 0)
    \<and> (isVisible tt MerkleCol \<longrightarrow> (\<forall>i < min (length (merkleBranches t)) 13. merkleBranches t ! i \<noteq> []
          \<longrightarrow> Branch (take 6 (merkleBranches t ! i)) \<in> set (row_cells tt (maxBranches ts) t)))"
proof (intro conjI impI allI)
  show "length (row_cells tt (maxBranches ts) t) = length (head_cells tt (maxBranches ts))"
    by (simp add: row_cells_def head_cells_def)
  show "totalCols tt (maxBranches ts) = length (head_cells tt (maxBranches ts)) + (if isVisible tt MerkleCol \<and> maxBranches ts = 0 then 1 else 0)"
    by (simp add: totalCols_def head_cells_def)
next
  fix i assume v: "isVisible tt MerkleCol" and i: "i < min (length (merkleBranches t)) 13" "merkleBranches t ! i \<noteq> []"
  then have "i < maxBranches ts" using branches_covered [OF assms] by linarith
  moreover have "branch_cell t i = Branch (take 6 (merkleBranches t ! i))" using i by (simp add: branch_cell_def index_def)
  ultimately show "Branch (take 6 (merkleBranches t ! i)) \<in> set (row_cells tt (maxBranches ts) t)"
    using v by (force simp: row_cells_def)
qed

theorem table_columns_witness:
  "Branch ''aabbcc'' \<in> set (row_cells initial_table (maxBranches [demo_template ''a'' 900 10 True]) (demo_template ''a'' 900 10 True))"
  using table_columns [of "demo_template ''a'' 900 10 True" "[demo_template ''a'' 900 10 True]" initial_table]
  by (simp add: demo_template_def initial_table_def isVisible_def)

text \<open>The tray of the featured template is full for up to sixteen branches.\<close>

lemma featured_slots_full: "length (fst (featured_slots t)) + snd (featured_slots t) = 16"
  by (simp add: featured_slots_def Let_def)

section \<open>Miners\<close>

text \<open>
  A miner whose last share is unknown counts as active, and that is every miner the indexer is asked
  for: its record has no time of a share.
\<close>

lemma fetched_miner_never_stale: "fetchMinerStats server packageId address = Some m \<Longrightarrow> \<not> isStale now m"
  by (auto simp: fetchMinerStats_def isStale_def Let_def split: if_splits sum.splits)

text \<open>Numeric columns of the miners sort like those of the templates, downwards by default.\<close>

lemma sorted_miners_desc:
  assumes "\<forall>m \<in> set ms. \<exists>x. miner_value key m = Inr (Fin x)"
  shows "sorted_wrt (\<lambda>a b. projr (miner_value key b) \<le> projr (miner_value key a)) (sorted_miners numStr lc key Desc ms)
    \<and> mset (sorted_miners numStr lc key Desc ms) = mset ms"
proof -
  define f where "f m = (case miner_value key m of Inr (Fin x) \<Rightarrow> x | _ \<Rightarrow> 0)" for m
  have f: "miner_value key m = Inr (Fin (f m))" if "m \<in> set ms" for m using assms that by (auto simp: f_def)
  have "sorted_wrt (\<lambda>a b. f b \<le> f a) (sorted_miners numStr lc key Desc ms)"
    unfolding sorted_miners_def by (rule js_sort_desc) (simp add: miner_cmp_def f Let_def)
  then have "sorted_wrt (\<lambda>a b. projr (miner_value key b) \<le> projr (miner_value key a)) (sorted_miners numStr lc key Desc ms)"
    by (rule sorted_wrt_mono_rel [rotated]) (auto simp: sorted_miners_def f)
  then show ?thesis by (simp add: sorted_miners_def)
qed

end
