(* ===== verification/Spec2Isabelle.thy ===== *)
theory Spec2Isabelle
  imports Coinbase_Parser Utils Profitability Miner_Hedge Amounts Block_Hashes Market_History
    Orders Otc_Escrow Sui_Shares DeepBook Miner_Flow Otc_Page Hedge_Page
    Block_Files Static_Api Rewards Market_View Market_Simulator Calculators Block_View Intro_View Card_Beam
    Template_View
begin

text \<open>
  This development models the TypeScript of the m1n3 dashboard (\<open>web/\<close>, and the site server
  \<open>scripts/serve-web-static.mjs\<close>) and proves what its parts promise to each other and to the user.
  The dashboard reads mining rounds, templates, shares and orders from a Sui node, shows them, prices
  hashpower, and builds the transactions that a wallet signs: orders and swaps of HashShares, the
  escrow of over-the-counter trades, hedges on a prediction market, reward claims. Data flows from
  the node through the read clients and hooks into pages, and from the pages' handlers as programmable
  transactions to the wallet; the theorems follow both directions.

  \<^bold>\<open>How programs are represented.\<close> A handler or hook is one function from its inputs (props, state,
  answers of the node) to its result. Failures are values: \<open>Inl\<close> of an error type, or \<open>None\<close>. State that
  lives across calls (caches, React state and refs, SDK instances) is a record that is passed and
  returned; where steps interleave, an inductive relation gives the reachable states. A JavaScript
  number is \<open>number\<close> of \<open>Js_Prelude\<close>: exact reals with both infinities and NaN. Rounding to 53 bits is
  not modelled, so equalities between amounts hold up to floating point rounding in the program, while
  everything done with \<open>bigint\<close>, 32-bit operators and bytes is exact (\<open>int\<close> and machine words). Strings
  are lists of characters below 256.

  \<^bold>\<open>Theories and sources.\<close>
  \<^item> \<open>Js_Prelude\<close>, \<open>Js_Json\<close>, \<open>Encoding\<close>: the runtime. Numbers and \<open>Math\<close>, \<open>slice\<close>, \<open>sort\<close>, \<open>Map\<close> and \<open>Set\<close>,
    \<open>parseInt\<close>, \<open>toString\<close>, \<open>BigInt\<close>; JSON access with undefined; base64 and UTF-8. The locale
    \<open>byte_decoder\<close> is the contract of the two base64 decoders, interpreted for \<open>atob\<close> and \<open>Buffer\<close>.
  \<^item> \<open>Bitcoin_Utils\<close>, \<open>Coinbase_Parser\<close> (\<open>lib/bitcoin-utils.ts\<close>), \<open>Bitcoin_Template\<close> (\<open>lib/bitcoin-template.ts\<close>),
    \<open>Utils\<close> (\<open>lib/utils.ts\<close>): headers, coinbases, targets, merkle branches. Headers reassemble from their
    parts; the merkle branches climb to the root (locale \<open>pair_hash\<close>, interpreted for double SHA-256);
    the height and the outputs of a built coinbase read back.
  \<^item> \<open>Hashprice\<close>, \<open>Profitability\<close>, \<open>Calculators\<close>, \<open>Market_History\<close> (\<open>lib/hashprice-utils.ts\<close>, \<open>hooks/useHashprice.ts\<close>,
    \<open>lib/profitability-utils.ts\<close>, the two calculators of the tools page, \<open>hooks/useMarketHistory.ts\<close>): valuations
    that agree with each other, bounds and monotonicity, the binary search of prices against a scan.
  \<^item> \<open>Predict_Client\<close>, \<open>Hedge_Math\<close>, \<open>Miner_Hedge\<close>, \<open>Hedge_Page\<close> (\<open>lib/predict-client.ts\<close>, \<open>lib/hedge-math.ts\<close>,
    \<open>hooks/useMinerHedge.ts\<close>, \<open>components/hedge\<close>): the strip of ranges partitions its band and its loop returns;
    a placed hedge mints exactly the strip shown and spends exactly its cost; positions show its payoff.
  \<^item> \<open>Amounts\<close>, \<open>Otc_Escrow\<close>, \<open>Otc_Page\<close> (\<open>lib/quote-tokens.ts\<close>, \<open>lib/quote-format.ts\<close>, \<open>lib/otc-ticket.ts\<close>,
    \<open>lib/confidential-constants.ts\<close>, \<open>hooks/useOtcEscrow.ts\<close>, \<open>components/otc\<close>): amounts and links round trip
    (locale \<open>amount_codec\<close>, interpreted for both formats); locking and settling move exactly the agreed
    amounts; a link the seller sends reaches the buyer's settlement form.
  \<^item> \<open>Ptb\<close>: programmable transactions and an interpreter of their coin commands, in which the effect of a
    transaction on a wallet is stated.
  \<^item> \<open>Sui_Rpc\<close>, \<open>Orders\<close>, \<open>Wallet\<close>, \<open>Rewards\<close> (order hooks, coin and share hooks, \<open>app/rewards/page.tsx\<close>,
    \<open>hooks/useRoundHistories.ts\<close>): paging and batching against a node that serves a stream. The locale
    \<open>aggregator\<close> says that a fold over pages computes a meaning of all events; it is interpreted for order
    fills, trade volume, latest templates and DeepBook pools. Reward claims go to the right round.
  \<^item> \<open>Sui_Queries\<close>, \<open>Sui_Shares\<close>, \<open>Miner_Flow\<close>, \<open>Block_View\<close> (\<open>lib/sui-graphql.ts\<close>, \<open>lib/sui-queries.ts\<close>,
    \<open>lib/sui-shares.ts\<close>, \<open>hooks/useMinerFlow.ts\<close>, \<open>hooks/useBlockShares.ts\<close>, block and template views): templates
    and shares read back from their chain representation, merged and counted; flows conserve shares; the
    byte map shows the header and fragments cover their bits.
  \<^item> \<open>Template_View\<close> (\<open>hooks/useTemplates.ts\<close>, \<open>components/TemplateTable.tsx\<close>, \<open>components/MinerTable.tsx\<close>):
    the order of templates and miners, and the rows and columns their tables show.
  \<^item> \<open>Share_Market\<close>, \<open>Private_Market\<close>, \<open>Market_View\<close> (\<open>app/marketplace/page.tsx\<close>, \<open>components/market\<close>): the walks over
    the book are optimal (locale \<open>book_walk\<close>, interpreted for both sides), swaps and order handlers build
    transactions that spend exactly what the legs cost, and the side rail shows the best of the book.
  \<^item> \<open>DeepBook\<close> (\<open>lib/deepbook.ts\<close>, \<open>lib/deepbook-client.ts\<close>, \<open>hooks/useDeepBookPool.ts\<close>,
    \<open>hooks/useBalanceManager.ts\<close>, \<open>components/market/DeepBookSwapPanel.tsx\<close>): clients, managers and swaps, with the
    session of the page as a step relation (\<open>ui_step\<close>).
  \<^item> \<open>Draws\<close>, \<open>Mock_Market\<close>, \<open>Market_Simulator\<close> (\<open>data/mock-market.ts\<close>, \<open>components/MarketSimulator.tsx\<close>): the seeded
    generator over 32-bit words in the state monad, and the animated market as a state machine
    (\<open>reachable\<close>) with its invariant.
  \<^item> \<open>Frame_Loop\<close>, \<open>Intro_Player\<close>, \<open>Intro_View\<close> (\<open>hooks/useAnimationFrame.ts\<close>, \<open>data/intro-scenarios.ts\<close>,
    \<open>components/IntroPlayer.tsx\<close> and the timeline, chart and card it shows): the one animation loop (\<open>looped\<close>),
    the player as a state machine (\<open>played\<close>) whose chart does not depend on how it was steered and that
    comes to its end, and strokes that stay inside their frame.
  \<^item> \<open>Hex_Bytes\<close>, \<open>Card_Beam\<close> (\<open>components/CardBeamAnimation\<close>): the bytes on the block cards, dealing blocks to
    rows (a partial function proved to return), the cards in view, and the motion of the rows (\<open>beamed\<close>).
  \<^item> \<open>Block_Hashes\<close>, \<open>Block_Files\<close> (\<open>lib/block-hashes-client.ts\<close>, \<open>scripts/split-block-hashes.mjs\<close>): the files the
    build writes are the ones the client reads back, with caches that ask for nothing twice (locale
    \<open>read_through\<close>, interpreted for chunks and entries).
  \<^item> \<open>Static_Server\<close>, \<open>Static_Api\<close> (\<open>scripts/serve-web-static.mjs\<close>): path resolution with the functions of
    \<open>node:path\<close>, confinement to the served directory, the two JSON endpoints.
  \<^item> This theory: properties that span components, from the node to the submitted transaction.

  \<^bold>\<open>Loops and bounds.\<close> Loops over data are structural or have a termination proof. Four loops may run
  forever on a hostile input and are partial functions with \<open>None\<close> for not returning: the strip loop, which is
  proved to return for every band of positive bin width, the two GraphQL paging loops, which are proved to
  return for a server whose list of nodes is finite, and the padding of card rows, which is proved to
  return for any blocks. The page limits (50, 100, five pages) are those of the
  code and are part of the statements.

  \<^bold>\<open>Parameters.\<close> Code outside the repository is an argument: the Sui node and its indexer, the wallet's
  signature, SHA-256, the transaction decoder and address encoder of bitcoinjs, the DeepBook SDK, HTTP
  answers, the file system, \<open>JSON.parse\<close> and \<open>JSON.stringify\<close>, \<open>Date.parse\<close> and the clock, random numbers,
  the decimal notation of numbers that are not integers, the text decoder and the network name. What a
  property needs of one is a hypothesis of its statement, and its witness gives a concrete instance.

  \<^bold>\<open>Not modelled.\<close> Markup, styling, canvas calls and particles (the JSX of the pages, most charts,
  \<open>BeamCanvas\<close>, the documentation pages) have no state of their own beyond what the modelled
  hooks give them. React Query (refetching, stale times) appears only as the fetch it runs. The dashboard of
  \<open>ProfitabilityDashboard.tsx\<close> computes from fetchers that return nothing in this version; the functions it
  calls are modelled in \<open>Hashprice\<close> and \<open>Profitability\<close>. The operator script that creates a DeepBook pool only
  drives libraries. The Move contracts and the Rust servers are other languages.
\<close>

section \<open>From the node to the submitted transaction\<close>

text \<open>
  C4: A swap buy on the book that the page reads from the node is the best one. For the book that
  useShareMarketOrders returns, a wallet that covers the payment and at least one affordable ask
  among the first eight, swapBuy submits one transaction that runs on the wallet: every fill pays
  exactly its leg, the rest of the wallet stays in the first coin, the payment is not exceeded, and
  no other choice of units from these asks that costs at most the payment gives more units.
\<close>

theorem swapBuy_fetched_book:
  assumes "useShareMarketOrders numStr client pkg orig coin quot = Inr (bids, mk_asks mk)"
    and "list_all live_order (mk_asks mk)" "0 \<le> payMist" "payMist \<le> wallet_total cs"
    and "list_ex (\<lambda>x. pricePerUnitMist x \<le> payMist \<and> 0 < maxUnits x) (take 8 (mk_asks mk))"
    and "distinct (map coinObjectId cs)" "useQuoteCoins ct cs = Some (mk_quoteCoins mk)" "feePoolId mk \<noteq> []"
    and "list_all (\<lambda>c. apart mk (mk_asks mk) (coinObjectId c)) cs"
  shows "\<exists>t legs. swapBuy mk sign payMist = submit sign t [OrdersQ, SharesQ, QuoteCoinsQ]
    \<and> call_trace 0 t (wallet cs) = Some (map (fill_view gross (\<lambda>l. [leg_units l]) mk ''fill_sell_order'') legs)
    \<and> run_tx 0 t (wallet cs) = Some [ObjArg (coinObjectId (hd cs)) \<mapsto> wallet_total cs - sum_list (map gross legs)]
    \<and> sum_list (map gross legs) \<le> payMist
    \<and> (\<forall>us. allocation (take 8 (mk_asks mk)) us \<and> alloc_value (take 8 (mk_asks mk)) us \<le> payMist
         \<longrightarrow> sum_list us \<le> sum_list (map leg_units legs))"
proof -
  let ?asks = "take 8 (mk_asks mk)"
  note live = live_take [OF assms(2), of 8]
  obtain legs where l: "walk_asks payMist ?asks = Some legs" "sum_list (map gross legs) \<le> payMist"
    by (rule walk_asks_legs [OF live assms(3)])
  have best: "sum_list us \<le> sum_list (map leg_units legs)"
    if "allocation ?asks us" "alloc_value ?asks us \<le> payMist" for us
    by (rule walk_asks_best [OF live assms(3) sorted_wrt_take [OF share_book_sorted(2) [OF assms(1)]] l(1) that])
  obtain x where x: "x \<in> set ?asks" "pricePerUnitMist x \<le> payMist" "0 < maxUnits x"
    using assms(5) by (auto simp: list_ex_iff)
  have "list_all (\<lambda>x. 0 \<le> maxUnits x) ?asks" using live by (auto simp: list_all_iff live_order_def)
  then have "legs \<noteq> []" using allocation_single [of ?asks x] best x by fastforce
  define pj where "pj = to_projection legs"
  have pj: "walkBuyProjection payMist (mk_asks mk) = Some pj" "pj_legs pj = legs" "totalQuote pj = sum_list (map gross legs)"
    using l(1) by (simp_all add: pj_def walkBuyProjection_def project_asks_walk to_projection_def sum_gross_eq)
  obtain t where "swapBuy mk sign payMist = submit sign t [OrdersQ, SharesQ, QuoteCoinsQ]"
    "call_trace 0 t (wallet cs) = Some (map (fill_view gross (\<lambda>l. [leg_units l]) mk ''fill_sell_order'') legs)"
    "run_tx 0 t (wallet cs) = Some [ObjArg (coinObjectId (hd cs)) \<mapsto> wallet_total cs - sum_list (map gross legs)]"
    using swapBuy_run [OF assms(6,7,2,3,8,9) pj(1), of sign] pj(2,3) \<open>legs \<noteq> []\<close> l(2) assms(4) by auto
  then show ?thesis using l(2) best by blast
qed

definition fetched_coins :: "owned_coin list" where
  "fetched_coins = [\<lparr>coinObjectId = ''0xc'', coin_balance = ''20''\<rparr>, \<lparr>coinObjectId = ''0xd'', coin_balance = ''7''\<rparr>]"

definition fetched_market :: "ShareMarketOrder list \<Rightarrow> market" where
  "fetched_market asks =
     demo_market\<lparr>mk_asks := asks, mk_quoteCoins := \<lparr>qc_coinType = ''USDC'', qc_ids = [''0xc'', ''0xd''], qc_balance = 27\<rparr>\<rparr>"

theorem swapBuy_fetched_book_witness:
  "\<exists>bids asks t n. useShareMarketOrders (\<lambda>_. []) demo_book_client ''0x1'' ''0x0'' ''A'' ''B'' = Inr (bids, asks)
     \<and> swapBuy (fetched_market asks) (\<lambda>_. Inr ''d'') 25 = (TxOk ''d'', [OrdersQ, SharesQ, QuoteCoinsQ])
     \<and> run_tx 0 t (wallet fetched_coins) = Some [ObjArg ''0xc'' \<mapsto> n] \<and> 2 \<le> n"
proof -
  let ?good = "\<lambda>asks. list_all live_order asks \<and> list_ex (\<lambda>x. pricePerUnitMist x \<le> 25 \<and> 0 < maxUnits x) (take 8 asks)
      \<and> list_all (\<lambda>c. apart (fetched_market asks) asks (coinObjectId c)) fetched_coins"
  have "case useShareMarketOrders (\<lambda>_. []) demo_book_client ''0x1'' ''0x0'' ''A'' ''B'' of
          Inr (bids, asks) \<Rightarrow> ?good asks | Inl _ \<Rightarrow> False"
    by code_simp
  then obtain bids asks where
    ok: "useShareMarketOrders (\<lambda>_. []) demo_book_client ''0x1'' ''0x0'' ''A'' ''B'' = Inr (bids, mk_asks (fetched_market asks))"
      and good: "?good asks" and a: "mk_asks (fetched_market asks) = asks"
    by (auto simp: fetched_market_def split: sum.splits)
  have w: "distinct (map coinObjectId fetched_coins)" "wallet_total fetched_coins = 27"
    "useQuoteCoins ''USDC'' fetched_coins = Some \<lparr>qc_coinType = ''USDC'', qc_ids = [''0xc'', ''0xd''], qc_balance = 27\<rparr>"
    by code_simp+
  have m: "mk_quoteCoins (fetched_market asks) = \<lparr>qc_coinType = ''USDC'', qc_ids = [''0xc'', ''0xd''], qc_balance = 27\<rparr>"
    "feePoolId (fetched_market asks) \<noteq> []" by (simp_all add: fetched_market_def demo_market_def)
  have c: "list_all live_order (mk_asks (fetched_market asks))"
    "list_ex (\<lambda>x. pricePerUnitMist x \<le> 25 \<and> 0 < maxUnits x) (take 8 (mk_asks (fetched_market asks)))"
    "list_all (\<lambda>c. apart (fetched_market asks) (mk_asks (fetched_market asks)) (coinObjectId c)) fetched_coins"
    "useQuoteCoins ''USDC'' fetched_coins = Some (mk_quoteCoins (fetched_market asks))"
    "(0 :: int) \<le> 25" "25 \<le> wallet_total fetched_coins"
    using good w(2,3) by (simp_all add: a m(1))
  obtain t and legs :: "leg list" where "swapBuy (fetched_market asks) (\<lambda>_. Inr ''d'') 25 = submit (\<lambda>_. Inr ''d'') t [OrdersQ, SharesQ, QuoteCoinsQ]"
    "run_tx 0 t (wallet fetched_coins)
       = Some [ObjArg (coinObjectId (hd fetched_coins)) \<mapsto> wallet_total fetched_coins - sum_list (map gross legs)]"
    "sum_list (map gross legs) \<le> 25"
    using swapBuy_fetched_book [OF ok c(1,5,6,2) w(1) c(4) m(2) c(3), of "\<lambda>_. Inr ''d''"] by blast
  then show ?thesis
    using ok a w(2) by (intro exI [of _ bids] exI [of _ asks] exI [of _ t] exI [of _ "27 - sum_list (map gross legs)"])
      (auto simp: submit_def fetched_coins_def)
qed

end
